(* ===== verification/Prelude.thy ===== *)
theory Prelude
  imports Main "HOL-Library.Word" "HOL-Library.Monad_Syntax"
begin

text \<open>
  Shared vocabulary of the development: the machine types of the C++ sources, byte order,
  the reading of \<open>None\<close> as a run that leaves defined behaviour, and the small calculus
  (\<open>succ\<close> and \<open>safe\<close>) in which the component theories compose facts about sequences of
  fallible steps.
\<close>

unbundle bit_operations_syntax

section \<open>Machine types\<close>

type_synonym u8 = "8 word"
type_synonym u16 = "16 word"
type_synonym u32 = "32 word"
type_synonym u64 = "64 word"

text \<open>A C string without its terminator; \<open>None\<close> is the null pointer.\<close>

type_synonym cstr = "u8 list option"

abbreviation INT32_MAX :: nat where
  "INT32_MAX \<equiv> 2147483647"

text \<open>\<open>size_t\<close> on the LP64 targets the headers name: naturals below \<open>2 ^ 64\<close>, with the
  wrap-around of addition and subtraction written out.\<close>

abbreviation SIZE_T_MAX :: nat where
  "SIZE_T_MAX \<equiv> 18446744073709551615"

definition szadd :: "nat \<Rightarrow> nat \<Rightarrow> nat" where
  "szadd a b = (a + b) mod (SIZE_T_MAX + 1)"

definition szsub :: "nat \<Rightarrow> nat \<Rightarrow> nat" where
  "szsub a b = (if b \<le> a then a - b else SIZE_T_MAX + 1 + a - b)"

lemma szadd_small [simp]: "a + b \<le> SIZE_T_MAX \<Longrightarrow> szadd a b = a + b"
  by (simp add: szadd_def)

lemma szsub_le [simp]: "b \<le> a \<Longrightarrow> szsub a b = a - b"
  by (simp add: szsub_def)

section \<open>Little-endian byte order\<close>

definition le_bytes :: "nat \<Rightarrow> 'a::len word \<Rightarrow> u8 list" where
  "le_bytes n w = map (\<lambda>i. ucast (drop_bit (8 * i) w)) [0..<n]"

fun le_word :: "u8 list \<Rightarrow> 'a::len word" where
  "le_word [] = 0"
| "le_word (b # bs) = ucast b OR push_bit 8 (le_word bs)"

lemma length_le_bytes [simp]: "length (le_bytes n w) = n"
  by (simp add: le_bytes_def)

lemma le_bytes_Nil_iff [simp]: "le_bytes n w = [] \<longleftrightarrow> n = 0"
  by (simp add: le_bytes_def)

lemma bit_le_word:
  "bit (le_word bs :: 'a::len word) k \<longleftrightarrow>
     k < LENGTH('a) \<and> k div 8 < length bs \<and> bit (bs ! (k div 8)) (k mod 8)"
proof (induction bs arbitrary: k)
  case Nil
  show ?case by simp
next
  case (Cons b bs)
  show ?case
  proof (cases "k < 8")
    case True
    then show ?thesis by (auto simp: bit_simps)
  next
    case False
    then have "8 \<le> k" by simp
    then obtain j where k: "k = j + 8"
      by (metis add.commute le_Suc_ex)
    have "\<not> bit b (j + 8)" by (auto dest: bit_imp_le_length)
    moreover have "(j + 8) div 8 = Suc (j div 8)" by simp
    ultimately show ?thesis
      using Cons.IH [of j] by (auto simp: bit_simps k dest: bit_imp_le_length)
  qed
qed

lemma le_word_le_bytes:
  assumes "LENGTH('a::len) = 8 * n"
  shows "le_word (le_bytes n (w :: 'a word)) = w"
proof (rule bit_word_eqI)
  fix k
  assume k: "k < LENGTH('a)"
  then have "k div 8 < n" using assms by auto
  moreover have "8 * (k div 8) + k mod 8 = k" by simp
  ultimately show "bit (le_word (le_bytes n w) :: 'a word) k \<longleftrightarrow> bit w k"
    using k by (simp add: bit_le_word le_bytes_def bit_simps)
qed

lemma le_bytes_le_word:
  assumes "8 * length bs \<le> LENGTH('a::len)"
  shows "le_bytes (length bs) (le_word bs :: 'a word) = bs"
proof (rule nth_equalityI)
  show "length (le_bytes (length bs) (le_word bs :: 'a word)) = length bs" by simp
next
  fix i
  assume "i < length (le_bytes (length bs) (le_word bs :: 'a word))"
  then have i: "i < length bs" by simp
  show "le_bytes (length bs) (le_word bs :: 'a word) ! i = bs ! i"
  proof (rule bit_word_eqI)
    fix j
    assume j: "j < LENGTH(8)"
    then have d: "(8 * i + j) div 8 = i" "(8 * i + j) mod 8 = j" by auto
    have "8 * i + j < LENGTH('a)" using assms i j by simp
    then show "bit (le_bytes (length bs) (le_word bs :: 'a word) ! i) j \<longleftrightarrow> bit (bs ! i) j"
      using i j d by (simp add: le_bytes_def bit_simps bit_le_word)
  qed
qed

abbreviation le32 :: "u32 \<Rightarrow> u8 list" where "le32 \<equiv> le_bytes 4"
abbreviation le64 :: "u64 \<Rightarrow> u8 list" where "le64 \<equiv> le_bytes 8"
abbreviation le16 :: "u16 \<Rightarrow> u8 list" where "le16 \<equiv> le_bytes 2"

lemma le_word_le32 [simp]: "le_word (le32 w) = w" by (rule le_word_le_bytes) simp
lemma le_word_le64 [simp]: "le_word (le64 w) = w" by (rule le_word_le_bytes) simp
lemma le_word_le16 [simp]: "le_word (le16 w) = w" by (rule le_word_le_bytes) simp

section \<open>Fallible steps\<close>

text \<open>
  A step that may leave defined behaviour (an access outside a block, the use of a null or
  freed pointer, \<open>abort\<close>, an uncaught exception) has type \<open>'a option\<close>, with \<open>None\<close> for
  that outcome. \<open>succ m P\<close>: the step stays defined and its result satisfies \<open>P\<close>.
  \<open>safe m P\<close>: if it stays defined, its result satisfies \<open>P\<close>.
\<close>

definition succ :: "'a option \<Rightarrow> ('a \<Rightarrow> bool) \<Rightarrow> bool" where
  "succ m P \<longleftrightarrow> (\<exists>x. m = Some x \<and> P x)"

definition safe :: "'a option \<Rightarrow> ('a \<Rightarrow> bool) \<Rightarrow> bool" where
  "safe m P \<longleftrightarrow> (\<forall>x. m = Some x \<longrightarrow> P x)"

named_theorems succ_intro \<open>rules that establish \<open>succ\<close> of one step\<close>

lemma succ_Some [simp]: "succ (Some x) P = P x"
  by (simp add: succ_def)

lemma succ_None [simp]: "\<not> succ None P"
  by (simp add: succ_def)

lemma safe_Some [simp]: "safe (Some x) P = P x"
  by (simp add: safe_def)

lemma safe_None [simp]: "safe None P"
  by (simp add: safe_def)

lemma succ_bind [simp]: "succ (m \<bind> f) P = succ m (\<lambda>x. succ (f x) P)"
  by (cases m) (auto simp: succ_def)

lemma safe_bind [simp]: "safe (m \<bind> f) P = safe m (\<lambda>x. safe (f x) P)"
  by (cases m) (auto simp: safe_def)

lemma succ_mono: "succ m P \<Longrightarrow> (\<And>x. P x \<Longrightarrow> Q x) \<Longrightarrow> succ m Q"
  by (auto simp: succ_def)

lemma safe_mono: "safe m P \<Longrightarrow> (\<And>x. P x \<Longrightarrow> Q x) \<Longrightarrow> safe m Q"
  by (auto simp: safe_def)

lemma succ_imp_safe: "succ m P \<Longrightarrow> safe m P"
  by (auto simp: succ_def safe_def)

lemma succ_if: "(b \<Longrightarrow> succ x P) \<Longrightarrow> (\<not> b \<Longrightarrow> succ y P) \<Longrightarrow> succ (if b then x else y) P"
  by simp

lemma safe_if: "(b \<Longrightarrow> safe x P) \<Longrightarrow> (\<not> b \<Longrightarrow> safe y P) \<Longrightarrow> safe (if b then x else y) P"
  by simp

section \<open>Lists\<close>

text \<open>Overwriting a run of bytes inside a block.\<close>

definition overwrite :: "'a list \<Rightarrow> nat \<Rightarrow> 'a list \<Rightarrow> 'a list" where
  "overwrite bs off xs = take off bs @ xs @ drop (off + length xs) bs"

lemma length_overwrite [simp]:
  "off + length xs \<le> length bs \<Longrightarrow> length (overwrite bs off xs) = length bs"
  by (simp add: overwrite_def)

lemma take_overwrite_before [simp]: "n \<le> off \<Longrightarrow> off \<le> length bs \<Longrightarrow> take n (overwrite bs off xs) = take n bs"
  by (simp add: overwrite_def min_def)

lemma take_overwrite_end [simp]:
  "off \<le> length bs \<Longrightarrow> n = off + length xs \<Longrightarrow> take n (overwrite bs off xs) = take off bs @ xs"
  by (simp add: overwrite_def)

lemma drop_overwrite_end [simp]:
  "off \<le> length bs \<Longrightarrow> off + length xs \<le> n \<Longrightarrow> drop n (overwrite bs off xs) = drop n bs"
  by (simp add: overwrite_def)

lemma overwrite_Nil [simp]: "overwrite bs off [] = bs"
  by (simp add: overwrite_def)

lemma take_overwrite_max:
  "off \<le> n \<Longrightarrow> n \<le> length bs \<Longrightarrow> off + length xs \<le> length bs \<Longrightarrow>
     take (max n (off + length xs)) (overwrite bs off xs) = overwrite (take n bs) off xs"
proof (cases "off + length xs \<le> n")
  case True
  assume "off \<le> n" "n \<le> length bs"
  with True show ?thesis
    by (cases "n = off") (auto simp: overwrite_def drop_take max_def min_def)
next
  case False
  assume "off \<le> n" "n \<le> length bs" "off + length xs \<le> length bs"
  with False show ?thesis by (simp add: overwrite_def max_def min_def)
qed

lemma overwrite_overwrite:
  "off \<le> length bs \<Longrightarrow> length xs = length ys \<Longrightarrow>
     overwrite (overwrite bs off (xs @ zs)) off ys = overwrite bs off (ys @ zs)"
  by (simp add: overwrite_def)

lemma overwrite_append_end [simp]: "overwrite bs (length bs) xs = bs @ xs"
  by (simp add: overwrite_def)

lemma drop_overwrite_self: "off \<le> length bs \<Longrightarrow>
   drop off (overwrite bs off xs) = xs @ drop (off + length xs) bs"
  by (simp add: overwrite_def)

end
