(* ===== verification/Utf.thy ===== *)
theory Utf
  imports Prelude
begin

text \<open>
  The two conversions of \<open>std::wstring_convert<std::codecvt_utf8_utf16<char16_t>>\<close> that
  \<open>ril.cpp\<close> (\<open>strndup16to8\<close>) and \<open>Parcel2.cpp\<close> (\<open>writeString8AsString16\<close>) call:
  \<open>to_bytes\<close> and \<open>from_bytes\<close>. Both go through the code points. \<open>None\<close> is the
  \<open>std::range_error\<close> that the standard library throws on ill-formed input; neither caller
  catches it. The lemmas show that the two directions are inverse to each other and keep
  strings free of the terminator.
\<close>

section \<open>UTF-16\<close>

definition scalar :: "nat \<Rightarrow> bool" where
  "scalar c \<longleftrightarrow> c < 0xD800 \<or> 0xDFFF < c \<and> c < 0x110000"

fun utf16_decode :: "nat list \<Rightarrow> nat list option" where
  "utf16_decode [] = Some []"
| "utf16_decode (u # us) =
     (if u < 0xD800 \<or> 0xDFFF < u then map_option ((#) u) (utf16_decode us)
      else if u < 0xDC00 then
        (case us of
           [] \<Rightarrow> None
         | v # vs \<Rightarrow>
             if 0xDC00 \<le> v \<and> v \<le> 0xDFFF
             then map_option ((#) (0x10000 + (u - 0xD800) * 1024 + (v - 0xDC00))) (utf16_decode vs)
             else None)
      else None)"

definition utf16_encode1 :: "nat \<Rightarrow> nat list" where
  "utf16_encode1 c =
     (if c < 0x10000 then [c]
      else [0xD800 + (c - 0x10000) div 1024, 0xDC00 + (c - 0x10000) mod 1024])"

definition utf16_encode :: "nat list \<Rightarrow> nat list" where
  "utf16_encode cs = concat (map utf16_encode1 cs)"

lemma utf16_encode_simps [simp]:
  "utf16_encode [] = []"
  "utf16_encode (c # cs) = utf16_encode1 c @ utf16_encode cs"
  by (simp_all add: utf16_encode_def)

lemma utf16_decode_encode1:
  "scalar c \<Longrightarrow> utf16_decode (utf16_encode1 c @ us) = map_option ((#) c) (utf16_decode us)"
proof -
  assume c: "scalar c"
  show ?thesis
  proof (cases "c < 0x10000")
    case True
    with c show ?thesis by (auto simp: utf16_encode1_def scalar_def)
  next
    case False
    then have "0x10000 \<le> c" by simp
    moreover from c False have "c < 0x110000" by (auto simp: scalar_def)
    moreover have "(c - 0x10000) div 1024 * 1024 + (c - 0x10000) mod 1024 = c - 0x10000"
      by (rule div_mult_mod_eq)
    moreover have "(c - 0x10000) div 1024 < 1024" using \<open>c < 0x110000\<close> by auto
    moreover have "(c - 0x10000) mod 1024 < 1024" by simp
    ultimately show ?thesis by (auto simp: utf16_encode1_def)
  qed
qed

lemma utf16_decode_encode:
  "\<forall>c \<in> set cs. scalar c \<Longrightarrow> utf16_decode (utf16_encode cs) = Some cs"
  by (induction cs) (auto simp: utf16_decode_encode1)

lemma utf16_encode_decode:
  "utf16_decode us = Some cs \<Longrightarrow> \<forall>u \<in> set us. u < 0x10000 \<Longrightarrow>
     utf16_encode cs = us \<and> (\<forall>c \<in> set cs. scalar c)"
proof (induction us arbitrary: cs rule: utf16_decode.induct)
  case 1
  then show ?case by simp
next
  case (2 u us)
  consider (single) "u < 0xD800 \<or> 0xDFFF < u" | (pair) "0xD800 \<le> u" "u < 0xDC00"
    using "2.prems"(1) by (fastforce split: if_splits)
  then show ?case
  proof cases
    case single
    with "2.prems" obtain ds where ds: "utf16_decode us = Some ds" "cs = u # ds" by auto
    have "utf16_encode ds = us \<and> (\<forall>c \<in> set ds. scalar c)"
      using "2.IH"(1) single ds "2.prems"(2) by simp
    with single ds "2.prems"(2) show ?thesis
      by (auto simp: utf16_encode1_def scalar_def)
  next
    case pair
    then obtain v vs ds where us: "us = v # vs" and v: "0xDC00 \<le> v" "v \<le> 0xDFFF"
      and ds: "utf16_decode vs = Some ds"
      and cs: "cs = (0x10000 + (u - 0xD800) * 1024 + (v - 0xDC00)) # ds"
      using "2.prems"(1) by (auto split: list.splits if_splits)
    have ih: "utf16_encode ds = vs \<and> (\<forall>c \<in> set ds. scalar c)"
      using "2.IH"(2) [of v vs ds] pair us v ds "2.prems"(2) by auto
    obtain a where a: "u = 0xD800 + a" "a < 1024"
      using pair le_Suc_ex [OF pair(1)] by auto
    obtain b where b: "v = 0xDC00 + b" "b < 1024"
      using v le_Suc_ex [OF v(1)] by auto
    have "(a * 1024 + b) div 1024 = a" "(a * 1024 + b) mod 1024 = b"
      using b(2) by auto
    then show ?thesis
      using ih us cs a b by (auto simp: utf16_encode1_def scalar_def add.assoc)
  qed
qed

section \<open>UTF-8\<close>

definition cont :: "nat \<Rightarrow> bool" where
  "cont b \<longleftrightarrow> 0x80 \<le> b \<and> b < 0xC0"

fun utf8_decode :: "nat list \<Rightarrow> nat list option" where
  "utf8_decode [] = Some []"
| "utf8_decode (a # bs) =
     (if a < 0x80 then map_option ((#) a) (utf8_decode bs)
      else if a < 0xC0 then None
      else if a < 0xE0 then
        (case bs of
           b # r \<Rightarrow>
             let c = (a - 0xC0) * 64 + (b - 0x80) in
             if cont b \<and> 0x80 \<le> c then map_option ((#) c) (utf8_decode r) else None
         | _ \<Rightarrow> None)
      else if a < 0xF0 then
        (case bs of
           b # b' # r \<Rightarrow>
             let c = ((a - 0xE0) * 64 + (b - 0x80)) * 64 + (b' - 0x80) in
             if cont b \<and> cont b' \<and> 0x800 \<le> c \<and> scalar c
             then map_option ((#) c) (utf8_decode r) else None
         | _ \<Rightarrow> None)
      else if a < 0xF8 then
        (case bs of
           b # b' # b'' # r \<Rightarrow>
             let c = (((a - 0xF0) * 64 + (b - 0x80)) * 64 + (b' - 0x80)) * 64 + (b'' - 0x80) in
             if cont b \<and> cont b' \<and> cont b'' \<and> 0x10000 \<le> c \<and> scalar c
             then map_option ((#) c) (utf8_decode r) else None
         | _ \<Rightarrow> None)
      else None)"

definition utf8_encode1 :: "nat \<Rightarrow> nat list" where
  "utf8_encode1 c =
     (if c < 0x80 then [c]
      else if c < 0x800 then [0xC0 + c div 64, 0x80 + c mod 64]
      else if c < 0x10000 then [0xE0 + c div 64 div 64, 0x80 + c div 64 mod 64, 0x80 + c mod 64]
      else [0xF0 + c div 64 div 64 div 64, 0x80 + c div 64 div 64 mod 64,
            0x80 + c div 64 mod 64, 0x80 + c mod 64])"

definition utf8_encode :: "nat list \<Rightarrow> nat list" where
  "utf8_encode cs = concat (map utf8_encode1 cs)"

lemma utf8_encode_simps [simp]:
  "utf8_encode [] = []"
  "utf8_encode (c # cs) = utf8_encode1 c @ utf8_encode cs"
  by (simp_all add: utf8_encode_def)

lemma base64 [simp]: "z < 64 \<Longrightarrow> (k * 64 + z) div 64 = (k::nat)" "z < 64 \<Longrightarrow> (k * 64 + z) mod 64 = (z::nat)"
  by auto

lemma utf8_decode_encode1:
  assumes "scalar c"
  shows "utf8_decode (utf8_encode1 c @ bs) = map_option ((#) c) (utf8_decode bs)"
proof -
  have m: "c mod 64 < 64" "c div 64 mod 64 < 64" "c div 64 div 64 mod 64 < 64" by simp_all
  have e: "c div 64 * 64 + c mod 64 = c" "c div 64 div 64 * 64 + c div 64 mod 64 = c div 64"
    "c div 64 div 64 div 64 * 64 + c div 64 div 64 mod 64 = c div 64 div 64"
    by (rule div_mult_mod_eq)+
  have "c < 0x110000" using assms by (auto simp: scalar_def)
  then consider "c < 0x80" | "0x80 \<le> c" "c < 0x800" | "0x800 \<le> c" "c < 0x10000"
    | "0x10000 \<le> c" "c < 0x110000" by linarith
  then show ?thesis
  proof cases
    case 1
    then show ?thesis by (simp add: utf8_encode1_def)
  next
    case 2
    then have "utf8_encode1 c = [0xC0 + c div 64, 0x80 + c mod 64]"
      by (simp add: utf8_encode1_def)
    moreover have "c div 64 < 0x20" using 2 by auto
    ultimately show ?thesis using 2(1) m e by (simp add: cont_def Let_def)
  next
    case 3
    then have "utf8_encode1 c = [0xE0 + c div 64 div 64, 0x80 + c div 64 mod 64, 0x80 + c mod 64]"
      by (simp add: utf8_encode1_def)
    moreover have "c div 64 div 64 < 0x10" using 3 by auto
    ultimately show ?thesis using 3(1) m e assms by (simp add: cont_def Let_def)
  next
    case 4
    define t r q p where "t = c mod 64" "r = c div 64 mod 64" "q = c div 64 div 64 mod 64"
      "p = c div 64 div 64 div 64"
    note d = this
    have c: "((p * 64 + q) * 64 + r) * 64 + t = c" unfolding d by (simp only: e)
    have "utf8_encode1 c = [0xF0 + p, 0x80 + q, 0x80 + r, 0x80 + t]"
      using 4 by (simp add: utf8_encode1_def d)
    moreover have "p < 8" "q < 64" "r < 64" "t < 64" using 4 m by (auto simp: d)
    ultimately show ?thesis using 4(1) c assms by (simp add: cont_def Let_def)
  qed
qed

lemma utf8_decode_encode:
  "\<forall>c \<in> set cs. scalar c \<Longrightarrow> utf8_decode (utf8_encode cs) = Some cs"
  by (induction cs) (auto simp: utf8_decode_encode1)


lemma utf8_encode_decode:
  "utf8_decode bs = Some cs \<Longrightarrow> utf8_encode cs = bs \<and> (\<forall>c \<in> set cs. scalar c)"
proof (induction bs arbitrary: cs rule: utf8_decode.induct)
  case 1
  then show ?case by simp
next
  case (2 a bs)
  consider "a < 0x80" | "0xC0 \<le> a" "a < 0xE0" | "0xE0 \<le> a" "a < 0xF0" | "0xF0 \<le> a" "a < 0xF8"
    using "2.prems" by (fastforce split: if_splits)
  then show ?case
  proof cases
    case 1
    with "2.prems" obtain ds where ds: "utf8_decode bs = Some ds" "cs = a # ds" by auto
    with "2.IH"(1) 1 show ?thesis by (simp add: utf8_encode1_def scalar_def)
  next
    case 2
    then obtain b r ds where bs: "bs = b # r" and b: "cont b" and ds: "utf8_decode r = Some ds"
      and c: "cs = ((a - 0xC0) * 64 + (b - 0x80)) # ds" "0x80 \<le> (a - 0xC0) * 64 + (b - 0x80)"
      using "2.prems" by (auto simp: Let_def split: list.splits if_splits)
    have ih: "utf8_encode ds = r \<and> (\<forall>c \<in> set ds. scalar c)"
      using "2.IH"(2) [OF _ _ _ bs refl] 2 b ds c(2) by simp
    obtain x where x: "a = 0xC0 + x" "x < 32" using 2 le_Suc_ex [OF 2(1)] by auto
    obtain y where y: "b = 0x80 + y" "y < 64"
      using b le_Suc_ex [of "0x80" b] by (auto simp: cont_def)
    have "(x * 64 + y) div 64 = x" "(x * 64 + y) mod 64 = y" using y(2) by auto
    with x y c ih bs show ?thesis by (auto simp: utf8_encode1_def scalar_def)
  next
    case 3
    then obtain b b' r ds where bs: "bs = b # b' # r" and b: "cont b" "cont b'"
      and ds: "utf8_decode r = Some ds"
      and c: "cs = (((a - 0xE0) * 64 + (b - 0x80)) * 64 + (b' - 0x80)) # ds"
        "0x800 \<le> ((a - 0xE0) * 64 + (b - 0x80)) * 64 + (b' - 0x80)"
        "scalar (((a - 0xE0) * 64 + (b - 0x80)) * 64 + (b' - 0x80))"
      using "2.prems" by (auto simp: Let_def split: list.splits if_splits)
    have ih: "utf8_encode ds = r \<and> (\<forall>c \<in> set ds. scalar c)"
      using "2.IH"(3) [OF _ _ _ _ bs refl refl] 3 b ds c(2,3) by simp
    obtain x where x: "a = 0xE0 + x" "x < 16" using 3 le_Suc_ex [OF 3(1)] by auto
    obtain y where y: "b = 0x80 + y" "y < 64"
      using b le_Suc_ex [of "0x80" b] by (auto simp: cont_def)
    obtain z where z: "b' = 0x80 + z" "z < 64"
      using b le_Suc_ex [of "0x80" b'] by (auto simp: cont_def)
    let ?c = "(x * 64 + y) * 64 + z"
    have "?c div 64 = x * 64 + y" "?c mod 64 = z" "(x * 64 + y) div 64 = x" "(x * 64 + y) mod 64 = y"
      by (rule base64, fact)+
    moreover have "?c < 0x10000" "0x800 \<le> ?c" using x y z c(2) by auto
    ultimately have "utf8_encode1 ?c = [a, b, b']" using x y z by (simp add: utf8_encode1_def)
    with x y z c ih bs show ?thesis by simp
  next
    case 4
    then obtain b b' b'' r ds where bs: "bs = b # b' # b'' # r" and b: "cont b" "cont b'" "cont b''"
      and ds: "utf8_decode r = Some ds"
      and c: "cs = ((((a - 0xF0) * 64 + (b - 0x80)) * 64 + (b' - 0x80)) * 64 + (b'' - 0x80)) # ds"
        "0x10000 \<le> (((a - 0xF0) * 64 + (b - 0x80)) * 64 + (b' - 0x80)) * 64 + (b'' - 0x80)"
        "scalar ((((a - 0xF0) * 64 + (b - 0x80)) * 64 + (b' - 0x80)) * 64 + (b'' - 0x80))"
      using "2.prems" by (auto simp: Let_def split: list.splits if_splits)
    have ih: "utf8_encode ds = r \<and> (\<forall>c \<in> set ds. scalar c)"
      using "2.IH"(4) [OF _ _ _ _ _ bs refl refl refl] 4 b ds c(2,3) by simp
    obtain x where x: "a = 0xF0 + x" "x < 8" using 4 le_Suc_ex [OF 4(1)] by auto
    obtain y where y: "b = 0x80 + y" "y < 64"
      using b le_Suc_ex [of "0x80" b] by (auto simp: cont_def)
    obtain z where z: "b' = 0x80 + z" "z < 64"
      using b le_Suc_ex [of "0x80" b'] by (auto simp: cont_def)
    obtain w where w: "b'' = 0x80 + w" "w < 64"
      using b le_Suc_ex [of "0x80" b''] by (auto simp: cont_def)
    let ?c = "((x * 64 + y) * 64 + z) * 64 + w"
    have "?c div 64 = (x * 64 + y) * 64 + z" "?c mod 64 = w"
      "((x * 64 + y) * 64 + z) div 64 = x * 64 + y" "((x * 64 + y) * 64 + z) mod 64 = z"
      "(x * 64 + y) div 64 = x" "(x * 64 + y) mod 64 = y"
      by (rule base64, fact)+
    moreover have "0x10000 \<le> ?c" using x y z w c(2) by simp
    ultimately have "utf8_encode1 ?c = [a, b, b', b'']"
      using x y z w by (simp add: utf8_encode1_def)
    with x y z w c ih bs show ?thesis by simp
  qed
qed

section \<open>The two calls\<close>

definition to_bytes :: "u16 list \<Rightarrow> u8 list option" where
  "to_bytes us = map_option (map of_nat \<circ> utf8_encode) (utf16_decode (map unat us))"

definition from_bytes :: "u8 list \<Rightarrow> u16 list option" where
  "from_bytes bs = map_option (map of_nat \<circ> utf16_encode) (utf8_decode (map unat bs))"

lemma utf8_encode_bound: "\<forall>c \<in> set cs. scalar c \<Longrightarrow> b \<in> set (utf8_encode cs) \<Longrightarrow> b < 256"
  by (induction cs) (auto simp: utf8_encode1_def scalar_def split: if_splits)

lemma utf16_encode_bound: "\<forall>c \<in> set cs. scalar c \<Longrightarrow> u \<in> set (utf16_encode cs) \<Longrightarrow> u < 65536"
  by (induction cs) (auto simp: utf16_encode1_def scalar_def split: if_splits)

lemma zero_utf8_encode: "0 \<in> set (utf8_encode cs) \<longleftrightarrow> 0 \<in> set cs"
  by (induction cs) (auto simp: utf8_encode1_def)

lemma zero_utf16_encode: "0 \<in> set (utf16_encode cs) \<longleftrightarrow> 0 \<in> set cs"
  by (induction cs) (auto simp: utf16_encode1_def)

lemma map_unat_of_nat:
  "\<forall>x \<in> set xs. x < 2 ^ LENGTH('a) \<Longrightarrow> map unat (map (of_nat :: nat \<Rightarrow> 'a::len word) xs) = xs"
  by (induction xs) (auto simp: unat_of_nat)

lemma map_of_nat_unat: "map (of_nat :: nat \<Rightarrow> 'a::len word) (map unat ws) = ws"
  by (induction ws) auto

lemma map_of_nat_unat_eq: "map unat ws = xs \<Longrightarrow> map (of_nat :: nat \<Rightarrow> 'a::len word) xs = ws"
  using map_of_nat_unat by blast

lemma zero_map_unat: "(0 :: nat) \<in> set (map unat ws) \<longleftrightarrow> 0 \<in> set ws"
  by (auto simp: image_iff unat_eq_zero)

lemma to_bytes_Some:
  "to_bytes us = Some bs \<longleftrightarrow>
     (\<exists>cs. (\<forall>c \<in> set cs. scalar c) \<and> map unat us = utf16_encode cs \<and> map unat bs = utf8_encode cs)"
proof
  assume "to_bytes us = Some bs"
  then obtain cs where cs: "utf16_decode (map unat us) = Some cs" "bs = map of_nat (utf8_encode cs)"
    by (auto simp: to_bytes_def)
  have "\<forall>u \<in> set (map unat us). u < 0x10000"
    by (auto intro!: order.strict_trans2 [OF unsigned_less])
  then have e: "utf16_encode cs = map unat us \<and> (\<forall>c \<in> set cs. scalar c)"
    using cs(1) utf16_encode_decode by blast
  then have "map unat bs = utf8_encode cs"
    unfolding cs(2) by (intro map_unat_of_nat) (auto dest: utf8_encode_bound)
  with e show "\<exists>cs. (\<forall>c \<in> set cs. scalar c) \<and> map unat us = utf16_encode cs \<and> map unat bs = utf8_encode cs"
    by metis
next
  assume "\<exists>cs. (\<forall>c \<in> set cs. scalar c) \<and> map unat us = utf16_encode cs \<and> map unat bs = utf8_encode cs"
  then show "to_bytes us = Some bs"
    by (auto simp: to_bytes_def utf16_decode_encode map_of_nat_unat_eq)
qed

lemma from_bytes_Some:
  "from_bytes bs = Some us \<longleftrightarrow>
     (\<exists>cs. (\<forall>c \<in> set cs. scalar c) \<and> map unat us = utf16_encode cs \<and> map unat bs = utf8_encode cs)"
proof
  assume "from_bytes bs = Some us"
  then obtain cs where cs: "utf8_decode (map unat bs) = Some cs" "us = map of_nat (utf16_encode cs)"
    by (auto simp: from_bytes_def)
  from utf8_encode_decode [OF cs(1)]
  have e: "utf8_encode cs = map unat bs \<and> (\<forall>c \<in> set cs. scalar c)" .
  then have "map unat us = utf16_encode cs"
    unfolding cs(2) by (intro map_unat_of_nat) (auto dest: utf16_encode_bound)
  with e show "\<exists>cs. (\<forall>c \<in> set cs. scalar c) \<and> map unat us = utf16_encode cs \<and> map unat bs = utf8_encode cs"
    by metis
next
  assume "\<exists>cs. (\<forall>c \<in> set cs. scalar c) \<and> map unat us = utf16_encode cs \<and> map unat bs = utf8_encode cs"
  then show "from_bytes bs = Some us"
    by (auto simp: from_bytes_def utf8_decode_encode map_of_nat_unat_eq)
qed

text \<open>The conversions are inverse to each other, in both directions.\<close>

lemma to_bytes_iff_from_bytes: "to_bytes us = Some bs \<longleftrightarrow> from_bytes bs = Some us"
  by (simp add: to_bytes_Some from_bytes_Some)

lemma zero_to_bytes: "to_bytes us = Some bs \<Longrightarrow> 0 \<in> set bs \<longleftrightarrow> 0 \<in> set us"
  by (metis to_bytes_Some zero_map_unat zero_utf16_encode zero_utf8_encode)

lemma length_utf16_encode_le: "length (utf16_encode cs) \<le> length (utf8_encode cs)"
  by (induction cs) (auto simp: utf16_encode1_def utf8_encode1_def)

lemma from_bytes_length: "from_bytes bs = Some us \<Longrightarrow> length us \<le> length bs"
  by (metis from_bytes_Some length_map length_utf16_encode_le)

end
