(* ===== verification/Parcel.thy ===== *)
theory Parcel
  imports Utf
begin

text \<open>
  The class \<open>Parcel\<close> of \<open>services/ril/mocks/binder/Parcel2.cpp\<close>: the growable byte buffer
  through which every request and every response of the RIL daemon passes. The record has the
  class's fields; the operations keep the code's order of checks. A result \<open>None\<close> means that
  the C++ would touch memory outside the block, use a null or freed pointer, or call \<open>abort\<close>.
\<close>

section \<open>State\<close>

datatype status = NO_ERROR | NO_MEMORY | BAD_VALUE | NOT_ENOUGH_DATA

text \<open>What \<open>mData\<close> points to: nothing, a live block (its bytes), or a block already freed.\<close>

datatype buf = NullBuf | Block "u8 list" | Freed

text \<open>\<open>allocSize\<close> and \<open>allocCount\<close> are this parcel's net contribution to the two globals
  \<open>gParcelGlobalAllocSize\<close> and \<open>gParcelGlobalAllocCount\<close>.\<close>

record parcel =
  mError :: status
  mData :: buf
  mDataSize :: nat
  mDataCapacity :: nat
  mDataPos :: nat
  allocSize :: int
  allocCount :: int

definition initState :: parcel where
  "initState = \<lparr>mError = NO_ERROR, mData = NullBuf, mDataSize = 0, mDataCapacity = 0,
     mDataPos = 0, allocSize = 0, allocCount = 0\<rparr>"

text \<open>
  The C allocator: which sizes it can serve, the indeterminate bytes of fresh memory, and
  whether \<open>realloc(p, 0)\<close> returns a non-null pointer (the standard leaves it open; with glibc
  it frees the block and returns null).
\<close>

record allocator =
  mem_ok :: "nat \<Rightarrow> bool"
  mem_fresh :: "nat \<Rightarrow> u8"
  mem_realloc0 :: bool

definition malloc :: "allocator \<Rightarrow> nat \<Rightarrow> buf" where
  "malloc A n = (if mem_ok A n then Block (map (mem_fresh A) [0..<n]) else NullBuf)"

text \<open>The pointer returned, and what the old pointer is worth afterwards.\<close>

fun realloc :: "allocator \<Rightarrow> buf \<Rightarrow> nat \<Rightarrow> (buf \<times> buf) option" where
  "realloc A NullBuf n = Some (malloc A n, NullBuf)"
| "realloc A (Block bs) n =
     (if n = 0 then Some (if mem_realloc0 A then Block [] else NullBuf, Freed)
      else if mem_ok A n
      then Some (Block (take n bs @ map (mem_fresh A) [length bs..<n]), Freed)
      else Some (NullBuf, Block bs))"
| "realloc A Freed n = None"

text \<open>Reading and writing \<open>n\<close> bytes at \<open>mData + off\<close>.\<close>

definition peek :: "parcel \<Rightarrow> nat \<Rightarrow> nat \<Rightarrow> u8 list option" where
  "peek p off n =
     (if n = 0 then Some []
      else case mData p of
        Block bs \<Rightarrow> if off + n \<le> length bs then Some (take n (drop off bs)) else None
      | _ \<Rightarrow> None)"

definition poke :: "parcel \<Rightarrow> nat \<Rightarrow> u8 list \<Rightarrow> parcel option" where
  "poke p off xs =
     (if xs = [] then Some p
      else case mData p of
        Block bs \<Rightarrow>
          if off + length xs \<le> length bs then Some (p\<lparr>mData := Block (overwrite bs off xs)\<rparr>) else None
      | _ \<Rightarrow> None)"

definition pad_size :: "nat \<Rightarrow> nat option" where
  "pad_size s = (if s > SIZE_T_MAX - 3 then None else Some ((s + 3) div 4 * 4))"

definition szmul :: "nat \<Rightarrow> nat \<Rightarrow> nat" where
  "szmul a b = (a * b) mod (SIZE_T_MAX + 1)"

section \<open>Accessors and sizing\<close>

definition dataSize :: "parcel \<Rightarrow> nat" where
  "dataSize p = (if mDataSize p > mDataPos p then mDataSize p else mDataPos p)"

definition dataAvail :: "parcel \<Rightarrow> nat" where
  "dataAvail p = szsub (dataSize p) (mDataPos p)"

definition continueWrite :: "allocator \<Rightarrow> parcel \<Rightarrow> nat \<Rightarrow> (status \<times> parcel) option" where
  "continueWrite A p desired =
     (if desired > INT32_MAX then Some (BAD_VALUE, p)
      else if mData p \<noteq> NullBuf then
        (if desired > mDataCapacity p then do {
           (data, old) \<leftarrow> realloc A (mData p) desired;
           if data \<noteq> NullBuf
           then Some (NO_ERROR, p\<lparr>mData := data, mDataCapacity := desired,
                  allocSize := allocSize p + int desired - int (mDataCapacity p)\<rparr>)
           else if desired > mDataCapacity p
           then Some (NO_MEMORY, p\<lparr>mData := old, mError := NO_MEMORY\<rparr>)
           else Some (NO_ERROR, p\<lparr>mData := old\<rparr>)
         }
         else Some (NO_ERROR, p\<lparr>
           mDataSize := (if mDataSize p > desired then desired else mDataSize p),
           mDataPos := (if mDataPos p > desired then desired else mDataPos p)\<rparr>))
      else (let data = malloc A desired in
        if data = NullBuf then Some (NO_MEMORY, p\<lparr>mError := NO_MEMORY\<rparr>)
        else Some (NO_ERROR, p\<lparr>mData := data, mDataSize := 0, mDataPos := 0,
               mDataCapacity := desired, allocSize := allocSize p + int desired,
               allocCount := allocCount p + 1\<rparr>)))"

definition setDataSize :: "allocator \<Rightarrow> parcel \<Rightarrow> nat \<Rightarrow> (status \<times> parcel) option" where
  "setDataSize A p sz =
     (if sz > INT32_MAX then Some (BAD_VALUE, p)
      else do {
        (err, p) \<leftarrow> continueWrite A p sz;
        if err = NO_ERROR then Some (err, p\<lparr>mDataSize := sz\<rparr>) else Some (err, p)
      })"

definition setDataPosition :: "parcel \<Rightarrow> nat \<Rightarrow> parcel option" where
  "setDataPosition p pos = (if pos > INT32_MAX then None else Some (p\<lparr>mDataPos := pos\<rparr>))"

definition setDataCapacity :: "allocator \<Rightarrow> parcel \<Rightarrow> nat \<Rightarrow> (status \<times> parcel) option" where
  "setDataCapacity A p sz =
     (if sz > INT32_MAX then Some (BAD_VALUE, p)
      else if sz > mDataCapacity p then continueWrite A p sz
      else Some (NO_ERROR, p))"

definition restartWrite :: "allocator \<Rightarrow> parcel \<Rightarrow> nat \<Rightarrow> (status \<times> parcel) option" where
  "restartWrite A p desired =
     (if desired > INT32_MAX then Some (BAD_VALUE, p)
      else do {
        (data, old) \<leftarrow> realloc A (mData p) desired;
        if data = NullBuf \<and> desired > mDataCapacity p
        then Some (NO_MEMORY, p\<lparr>mData := old, mError := NO_MEMORY\<rparr>)
        else if data \<noteq> NullBuf
        then Some (NO_ERROR, p\<lparr>mData := data, mDataCapacity := desired,
               allocSize := allocSize p + int desired - int (mDataCapacity p),
               mDataSize := 0, mDataPos := 0\<rparr>)
        else Some (NO_ERROR, p\<lparr>mData := old, mDataSize := 0, mDataPos := 0\<rparr>)
      })"

definition setData :: "allocator \<Rightarrow> parcel \<Rightarrow> u8 list \<Rightarrow> (status \<times> parcel) option" where
  "setData A p buffer =
     (let len = length buffer in
      if len > INT32_MAX then Some (BAD_VALUE, p)
      else do {
        (err, p) \<leftarrow> restartWrite A p len;
        if err = NO_ERROR then do {
          p \<leftarrow> poke p 0 buffer;
          Some (err, p\<lparr>mDataSize := len\<rparr>)
        }
        else Some (err, p)
      })"

definition freeDataNoInit :: "parcel \<Rightarrow> parcel" where
  "freeDataNoInit p =
     (if mData p \<noteq> NullBuf
      then p\<lparr>mData := Freed, allocSize := allocSize p - int (mDataCapacity p),
             allocCount := allocCount p - 1\<rparr>
      else p)"

section \<open>Writing\<close>

definition growData :: "allocator \<Rightarrow> parcel \<Rightarrow> nat \<Rightarrow> (status \<times> parcel) option" where
  "growData A p len =
     (if len > INT32_MAX then Some (BAD_VALUE, p)
      else let newSize = szmul (szadd (mDataSize p) len) 3 div 2 in
        if newSize \<le> mDataSize p then Some (NO_MEMORY, p) else continueWrite A p newSize)"

definition finishWrite :: "parcel \<Rightarrow> nat \<Rightarrow> status \<times> parcel" where
  "finishWrite p len =
     (if len > INT32_MAX then (BAD_VALUE, p)
      else let pos = szadd (mDataPos p) len in
        (NO_ERROR, p\<lparr>mDataPos := pos,
           mDataSize := (if pos > mDataSize p then pos else mDataSize p)\<rparr>))"

definition appendFrom ::
  "allocator \<Rightarrow> parcel \<Rightarrow> parcel \<Rightarrow> nat \<Rightarrow> nat \<Rightarrow> (status \<times> parcel) option" where
  "appendFrom A p src offset len =
     (if len = 0 then Some (NO_ERROR, p)
      else if len > INT32_MAX then Some (BAD_VALUE, p)
      else if offset > mDataSize src \<or> len > mDataSize src \<or> szadd offset len > mDataSize src
      then Some (BAD_VALUE, p)
      else do {
        (err, p) \<leftarrow> (if szadd (mDataSize p) len > mDataCapacity p then growData A p len
                     else Some (NO_ERROR, p));
        if err \<noteq> NO_ERROR then Some (err, p)
        else do {
          xs \<leftarrow> peek src offset len;
          p \<leftarrow> poke p (mDataPos p) xs;
          Some (NO_ERROR, p\<lparr>mDataPos := szadd (mDataPos p) len, mDataSize := szadd (mDataSize p) len\<rparr>)
        }
      })"

text \<open>The little-endian \<open>mask\<close> table that clears the padding bytes of the last word.\<close>

definition pad_mask :: "nat \<Rightarrow> u32" where
  "pad_mask k = [0x00000000, 0x00ffffff, 0x0000ffff, 0x000000ff] ! k"

text \<open>The label \<open>restart_write\<close> of \<open>writeInplace\<close>; the result is the offset of \<open>data\<close> (the
  pointer is null when the parcel has no block, which only an empty request reaches).\<close>

definition writeInplace_restart :: "parcel \<Rightarrow> nat \<Rightarrow> nat \<Rightarrow> (nat option \<times> parcel) option" where
  "writeInplace_restart p len padded =
     (let data = mDataPos p in
      do {
        p \<leftarrow> (if padded \<noteq> len then do {
                w \<leftarrow> peek p (data + padded - 4) 4;
                poke p (data + padded - 4) (le32 (le_word w AND pad_mask (padded - len)))
              }
              else Some p);
        Some (if mData p = NullBuf then None else Some data, snd (finishWrite p padded))
      })"

definition writeInplace :: "allocator \<Rightarrow> parcel \<Rightarrow> nat \<Rightarrow> (nat option \<times> parcel) option" where
  "writeInplace A p len =
     (if len > INT32_MAX then Some (None, p)
      else do {
        padded \<leftarrow> pad_size len;
        if szadd (mDataPos p) padded < mDataPos p then Some (None, p)
        else if szadd (mDataPos p) padded \<le> mDataCapacity p then writeInplace_restart p len padded
        else do {
          (err, p) \<leftarrow> growData A p padded;
          if err = NO_ERROR then writeInplace_restart p len padded else Some (None, p)
        }
      })"

definition parcel_write :: "allocator \<Rightarrow> parcel \<Rightarrow> u8 list \<Rightarrow> (status \<times> parcel) option" where
  "parcel_write A p data =
     (if length data > INT32_MAX then Some (BAD_VALUE, p)
      else do {
        (d, p) \<leftarrow> writeInplace A p (length data);
        case d of
          Some off \<Rightarrow> do { p \<leftarrow> poke p off data; Some (NO_ERROR, p) }
        | None \<Rightarrow> Some (mError p, p)
      })"

text \<open>\<open>writeAligned<T>\<close>, with the value as its \<open>sizeof(T)\<close> bytes in memory order.\<close>

definition writeAligned_restart :: "parcel \<Rightarrow> u8 list \<Rightarrow> (status \<times> parcel) option" where
  "writeAligned_restart p val = do {
     p \<leftarrow> poke p (mDataPos p) val;
     Some (finishWrite p (length val))
   }"

definition writeAligned :: "allocator \<Rightarrow> parcel \<Rightarrow> u8 list \<Rightarrow> (status \<times> parcel) option" where
  "writeAligned A p val =
     (if szadd (mDataPos p) (length val) \<le> mDataCapacity p then writeAligned_restart p val
      else do {
        (err, p) \<leftarrow> growData A p (length val);
        if err = NO_ERROR then writeAligned_restart p val else Some (err, p)
      })"

definition writeInt32 :: "allocator \<Rightarrow> parcel \<Rightarrow> u32 \<Rightarrow> (status \<times> parcel) option" where
  "writeInt32 A p val = writeAligned A p (le32 val)"

definition writeInt64 :: "allocator \<Rightarrow> parcel \<Rightarrow> u64 \<Rightarrow> (status \<times> parcel) option" where
  "writeInt64 A p val = writeAligned A p (le64 val)"

definition writeUint64 :: "allocator \<Rightarrow> parcel \<Rightarrow> u64 \<Rightarrow> (status \<times> parcel) option" where
  "writeUint64 A p val = writeAligned A p (le64 val)"

definition units_bytes :: "u16 list \<Rightarrow> u8 list" where
  "units_bytes us = concat (map le16 us)"

text \<open>\<open>writeString16(const char16_t*, size_t)\<close>; \<open>None\<close> is a null \<open>str\<close>, and the list has
  the \<open>len\<close> code units that the code copies.\<close>

definition writeString16 :: "allocator \<Rightarrow> parcel \<Rightarrow> u16 list option \<Rightarrow> (status \<times> parcel) option" where
  "writeString16 A p str =
     (case str of
        None \<Rightarrow> writeInt32 A p (- 1)
      | Some us \<Rightarrow> do {
          (err, p) \<leftarrow> writeInt32 A p (of_nat (length us));
          if err = NO_ERROR then do {
            (data, p) \<leftarrow> writeInplace A p (szadd (szmul (length us) 2) 2);
            case data of
              Some off \<Rightarrow> do {
                p \<leftarrow> poke p off (units_bytes us);
                p \<leftarrow> poke p (off + szmul (length us) 2) (le16 0);
                Some (NO_ERROR, p)
              }
            | None \<Rightarrow> Some (mError p, p)
          }
          else Some (err, p)
        })"

text \<open>
  \<open>writeString8AsString16\<close>. The conversion throws on bytes that are not UTF-8 (\<open>None\<close>); the
  status of \<open>writeString16\<close> is dropped. \<open>malloc\<close> of the temporary may fail.
\<close>

definition writeString8AsString16 :: "allocator \<Rightarrow> parcel \<Rightarrow> cstr \<Rightarrow> (status \<times> parcel) option" where
  "writeString8AsString16 A p s8 =
     (case s8 of
        None \<Rightarrow> writeInt32 A p (- 1)
      | Some source \<Rightarrow> do {
          u16_conv \<leftarrow> from_bytes source;
          if \<not> mem_ok A (2 * length u16_conv) then Some (NO_MEMORY, p)
          else do {
            (_, p) \<leftarrow> writeString16 A p (Some u16_conv);
            Some (NO_ERROR, p)
          }
        })"

section \<open>Reading\<close>

text \<open>The common guard of \<open>read\<close> and \<open>readInplace\<close>.\<close>

definition read_guard :: "parcel \<Rightarrow> nat \<Rightarrow> nat \<Rightarrow> bool" where
  "read_guard p len padded \<longleftrightarrow>
     szadd (mDataPos p) padded \<ge> mDataPos p \<and> szadd (mDataPos p) padded \<le> mDataSize p \<and> len \<le> padded"

text \<open>\<open>read(outData, len)\<close>: \<open>out\<close> is what \<open>outData\<close> holds before the call, \<open>len\<close> bytes.\<close>

definition parcel_read :: "parcel \<Rightarrow> u8 list \<Rightarrow> (status \<times> u8 list \<times> parcel) option" where
  "parcel_read p out =
     (let len = length out in
      if len > INT32_MAX then Some (BAD_VALUE, out, p)
      else do {
        padded \<leftarrow> pad_size len;
        if read_guard p len padded then do {
          xs \<leftarrow> peek p (mDataPos p) len;
          Some (NO_ERROR, xs, p\<lparr>mDataPos := szadd (mDataPos p) padded\<rparr>)
        }
        else Some (NOT_ENOUGH_DATA, out, p)
      })"

text \<open>The result is the offset the returned pointer has in the block.\<close>

definition readInplace :: "parcel \<Rightarrow> nat \<Rightarrow> (nat option \<times> parcel) option" where
  "readInplace p len =
     (if len > INT32_MAX then Some (None, p)
      else do {
        padded \<leftarrow> pad_size len;
        if read_guard p len padded
        then Some (if mData p = NullBuf then None else Some (mDataPos p),
                   p\<lparr>mDataPos := szadd (mDataPos p) padded\<rparr>)
        else Some (None, p)
      })"

text \<open>\<open>readAligned<T>(T *pArg)\<close>: \<open>arg\<close> is what \<open>*pArg\<close> holds before the call.\<close>

definition readAligned :: "parcel \<Rightarrow> 'a::len word \<Rightarrow> (status \<times> 'a word \<times> parcel) option" where
  "readAligned p arg =
     (let n = LENGTH('a) div 8 in
      if szadd (mDataPos p) n \<le> mDataSize p then do {
        xs \<leftarrow> peek p (mDataPos p) n;
        Some (NO_ERROR, le_word xs, p\<lparr>mDataPos := szadd (mDataPos p) n\<rparr>)
      }
      else Some (NOT_ENOUGH_DATA, arg, p))"

definition readAligned0 :: "parcel \<Rightarrow> ('a::len word \<times> parcel) option" where
  "readAligned0 p = do {
     (err, result, p) \<leftarrow> readAligned p (0 :: 'a word);
     Some (if err \<noteq> NO_ERROR then 0 else result, p)
   }"

definition readInt32_ptr :: "parcel \<Rightarrow> u32 \<Rightarrow> (status \<times> u32 \<times> parcel) option" where
  "readInt32_ptr p arg = readAligned p arg"

definition readInt32 :: "parcel \<Rightarrow> (u32 \<times> parcel) option" where
  "readInt32 p = readAligned0 p"

definition readUint64_ptr :: "parcel \<Rightarrow> u64 \<Rightarrow> (status \<times> u64 \<times> parcel) option" where
  "readUint64_ptr p arg = readAligned p arg"

definition readUint64 :: "parcel \<Rightarrow> (u64 \<times> parcel) option" where
  "readUint64 p = readAligned0 p"

text \<open>\<open>readString16Inplace\<close>: the pointer (as an offset) and \<open>*outLen\<close>.\<close>

definition readString16Inplace :: "parcel \<Rightarrow> (nat option \<times> nat \<times> parcel) option" where
  "readString16Inplace p = do {
     (sz, p) \<leftarrow> readInt32 p;
     if sint sz \<ge> 0 \<and> sint sz < int INT32_MAX then do {
       (str, p) \<leftarrow> readInplace p ((nat (sint sz) + 1) * 2);
       if str \<noteq> None then Some (str, nat (sint sz), p) else Some (None, 0, p)
     }
     else Some (None, 0, p)
   }"

fun units :: "u8 list \<Rightarrow> u16 list" where
  "units (a # b # r) = le_word [a, b] # units r"
| "units _ = []"

definition readString16 :: "parcel \<Rightarrow> (u16 list \<times> parcel) option" where
  "readString16 p = do {
     (str, len, p) \<leftarrow> readString16Inplace p;
     case str of
       Some off \<Rightarrow> do { xs \<leftarrow> peek p off (2 * len); Some (units xs, p) }
     | None \<Rightarrow> Some ([], p)
   }"

text \<open>\<open>readCString\<close>: \<open>memchr\<close> looks at bytes in order and stops at the first zero, so it
  leaves the block only when no zero occurs before the end of the block.\<close>

definition memchr0 :: "u8 list \<Rightarrow> nat \<Rightarrow> nat option option" where
  "memchr0 xs n =
     (let k = length (takeWhile (\<lambda>b. b \<noteq> 0) xs) in
      if k < length xs \<and> k < n then Some (Some k)
      else if n \<le> length xs then Some None
      else None)"

definition readCString :: "parcel \<Rightarrow> (u8 list option \<times> parcel) option" where
  "readCString p =
     (let avail = szsub (mDataSize p) (mDataPos p) in
      if avail > 0 then do {
        xs \<leftarrow> (case mData p of Block bs \<Rightarrow> Some (drop (mDataPos p) bs) | _ \<Rightarrow> None);
        eos \<leftarrow> memchr0 xs avail;
        case eos of
          Some len \<Rightarrow> do {
            padded \<leftarrow> pad_size (len + 1);
            Some (Some (take len xs), p\<lparr>mDataPos := szadd (mDataPos p) padded\<rparr>)
          }
        | None \<Rightarrow> Some (None, p)
      }
      else Some (None, p))"

end
