(* ===== verification/Interfaces.thy ===== *)
theory Interfaces
  imports Prelude
begin

text \<open>
  The contracts between the byte buffer and the code that builds and takes apart messages:
  a source of bytes that one skips over, a reader of one kind of item with its wire form, and
  a sink to which items are appended. Each client lemma is proved once from the contract.
\<close>

section \<open>Loops over items\<close>

fun repeat_get :: "('s \<Rightarrow> ('x \<times> 's) option) \<Rightarrow> nat \<Rightarrow> 's \<Rightarrow> ('x list \<times> 's) option" where
  "repeat_get get 0 s = Some ([], s)"
| "repeat_get get (Suc n) s = do {
     (x, s) \<leftarrow> get s;
     (xs, s) \<leftarrow> repeat_get get n s;
     Some (x # xs, s)
   }"

fun put_all :: "('i \<Rightarrow> 's \<Rightarrow> 's option) \<Rightarrow> 'i list \<Rightarrow> 's \<Rightarrow> 's option" where
  "put_all put [] s = Some s"
| "put_all put (i # is) s = do { s \<leftarrow> put i s; put_all put is s }"

lemma put_all_append: "put_all put (xs @ ys) s = do { s \<leftarrow> put_all put xs s; put_all put ys s }"
  by (induction xs arbitrary: s) (auto split: bind_splits)

section \<open>Byte sources\<close>

locale byte_source =
  fixes ok :: "'s \<Rightarrow> bool" and rest :: "'s \<Rightarrow> u8 list" and skp :: "nat \<Rightarrow> 's \<Rightarrow> 's"
  assumes ok_skip: "ok s \<Longrightarrow> n \<le> length (rest s) \<Longrightarrow> ok (skp n s)"
    and rest_skip: "rest (skp n s) = drop n (rest s)"
    and skip_skip: "skp m (skp n s) = skp (n + m) s"
    and skip_0: "skp 0 s = s"
begin

lemma ok_skip_append: "ok s \<Longrightarrow> rest s = xs @ r \<Longrightarrow> ok (skp (length xs) s)"
  by (rule ok_skip) simp_all

lemma rest_skip_append: "rest s = xs @ r \<Longrightarrow> rest (skp (length xs) s) = r"
  by (simp add: rest_skip)

end

text \<open>A reader of one kind of item: where the wire form of a valid item comes next, it returns
  the item and skips exactly its bytes.\<close>

locale decoder = byte_source ok rest skp
  for ok :: "'s \<Rightarrow> bool" and rest :: "'s \<Rightarrow> u8 list" and skp :: "nat \<Rightarrow> 's \<Rightarrow> 's" +
  fixes get :: "'s \<Rightarrow> ('x \<times> 's) option" and enc :: "'x \<Rightarrow> u8 list" and valid :: "'x \<Rightarrow> bool"
  assumes get_enc: "valid x \<Longrightarrow> ok s \<Longrightarrow> rest s = enc x @ r \<Longrightarrow> get s = Some (x, skp (length (enc x)) s)"
begin

lemma repeat_get_enc:
  "list_all valid xs \<Longrightarrow> ok s \<Longrightarrow> rest s = concat (map enc xs) @ r \<Longrightarrow>
     repeat_get get (length xs) s = Some (xs, skp (length (concat (map enc xs))) s)"
proof (induction xs arbitrary: s)
  case Nil
  then show ?case by (simp add: skip_0)
next
  case (Cons x xs)
  let ?s = "skp (length (enc x)) s"
  have r: "rest s = enc x @ concat (map enc xs) @ r" using Cons.prems(3) by simp
  have "get s = Some (x, ?s)" using get_enc [OF _ Cons.prems(2) r] Cons.prems(1) by simp
  moreover have "repeat_get get (length xs) ?s = Some (xs, skp (length (concat (map enc xs))) ?s)"
    using Cons.IH [of ?s] Cons.prems(1) ok_skip_append [OF Cons.prems(2) r] rest_skip_append [OF r] by simp
  ultimately show ?case by (simp add: skip_skip)
qed

end

section \<open>Byte sinks\<close>

locale byte_sink =
  fixes ok :: "'s \<Rightarrow> bool" and bytes :: "'s \<Rightarrow> u8 list" and room :: "'s \<Rightarrow> nat \<Rightarrow> bool"
    and put :: "'i \<Rightarrow> 's \<Rightarrow> 's option" and enc :: "'i \<Rightarrow> u8 list" and valid :: "'i \<Rightarrow> bool"
  assumes put_enc: "valid i \<Longrightarrow> ok s \<Longrightarrow> room s (length (enc i)) \<Longrightarrow>
      \<exists>s'. put i s = Some s' \<and> ok s' \<and> bytes s' = bytes s @ enc i \<and>
        (\<forall>n. room s (length (enc i) + n) \<longrightarrow> room s' n)"
    and room_less: "room s m \<Longrightarrow> n \<le> m \<Longrightarrow> room s n"
begin

lemma put_all_enc:
  "list_all valid is \<Longrightarrow> ok s \<Longrightarrow> room s (length (concat (map enc is))) \<Longrightarrow>
     \<exists>s'. put_all put is s = Some s' \<and> ok s' \<and> bytes s' = bytes s @ concat (map enc is)"
proof (induction "is" arbitrary: s)
  case Nil
  then show ?case by simp
next
  case (Cons i "is")
  have "room s (length (enc i))" by (rule room_less [OF Cons.prems(3)]) simp
  then obtain s' where s': "put i s = Some s'" "ok s'" "bytes s' = bytes s @ enc i"
    "\<And>n. room s (length (enc i) + n) \<Longrightarrow> room s' n"
    using put_enc [of i s] Cons.prems by auto
  have "room s' (length (concat (map enc is)))" using s'(4) Cons.prems(3) by simp
  with Cons.IH [of s'] Cons.prems(1) s' show ?case by auto
qed

end

end
