(* ===== verification/ParcelFacts.thy ===== *)
theory ParcelFacts
  imports Parcel Interfaces
begin

text \<open>
  What holds of the parcel: the invariant \<open>parcel_ok\<close> and its preservation, the wire form of
  every item, the effect of every write on the contents, what every read returns, and the
  interpretations that present the parcel as a byte source, as a reader of integers and strings,
  and as a byte sink.
\<close>

section \<open>Abstract view and invariant\<close>

fun bytes_of :: "buf \<Rightarrow> u8 list" where
  "bytes_of (Block bs) = bs"
| "bytes_of _ = []"

definition contents :: "parcel \<Rightarrow> u8 list" where
  "contents p = take (mDataSize p) (bytes_of (mData p))"

definition unread :: "parcel \<Rightarrow> u8 list" where
  "unread p = drop (mDataPos p) (contents p)"

text \<open>
  What the operations keep: the block is live and as long as \<open>mDataCapacity\<close> says, the data
  lies inside it, and the position inside the data.
\<close>

definition parcel_ok :: "parcel \<Rightarrow> bool" where
  "parcel_ok p \<longleftrightarrow> mData p \<noteq> Freed \<and> length (bytes_of (mData p)) = mDataCapacity p \<and>
     mDataSize p \<le> mDataCapacity p \<and> mDataCapacity p \<le> INT32_MAX \<and> mDataPos p \<le> mDataSize p"

text \<open>An allocator that serves every request, and the size up to which growth succeeds.\<close>

definition plenty :: "allocator \<Rightarrow> bool" where
  "plenty A \<longleftrightarrow> (\<forall>n. mem_ok A n)"

abbreviation GROW_LIMIT :: nat where
  "GROW_LIMIT \<equiv> 1431655765"

lemma parcel_ok_initState [simp]: "parcel_ok initState"
  by (simp add: parcel_ok_def initState_def)

lemma parcel_ok_Block: "parcel_ok p \<Longrightarrow> 0 < mDataCapacity p \<Longrightarrow> \<exists>bs. mData p = Block bs"
  by (cases "mData p") (auto simp: parcel_ok_def)

lemma length_contents [simp]: "parcel_ok p \<Longrightarrow> length (contents p) = mDataSize p"
  by (simp add: parcel_ok_def contents_def)

lemma contents_initState [simp]: "contents initState = []"
  by (simp add: contents_def initState_def)

lemma peek_contents:
  assumes "parcel_ok p" and "off + n \<le> mDataSize p"
  shows "peek p off n = Some (take n (drop off (contents p)))"
proof -
  have "take n (drop off (bytes_of (mData p))) = take n (drop off (contents p))"
    using assms(2) by (simp add: contents_def drop_take min_def)
  then show ?thesis
    using assms by (cases "mData p") (auto simp: peek_def parcel_ok_def)
qed

text \<open>Storing inside the block, as \<open>poke\<close> followed by \<open>finishWrite\<close> does.\<close>

lemma poke_finish:
  assumes "parcel_ok p" and "mDataPos p + length xs \<le> mDataCapacity p"
  shows "\<exists>p'. poke p (mDataPos p) xs = Some p' \<and> parcel_ok (snd (finishWrite p' (length xs))) \<and>
     fst (finishWrite p' (length xs)) = NO_ERROR \<and>
     contents (snd (finishWrite p' (length xs))) = overwrite (contents p) (mDataPos p) xs \<and>
     mDataPos (snd (finishWrite p' (length xs))) = mDataPos p + length xs"
proof (cases "xs = []")
  case True
  with assms show ?thesis by (auto simp: poke_def finishWrite_def parcel_ok_def contents_def)
next
  case False
  then obtain bs where bs: "mData p = Block bs"
    using assms parcel_ok_Block [of p] by (cases "mDataCapacity p") auto
  show ?thesis
    using assms False bs take_overwrite_max [of "mDataPos p" "mDataSize p" bs xs]
    by (auto simp: poke_def finishWrite_def parcel_ok_def contents_def max_def Let_def split: if_splits)
qed

lemma realloc_grow:
  "parcel_ok p \<Longrightarrow> n > mDataCapacity p \<Longrightarrow> mData p \<noteq> NullBuf \<Longrightarrow>
     realloc A (mData p) n =
       Some (if mem_ok A n
             then (Block (bytes_of (mData p) @ map (mem_fresh A) [mDataCapacity p..<n]), Freed)
             else (NullBuf, mData p))"
  by (cases "mData p") (auto simp: parcel_ok_def)

lemma continueWrite_grow:
  assumes "parcel_ok p" and "mDataSize p \<le> desired"
  shows "\<exists>st p'. continueWrite A p desired = Some (st, p') \<and> parcel_ok p' \<and> contents p' = contents p \<and>
     mDataPos p' = mDataPos p \<and> mDataSize p' = mDataSize p \<and>
     (st = NO_ERROR \<longrightarrow> desired \<le> mDataCapacity p') \<and>
     (plenty A \<and> desired \<le> INT32_MAX \<longrightarrow> st = NO_ERROR)"
proof -
  consider (big) "desired > INT32_MAX" | (null) "desired \<le> INT32_MAX" "mData p = NullBuf"
    | (grow) "desired \<le> INT32_MAX" "mData p \<noteq> NullBuf" "desired > mDataCapacity p"
    | (fits) "desired \<le> mDataCapacity p" "mData p \<noteq> NullBuf"
    by linarith
  then show ?thesis
  proof cases
    case big
    with assms show ?thesis by (simp add: continueWrite_def)
  next
    case null
    with assms show ?thesis
      by (auto simp: continueWrite_def malloc_def Let_def parcel_ok_def contents_def plenty_def)
  next
    case grow
    with assms show ?thesis
      by (auto simp: continueWrite_def realloc_grow [OF assms(1)] parcel_ok_def contents_def plenty_def)
  next
    case fits
    with assms show ?thesis by (auto simp: continueWrite_def parcel_ok_def contents_def)
  qed
qed

lemma growData_spec:
  assumes "parcel_ok p" and "0 < len" and "len \<le> INT32_MAX"
  shows "\<exists>st p'. growData A p len = Some (st, p') \<and> parcel_ok p' \<and> contents p' = contents p \<and>
     mDataPos p' = mDataPos p \<and> mDataSize p' = mDataSize p \<and>
     (st = NO_ERROR \<longrightarrow> mDataPos p + len \<le> mDataCapacity p') \<and>
     (plenty A \<and> mDataSize p + len \<le> GROW_LIMIT \<longrightarrow> st = NO_ERROR)"
proof -
  let ?n = "(mDataSize p + len) * 3 div 2"
  have sz: "mDataSize p \<le> INT32_MAX" and pos: "mDataPos p \<le> mDataSize p"
    using assms(1) by (auto simp: parcel_ok_def)
  have n: "szmul (szadd (mDataSize p) len) 3 div 2 = ?n"
  proof -
    have "(mDataSize p + len) * 3 < SIZE_T_MAX + 1" using sz assms(3) by simp
    then show ?thesis using sz assms(3) unfolding szmul_def by (simp only: mod_less szadd_small)
  qed
  have gt: "mDataSize p < ?n" using assms(2) by (simp add: algebra_simps)
  have ge: "mDataPos p + len \<le> ?n" using pos by (simp add: algebra_simps)
  have lim: "mDataSize p + len \<le> GROW_LIMIT \<Longrightarrow> ?n \<le> INT32_MAX" by (simp add: algebra_simps)
  have "growData A p len = continueWrite A p ?n"
    using assms(3) n gt by (simp add: growData_def Let_def)
  moreover obtain st p' where "continueWrite A p ?n = Some (st, p')" "parcel_ok p'"
    "contents p' = contents p" "mDataPos p' = mDataPos p" "mDataSize p' = mDataSize p"
    "st = NO_ERROR \<longrightarrow> ?n \<le> mDataCapacity p'" "plenty A \<and> ?n \<le> INT32_MAX \<longrightarrow> st = NO_ERROR"
    using continueWrite_grow [OF assms(1) less_imp_le [OF gt], of A] by blast
  ultimately show ?thesis
    using ge lim by (intro exI [of _ st] exI [of _ p']) (auto dest: order_trans)
qed

lemma writeAligned_spec:
  assumes "parcel_ok p" and "0 < length val" and "length val \<le> INT32_MAX"
  shows "succ (writeAligned A p val) (\<lambda>(st, p'). parcel_ok p' \<and>
     (st = NO_ERROR \<longrightarrow> contents p' = overwrite (contents p) (mDataPos p) val \<and>
        mDataPos p' = mDataPos p + length val) \<and>
     (st \<noteq> NO_ERROR \<longrightarrow> contents p' = contents p \<and> mDataPos p' = mDataPos p) \<and>
     (plenty A \<and> mDataSize p + length val \<le> GROW_LIMIT \<longrightarrow> st = NO_ERROR))"
proof -
  have restart: "succ (writeAligned_restart q val) (\<lambda>(st, p'). parcel_ok p' \<and> st = NO_ERROR \<and>
      contents p' = overwrite (contents q) (mDataPos q) val \<and> mDataPos p' = mDataPos q + length val)"
    if "parcel_ok q" "mDataPos q + length val \<le> mDataCapacity q" for q
    using poke_finish [OF that] by (auto simp: writeAligned_restart_def split: prod.splits)
  have bound: "mDataPos p \<le> INT32_MAX" using assms(1) by (simp add: parcel_ok_def)
  show ?thesis
  proof (cases "mDataPos p + length val \<le> mDataCapacity p")
    case True
    then show ?thesis
      using restart [OF assms(1)] bound assms(3) by (auto simp: writeAligned_def elim!: succ_mono)
  next
    case False
    obtain st q where q: "growData A p (length val) = Some (st, q)" "parcel_ok q" "contents q = contents p"
      "mDataPos q = mDataPos p" "st = NO_ERROR \<Longrightarrow> mDataPos p + length val \<le> mDataCapacity q"
      "plenty A \<and> mDataSize p + length val \<le> GROW_LIMIT \<Longrightarrow> st = NO_ERROR"
      using growData_spec [OF assms] by blast
    then show ?thesis
      using restart [of q] False bound assms(3) by (auto simp: writeAligned_def elim!: succ_mono)
  qed
qed

section \<open>Padded blocks of bytes\<close>

definition padding :: "nat \<Rightarrow> nat" where
  "padding n = (4 - n mod 4) mod 4"

text \<open>The wire form of \<open>n\<close> raw bytes: the bytes, then zeros up to a multiple of four.\<close>

definition enc_bytes :: "u8 list \<Rightarrow> u8 list" where
  "enc_bytes xs = xs @ replicate (padding (length xs)) 0"

lemma padding_mult: "(n + 3) div 4 * 4 = n + padding n"
proof -
  obtain q r where n: "n = 4 * q + r" and "r < 4"
    by (metis mult_div_mod_eq mod_less_divisor zero_less_numeral)
  then consider "r = 0" | "r = 1" | "r = 2" | "r = 3" by linarith
  then show ?thesis by cases (simp_all add: n padding_def del: add_2_eq_Suc')
qed

lemma pad_size_eq: "n \<le> SIZE_T_MAX - 3 \<Longrightarrow> pad_size n = Some (n + padding n)"
  by (simp add: pad_size_def padding_mult)

lemma padding_le [simp]: "padding n \<le> 3"
  by (auto simp: padding_def)

lemma length_enc_bytes [simp]: "length (enc_bytes xs) = length xs + padding (length xs)"
  by (simp add: enc_bytes_def)

lemma pad_mask_bit: "k \<le> 3 \<Longrightarrow> 0 < k \<Longrightarrow> pad_mask k = mask (8 * (4 - k))"
proof -
  assume "k \<le> 3" "0 < k"
  then consider "k = 1" | "k = 2" | "k = 3" by linarith
  then show ?thesis by cases (simp_all add: pad_mask_def mask_eq_exp_minus_1)
qed

lemma le32_pad_mask:
  assumes "length w = 4" and "0 < k" and "k \<le> 3"
  shows "le32 (le_word w AND pad_mask k) = take (4 - k) w @ replicate k 0"
proof (rule nth_equalityI)
  show "length (le32 (le_word w AND pad_mask k)) = length (take (4 - k) w @ replicate k 0)"
    using assms by simp
next
  fix i
  assume "i < length (le32 (le_word w AND pad_mask k))"
  then have i: "i < 4" by simp
  show "le32 (le_word w AND pad_mask k) ! i = (take (4 - k) w @ replicate k 0) ! i"
  proof (rule bit_word_eqI)
    fix j
    assume "j < LENGTH(8)"
    then have j: "j < 8" "(8 * i + j) div 8 = i" "(8 * i + j) mod 8 = j" by auto
    have "8 * i + j < 8 * (4 - k) \<longleftrightarrow> i < 4 - k" using j(1) by linarith
    then show "bit (le32 (le_word w AND pad_mask k) ! i) j \<longleftrightarrow>
        bit ((take (4 - k) w @ replicate k 0) ! i) j"
      using i j assms
      by (auto simp: le_bytes_def pad_mask_bit bit_simps bit_le_word nth_append)
  qed
qed

lemma overwrite_keep:
  "a + m \<le> length bs \<Longrightarrow> overwrite bs a (take m (drop a bs) @ xs) = overwrite bs (a + m) xs"
  by (simp add: overwrite_def take_add ac_simps)

text \<open>Clearing the padding of the last word amounts to a store over the whole item.\<close>

lemma writeInplace_restart_poke:
  assumes "parcel_ok p" and "mDataPos p + (len + k) \<le> mDataCapacity p"
    and "0 < len" and "k = padding len"
  shows "\<exists>ys. length ys = len + k \<and> drop len ys = replicate k 0 \<and>
     writeInplace_restart p len (len + k) = do {
       q \<leftarrow> poke p (mDataPos p) ys;
       Some (Some (mDataPos p), snd (finishWrite q (len + k)))
     }"
proof -
  obtain bs where bs: "mData p = Block bs" "length bs = mDataCapacity p"
    using assms parcel_ok_Block [of p] by (auto simp: parcel_ok_def)
  let ?pos = "mDataPos p"
  let ?ys = "take len (drop ?pos bs) @ replicate k 0"
  have len: "length ?ys = len + k" "drop len ?ys = replicate k 0"
    using assms(2) bs by auto
  have "4 * 1 \<le> 4 * ((len + 3) div 4)" using assms(3) by (intro mult_le_mono) linarith+
  then have k: "k \<le> 3" "4 \<le> len + k"
    using assms(4) padding_mult [of len] by auto
  have same: "overwrite bs ?pos ?ys = overwrite bs (?pos + len) (replicate k 0)"
    using assms(2) bs by (simp add: overwrite_keep)
  show ?thesis
  proof (intro exI conjI)
    show "writeInplace_restart p len (len + k) = do {
       q \<leftarrow> poke p ?pos ?ys;
       Some (Some ?pos, snd (finishWrite q (len + k)))
     }"
    proof (cases "k = 0")
      case True
      then have "overwrite bs ?pos ?ys = bs" using same by simp
      then have "poke p ?pos ?ys = Some p"
        using bs assms(2) len by (simp add: poke_def del: append_eq_conv_conj)
      then show ?thesis using True bs by (simp add: writeInplace_restart_def)
    next
      case False
      let ?o = "?pos + (len + k) - 4"
      let ?w = "take 4 (drop ?o bs)"
      have o: "?o + 4 = ?pos + (len + k)" "?o + (4 - k) = ?pos + len" using k False by auto
      have w: "length ?w = 4" using o(1) assms(2) bs by simp
      have "le32 (le_word ?w AND pad_mask k) = take (4 - k) (drop ?o bs) @ replicate k 0"
        using le32_pad_mask [OF w, of k] False k by simp
      moreover have "overwrite bs ?o (take (4 - k) (drop ?o bs) @ replicate k 0) = overwrite bs ?pos ?ys"
        using o assms(2) bs by (simp add: overwrite_keep same)
      ultimately show ?thesis
        using False o(1) assms(2) bs len k
        by (simp add: writeInplace_restart_def peek_def poke_def Let_def)
    qed
  qed (use len in auto)
qed


abbreviation roomy :: "allocator \<Rightarrow> parcel \<Rightarrow> nat \<Rightarrow> bool" where
  "roomy A p n \<equiv> plenty A \<and> mDataSize p + n \<le> GROW_LIMIT"

lemma writeInplace_spec:
  assumes "parcel_ok p" and "0 < len" and "len \<le> INT32_MAX - 3"
  shows "\<exists>d p'. writeInplace A p len = Some (d, p') \<and> parcel_ok p' \<and>
     (d = None \<and> contents p' = contents p \<and> mDataPos p' = mDataPos p \<and>
        \<not> roomy A p (len + padding len) \<or>
      d = Some (mDataPos p) \<and> mDataPos p' = mDataPos p + len + padding len \<and>
      (\<exists>ys. length ys = len + padding len \<and> drop len ys = replicate (padding len) 0 \<and>
         contents p' = overwrite (contents p) (mDataPos p) ys))"
proof -
  let ?k = "padding len"
  have k: "?k \<le> 3" by simp
  have restart: "\<exists>p'. writeInplace_restart q len (len + ?k) = Some (Some (mDataPos q), p') \<and> parcel_ok p' \<and>
      mDataPos p' = mDataPos q + len + ?k \<and>
      (\<exists>ys. length ys = len + ?k \<and> drop len ys = replicate ?k 0 \<and>
         contents p' = overwrite (contents q) (mDataPos q) ys)"
    if q: "parcel_ok q" "mDataPos q + (len + ?k) \<le> mDataCapacity q" for q
  proof -
    obtain ys where ys: "length ys = len + ?k" "drop len ys = replicate ?k 0"
      "writeInplace_restart q len (len + ?k) = do {
         r \<leftarrow> poke q (mDataPos q) ys;
         Some (Some (mDataPos q), snd (finishWrite r (len + ?k)))
       }"
      using writeInplace_restart_poke [OF q assms(2) refl] by blast
    obtain r where "poke q (mDataPos q) ys = Some r" "parcel_ok (snd (finishWrite r (length ys)))"
      "contents (snd (finishWrite r (length ys))) = overwrite (contents q) (mDataPos q) ys"
      "mDataPos (snd (finishWrite r (length ys))) = mDataPos q + length ys"
      using poke_finish [of q ys] q ys(1) by auto
    with ys show ?thesis
      by (intro exI [of _ "snd (finishWrite r (length ys))"] conjI exI [of _ ys]) (simp_all add: add.assoc)
  qed
  have bound: "mDataPos p \<le> INT32_MAX" using assms(1) by (simp add: parcel_ok_def)
  have pad: "pad_size len = Some (len + ?k)" using assms(3) by (simp add: pad_size_eq)
  have sz: "szadd (mDataPos p) (len + ?k) = mDataPos p + (len + ?k)"
    using bound assms(3) k by (intro szadd_small) linarith
  show ?thesis
  proof (cases "mDataPos p + (len + ?k) \<le> mDataCapacity p")
    case True
    then have "writeInplace A p len = writeInplace_restart p len (len + ?k)"
      using assms(3) pad sz by (simp add: writeInplace_def)
    with restart [OF assms(1) True] show ?thesis by auto
  next
    case False
    obtain st q where q: "growData A p (len + ?k) = Some (st, q)" "parcel_ok q" "contents q = contents p"
      "mDataPos q = mDataPos p" "st = NO_ERROR \<Longrightarrow> mDataPos p + (len + ?k) \<le> mDataCapacity q"
      "roomy A p (len + ?k) \<Longrightarrow> st = NO_ERROR"
      using growData_spec [of p "len + ?k" A] assms k by (auto simp del: padding_le)
    then have "writeInplace A p len =
        (if st = NO_ERROR then writeInplace_restart q len (len + ?k) else Some (None, q))"
      using False assms(3) pad sz by (simp add: writeInplace_def)
    with q restart [of q] show ?thesis by (cases "st = NO_ERROR") auto
  qed
qed

lemma poke_contents:
  assumes "parcel_ok p" and "off + length xs \<le> mDataSize p"
  shows "\<exists>p'. poke p off xs = Some p' \<and> parcel_ok p' \<and> mDataPos p' = mDataPos p \<and>
     contents p' = overwrite (contents p) off xs"
proof (cases "xs = []")
  case True
  with assms show ?thesis by (simp add: poke_def)
next
  case False
  then obtain bs where "mData p = Block bs"
    using assms parcel_ok_Block [of p] by (cases "mDataCapacity p") (auto simp: parcel_ok_def)
  then show ?thesis
    using False assms take_overwrite_max [of off "mDataSize p" bs xs]
    by (auto simp: poke_def parcel_ok_def contents_def max_def split: if_splits)
qed

text \<open>What a write owes: the parcel stays well formed whatever happens, and when there is
  room it stores \<open>xs\<close> at the position and moves past it.\<close>

definition stores :: "allocator \<Rightarrow> parcel \<Rightarrow> u8 list \<Rightarrow> (status \<times> parcel) option \<Rightarrow> bool" where
  "stores A p xs m \<longleftrightarrow> (\<exists>st p'. m = Some (st, p') \<and> parcel_ok p' \<and>
     (roomy A p (length xs) \<longrightarrow> st = NO_ERROR \<and>
        contents p' = overwrite (contents p) (mDataPos p) xs \<and> mDataPos p' = mDataPos p + length xs))"

lemma writeAligned_stores:
  "parcel_ok p \<Longrightarrow> 0 < length val \<Longrightarrow> length val \<le> INT32_MAX \<Longrightarrow> stores A p val (writeAligned A p val)"
  using writeAligned_spec [of p val A] by (auto simp: succ_def stores_def)

lemma writeInt32_stores: "parcel_ok p \<Longrightarrow> stores A p (le32 w) (writeInt32 A p w)"
  by (simp add: writeInt32_def writeAligned_stores)

lemma writeInt64_stores: "parcel_ok p \<Longrightarrow> stores A p (le64 w) (writeInt64 A p w)"
  by (simp add: writeInt64_def writeAligned_stores)

lemma overwrite_prefix:
  assumes "off \<le> length bs" and "length xs \<le> length ys" and "drop (length xs) ys = zs"
  shows "overwrite (overwrite bs off ys) off xs = overwrite bs off (xs @ zs)"
proof -
  have "ys = take (length xs) ys @ zs" using assms(3) by (metis append_take_drop_id)
  then show ?thesis
    using overwrite_overwrite [of off bs "take (length xs) ys" xs zs] assms by simp
qed

lemma length_units_bytes [simp]: "length (units_bytes us) = 2 * length us"
  by (induction us) (simp_all add: units_bytes_def)

lemma units_units_bytes [simp]: "units (units_bytes us) = us"
proof (induction us)
  case (Cons u us)
  have "le16 u = [le16 u ! 0, le16 u ! 1]" by (simp add: le_bytes_def upt_rec)
  then obtain a b where ab: "le16 u = [a, b]" by blast
  then have "le_word [a, b] = u" by (metis le_word_le16)
  with Cons ab show ?case by (simp add: units_bytes_def del: le_word.simps)
qed (simp add: units_bytes_def)

lemma units_append_even: "even (length xs) \<Longrightarrow> units (xs @ ys) = units xs @ units ys"
  by (induction xs rule: units.induct) auto

text \<open>The wire form of a nullable 16-bit string: its length in code units, then the units with
  a zero unit behind them, padded.\<close>

definition enc_string16 :: "u16 list option \<Rightarrow> u8 list" where
  "enc_string16 s =
     (case s of
        None \<Rightarrow> le32 (- 1)
      | Some us \<Rightarrow> le32 (of_nat (length us)) @ enc_bytes (units_bytes us @ le16 0))"

text \<open>\<open>write\<close> and the string writers put their item on the wire.\<close>

lemma parcel_write_stores:
  assumes "parcel_ok p" and "length xs \<le> INT32_MAX - 3" and "xs \<noteq> []"
  shows "stores A p (enc_bytes xs) (parcel_write A p xs)"
proof -
  let ?n = "length xs"
  obtain d q where q: "writeInplace A p ?n = Some (d, q)" "parcel_ok q" and
    d: "d = None \<and> contents q = contents p \<and> mDataPos q = mDataPos p \<and> \<not> roomy A p (?n + padding ?n) \<or>
      d = Some (mDataPos p) \<and> mDataPos q = mDataPos p + ?n + padding ?n \<and>
      (\<exists>ys. length ys = ?n + padding ?n \<and> drop ?n ys = replicate (padding ?n) 0 \<and>
         contents q = overwrite (contents p) (mDataPos p) ys)"
    using writeInplace_spec [OF assms(1), of ?n A] assms(2,3) by auto
  from d show ?thesis
  proof (elim disjE exE conjE)
    assume "d = None" "\<not> roomy A p (?n + padding ?n)"
    with q assms(2) show ?thesis by (auto simp: stores_def parcel_write_def)
  next
    fix ys
    assume a: "d = Some (mDataPos p)" "mDataPos q = mDataPos p + ?n + padding ?n"
      "length ys = ?n + padding ?n" "drop ?n ys = replicate (padding ?n) 0"
      "contents q = overwrite (contents p) (mDataPos p) ys"
    have fits: "mDataPos p + ?n \<le> mDataSize q"
      using q(2) a(2) by (simp add: parcel_ok_def)
    obtain r where r: "poke q (mDataPos p) xs = Some r" "parcel_ok r" "mDataPos r = mDataPos q"
      "contents r = overwrite (contents q) (mDataPos p) xs"
      using poke_contents [OF q(2) fits] by blast
    have "contents r = overwrite (contents p) (mDataPos p) (enc_bytes xs)"
      unfolding r(4) a(5) enc_bytes_def
      by (rule overwrite_prefix) (use assms(1) a in \<open>auto simp: parcel_ok_def\<close>)
    with q r a assms(2) show ?thesis by (simp add: stores_def parcel_write_def add.assoc)
  qed
qed


lemma szmul_small [simp]: "a * b \<le> SIZE_T_MAX \<Longrightarrow> szmul a b = a * b"
  by (simp add: szmul_def)

lemma overwrite_append:
  "off \<le> length bs \<Longrightarrow> overwrite (overwrite bs off xs) (off + length xs) ys = overwrite bs off (xs @ ys)"
  by (simp add: overwrite_def ac_simps)

lemma storesE:
  assumes "stores A p xs m"
  obtains st p' where "m = Some (st, p')" "parcel_ok p'"
    "roomy A p (length xs) \<Longrightarrow> st = NO_ERROR"
    "roomy A p (length xs) \<Longrightarrow> contents p' = overwrite (contents p) (mDataPos p) xs"
    "roomy A p (length xs) \<Longrightarrow> mDataPos p' = mDataPos p + length xs"
  using assms by (auto simp: stores_def)

lemma size_after_store:
  assumes "parcel_ok p" and "parcel_ok p'"
    and "contents p' = overwrite (contents p) (mDataPos p) xs"
  shows "mDataSize p' \<le> mDataSize p + length xs"
proof -
  have "mDataSize p' = length (overwrite (contents p) (mDataPos p) xs)"
    using assms(2,3) length_contents [of p'] by simp
  moreover have "mDataPos p \<le> mDataSize p" using assms(1) by (simp add: parcel_ok_def)
  ultimately show ?thesis using assms(1) by (simp add: overwrite_def)
qed

lemma writeString16_stores:
  assumes "parcel_ok p" and "case s of Some us \<Rightarrow> 2 * length us \<le> INT32_MAX - 5 | None \<Rightarrow> True"
  shows "stores A p (enc_string16 s) (writeString16 A p s)"
proof (cases s)
  case None
  with assms(1) show ?thesis by (simp add: writeString16_def enc_string16_def writeInt32_stores)
next
  case (Some us)
  let ?h = "le32 (of_nat (length us))"
  let ?n = "2 * length us + 2"
  let ?xs = "units_bytes us @ le16 0"
  have n: "2 * length us \<le> INT32_MAX - 5" using assms(2) Some by simp
  have sz: "szadd (szmul (length us) 2) 2 = ?n" "szmul (length us) 2 = 2 * length us"
    using n by simp_all
  have len: "length (enc_string16 s) = 4 + (?n + padding ?n)"
    by (simp add: Some enc_string16_def)
  obtain st q where q: "writeInt32 A p (of_nat (length us)) = Some (st, q)" "parcel_ok q"
    "roomy A p 4 \<Longrightarrow> st = NO_ERROR \<and> contents q = overwrite (contents p) (mDataPos p) ?h \<and>
       mDataPos q = mDataPos p + 4"
    using writeInt32_stores [OF assms(1), of A "of_nat (length us)"] by (elim storesE) auto
  show ?thesis
  proof (cases "st = NO_ERROR")
    case False
    with q len show ?thesis by (auto simp: stores_def writeString16_def Some)
  next
    case True
    obtain d r where r: "writeInplace A q ?n = Some (d, r)" "parcel_ok r" and
      d: "d = None \<and> contents r = contents q \<and> mDataPos r = mDataPos q \<and> \<not> roomy A q (?n + padding ?n) \<or>
        d = Some (mDataPos q) \<and> mDataPos r = mDataPos q + ?n + padding ?n \<and>
        (\<exists>ys. length ys = ?n + padding ?n \<and> drop ?n ys = replicate (padding ?n) 0 \<and>
           contents r = overwrite (contents q) (mDataPos q) ys)"
      using writeInplace_spec [OF q(2), of ?n A] n by auto
    have room: "roomy A q (?n + padding ?n)" if "roomy A p (length (enc_string16 s))"
      using size_after_store [OF assms(1) q(2), of ?h] q(3) that len by simp
    from d show ?thesis
    proof (elim disjE exE conjE)
      assume a: "d = None" "\<not> roomy A q (?n + padding ?n)"
      then have no: "\<not> roomy A p (length (enc_string16 s))" using room by blast
      have "writeString16 A p s = Some (mError r, r)"
        using a(1) q(1) r(1) sz True by (simp add: writeString16_def Some)
      with no r(2) show ?thesis by (auto simp: stores_def)
    next
      fix ys
      assume a: "d = Some (mDataPos q)" "mDataPos r = mDataPos q + ?n + padding ?n"
        "length ys = ?n + padding ?n" "drop ?n ys = replicate (padding ?n) 0"
        "contents r = overwrite (contents q) (mDataPos q) ys"
      have fits: "mDataPos q + ?n \<le> mDataSize r"
        using r(2) a(2) by (simp add: parcel_ok_def)
      obtain r1 where r1: "poke r (mDataPos q) (units_bytes us) = Some r1" "parcel_ok r1"
        "mDataPos r1 = mDataPos r" "contents r1 = overwrite (contents r) (mDataPos q) (units_bytes us)"
        using poke_contents [OF r(2), of "mDataPos q" "units_bytes us"] fits by auto
      have "mDataSize r1 = mDataSize r"
        using length_contents [OF r1(2)] length_contents [OF r(2)] r1(4) fits by simp
      then obtain r2 where r2: "poke r1 (mDataPos q + 2 * length us) (le16 0) = Some r2" "parcel_ok r2"
        "mDataPos r2 = mDataPos r"
        "contents r2 = overwrite (contents r1) (mDataPos q + 2 * length us) (le16 0)"
        using poke_contents [OF r1(2), of "mDataPos q + 2 * length us" "le16 0"] fits r1(3) by auto
      have le: "mDataPos q \<le> length (contents q)" using q(2) by (simp add: parcel_ok_def)
      have "contents r2 = overwrite (contents r) (mDataPos q) ?xs"
        using overwrite_append [of "mDataPos q" "contents r" "units_bytes us" "le16 0"] r1(4) r2(4) fits r(2)
        by simp
      also have "\<dots> = overwrite (contents q) (mDataPos q) (enc_bytes ?xs)"
        unfolding a(5) enc_bytes_def by (rule overwrite_prefix [OF le]) (use a in auto)
      finally have c: "contents r2 = overwrite (contents q) (mDataPos q) (enc_bytes ?xs)" .
      have "contents r2 = overwrite (contents p) (mDataPos p) (enc_string16 s)
          \<and> mDataPos r2 = mDataPos p + length (enc_string16 s)" if "roomy A p (length (enc_string16 s))"
        using q(3) that c overwrite_append [of "mDataPos p" "contents p" ?h "enc_bytes ?xs"] assms(1)
          len a(2) r2(3) by (simp add: Some enc_string16_def parcel_ok_def)
      with q r r1 r2 a sz True show ?thesis by (simp add: stores_def writeString16_def Some)
    qed
  qed
qed


definition enc_string8 :: "cstr \<Rightarrow> u8 list option" where
  "enc_string8 s =
     (case s of
        None \<Rightarrow> Some (enc_string16 None)
      | Some bs \<Rightarrow> map_option (\<lambda>us. enc_string16 (Some us)) (from_bytes bs))"

lemma writeString8AsString16_stores:
  assumes "parcel_ok p" and "enc_string8 s = Some xs" and "length xs \<le> INT32_MAX"
  shows "stores A p xs (writeString8AsString16 A p s)"
proof (cases s)
  case None
  with assms show ?thesis
    by (auto simp: writeString8AsString16_def enc_string8_def enc_string16_def writeInt32_stores)
next
  case (Some bs)
  then obtain us where us: "from_bytes bs = Some us" "xs = enc_string16 (Some us)"
    using assms(2) by (auto simp: enc_string8_def)
  have "stores A p xs (writeString16 A p (Some us))"
    unfolding us(2) by (rule writeString16_stores) (use assms us in \<open>auto simp: enc_string16_def\<close>)
  with Some us show ?thesis
    using assms(1)
    by (cases "mem_ok A (2 * length us)")
      (auto simp: stores_def writeString8AsString16_def plenty_def)
qed

section \<open>What the readers return\<close>

text \<open>The parcel with its position moved on by \<open>n\<close>: a reader applied where its item comes next
  returns the item and the parcel past it.\<close>

definition skip :: "nat \<Rightarrow> parcel \<Rightarrow> parcel" where
  "skip n p = p\<lparr>mDataPos := mDataPos p + n\<rparr>"

lemma skip_simps [simp]:
  "mData (skip n p) = mData p" "mDataSize (skip n p) = mDataSize p" "mDataPos (skip n p) = mDataPos p + n"
  "mError (skip n p) = mError p" "contents (skip n p) = contents p" "skip m (skip n p) = skip (n + m) p"
  "skip 0 p = p"
  by (simp_all add: skip_def contents_def)

lemma unread_skip [simp]: "unread (skip n p) = drop n (unread p)"
  by (simp add: unread_def add.commute)

lemma length_unread [simp]: "parcel_ok p \<Longrightarrow> length (unread p) = mDataSize p - mDataPos p"
  by (simp add: unread_def)

lemma parcel_ok_skip [simp]: "parcel_ok p \<Longrightarrow> n \<le> mDataSize p - mDataPos p \<Longrightarrow> parcel_ok (skip n p)"
  by (auto simp: parcel_ok_def skip_def)

lemma unread_append:
  assumes "parcel_ok p" and "unread p = xs @ r"
  shows "mDataPos p + length xs \<le> mDataSize p" "parcel_ok (skip (length xs) p)"
    "mDataPos p + length xs \<le> INT32_MAX"
proof -
  have "mDataSize p - mDataPos p = length xs + length r"
    using assms length_unread [of p] by simp
  moreover have "mDataPos p \<le> mDataSize p" "mDataSize p \<le> INT32_MAX"
    using assms(1) by (auto simp: parcel_ok_def)
  ultimately show "mDataPos p + length xs \<le> mDataSize p" "parcel_ok (skip (length xs) p)"
    "mDataPos p + length xs \<le> INT32_MAX"
    using assms(1) by auto
qed

lemma peek_unread:
  assumes "parcel_ok p" and "unread p = xs @ r"
  shows "peek p (mDataPos p) (length xs) = Some xs"
  using peek_contents [OF assms(1) unread_append(1) [OF assms]] assms(2) by (simp add: unread_def)

lemma readAligned_reads:
  fixes w :: "'a::len word"
  assumes "parcel_ok p" and "unread p = le_bytes (LENGTH('a) div 8) w @ r" and "LENGTH('a) = 8 * n"
  shows "readAligned p (t :: 'a word) = Some (NO_ERROR, w, skip (LENGTH('a) div 8) p)"
proof -
  let ?xs = "le_bytes (LENGTH('a) div 8) w"
  note u = unread_append [OF assms(1,2), unfolded length_le_bytes]
  have sz: "szadd (mDataPos p) (LENGTH('a) div 8) = mDataPos p + LENGTH('a) div 8"
    using u(3) by (intro szadd_small) linarith
  have "peek p (mDataPos p) (LENGTH('a) div 8) = Some ?xs"
    using peek_unread [OF assms(1,2)] by simp
  moreover have "(le_word ?xs :: 'a word) = w" by (rule le_word_le_bytes) (simp add: assms(3))
  ultimately show ?thesis
    using u(1) sz by (simp add: readAligned_def Let_def skip_def)
qed

lemma readAligned_short:
  assumes "parcel_ok p" and "length (unread p) < LENGTH('a::len) div 8" and "LENGTH('a) \<le> 64"
  shows "readAligned p (t :: 'a word) = Some (NOT_ENOUGH_DATA, t, p)"
proof -
  have "LENGTH('a) div 8 \<le> 8" using assms(3) by simp
  then show ?thesis using assms(1,2) by (auto simp: readAligned_def parcel_ok_def Let_def)
qed

lemma readInt32_ptr_reads:
  "parcel_ok p \<Longrightarrow> unread p = le32 w @ r \<Longrightarrow> readInt32_ptr p t = Some (NO_ERROR, w, skip 4 p)"
  using readAligned_reads [of p w r 4 t] by (simp add: readInt32_ptr_def)

lemma readInt32_ptr_short:
  "parcel_ok p \<Longrightarrow> length (unread p) < 4 \<Longrightarrow> readInt32_ptr p t = Some (NOT_ENOUGH_DATA, t, p)"
  using readAligned_short [of p t] by (simp add: readInt32_ptr_def)

lemma readUint64_ptr_reads:
  "parcel_ok p \<Longrightarrow> unread p = le64 w @ r \<Longrightarrow> readUint64_ptr p t = Some (NO_ERROR, w, skip 8 p)"
  using readAligned_reads [of p w r 8 t] by (simp add: readUint64_ptr_def)

lemma readInt32_reads: "parcel_ok p \<Longrightarrow> unread p = le32 w @ r \<Longrightarrow> readInt32 p = Some (w, skip 4 p)"
  using readAligned_reads [of p w r 4 0] by (simp add: readInt32_def readAligned0_def)

lemma readInt32_short: "parcel_ok p \<Longrightarrow> length (unread p) < 4 \<Longrightarrow> readInt32 p = Some (0, p)"
  using readAligned_short [of p "0 :: u32"] by (simp add: readInt32_def readAligned0_def)

text \<open>Either an integer is there, or the read fails and leaves the parcel as it was, so that
  every later read of the same size fails too.\<close>

lemma int32_cases:
  assumes "parcel_ok p"
  obtains (int) w r where "unread p = le32 w @ r"
    | (short) "length (unread p) < 4"
proof (cases "length (unread p) < 4")
  case False
  let ?w = "le_word (take 4 (unread p)) :: u32"
  have "le32 ?w = take 4 (unread p)"
    using le_bytes_le_word [of "take 4 (unread p)", where 'a = 32] False by simp
  then have "unread p = le32 ?w @ drop 4 (unread p)" by simp
  then show thesis by (rule int)
qed (rule short)

lemma readInplace_reads:
  assumes "parcel_ok p" and "unread p = xs @ zs @ r" and "xs \<noteq> []" and "length zs = padding (length xs)"
  shows "readInplace p (length xs) = Some (Some (mDataPos p), skip (length xs + padding (length xs)) p)"
proof -
  let ?n = "length xs"
  have "unread p = (xs @ zs) @ r" using assms(2) by simp
  note f = unread_append [OF assms(1) this, unfolded length_append assms(4)]
  have pad: "pad_size ?n = Some (?n + padding ?n)" using f(3) by (intro pad_size_eq) linarith
  have sz: "szadd (mDataPos p) (?n + padding ?n) = mDataPos p + (?n + padding ?n)"
    using f(3) by (intro szadd_small) linarith
  have ne: "mData p \<noteq> NullBuf"
    using f(1) assms(1,3) by (auto simp: parcel_ok_def)
  show ?thesis
    using f ne by (simp add: readInplace_def pad read_guard_def sz skip_def)
qed

lemma readInplace_short:
  assumes "parcel_ok p" and "length (unread p) < n + padding n"
  shows "readInplace p n = Some (None, p)"
proof (cases "n > INT32_MAX")
  case True
  then show ?thesis by (simp add: readInplace_def)
next
  case False
  then have pad: "pad_size n = Some (n + padding n)" by (intro pad_size_eq) linarith
  have "padding n \<le> 3" by simp
  moreover have "mDataPos p \<le> INT32_MAX" using assms(1) by (simp add: parcel_ok_def)
  ultimately have sz: "szadd (mDataPos p) (n + padding n) = mDataPos p + (n + padding n)"
    using False by (intro szadd_small) linarith
  show ?thesis
    using assms False by (auto simp: readInplace_def pad read_guard_def sz parcel_ok_def)
qed

lemma parcel_read_reads:
  assumes "parcel_ok p" and "unread p = enc_bytes xs @ r" and "length out = length xs"
  shows "parcel_read p out = Some (NO_ERROR, xs, skip (length (enc_bytes xs)) p)"
proof -
  let ?n = "length xs"
  note f = unread_append [OF assms(1,2), unfolded length_enc_bytes]
  have pad: "pad_size ?n = Some (?n + padding ?n)" using f(3) by (intro pad_size_eq) linarith
  have sz: "szadd (mDataPos p) (?n + padding ?n) = mDataPos p + (?n + padding ?n)"
    using f(3) by (intro szadd_small) linarith
  have "peek p (mDataPos p) ?n = Some xs"
    using peek_unread [OF assms(1), of xs] assms(2) by (simp add: enc_bytes_def)
  then show ?thesis
    using f assms(3) by (simp add: parcel_read_def pad read_guard_def sz Let_def skip_def)
qed

lemma sint_of_nat_small: "n < 2 ^ 31 \<Longrightarrow> sint (of_nat n :: u32) = int n"
  by (simp add: signed_of_nat signed_take_bit_int_eq_self)

text \<open>\<open>readString16Inplace\<close> hands out a pointer to the units, with their terminator behind them.\<close>

lemma readString16Inplace_reads:
  assumes "parcel_ok p" and "unread p = enc_string16 (Some us) @ r"
  shows "readString16Inplace p =
     Some (Some (mDataPos p + 4), length us, skip (length (enc_string16 (Some us))) p)"
proof -
  let ?h = "le32 (of_nat (length us))"
  let ?xs = "units_bytes us @ le16 0"
  have u: "unread p = ?h @ ?xs @ replicate (padding (length ?xs)) 0 @ r"
    using assms(2) by (simp add: enc_string16_def enc_bytes_def)
  note h = unread_append [OF assms(1) u, unfolded length_le_bytes]
  have u1: "unread (skip 4 p) = ?xs @ replicate (padding (length ?xs)) 0 @ r" by (simp add: u)
  have "2 * length us \<le> INT32_MAX"
    using unread_append(3) [OF h(2) u1] by simp
  then have sz: "sint (of_nat (length us) :: u32) = int (length us)"
    by (intro sint_of_nat_small) simp
  have "readInplace (skip 4 p) (length ?xs) =
     Some (Some (mDataPos p + 4), skip (length (enc_string16 (Some us))) p)"
    using readInplace_reads [OF h(2) u1] by (simp add: enc_string16_def add.assoc)
  then show ?thesis
    using readInt32_reads [OF assms(1) u] sz \<open>2 * length us \<le> INT32_MAX\<close>
    by (simp add: readString16Inplace_def algebra_simps)
qed

lemma readString16Inplace_null:
  assumes "parcel_ok p" and "unread p = enc_string16 None @ r"
  shows "readString16Inplace p = Some (None, 0, skip 4 p)"
  using readInt32_reads [OF assms(1), of "- 1" r] assms(2)
  by (simp add: readString16Inplace_def enc_string16_def)

lemma string16_block:
  assumes "parcel_ok p" and "unread p = enc_string16 (Some us) @ r"
  shows "take (2 * length us + 2) (drop (mDataPos p + 4) (contents p)) = units_bytes us @ le16 0"
proof -
  have "drop (mDataPos p + 4) (contents p) = drop 4 (unread p)" by (simp add: unread_def add.commute)
  then show ?thesis using assms(2) by (simp add: enc_string16_def enc_bytes_def)
qed

lemma readString16_reads:
  assumes "parcel_ok p" and "unread p = enc_string16 (Some us) @ r"
  shows "readString16 p = Some (us, skip (length (enc_string16 (Some us))) p)"
proof -
  let ?n = "2 * length us"
  have ok: "parcel_ok (skip (length (enc_string16 (Some us))) p)" by (rule unread_append(2) [OF assms])
  have le: "mDataPos p + 4 + ?n \<le> mDataSize p"
    using unread_append(1) [OF assms] by (simp add: enc_string16_def)
  have "take ?n (drop (mDataPos p + 4) (contents p)) = units_bytes us"
    using arg_cong [OF string16_block [OF assms], of "take ?n"] by (simp add: min_def)
  then have "peek (skip (length (enc_string16 (Some us))) p) (mDataPos p + 4) ?n = Some (units_bytes us)"
    using peek_contents [OF ok, of "mDataPos p + 4" ?n] le by simp
  then show ?thesis
    using readString16Inplace_reads [OF assms] by (simp add: readString16_def)
qed


lemma readInt32_ptr_ok:
  assumes "parcel_ok p"
  obtains st w k where "readInt32_ptr p t = Some (st, w, skip k p)" "parcel_ok (skip k p)"
  using assms
proof (cases rule: int32_cases)
  case (int w r)
  have "readInt32_ptr p t = Some (NO_ERROR, w, skip 4 p)"
    using readInt32_ptr_reads [OF assms int] .
  with unread_append(2) [OF assms int] show thesis using that by simp
next
  case short
  then have "readInt32_ptr p t = Some (NOT_ENOUGH_DATA, t, skip 0 p)"
    using readInt32_ptr_short [OF assms] by simp
  with assms show thesis using that [of NOT_ENOUGH_DATA t 0] by simp
qed

lemma readInt32_ok:
  assumes "parcel_ok p"
  obtains w k where "readInt32 p = Some (w, skip k p)" "parcel_ok (skip k p)"
  using assms
proof (cases rule: int32_cases)
  case (int w r)
  have "readInt32 p = Some (w, skip 4 p)" using readInt32_reads [OF assms int] .
  with unread_append(2) [OF assms int] show thesis using that by simp
next
  case short
  then have "readInt32 p = Some (0, skip 0 p)" using readInt32_short [OF assms] by simp
  with assms show thesis using that [of 0 0] by simp
qed

lemma readInplace_ok:
  assumes "parcel_ok p" and "0 < n"
  obtains "readInplace p n = Some (None, p)"
    | "readInplace p n = Some (Some (mDataPos p), skip (n + padding n) p)"
      "parcel_ok (skip (n + padding n) p)" "mDataPos p + n \<le> mDataSize p"
proof (cases "length (unread p) < n + padding n")
  case True
  then show thesis using readInplace_short [OF assms(1)] that(1) by blast
next
  case False
  let ?xs = "take n (unread p)" and ?zs = "take (padding n) (drop n (unread p))"
  have len: "length ?xs = n" "length ?zs = padding n" using False by auto
  have "unread p = ?xs @ ?zs @ drop (n + padding n) (unread p)"
    by (metis add.commute append_take_drop_id drop_drop)
  then have "readInplace p n = Some (Some (mDataPos p), skip (n + padding n) p)"
    using readInplace_reads [OF assms(1), of ?xs ?zs] assms(2) len by (metis length_0_conv less_numeral_extra(3))
  moreover have "mDataPos p + n \<le> mDataSize p" using False assms by simp
  ultimately show thesis using that(2) False assms(1) by simp
qed

text \<open>Reading a string never leaves the block, and a pointer it returns has the announced units
  and two more bytes inside the data.\<close>

lemma readString16Inplace_ok:
  assumes "parcel_ok p"
  obtains off n k where "readString16Inplace p = Some (off, n, skip k p)" "parcel_ok (skip k p)"
    "\<And>q. off = Some q \<Longrightarrow> q + 2 * n + 2 \<le> mDataSize p"
proof -
  obtain w k where w: "readInt32 p = Some (w, skip k p)" and ok: "parcel_ok (skip k p)"
    by (rule readInt32_ok [OF assms])
  show thesis
  proof (cases "sint w \<ge> 0 \<and> sint w < int INT32_MAX")
    case True
    let ?n = "(nat (sint w) + 1) * 2"
    have "0 < ?n" by simp
    with ok show thesis
    proof (cases rule: readInplace_ok [where n = ?n])
      case 1
      then show thesis
        using that [of None 0 k] True w ok by (simp add: readString16Inplace_def)
    next
      case 2
      then show thesis
        using that [of "Some (mDataPos p + k)" "nat (sint w)" "k + (?n + padding ?n)"] True w
        by (simp add: readString16Inplace_def)
    qed
  next
    case False
    then show thesis
      using that [of None 0 k] w ok by (auto simp: readString16Inplace_def)
  qed
qed

lemma setData_ok:
  assumes "length buffer \<le> INT32_MAX" and "plenty A"
  shows "\<exists>p. setData A initState buffer = Some (NO_ERROR, p) \<and> parcel_ok p \<and> contents p = buffer \<and>
     mDataPos p = 0"
  using assms
  by (cases "buffer = []")
    (auto simp: setData_def restartWrite_def initState_def malloc_def plenty_def poke_def parcel_ok_def
      contents_def overwrite_def Let_def)

section \<open>The parcel as a byte source and a byte sink\<close>

interpretation int32: decoder parcel_ok unread skip readInt32 le32 "\<lambda>_. True"
proof unfold_locales
  show "\<And>s n. parcel_ok s \<Longrightarrow> n \<le> length (unread s) \<Longrightarrow> parcel_ok (skip n s)" by simp
next
  show "\<And>x s r. True \<Longrightarrow> parcel_ok s \<Longrightarrow> unread s = le32 x @ r \<Longrightarrow> readInt32 s = Some (x, skip (length (le32 x)) s)"
    by (simp add: readInt32_reads)
qed simp_all

interpretation string16: decoder parcel_ok unread skip readString16 "\<lambda>us. enc_string16 (Some us)" "\<lambda>_. True"
  by unfold_locales (rule readString16_reads)

text \<open>An item of a message and its wire form; \<open>put\<close> is the call that writes it, its status
  ignored as the response writers ignore it.\<close>

datatype witem = WInt32 u32 | WInt64 u64 | WStr cstr | WBytes "u8 list"

definition enc_str :: "cstr \<Rightarrow> u8 list" where
  "enc_str s = (case enc_string8 s of Some xs \<Rightarrow> xs | None \<Rightarrow> [])"

fun enc_witem :: "witem \<Rightarrow> u8 list" where
  "enc_witem (WInt32 w) = le32 w"
| "enc_witem (WInt64 w) = le64 w"
| "enc_witem (WStr s) = enc_str s"
| "enc_witem (WBytes xs) = enc_bytes xs"

fun witem_ok :: "witem \<Rightarrow> bool" where
  "witem_ok (WStr s) = (enc_string8 s \<noteq> None)"
| "witem_ok (WBytes xs) = (xs \<noteq> [])"
| "witem_ok _ = True"

fun put :: "allocator \<Rightarrow> witem \<Rightarrow> parcel \<Rightarrow> parcel option" where
  "put A (WInt32 w) p = map_option snd (writeInt32 A p w)"
| "put A (WInt64 w) p = map_option snd (writeInt64 A p w)"
| "put A (WStr s) p = map_option snd (writeString8AsString16 A p s)"
| "put A (WBytes xs) p = map_option snd (parcel_write A p xs)"

definition at_end :: "parcel \<Rightarrow> bool" where
  "at_end p \<longleftrightarrow> parcel_ok p \<and> mDataPos p = mDataSize p"

lemma at_end_initState [simp]: "at_end initState"
  by (simp add: at_end_def) (simp add: initState_def)

lemma stores_at_end:
  assumes "stores A p xs m" and "at_end p" and "roomy A p (length xs)"
  shows "\<exists>p'. map_option snd m = Some p' \<and> at_end p' \<and> contents p' = contents p @ xs \<and>
     mDataSize p' = mDataSize p + length xs"
proof -
  from assms(1) obtain st p' where p': "m = Some (st, p')" "parcel_ok p'"
    "contents p' = overwrite (contents p) (mDataPos p) xs" "mDataPos p' = mDataPos p + length xs"
    using assms(3) by (elim storesE) blast
  have "length (contents p) = mDataPos p" using assms(2) by (simp add: at_end_def)
  then have c: "contents p' = contents p @ xs"
    using p'(3) overwrite_append_end [of "contents p" xs] by simp
  then have "mDataSize p' = mDataSize p + length xs"
    using length_contents [OF p'(2)] assms(2) by (simp add: at_end_def)
  with c p' assms(2) show ?thesis by (simp add: at_end_def)
qed

lemma put_stores:
  assumes "witem_ok i" and "at_end p" and "roomy A p (length (enc_witem i))"
  shows "\<exists>p'. put A i p = Some p' \<and> at_end p' \<and> contents p' = contents p @ enc_witem i \<and>
     mDataSize p' = mDataSize p + length (enc_witem i)"
proof -
  have ok: "parcel_ok p" using assms(2) by (simp add: at_end_def)
  show ?thesis
  proof (cases i)
    case (WInt32 w)
    with stores_at_end [OF writeInt32_stores [OF ok] assms(2)] assms(3) show ?thesis by simp
  next
    case (WInt64 w)
    with stores_at_end [OF writeInt64_stores [OF ok] assms(2)] assms(3) show ?thesis by simp
  next
    case (WStr s)
    then obtain xs where xs: "enc_string8 s = Some xs" using assms(1) by auto
    then have "length xs \<le> INT32_MAX" using assms(3) WStr by (simp add: enc_str_def)
    from stores_at_end [OF writeString8AsString16_stores [OF ok xs this] assms(2)] assms(3) WStr xs
    show ?thesis by (simp add: enc_str_def)
  next
    case (WBytes xs)
    then have "length xs \<le> INT32_MAX - 3" "xs \<noteq> []" using assms(1,3) by auto
    from stores_at_end [OF parcel_write_stores [OF ok this] assms(2)] assms(3) WBytes
    show ?thesis by simp
  qed
qed

interpretation sink: byte_sink at_end contents "roomy A" "put A" enc_witem witem_ok for A
proof unfold_locales
  fix i p
  assume "witem_ok i" "at_end p" "roomy A p (length (enc_witem i))"
  from put_stores [OF this] show "\<exists>p'. put A i p = Some p' \<and> at_end p' \<and>
      contents p' = contents p @ enc_witem i \<and>
      (\<forall>n. roomy A p (length (enc_witem i) + n) \<longrightarrow> roomy A p' n)"
    by (auto simp: add.assoc)
next
  fix p m n
  assume "roomy A p m" "n \<le> m"
  then show "roomy A p n" by auto
qed

end
