(* ===== verification/RilTypes.thy ===== *)
theory RilTypes
  imports Prelude
begin

text \<open>
  The C structures of \<open>services/ril/include/telephony/ril.h\<close> and \<open>ril_cdma_sms.h\<close> that a
  request carries to the vendor library, and the enumerations the daemon interprets. An \<open>int\<close>
  and an \<open>enum\<close> field is the 32-bit word stored in it, a \<open>char *\<close> field is a \<open>cstr\<close>.
\<close>

section \<open>Enumerations\<close>

datatype RIL_RadioState =
    RADIO_STATE_OFF | RADIO_STATE_UNAVAILABLE | RADIO_STATE_SIM_NOT_READY
  | RADIO_STATE_SIM_LOCKED_OR_ABSENT | RADIO_STATE_SIM_READY | RADIO_STATE_RUIM_NOT_READY
  | RADIO_STATE_RUIM_READY | RADIO_STATE_RUIM_LOCKED_OR_ABSENT | RADIO_STATE_NV_NOT_READY
  | RADIO_STATE_NV_READY | RADIO_STATE_ON

fun radio_state_val :: "RIL_RadioState \<Rightarrow> int" where
  "radio_state_val RADIO_STATE_OFF = 0"
| "radio_state_val RADIO_STATE_UNAVAILABLE = 1"
| "radio_state_val RADIO_STATE_SIM_NOT_READY = 2"
| "radio_state_val RADIO_STATE_SIM_LOCKED_OR_ABSENT = 3"
| "radio_state_val RADIO_STATE_SIM_READY = 4"
| "radio_state_val RADIO_STATE_RUIM_NOT_READY = 5"
| "radio_state_val RADIO_STATE_RUIM_READY = 6"
| "radio_state_val RADIO_STATE_RUIM_LOCKED_OR_ABSENT = 7"
| "radio_state_val RADIO_STATE_NV_NOT_READY = 8"
| "radio_state_val RADIO_STATE_NV_READY = 9"
| "radio_state_val RADIO_STATE_ON = 10"

text \<open>The C comparisons of radio states are those of their values.\<close>

instantiation RIL_RadioState :: linorder
begin

definition less_eq_RIL_RadioState :: "RIL_RadioState \<Rightarrow> RIL_RadioState \<Rightarrow> bool" where
  "less_eq_RIL_RadioState a b \<longleftrightarrow> radio_state_val a \<le> radio_state_val b"

definition less_RIL_RadioState :: "RIL_RadioState \<Rightarrow> RIL_RadioState \<Rightarrow> bool" where
  "less_RIL_RadioState a b \<longleftrightarrow> radio_state_val a < radio_state_val b"

instance
proof
  fix a b c :: RIL_RadioState
  show "a < b \<longleftrightarrow> a \<le> b \<and> \<not> b \<le> a"
    by (auto simp: less_eq_RIL_RadioState_def less_RIL_RadioState_def)
  show "a \<le> a" by (simp add: less_eq_RIL_RadioState_def)
  show "a \<le> b \<Longrightarrow> b \<le> c \<Longrightarrow> a \<le> c" by (simp add: less_eq_RIL_RadioState_def)
  show "a \<le> b \<Longrightarrow> b \<le> a \<Longrightarrow> a = b"
    unfolding less_eq_RIL_RadioState_def by (cases a; cases b) simp_all
  show "a \<le> b \<or> b \<le> a" by (auto simp: less_eq_RIL_RadioState_def)
qed

end

abbreviation RADIO_TECH_UMTS :: int where "RADIO_TECH_UMTS \<equiv> 3"
abbreviation RADIO_TECH_1xRTT :: int where "RADIO_TECH_1xRTT \<equiv> 6"
abbreviation CDMA_SUBSCRIPTION_SOURCE_RUIM_SIM :: int where "CDMA_SUBSCRIPTION_SOURCE_RUIM_SIM \<equiv> 0"
abbreviation CDMA_SUBSCRIPTION_SOURCE_NV :: int where "CDMA_SUBSCRIPTION_SOURCE_NV \<equiv> 1"

abbreviation RADIO_TECH_3GPP :: u32 where "RADIO_TECH_3GPP \<equiv> 1"
abbreviation RADIO_TECH_3GPP2 :: u32 where "RADIO_TECH_3GPP2 \<equiv> 2"

type_synonym RIL_Errno = u32

abbreviation RIL_E_SUCCESS :: RIL_Errno where "RIL_E_SUCCESS \<equiv> 0"
abbreviation RIL_E_RADIO_NOT_AVAILABLE :: RIL_Errno where "RIL_E_RADIO_NOT_AVAILABLE \<equiv> 1"
abbreviation RIL_E_GENERIC_FAILURE :: RIL_Errno where "RIL_E_GENERIC_FAILURE \<equiv> 2"
abbreviation RIL_E_REQUEST_NOT_SUPPORTED :: RIL_Errno where "RIL_E_REQUEST_NOT_SUPPORTED \<equiv> 6"
abbreviation RIL_E_INVALID_ARGUMENTS :: RIL_Errno where "RIL_E_INVALID_ARGUMENTS \<equiv> 44"

definition decodeVoiceRadioTechnology :: "RIL_RadioState \<Rightarrow> int" where
  "decodeVoiceRadioTechnology radioState =
     (case radioState of
        RADIO_STATE_SIM_NOT_READY \<Rightarrow> RADIO_TECH_UMTS
      | RADIO_STATE_SIM_LOCKED_OR_ABSENT \<Rightarrow> RADIO_TECH_UMTS
      | RADIO_STATE_SIM_READY \<Rightarrow> RADIO_TECH_UMTS
      | RADIO_STATE_RUIM_NOT_READY \<Rightarrow> RADIO_TECH_1xRTT
      | RADIO_STATE_RUIM_READY \<Rightarrow> RADIO_TECH_1xRTT
      | RADIO_STATE_RUIM_LOCKED_OR_ABSENT \<Rightarrow> RADIO_TECH_1xRTT
      | RADIO_STATE_NV_NOT_READY \<Rightarrow> RADIO_TECH_1xRTT
      | RADIO_STATE_NV_READY \<Rightarrow> RADIO_TECH_1xRTT
      | _ \<Rightarrow> - 1)"

definition decodeCdmaSubscriptionSource :: "RIL_RadioState \<Rightarrow> int" where
  "decodeCdmaSubscriptionSource radioState =
     (case radioState of
        RADIO_STATE_SIM_NOT_READY \<Rightarrow> CDMA_SUBSCRIPTION_SOURCE_RUIM_SIM
      | RADIO_STATE_SIM_LOCKED_OR_ABSENT \<Rightarrow> CDMA_SUBSCRIPTION_SOURCE_RUIM_SIM
      | RADIO_STATE_SIM_READY \<Rightarrow> CDMA_SUBSCRIPTION_SOURCE_RUIM_SIM
      | RADIO_STATE_RUIM_NOT_READY \<Rightarrow> CDMA_SUBSCRIPTION_SOURCE_RUIM_SIM
      | RADIO_STATE_RUIM_READY \<Rightarrow> CDMA_SUBSCRIPTION_SOURCE_RUIM_SIM
      | RADIO_STATE_RUIM_LOCKED_OR_ABSENT \<Rightarrow> CDMA_SUBSCRIPTION_SOURCE_RUIM_SIM
      | RADIO_STATE_NV_NOT_READY \<Rightarrow> CDMA_SUBSCRIPTION_SOURCE_NV
      | RADIO_STATE_NV_READY \<Rightarrow> CDMA_SUBSCRIPTION_SOURCE_NV
      | _ \<Rightarrow> - 1)"

definition decodeSimStatus :: "RIL_RadioState \<Rightarrow> int" where
  "decodeSimStatus radioState =
     (case radioState of
        RADIO_STATE_SIM_LOCKED_OR_ABSENT \<Rightarrow> radio_state_val radioState
      | RADIO_STATE_SIM_READY \<Rightarrow> radio_state_val radioState
      | RADIO_STATE_RUIM_READY \<Rightarrow> radio_state_val radioState
      | RADIO_STATE_RUIM_LOCKED_OR_ABSENT \<Rightarrow> radio_state_val radioState
      | _ \<Rightarrow> - 1)"

text \<open>IS95A, IS95B, 1xRTT, EVDO\_0, EVDO\_A, EVDO\_B and EHRPD.\<close>

definition is3gpp2 :: "int \<Rightarrow> bool" where
  "is3gpp2 radioTech \<longleftrightarrow> radioTech \<in> {4, 5, 6, 7, 8, 12, 13}"

section \<open>Request structures\<close>

record RIL_SMS_WriteArgs =
  sms_status :: u32
  sms_pdu :: cstr
  sms_smsc :: cstr

record RIL_UUS_Info =
  uusType :: u32
  uusDcs :: u32
  uusLength :: u32
  uusData :: "u8 list option"

record RIL_Dial =
  dial_address :: cstr
  dial_clir :: u32
  dial_uusInfo :: "RIL_UUS_Info option"

record RIL_SIM_IO_v6 =
  io_command :: u32
  io_fileid :: u32
  io_path :: cstr
  io_p1 :: u32
  io_p2 :: u32
  io_p3 :: u32
  io_data :: cstr
  io_pin2 :: cstr
  io_aidPtr :: cstr

record RIL_SIM_APDU =
  apdu_sessionid :: u32
  apdu_cla :: u32
  apdu_instruction :: u32
  apdu_p1 :: u32
  apdu_p2 :: u32
  apdu_p3 :: u32
  apdu_data :: cstr

record RIL_CallForwardInfo =
  cff_status :: u32
  cff_reason :: u32
  cff_serviceClass :: u32
  cff_toa :: u32
  cff_number :: cstr
  cff_timeSeconds :: u32

record RIL_CDMA_SMS_Address =
  digit_mode :: u32
  number_mode :: u32
  number_type :: u32
  number_plan :: u32
  adr_number_of_digits :: u8
  adr_digits :: "u8 list"

record RIL_CDMA_SMS_Subaddress =
  subaddressType :: u32
  sub_odd :: u8
  sub_number_of_digits :: u8
  sub_digits :: "u8 list"

record RIL_CDMA_SMS_Message =
  uTeleserviceID :: u32
  bIsServicePresent :: u8
  uServicecategory :: u32
  sAddress :: RIL_CDMA_SMS_Address
  sSubAddress :: RIL_CDMA_SMS_Subaddress
  uBearerDataLen :: u32
  aBearerData :: "u8 list"

abbreviation RIL_CDMA_SMS_ADDRESS_MAX :: nat where "RIL_CDMA_SMS_ADDRESS_MAX \<equiv> 36"
abbreviation RIL_CDMA_SMS_SUBADDRESS_MAX :: nat where "RIL_CDMA_SMS_SUBADDRESS_MAX \<equiv> 36"
abbreviation RIL_CDMA_SMS_BEARER_DATA_MAX :: nat where "RIL_CDMA_SMS_BEARER_DATA_MAX \<equiv> 255"

record RIL_GSM_BroadcastSmsConfigInfo =
  fromServiceId :: u32
  toServiceId :: u32
  fromCodeScheme :: u32
  toCodeScheme :: u32
  gsm_selected :: u8

record RIL_CDMA_BroadcastSmsConfigInfo =
  service_category :: u32
  language :: u32
  cdma_selected :: u8

record RIL_InitialAttachApn =
  iaa_apn :: cstr
  iaa_protocol :: cstr
  iaa_authtype :: u32
  iaa_username :: cstr
  iaa_password :: cstr

record RIL_SelectUiccSub =
  uicc_slot :: u32
  uicc_app_index :: u32
  uicc_sub_type :: u32
  uicc_act_status :: u32

record RIL_SimAuthentication =
  authContext :: u32
  authData :: cstr
  auth_aid :: cstr

record RIL_DataProfileInfo =
  profileId :: u32
  dp_apn :: cstr
  dp_protocol :: cstr
  dp_authType :: u32
  dp_user :: cstr
  dp_password :: cstr
  dp_type :: u32
  maxConnsTime :: u32
  maxConns :: u32
  waitTime :: u32
  dp_enabled :: u32

record RIL_RadioCapability =
  rc_version :: u32
  rc_session :: u32
  rc_phase :: u32
  rc_rat :: u32
  rc_status :: u32

record RIL_Carrier =
  mcc :: cstr
  mnc :: cstr
  match_type :: u32
  match_data :: cstr

record RIL_CarrierRestrictions =
  allowed_carriers :: "RIL_Carrier list"
  excluded_carriers :: "RIL_Carrier list"

abbreviation RIL_MAX_NUM_EMAIL_COUNT :: nat where "RIL_MAX_NUM_EMAIL_COUNT \<equiv> 2"
abbreviation RIL_MAX_NUM_AD_COUNT :: nat where "RIL_MAX_NUM_AD_COUNT \<equiv> 4"

text \<open>The two arrays are the entries that were assigned, the first \<open>email_elements\<close> and
  \<open>anr_elements\<close> of them.\<close>

record RIL_AdnRecordInfo =
  record_id :: u32
  adn_name :: cstr
  adn_number :: cstr
  email_elements :: u32
  adn_email :: "cstr list"
  anr_elements :: u32
  adn_ad_number :: "cstr list"

text \<open>What the \<open>data\<close> argument of \<open>onRequest\<close> points to.\<close>

datatype rdata =
    DNull
  | DString cstr
  | DStrings "cstr list option"
  | DInts "u32 list"
  | DSmsWrite RIL_SMS_WriteArgs
  | DDial RIL_Dial
  | DSimIO RIL_SIM_IO_v6
  | DSimAPDU RIL_SIM_APDU
  | DCallForward RIL_CallForwardInfo
  | DRaw "u8 list option"
  | DCdmaSms RIL_CDMA_SMS_Message
  | DImsGsm u8 u32 "cstr list option"
  | DImsCdma u8 u32 RIL_CDMA_SMS_Message
  | DCdmaSmsAck u32 u32
  | DGsmBr "RIL_GSM_BroadcastSmsConfigInfo list"
  | DCdmaBr "RIL_CDMA_BroadcastSmsConfigInfo list"
  | DCdmaSmsWrite u32 RIL_CDMA_SMS_Message
  | DInitialAttachApn RIL_InitialAttachApn
  | DNVReadItem u32
  | DNVWriteItem u32 cstr
  | DSelectUiccSub RIL_SelectUiccSub
  | DSimAuthentication RIL_SimAuthentication
  | DDataProfiles "RIL_DataProfileInfo list"
  | DRadioCapability RIL_RadioCapability
  | DCarrierRestrictions RIL_CarrierRestrictions
  | DOpenChannel u8 cstr
  | DAdnRecord RIL_AdnRecordInfo

end
