(* ===== verification/RilDispatch.thy ===== *)
theory RilDispatch
  imports ParcelFacts RilTypes
begin

text \<open>
  The request side of \<open>services/ril/libril/ril.cpp\<close>: how \<open>processCommandBuffer\<close>'s dispatch
  functions take a request apart and hand it to the vendor library. A dispatch function returns
  the calls it makes, in order; \<open>None\<close> is a run that leaves defined behaviour (a string with no
  terminator in the block, an exception of the string conversion, a store past an array).
\<close>

section \<open>Environment and effects\<close>

text \<open>
  What a dispatch function depends on besides the parcel: the allocator, how much a
  variable-length array may take of the stack, what uninitialised locals hold, the version the
  vendor library registered with, its current radio state, and what \<open>isDebuggable\<close> says.
\<close>

record env =
  env_alloc :: allocator
  stack_ok :: "nat \<Rightarrow> bool"
  junk32 :: u32
  junk8 :: u8
  callbacks_version :: int
  onStateRequest :: RIL_RadioState
  debuggable :: bool

datatype effect =
    OnRequest rdata nat  \<comment> \<open>\<open>CALL_ONREQUEST\<close> with \<open>data\<close> and \<open>datalen\<close>\<close>
  | Complete RIL_Errno "u32 option"  \<comment> \<open>\<open>RIL_onRequestComplete\<close>, with an \<open>int\<close> payload or none\<close>
  | SetVoiceRadioTech int
  | SetCdmaSubscriptionSource int
  | InvalidCommandBlock
  | AllocFailed

text \<open>\<open>int32_t\<close> converted to \<open>size_t\<close>.\<close>

definition to_size :: "u32 \<Rightarrow> nat" where
  "to_size w = unat (scast w :: u64)"

definition calloc_ok :: "env \<Rightarrow> nat \<Rightarrow> nat \<Rightarrow> bool" where
  "calloc_ok E n sz \<longleftrightarrow> n * sz \<le> SIZE_T_MAX \<and> mem_ok (env_alloc E) (n * sz)"

definition signed_min :: "u32 \<Rightarrow> nat \<Rightarrow> nat" where
  "signed_min a b = (if sint a < int b then nat (sint a) else b)"

section \<open>Strings\<close>

text \<open>The units before the first zero unit; \<open>None\<close> when the block ends before one.\<close>

fun u16string :: "u8 list \<Rightarrow> u16 list option" where
  "u16string (a # b # r) =
     (if a = 0 \<and> b = 0 then Some []
      else do { us \<leftarrow> u16string r; Some (le_word [a, b] # us) })"
| "u16string _ = None"

text \<open>The argument is what the pointer \<open>s16\<close> points to, up to the end of its block.\<close>

definition strndup16to8 :: "env \<Rightarrow> u8 list option \<Rightarrow> cstr option" where
  "strndup16to8 E s16 =
     (case s16 of
        None \<Rightarrow> Some None
      | Some block \<Rightarrow> do {
          source \<leftarrow> u16string block;
          dest \<leftarrow> to_bytes source;
          Some (if mem_ok (env_alloc E) (length dest + 1) then Some dest else None)
        })"

definition strdupReadString :: "env \<Rightarrow> parcel \<Rightarrow> (cstr \<times> parcel) option" where
  "strdupReadString E p = do {
     (s16, _, p) \<leftarrow> readString16Inplace p;
     s \<leftarrow> strndup16to8 E (map_option (\<lambda>off. drop off (bytes_of (mData p))) s16);
     Some (s, p)
   }"

section \<open>Dispatch functions\<close>

definition dispatchVoid :: "env \<Rightarrow> parcel \<Rightarrow> effect list option" where
  "dispatchVoid E p = Some [OnRequest DNull 0]"

definition dispatchString :: "env \<Rightarrow> parcel \<Rightarrow> effect list option" where
  "dispatchString E p = do {
     (string8, p) \<leftarrow> strdupReadString E p;
     Some [OnRequest (DString string8) 8]
   }"

text \<open>The string array that \<open>dispatchStrings\<close> and \<open>dispatchImsGsmSms\<close> build: the array (\<open>None\<close>
  for a null pointer) and its \<open>datalen\<close>, or \<open>Inl\<close> when \<open>calloc\<close> fails.\<close>

definition read_strings ::
  "env \<Rightarrow> u32 \<Rightarrow> parcel \<Rightarrow> (effect + cstr list option \<times> nat) option" where
  "read_strings E countStrings p =
     (if countStrings = 0 then
        Some (if calloc_ok E 1 8 then Inr (Some [], 0) else Inl AllocFailed)
      else if sint countStrings < 0 then Some (Inr (None, 0))
      else
        let n = nat (sint countStrings) in
        if \<not> calloc_ok E n 8 then Some (Inl AllocFailed)
        else do {
          (pStrings, p) \<leftarrow> repeat_get (strdupReadString E) n p;
          Some (Inr (Some pStrings, 8 * n))
        })"

definition dispatchStrings :: "env \<Rightarrow> parcel \<Rightarrow> effect list option" where
  "dispatchStrings E p = do {
     (status, countStrings, p) \<leftarrow> readInt32_ptr p (junk32 E);
     if status \<noteq> NO_ERROR then Some [InvalidCommandBlock]
     else do {
       r \<leftarrow> read_strings E countStrings p;
       case r of
         Inl e \<Rightarrow> Some [e]
       | Inr (pStrings, datalen) \<Rightarrow> Some [OnRequest (DStrings pStrings) datalen]
     }
   }"

text \<open>The loop of \<open>dispatchInts\<close>; \<open>t\<close> is a fresh local in every round.\<close>

fun read_ints :: "u32 \<Rightarrow> nat \<Rightarrow> parcel \<Rightarrow> (u32 list option \<times> parcel) option" where
  "read_ints t 0 p = Some (Some [], p)"
| "read_ints t (Suc n) p = do {
     (status, x, p) \<leftarrow> readInt32_ptr p t;
     if status \<noteq> NO_ERROR then Some (None, p)
     else do {
       (xs, p) \<leftarrow> read_ints t n p;
       Some (map_option ((#) x) xs, p)
     }
   }"

definition dispatchInts :: "env \<Rightarrow> parcel \<Rightarrow> effect list option" where
  "dispatchInts E p = do {
     (status, count, p) \<leftarrow> readInt32_ptr p (junk32 E);
     if status \<noteq> NO_ERROR \<or> sint count \<le> 0 then Some [InvalidCommandBlock]
     else
       let n = nat (sint count) in
       if \<not> calloc_ok E n 4 then Some [AllocFailed]
       else do {
         (pInts, p) \<leftarrow> read_ints (junk32 E) n p;
         case pInts of
           None \<Rightarrow> Some [InvalidCommandBlock]
         | Some xs \<Rightarrow> Some [OnRequest (DInts xs) (4 * n)]
       }
   }"

definition dispatchSmsWrite :: "env \<Rightarrow> parcel \<Rightarrow> effect list option" where
  "dispatchSmsWrite E p = do {
     (status, t, p) \<leftarrow> readInt32_ptr p (junk32 E);
     (pdu, p) \<leftarrow> strdupReadString E p;
     if status \<noteq> NO_ERROR \<or> pdu = None then Some [InvalidCommandBlock]
     else do {
       (smsc, p) \<leftarrow> strdupReadString E p;
       Some [OnRequest (DSmsWrite \<lparr>sms_status = t, sms_pdu = pdu, sms_smsc = smsc\<rparr>) 24]
     }
   }"

definition dispatchDial :: "env \<Rightarrow> parcel \<Rightarrow> effect list option" where
  "dispatchDial E p = do {
     (address, p) \<leftarrow> strdupReadString E p;
     (status, t, p) \<leftarrow> readInt32_ptr p (junk32 E);
     let clir = t;
     if status \<noteq> NO_ERROR \<or> address = None then Some [InvalidCommandBlock]
     else if callbacks_version E < 3 then
       Some [OnRequest (DDial \<lparr>dial_address = address, dial_clir = clir, dial_uusInfo = None\<rparr>) 16]
     else do {
       (status, uusPresent, p) \<leftarrow> readInt32_ptr p (junk32 E);
       if status \<noteq> NO_ERROR then Some [InvalidCommandBlock]
       else if uusPresent = 0 then
         Some [OnRequest (DDial \<lparr>dial_address = address, dial_clir = clir, dial_uusInfo = None\<rparr>) 24]
       else do {
         (status, t, p) \<leftarrow> readInt32_ptr p t;
         let uus_type = t;
         (status, t, p) \<leftarrow> readInt32_ptr p t;
         let uus_dcs = t;
         (status, len, p) \<leftarrow> readInt32_ptr p (junk32 E);
         if status \<noteq> NO_ERROR then Some [InvalidCommandBlock]
         else do {
           (data, len, p) \<leftarrow>
             (if len = - 1 then Some (None, 0, p)
              else do {
                (d, p) \<leftarrow> readInplace p (to_size len);
                data \<leftarrow> (case d of
                   None \<Rightarrow> Some None
                 | Some off \<Rightarrow> map_option Some (peek p off (to_size len)));
                Some (data, len, p)
              });
           Some [OnRequest (DDial \<lparr>dial_address = address, dial_clir = clir,
              dial_uusInfo = Some \<lparr>uusType = uus_type, uusDcs = uus_dcs, uusLength = len, uusData = data\<rparr>\<rparr>) 24]
         }
       }
     }
   }"

definition dispatchSIM_IO :: "env \<Rightarrow> parcel \<Rightarrow> effect list option" where
  "dispatchSIM_IO E p = do {
     (status, command, p) \<leftarrow> readInt32_ptr p (junk32 E);
     (status, fileid, p) \<leftarrow> readInt32_ptr p command;
     (path, p) \<leftarrow> strdupReadString E p;
     (status, p1, p) \<leftarrow> readInt32_ptr p fileid;
     (status, p2, p) \<leftarrow> readInt32_ptr p p1;
     (status, p3, p) \<leftarrow> readInt32_ptr p p2;
     (data, p) \<leftarrow> strdupReadString E p;
     (pin2, p) \<leftarrow> strdupReadString E p;
     (aidPtr, p) \<leftarrow> strdupReadString E p;
     if status \<noteq> NO_ERROR then Some [InvalidCommandBlock]
     else Some [OnRequest (DSimIO \<lparr>io_command = command, io_fileid = fileid, io_path = path,
         io_p1 = p1, io_p2 = p2, io_p3 = p3, io_data = data, io_pin2 = pin2, io_aidPtr = aidPtr\<rparr>)
         (if callbacks_version E < 6 then 48 else 56)]
   }"

definition dispatchSIM_APDU :: "env \<Rightarrow> parcel \<Rightarrow> effect list option" where
  "dispatchSIM_APDU E p = do {
     (status, sessionid, p) \<leftarrow> readInt32_ptr p (junk32 E);
     (status, cla, p) \<leftarrow> readInt32_ptr p sessionid;
     (status, instruction, p) \<leftarrow> readInt32_ptr p cla;
     (status, p1, p) \<leftarrow> readInt32_ptr p instruction;
     (status, p2, p) \<leftarrow> readInt32_ptr p p1;
     (status, p3, p) \<leftarrow> readInt32_ptr p p2;
     (data, p) \<leftarrow> strdupReadString E p;
     if status \<noteq> NO_ERROR then Some [InvalidCommandBlock]
     else Some [OnRequest (DSimAPDU \<lparr>apdu_sessionid = sessionid, apdu_cla = cla,
         apdu_instruction = instruction, apdu_p1 = p1, apdu_p2 = p2, apdu_p3 = p3, apdu_data = data\<rparr>) 32]
   }"

definition dispatchCallForward :: "env \<Rightarrow> parcel \<Rightarrow> effect list option" where
  "dispatchCallForward E p = do {
     (status, cf_status, p) \<leftarrow> readInt32_ptr p (junk32 E);
     (status, reason, p) \<leftarrow> readInt32_ptr p cf_status;
     (status, serviceClass, p) \<leftarrow> readInt32_ptr p reason;
     (status, toa, p) \<leftarrow> readInt32_ptr p serviceClass;
     (number, p) \<leftarrow> strdupReadString E p;
     (status, timeSeconds, p) \<leftarrow> readInt32_ptr p toa;
     if status \<noteq> NO_ERROR then Some [InvalidCommandBlock]
     else Some [OnRequest (DCallForward \<lparr>cff_status = cf_status, cff_reason = reason,
         cff_serviceClass = serviceClass, cff_toa = toa,
         cff_number = (if number = Some [] then None else number), cff_timeSeconds = timeSeconds\<rparr>) 32]
   }"

definition dispatchRaw :: "env \<Rightarrow> parcel \<Rightarrow> effect list option" where
  "dispatchRaw E p = do {
     (status, len, p) \<leftarrow> readInt32_ptr p (junk32 E);
     if status \<noteq> NO_ERROR then Some [InvalidCommandBlock]
     else do {
       let len = (if len = - 1 then 0 else len);
       (d, p) \<leftarrow> readInplace p (to_size len);
       data \<leftarrow> (case d of
          None \<Rightarrow> Some None
        | Some off \<Rightarrow> map_option Some (peek p off (to_size len)));
       Some [OnRequest (DRaw data) (to_size len)]
     }
   }"

section \<open>CDMA and IMS messages\<close>

text \<open>\<open>p.read(&ut, sizeof(ut))\<close> for a byte.\<close>

definition read_u8 :: "parcel \<Rightarrow> u8 \<Rightarrow> (status \<times> u8 \<times> parcel) option" where
  "read_u8 p ut = do {
     (status, xs, p) \<leftarrow> parcel_read p [ut];
     Some (status, hd xs, p)
   }"

text \<open>\<open>for (digitCount = i; n more; digitCount++)\<close> reading into \<open>digits\<close>.\<close>

fun read_digits ::
  "nat \<Rightarrow> nat \<Rightarrow> status \<Rightarrow> u8 \<Rightarrow> u8 list \<Rightarrow> parcel \<Rightarrow> (status \<times> u8 \<times> u8 list \<times> parcel) option" where
  "read_digits i 0 status ut digits p = Some (status, ut, digits, p)"
| "read_digits i (Suc n) status ut digits p = do {
     (status, ut, p) \<leftarrow> read_u8 p ut;
     read_digits (Suc i) n status ut (digits[i := ut]) p
   }"

text \<open>\<open>constructCdmaSms\<close>; the locals \<open>t\<close> and \<open>ut\<close> are arguments because
  \<open>dispatchRilCdmaSmsWriteArgs\<close> runs the same statements after another read into \<open>t\<close>.\<close>

definition constructCdmaSms ::
  "u32 \<Rightarrow> u8 \<Rightarrow> parcel \<Rightarrow> (status \<times> RIL_CDMA_SMS_Message \<times> parcel) option" where
  "constructCdmaSms t ut p = do {
     (status, t, p) \<leftarrow> readInt32_ptr p t;
     let teleservice = t;
     (status, ut, p) \<leftarrow> read_u8 p ut;
     let service_present = ut;
     (status, t, p) \<leftarrow> readInt32_ptr p t;
     let category = t;
     (status, t, p) \<leftarrow> readInt32_ptr p t;
     let dmode = t;
     (status, t, p) \<leftarrow> readInt32_ptr p t;
     let nmode = t;
     (status, t, p) \<leftarrow> readInt32_ptr p t;
     let ntype = t;
     (status, t, p) \<leftarrow> readInt32_ptr p t;
     let nplan = t;
     (status, ut, p) \<leftarrow> read_u8 p ut;
     let ndigits = ut;
     (status, ut, digits, p) \<leftarrow>
       read_digits 0 (min (unat ndigits) RIL_CDMA_SMS_ADDRESS_MAX) status ut
         (replicate RIL_CDMA_SMS_ADDRESS_MAX 0) p;
     (status, t, p) \<leftarrow> readInt32_ptr p t;
     let stype = t;
     (status, ut, p) \<leftarrow> read_u8 p ut;
     let odd_digit = ut;
     (status, ut, p) \<leftarrow> read_u8 p ut;
     let nsub = ut;
     (status, ut, sub, p) \<leftarrow>
       read_digits 0 (min (unat nsub) RIL_CDMA_SMS_SUBADDRESS_MAX) status ut
         (replicate RIL_CDMA_SMS_SUBADDRESS_MAX 0) p;
     (status, t, p) \<leftarrow> readInt32_ptr p t;
     let blen = t;
     (status, ut, bearer, p) \<leftarrow>
       read_digits 0 (signed_min blen RIL_CDMA_SMS_BEARER_DATA_MAX) status ut
         (replicate RIL_CDMA_SMS_BEARER_DATA_MAX 0) p;
     Some (status,
       \<lparr>uTeleserviceID = teleservice, bIsServicePresent = service_present, uServicecategory = category,
        sAddress = \<lparr>digit_mode = dmode, number_mode = nmode, number_type = ntype, number_plan = nplan,
          adr_number_of_digits = ndigits, adr_digits = digits\<rparr>,
        sSubAddress = \<lparr>subaddressType = stype, sub_odd = odd_digit, sub_number_of_digits = nsub,
          sub_digits = sub\<rparr>,
        uBearerDataLen = blen, aBearerData = bearer\<rparr>, p)
   }"

definition dispatchCdmaSms :: "env \<Rightarrow> parcel \<Rightarrow> effect list option" where
  "dispatchCdmaSms E p = do {
     (status, rcsm, p) \<leftarrow> constructCdmaSms (junk32 E) (junk8 E) p;
     if status \<noteq> NO_ERROR then Some [InvalidCommandBlock]
     else Some [OnRequest (DCdmaSms rcsm) 372]
   }"

definition dispatchImsCdmaSms :: "env \<Rightarrow> parcel \<Rightarrow> u8 \<Rightarrow> u32 \<Rightarrow> effect list option" where
  "dispatchImsCdmaSms E p retry messageRef = do {
     (status, rcsm, p) \<leftarrow> constructCdmaSms (junk32 E) (junk8 E) p;
     if status \<noteq> NO_ERROR then Some [InvalidCommandBlock]
     else Some [OnRequest (DImsCdma retry messageRef rcsm) (4 + 1 + 4 + 372)]
   }"

definition dispatchImsGsmSms :: "env \<Rightarrow> parcel \<Rightarrow> u8 \<Rightarrow> u32 \<Rightarrow> effect list option" where
  "dispatchImsGsmSms E p retry messageRef = do {
     (status, countStrings, p) \<leftarrow> readInt32_ptr p (junk32 E);
     if status \<noteq> NO_ERROR then Some [InvalidCommandBlock]
     else if sint countStrings > 0 \<and> nat (sint countStrings) > INT32_MAX div 8 then Some []
     else do {
       r \<leftarrow> read_strings E countStrings p;
       case r of
         Inl e \<Rightarrow> Some [e]
       | Inr (pStrings, datalen) \<Rightarrow>
           Some [OnRequest (DImsGsm retry messageRef pStrings) (4 + 1 + 4 + datalen)]
     }
   }"

definition dispatchImsSms :: "env \<Rightarrow> parcel \<Rightarrow> effect list option" where
  "dispatchImsSms E p = do {
     (status, t, p) \<leftarrow> readInt32_ptr p (junk32 E);
     if status \<noteq> NO_ERROR then Some [InvalidCommandBlock]
     else do {
       let format = t;
       (status, retry, p) \<leftarrow> read_u8 p (junk8 E);
       if status \<noteq> NO_ERROR then Some [InvalidCommandBlock]
       else do {
         (status, ref, p) \<leftarrow> parcel_read p (le32 (junk32 E));
         if status \<noteq> NO_ERROR then Some [InvalidCommandBlock]
         else if format = RADIO_TECH_3GPP then dispatchImsGsmSms E p retry (le_word ref)
         else if format = RADIO_TECH_3GPP2 then dispatchImsCdmaSms E p retry (le_word ref)
         else Some []
       }
     }
   }"

definition dispatchCdmaSmsAck :: "env \<Rightarrow> parcel \<Rightarrow> effect list option" where
  "dispatchCdmaSmsAck E p = do {
     (status, uErrorClass, p) \<leftarrow> readInt32_ptr p (junk32 E);
     (status, uSMSCauseCode, p) \<leftarrow> readInt32_ptr p uErrorClass;
     if status \<noteq> NO_ERROR then Some [InvalidCommandBlock]
     else Some [OnRequest (DCdmaSmsAck uErrorClass uSMSCauseCode) 8]
   }"

fun read_gsm_bci ::
  "nat \<Rightarrow> status \<Rightarrow> u32 \<Rightarrow> parcel \<Rightarrow> (status \<times> RIL_GSM_BroadcastSmsConfigInfo list \<times> parcel) option" where
  "read_gsm_bci 0 status t p = Some (status, [], p)"
| "read_gsm_bci (Suc n) status t p = do {
     (status, from_id, p) \<leftarrow> readInt32_ptr p t;
     (status, to_id, p) \<leftarrow> readInt32_ptr p from_id;
     (status, from_cs, p) \<leftarrow> readInt32_ptr p to_id;
     (status, to_cs, p) \<leftarrow> readInt32_ptr p from_cs;
     (status, t, p) \<leftarrow> readInt32_ptr p to_cs;
     (status, r, p) \<leftarrow> read_gsm_bci n status t p;
     Some (status, \<lparr>fromServiceId = from_id, toServiceId = to_id, fromCodeScheme = from_cs,
       toCodeScheme = to_cs, gsm_selected = ucast t\<rparr> # r, p)
   }"

text \<open>\<open>num\<close> is used as the bound of two arrays on the stack.\<close>

definition dispatchGsmBrSmsCnf :: "env \<Rightarrow> parcel \<Rightarrow> effect list option" where
  "dispatchGsmBrSmsCnf E p = do {
     (status, num, p) \<leftarrow> readInt32_ptr p (junk32 E);
     if status \<noteq> NO_ERROR then Some [InvalidCommandBlock]
     else if sint num < 0 \<or> \<not> stack_ok E (nat (sint num) * (20 + 8)) then None
     else do {
       (status, gsmBci, p) \<leftarrow> read_gsm_bci (nat (sint num)) status (junk32 E) p;
       if status \<noteq> NO_ERROR then Some [InvalidCommandBlock]
       else Some [OnRequest (DGsmBr gsmBci) (8 * nat (sint num))]
     }
   }"

fun read_cdma_bci ::
  "nat \<Rightarrow> status \<Rightarrow> u32 \<Rightarrow> parcel \<Rightarrow> (status \<times> RIL_CDMA_BroadcastSmsConfigInfo list \<times> parcel) option" where
  "read_cdma_bci 0 status t p = Some (status, [], p)"
| "read_cdma_bci (Suc n) status t p = do {
     (status, cat, p) \<leftarrow> readInt32_ptr p t;
     (status, lang, p) \<leftarrow> readInt32_ptr p cat;
     (status, t, p) \<leftarrow> readInt32_ptr p lang;
     (status, r, p) \<leftarrow> read_cdma_bci n status t p;
     Some (status, \<lparr>service_category = cat, language = lang, cdma_selected = ucast t\<rparr> # r, p)
   }"

definition dispatchCdmaBrSmsCnf :: "env \<Rightarrow> parcel \<Rightarrow> effect list option" where
  "dispatchCdmaBrSmsCnf E p = do {
     (status, num, p) \<leftarrow> readInt32_ptr p (junk32 E);
     if status \<noteq> NO_ERROR then Some [InvalidCommandBlock]
     else if sint num < 0 \<or> \<not> stack_ok E (nat (sint num) * (12 + 8)) then None
     else do {
       (status, cdmaBci, p) \<leftarrow> read_cdma_bci (nat (sint num)) status (junk32 E) p;
       if status \<noteq> NO_ERROR then Some [InvalidCommandBlock]
       else Some [OnRequest (DCdmaBr cdmaBci) (8 * nat (sint num))]
     }
   }"

definition dispatchRilCdmaSmsWriteArgs :: "env \<Rightarrow> parcel \<Rightarrow> effect list option" where
  "dispatchRilCdmaSmsWriteArgs E p = do {
     (status, t, p) \<leftarrow> readInt32_ptr p (junk32 E);
     (status, message, p) \<leftarrow> constructCdmaSms t (junk8 E) p;
     if status \<noteq> NO_ERROR then Some [InvalidCommandBlock]
     else Some [OnRequest (DCdmaSmsWrite t message) 376]
   }"

section \<open>Requests kept for older vendor libraries\<close>

text \<open>The loop that copies the first \<open>n\<close> strings into the second parcel.\<close>

fun copy_strings :: "env \<Rightarrow> nat \<Rightarrow> parcel \<Rightarrow> parcel \<Rightarrow> (parcel \<times> parcel) option" where
  "copy_strings E 0 p p2 = Some (p, p2)"
| "copy_strings E (Suc n) p p2 = do {
     (s, p) \<leftarrow> readString16 p;
     (_, p2) \<leftarrow> writeString16 (env_alloc E) p2 (Some s);
     copy_strings E n p p2
   }"

definition dispatchDataCall :: "env \<Rightarrow> parcel \<Rightarrow> effect list option" where
  "dispatchDataCall E p = do {
     let pos = mDataPos p;
     (numParams, p) \<leftarrow> readInt32 p;
     if callbacks_version E < 4 \<and> sint numParams > 6 then do {
       (_, p2) \<leftarrow> appendFrom (env_alloc E) initState p 0 pos;
       (_, p2) \<leftarrow> writeInt32 (env_alloc E) p2 6;
       (p, p2) \<leftarrow> copy_strings E 6 p p2;
       p2 \<leftarrow> setDataPosition p2 pos;
       dispatchStrings E p2
     }
     else do {
       p \<leftarrow> setDataPosition p pos;
       dispatchStrings E p
     }
   }"

definition dispatchVoiceRadioTech :: "env \<Rightarrow> parcel \<Rightarrow> effect list option" where
  "dispatchVoiceRadioTech E p =
     (let state = onStateRequest E;
          first = (if state = RADIO_STATE_UNAVAILABLE
                   then [Complete RIL_E_RADIO_NOT_AVAILABLE None] else []) in
      if state = RADIO_STATE_ON \<or> state = RADIO_STATE_OFF
      then do { es \<leftarrow> dispatchVoid E p; Some (first @ es) }
      else let tech = decodeVoiceRadioTechnology state in
        Some (first @ [SetVoiceRadioTech tech,
          if tech < 0 then Complete RIL_E_GENERIC_FAILURE None
          else Complete RIL_E_SUCCESS (Some (of_int tech))]))"

definition dispatchCdmaSubscriptionSource :: "env \<Rightarrow> parcel \<Rightarrow> effect list option" where
  "dispatchCdmaSubscriptionSource E p =
     (let state = onStateRequest E;
          first = (if state = RADIO_STATE_UNAVAILABLE \<or> state = RADIO_STATE_OFF
                   then [Complete RIL_E_RADIO_NOT_AVAILABLE None] else []) in
      if state = RADIO_STATE_ON
      then do { es \<leftarrow> dispatchVoid E p; Some (first @ es) }
      else let source = decodeCdmaSubscriptionSource state in
        Some (first @ [SetCdmaSubscriptionSource source,
          if source < 0 then Complete RIL_E_GENERIC_FAILURE None
          else Complete RIL_E_SUCCESS (Some (of_int source))]))"

section \<open>Attach, NV, SIM and profile requests\<close>

definition dispatchSetInitialAttachApn :: "env \<Rightarrow> parcel \<Rightarrow> effect list option" where
  "dispatchSetInitialAttachApn E p = do {
     (apn, p) \<leftarrow> strdupReadString E p;
     (protocol, p) \<leftarrow> strdupReadString E p;
     (status, authtype, p) \<leftarrow> readInt32_ptr p (junk32 E);
     (username, p) \<leftarrow> strdupReadString E p;
     (password, p) \<leftarrow> strdupReadString E p;
     if status \<noteq> NO_ERROR then Some [InvalidCommandBlock]
     else Some [OnRequest (DInitialAttachApn \<lparr>iaa_apn = apn, iaa_protocol = protocol,
         iaa_authtype = authtype, iaa_username = username, iaa_password = password\<rparr>) 40]
   }"

definition dispatchNVReadItem :: "env \<Rightarrow> parcel \<Rightarrow> effect list option" where
  "dispatchNVReadItem E p = do {
     (status, itemID, p) \<leftarrow> readInt32_ptr p (junk32 E);
     if status \<noteq> NO_ERROR then Some [InvalidCommandBlock]
     else Some [OnRequest (DNVReadItem itemID) 4]
   }"

definition dispatchNVWriteItem :: "env \<Rightarrow> parcel \<Rightarrow> effect list option" where
  "dispatchNVWriteItem E p = do {
     (status, itemID, p) \<leftarrow> readInt32_ptr p (junk32 E);
     (value, p) \<leftarrow> strdupReadString E p;
     if status \<noteq> NO_ERROR \<or> value = None then Some [InvalidCommandBlock]
     else Some [OnRequest (DNVWriteItem itemID value) 16]
   }"

definition dispatchUiccSubscripton :: "env \<Rightarrow> parcel \<Rightarrow> effect list option" where
  "dispatchUiccSubscripton E p = do {
     (status, slot, p) \<leftarrow> readInt32_ptr p (junk32 E);
     if status \<noteq> NO_ERROR then Some [InvalidCommandBlock] else do {
     (status, app_index, p) \<leftarrow> readInt32_ptr p slot;
     if status \<noteq> NO_ERROR then Some [InvalidCommandBlock] else do {
     (status, sub_type, p) \<leftarrow> readInt32_ptr p app_index;
     if status \<noteq> NO_ERROR then Some [InvalidCommandBlock] else do {
     (status, act_status, p) \<leftarrow> readInt32_ptr p sub_type;
     if status \<noteq> NO_ERROR then Some [InvalidCommandBlock]
     else Some [OnRequest (DSelectUiccSub \<lparr>uicc_slot = slot, uicc_app_index = app_index,
         uicc_sub_type = sub_type, uicc_act_status = act_status\<rparr>) 16] }}}
   }"

definition dispatchSimAuthentication :: "env \<Rightarrow> parcel \<Rightarrow> effect list option" where
  "dispatchSimAuthentication E p = do {
     (status, t, p) \<leftarrow> readInt32_ptr p (junk32 E);
     (auth_data, p) \<leftarrow> strdupReadString E p;
     (aid, p) \<leftarrow> strdupReadString E p;
     if status \<noteq> NO_ERROR then Some [InvalidCommandBlock]
     else Some [OnRequest (DSimAuthentication \<lparr>authContext = t, authData = auth_data, auth_aid = aid\<rparr>) 24]
   }"

fun read_profiles ::
  "env \<Rightarrow> nat \<Rightarrow> status \<Rightarrow> u32 \<Rightarrow> parcel \<Rightarrow> (status \<times> RIL_DataProfileInfo list \<times> parcel) option" where
  "read_profiles E 0 status t p = Some (status, [], p)"
| "read_profiles E (Suc n) status t p = do {
     (status, profile_id, p) \<leftarrow> readInt32_ptr p t;
     (apn, p) \<leftarrow> strdupReadString E p;
     (protocol, p) \<leftarrow> strdupReadString E p;
     (status, auth_type, p) \<leftarrow> readInt32_ptr p profile_id;
     (user, p) \<leftarrow> strdupReadString E p;
     (password, p) \<leftarrow> strdupReadString E p;
     (status, typ, p) \<leftarrow> readInt32_ptr p auth_type;
     (status, max_time, p) \<leftarrow> readInt32_ptr p typ;
     (status, max_conns, p) \<leftarrow> readInt32_ptr p max_time;
     (status, wait, p) \<leftarrow> readInt32_ptr p max_conns;
     (status, enabled, p) \<leftarrow> readInt32_ptr p wait;
     (status, r, p) \<leftarrow> read_profiles E n status enabled p;
     Some (status, \<lparr>profileId = profile_id, dp_apn = apn, dp_protocol = protocol, dp_authType = auth_type,
       dp_user = user, dp_password = password, dp_type = typ, maxConnsTime = max_time,
       maxConns = max_conns, waitTime = wait, dp_enabled = enabled\<rparr> # r, p)
   }"

definition dispatchDataProfile :: "env \<Rightarrow> parcel \<Rightarrow> effect list option" where
  "dispatchDataProfile E p = do {
     (status, num, p) \<leftarrow> readInt32_ptr p (junk32 E);
     if status \<noteq> NO_ERROR \<or> sint num < 0 then Some [InvalidCommandBlock]
     else
       let n = nat (sint num) in
       if \<not> calloc_ok E n 72 \<or> \<not> calloc_ok E n 8 then Some [AllocFailed]
       else do {
         (status, profiles, p) \<leftarrow> read_profiles E n status (junk32 E) p;
         if status \<noteq> NO_ERROR then Some [InvalidCommandBlock]
         else Some [OnRequest (DDataProfiles profiles) (8 * n)]
       }
   }"

text \<open>Built with \<open>RIL_FOR_MDM_LE\<close>: \<open>logicalModemUuid\<close> is not read.\<close>

definition dispatchRadioCapability :: "env \<Rightarrow> parcel \<Rightarrow> effect list option" where
  "dispatchRadioCapability E p = do {
     (status, ver, p) \<leftarrow> readInt32_ptr p (junk32 E);
     if status \<noteq> NO_ERROR then Some [InvalidCommandBlock] else do {
     (status, session, p) \<leftarrow> readInt32_ptr p ver;
     if status \<noteq> NO_ERROR then Some [InvalidCommandBlock] else do {
     (status, phase, p) \<leftarrow> readInt32_ptr p session;
     if status \<noteq> NO_ERROR then Some [InvalidCommandBlock] else do {
     (status, rat, p) \<leftarrow> readInt32_ptr p phase;
     if status \<noteq> NO_ERROR then Some [InvalidCommandBlock] else do {
     (status, st, p) \<leftarrow> readInt32_ptr p rat;
     if status \<noteq> NO_ERROR then Some [InvalidCommandBlock]
     else Some [OnRequest (DRadioCapability \<lparr>rc_version = ver, rc_session = session,
         rc_phase = phase, rc_rat = rat, rc_status = st\<rparr>) 84] }}}}
   }"

fun read_carriers ::
  "env \<Rightarrow> nat \<Rightarrow> u32 \<Rightarrow> parcel \<Rightarrow> (RIL_Carrier list option \<times> u32 \<times> parcel) option" where
  "read_carriers E 0 t p = Some (Some [], t, p)"
| "read_carriers E (Suc n) t p = do {
     (c_mcc, p) \<leftarrow> strdupReadString E p;
     (c_mnc, p) \<leftarrow> strdupReadString E p;
     (status, t, p) \<leftarrow> readInt32_ptr p t;
     if status \<noteq> NO_ERROR then Some (None, t, p)
     else do {
       (c_data, p) \<leftarrow> strdupReadString E p;
       (r, t', p) \<leftarrow> read_carriers E n t p;
       Some (map_option ((#) \<lparr>mcc = c_mcc, mnc = c_mnc, match_type = t, match_data = c_data\<rparr>) r, t', p)
     }
   }"

definition dispatchCarrierRestrictions :: "env \<Rightarrow> parcel \<Rightarrow> effect list option" where
  "dispatchCarrierRestrictions E p =
     (let invalid = [InvalidCommandBlock, Complete RIL_E_INVALID_ARGUMENTS None] in
      if callbacks_version E < 14 then Some [Complete RIL_E_REQUEST_NOT_SUPPORTED None]
      else do {
        (status, t, p) \<leftarrow> readInt32_ptr p (junk32 E);
        if status \<noteq> NO_ERROR then Some invalid
        else if \<not> calloc_ok E (to_size t) 32 then Some [AllocFailed]
        else do {
          let len_allowed = t;
          (status, t, p) \<leftarrow> readInt32_ptr p t;
          if status \<noteq> NO_ERROR then Some invalid
          else if \<not> calloc_ok E (to_size t) 32 then Some [AllocFailed]
          else do {
            let len_excluded = t;
            (allowed, t, p) \<leftarrow> read_carriers E (nat (sint len_allowed)) t p;
            case allowed of
              None \<Rightarrow> Some invalid
            | Some allowed \<Rightarrow> do {
                (excluded, t, p) \<leftarrow> read_carriers E (nat (sint len_excluded)) t p;
                case excluded of
                  None \<Rightarrow> Some invalid
                | Some excluded \<Rightarrow> Some [OnRequest (DCarrierRestrictions
                    \<lparr>allowed_carriers = allowed, excluded_carriers = excluded\<rparr>) 24]
              }
          }
        }
      })"

definition dispatchOpenChannelWithP2 :: "env \<Rightarrow> parcel \<Rightarrow> effect list option" where
  "dispatchOpenChannelWithP2 E p = do {
     (status, p2, p) \<leftarrow> read_u8 p (junk8 E);
     (aidPtr, p) \<leftarrow> strdupReadString E p;
     if status \<noteq> NO_ERROR \<or> aidPtr = None then Some [InvalidCommandBlock]
     else Some [OnRequest (DOpenChannel p2 aidPtr) 16]
   }"

text \<open>The loops store into arrays of \<open>limit\<close> entries without comparing the count with it.\<close>

definition read_array :: "env \<Rightarrow> nat \<Rightarrow> u32 \<Rightarrow> parcel \<Rightarrow> (cstr list \<times> parcel) option" where
  "read_array E limit count p =
     (if nat (sint count) > limit then None
      else repeat_get (strdupReadString E) (nat (sint count)) p)"

definition dispatchAdnRecord :: "env \<Rightarrow> parcel \<Rightarrow> effect list option" where
  "dispatchAdnRecord E p = do {
     (status, t, p) \<leftarrow> readInt32_ptr p (junk32 E);
     let recId = t;
     if status \<noteq> NO_ERROR then Some [InvalidCommandBlock]
     else do {
       (name, p) \<leftarrow> strdupReadString E p;
       (number, p) \<leftarrow> strdupReadString E p;
       (status, t, p) \<leftarrow> readInt32_ptr p t;
       let emails = t;
       if status \<noteq> NO_ERROR then Some [InvalidCommandBlock]
       else do {
         (email, p) \<leftarrow> read_array E RIL_MAX_NUM_EMAIL_COUNT t p;
         (status, t, p) \<leftarrow> readInt32_ptr p t;
         if status \<noteq> NO_ERROR then Some [InvalidCommandBlock]
         else do {
           (ad_number, p) \<leftarrow> read_array E RIL_MAX_NUM_AD_COUNT t p;
           Some [OnRequest (DAdnRecord \<lparr>record_id = recId, adn_name = name, adn_number = number,
              email_elements = emails, adn_email = email, anr_elements = t, adn_ad_number = ad_number\<rparr>) 88]
         }
       }
     }
   }"

section \<open>The dispatch table's function pointers\<close>

datatype dispatch_fn =
    F_dispatchVoid | F_dispatchString | F_dispatchStrings | F_dispatchInts | F_dispatchSmsWrite
  | F_dispatchDial | F_dispatchSIM_IO | F_dispatchSIM_APDU | F_dispatchCallForward | F_dispatchRaw
  | F_dispatchCdmaSms | F_dispatchImsSms | F_dispatchCdmaSmsAck | F_dispatchGsmBrSmsCnf
  | F_dispatchCdmaBrSmsCnf | F_dispatchRilCdmaSmsWriteArgs | F_dispatchDataCall
  | F_dispatchVoiceRadioTech | F_dispatchCdmaSubscriptionSource | F_dispatchSetInitialAttachApn
  | F_dispatchNVReadItem | F_dispatchNVWriteItem | F_dispatchUiccSubscripton
  | F_dispatchSimAuthentication | F_dispatchDataProfile | F_dispatchRadioCapability
  | F_dispatchCarrierRestrictions | F_dispatchOpenChannelWithP2 | F_dispatchAdnRecord

fun run_dispatch :: "dispatch_fn \<Rightarrow> env \<Rightarrow> parcel \<Rightarrow> effect list option" where
  "run_dispatch F_dispatchVoid = dispatchVoid"
| "run_dispatch F_dispatchString = dispatchString"
| "run_dispatch F_dispatchStrings = dispatchStrings"
| "run_dispatch F_dispatchInts = dispatchInts"
| "run_dispatch F_dispatchSmsWrite = dispatchSmsWrite"
| "run_dispatch F_dispatchDial = dispatchDial"
| "run_dispatch F_dispatchSIM_IO = dispatchSIM_IO"
| "run_dispatch F_dispatchSIM_APDU = dispatchSIM_APDU"
| "run_dispatch F_dispatchCallForward = dispatchCallForward"
| "run_dispatch F_dispatchRaw = dispatchRaw"
| "run_dispatch F_dispatchCdmaSms = dispatchCdmaSms"
| "run_dispatch F_dispatchImsSms = dispatchImsSms"
| "run_dispatch F_dispatchCdmaSmsAck = dispatchCdmaSmsAck"
| "run_dispatch F_dispatchGsmBrSmsCnf = dispatchGsmBrSmsCnf"
| "run_dispatch F_dispatchCdmaBrSmsCnf = dispatchCdmaBrSmsCnf"
| "run_dispatch F_dispatchRilCdmaSmsWriteArgs = dispatchRilCdmaSmsWriteArgs"
| "run_dispatch F_dispatchDataCall = dispatchDataCall"
| "run_dispatch F_dispatchVoiceRadioTech = dispatchVoiceRadioTech"
| "run_dispatch F_dispatchCdmaSubscriptionSource = dispatchCdmaSubscriptionSource"
| "run_dispatch F_dispatchSetInitialAttachApn = dispatchSetInitialAttachApn"
| "run_dispatch F_dispatchNVReadItem = dispatchNVReadItem"
| "run_dispatch F_dispatchNVWriteItem = dispatchNVWriteItem"
| "run_dispatch F_dispatchUiccSubscripton = dispatchUiccSubscripton"
| "run_dispatch F_dispatchSimAuthentication = dispatchSimAuthentication"
| "run_dispatch F_dispatchDataProfile = dispatchDataProfile"
| "run_dispatch F_dispatchRadioCapability = dispatchRadioCapability"
| "run_dispatch F_dispatchCarrierRestrictions = dispatchCarrierRestrictions"
| "run_dispatch F_dispatchOpenChannelWithP2 = dispatchOpenChannelWithP2"
| "run_dispatch F_dispatchAdnRecord = dispatchAdnRecord"

end
