(* ===== verification/RilDispatchFacts.thy ===== *)
theory RilDispatchFacts
  imports RilDispatch
begin

text \<open>
  What the dispatch functions do with a request. The first part gives the byte form of a
  request as a list of items and the rules by which a dispatch function is run on it; then
  come the round trip (the vendor library receives the request the client wrote), what a
  truncated request leads to, and how many requests one command can issue.
\<close>

section \<open>Messages\<close>

text \<open>\<open>wire items\<close> is the byte form a client gives a request; \<open>msg p xs\<close>: the unread part of
  the parcel is \<open>xs\<close>.\<close>

definition wire :: "witem list \<Rightarrow> u8 list" where
  "wire is = concat (map enc_witem is)"

lemma wire_simps [simp]: "wire [] = []" "wire (i # is) = enc_witem i @ wire is"
  by (simp_all add: wire_def)

lemma wire_append [simp]: "wire (xs @ ys) = wire xs @ wire ys"
  by (simp add: wire_def)

definition msg :: "parcel \<Rightarrow> u8 list \<Rightarrow> bool" where
  "msg p xs \<longleftrightarrow> parcel_ok p \<and> unread p = xs"

definition str_ok :: "cstr \<Rightarrow> bool" where
  "str_ok s \<longleftrightarrow> (case s of None \<Rightarrow> True | Some bs \<Rightarrow> from_bytes bs \<noteq> None \<and> 0 \<notin> set bs)"

named_theorems msg_elims

lemma msg_int [msg_elims]:
  assumes "msg p (le32 w @ r)" and "\<And>q. msg q r \<Longrightarrow> P (NO_ERROR, w, q)"
  shows "succ (readInt32_ptr p t) P"
proof -
  have "parcel_ok p" "unread p = le32 w @ r" using assms(1) by (auto simp: msg_def)
  then have "readInt32_ptr p t = Some (NO_ERROR, w, skip 4 p)" "msg (skip 4 p) r"
    using unread_append(2) [of p "le32 w" r] by (auto simp: readInt32_ptr_reads msg_def)
  then show ?thesis using assms(2) by simp
qed

lemma le16_zero: "le16 u ! 0 = 0 \<and> le16 u ! 1 = 0 \<longleftrightarrow> u = 0"
proof -
  have "le16 u = [le16 u ! 0, le16 u ! 1]" by (simp add: le_bytes_def upt_rec)
  moreover have "le16 0 = [0, 0]" by (simp add: le_bytes_def upt_rec)
  ultimately show ?thesis by (metis le_word_le16 nth_Cons_0 nth_Cons_Suc One_nat_def)
qed

lemma u16string_units: "0 \<notin> set us \<Longrightarrow> u16string (units_bytes us @ le16 0 @ z) = Some us"
proof (induction us)
  case Nil
  have "le16 0 = [0, 0]" by (simp add: le_bytes_def upt_rec)
  then show ?case by (simp add: units_bytes_def)
next
  case (Cons u us)
  have l: "le16 u = [le16 u ! 0, le16 u ! 1]" by (simp add: le_bytes_def upt_rec)
  then obtain a b where ab: "le16 u = [a, b]" by blast
  then have "\<not> (a = 0 \<and> b = 0)" using le16_zero [of u] Cons.prems by auto
  moreover have "le_word [a, b] = u" using ab by (metis le_word_le16)
  ultimately show ?case
    using Cons ab by (simp add: units_bytes_def del: le_word.simps)
qed

lemma strdupReadString_reads:
  assumes "str_ok s" and "plenty (env_alloc E)" and p: "parcel_ok p" "unread p = enc_str s @ r"
  shows "strdupReadString E p = Some (s, skip (length (enc_str s)) p)"
proof (cases s)
  case None
  then have e: "enc_str s = enc_string16 None" by (simp add: enc_str_def enc_string8_def)
  then have u: "unread p = enc_string16 None @ r" using p(2) by simp
  have "length (enc_str s) = 4" by (simp add: e enc_string16_def)
  then show ?thesis
    using readString16Inplace_null [OF p(1) u] None by (simp add: strdupReadString_def strndup16to8_def)
next
  case (Some bs)
  then obtain us where us: "from_bytes bs = Some us" "0 \<notin> set bs"
    using assms(1) by (auto simp: str_ok_def)
  then have tb: "to_bytes us = Some bs" by (simp add: to_bytes_iff_from_bytes)
  then have nz: "0 \<notin> set us" using us(2) zero_to_bytes by metis
  have e: "enc_str s = enc_string16 (Some us)" using us(1) Some by (simp add: enc_str_def enc_string8_def)
  then have u: "unread p = enc_string16 (Some us) @ r" using p(2) by simp
  obtain z where z: "drop (mDataPos p + 4) (contents p) = units_bytes us @ le16 0 @ z"
    using string16_block [OF p(1) u] by (metis append.assoc append_take_drop_id)
  have "bytes_of (mData p) = contents p @ drop (mDataSize p) (bytes_of (mData p))"
    by (simp add: contents_def)
  then obtain z' where "drop (mDataPos p + 4) (bytes_of (mData p)) = units_bytes us @ le16 0 @ z'"
    using z by (metis append.assoc drop_append)
  then have "strndup16to8 E (Some (drop (mDataPos p + 4) (bytes_of (mData p)))) = Some (Some bs)"
    using u16string_units [OF nz] tb assms(2) by (simp add: strndup16to8_def plenty_def)
  then show ?thesis
    using readString16Inplace_reads [OF p(1) u] Some e by (simp add: strdupReadString_def)
qed

interpretation string8: decoder parcel_ok unread skip "strdupReadString E" enc_str
  "\<lambda>s. str_ok s \<and> plenty (env_alloc E)" for E
  by unfold_locales (simp add: strdupReadString_reads)

lemma msg_skip: "msg p (xs @ r) \<Longrightarrow> msg (skip (length xs) p) r"
  using unread_append(2) [of p xs r] by (simp add: msg_def)

lemma msg_str [msg_elims]:
  assumes "msg p (enc_str s @ r)" and "str_ok s" and "plenty (env_alloc E)"
    and "\<And>q. msg q r \<Longrightarrow> P (s, q)"
  shows "succ (strdupReadString E p) P"
  using string8.get_enc [of s E p r] assms msg_skip [OF assms(1)] by (simp add: msg_def)

lemma msg_strs [msg_elims]:
  assumes "msg p (concat (map enc_str ss) @ r)" and "list_all str_ok ss" and "plenty (env_alloc E)"
    and "n = length ss" and "\<And>q. msg q r \<Longrightarrow> P (ss, q)"
  shows "succ (repeat_get (strdupReadString E) n p) P"
proof -
  have "list_all (\<lambda>s. str_ok s \<and> plenty (env_alloc E)) ss"
    using assms(2,3) by (simp add: list_all_iff)
  then show ?thesis
    using string8.repeat_get_enc [of E ss p r] assms(1,4) assms(5) [OF msg_skip [OF assms(1)]]
    by (simp add: msg_def)
qed

lemma msg_read [msg_elims]:
  assumes "msg p (enc_bytes xs @ r)" and "length out = length xs" and "\<And>q. msg q r \<Longrightarrow> P (NO_ERROR, xs, q)"
  shows "succ (parcel_read p out) P"
proof -
  have p: "parcel_ok p" "unread p = enc_bytes xs @ r" using assms(1) by (auto simp: msg_def)
  have "msg (skip (length (enc_bytes xs)) p) r"
    using unread_append(2) [OF p] p by (simp add: msg_def)
  then show ?thesis using parcel_read_reads [OF p assms(2)] assms(3) by simp
qed

lemma msg_u8 [msg_elims]:
  assumes "msg p (enc_bytes [b] @ r)" and "\<And>q. msg q r \<Longrightarrow> P (NO_ERROR, b, q)"
  shows "succ (read_u8 p ut) P"
  unfolding read_u8_def using msg_read [OF assms(1), of "[ut]"] assms(2) by simp

lemma msg_short: "msg p xs \<Longrightarrow> length xs < 4 \<Longrightarrow> P (NOT_ENOUGH_DATA, t, p) \<Longrightarrow> succ (readInt32_ptr p t) P"
  using readInt32_ptr_short [of p t] by (auto simp: msg_def)

lemma succ_eq: "succ m (\<lambda>x. x = y) \<longleftrightarrow> m = Some y"
  by (cases m) auto

section \<open>The byte form of a request\<close>

definition byte_items :: "u8 list \<Rightarrow> witem list" where
  "byte_items bs = map (\<lambda>b. WBytes [b]) bs"

definition cdma_items :: "RIL_CDMA_SMS_Message \<Rightarrow> witem list" where
  "cdma_items m = (let a = sAddress m; s = sSubAddress m in
     [WInt32 (uTeleserviceID m), WBytes [bIsServicePresent m], WInt32 (uServicecategory m),
      WInt32 (digit_mode a), WInt32 (number_mode a), WInt32 (number_type a), WInt32 (number_plan a),
      WBytes [adr_number_of_digits a]] @
     byte_items (take (min (unat (adr_number_of_digits a)) RIL_CDMA_SMS_ADDRESS_MAX) (adr_digits a)) @
     [WInt32 (subaddressType s), WBytes [sub_odd s], WBytes [sub_number_of_digits s]] @
     byte_items (take (min (unat (sub_number_of_digits s)) RIL_CDMA_SMS_SUBADDRESS_MAX) (sub_digits s)) @
     [WInt32 (uBearerDataLen m)] @
     byte_items (take (signed_min (uBearerDataLen m) RIL_CDMA_SMS_BEARER_DATA_MAX) (aBearerData m)))"

definition strs_items :: "cstr list option \<Rightarrow> witem list" where
  "strs_items ss = (case ss of
     None \<Rightarrow> [WInt32 (- 1)]
   | Some ss \<Rightarrow> WInt32 (of_nat (length ss)) # map WStr ss)"

definition profile_items :: "RIL_DataProfileInfo \<Rightarrow> witem list" where
  "profile_items d = [WInt32 (profileId d), WStr (dp_apn d), WStr (dp_protocol d), WInt32 (dp_authType d),
     WStr (dp_user d), WStr (dp_password d), WInt32 (dp_type d), WInt32 (maxConnsTime d),
     WInt32 (maxConns d), WInt32 (waitTime d), WInt32 (dp_enabled d)]"

definition carrier_items :: "RIL_Carrier \<Rightarrow> witem list" where
  "carrier_items c = [WStr (mcc c), WStr (mnc c), WInt32 (match_type c), WStr (match_data c)]"

definition gsm_items :: "RIL_GSM_BroadcastSmsConfigInfo \<Rightarrow> witem list" where
  "gsm_items g = [WInt32 (fromServiceId g), WInt32 (toServiceId g), WInt32 (fromCodeScheme g),
     WInt32 (toCodeScheme g), WInt32 (ucast (gsm_selected g))]"

definition cdma_br_items :: "RIL_CDMA_BroadcastSmsConfigInfo \<Rightarrow> witem list" where
  "cdma_br_items c = [WInt32 (service_category c), WInt32 (language c), WInt32 (ucast (cdma_selected c))]"

abbreviation count :: "'a list \<Rightarrow> witem" where
  "count xs \<equiv> WInt32 (of_nat (length xs))"

text \<open>The layout the comments over the dispatch functions give, and for the others the order of
  their reads.\<close>

fun request_items :: "rdata \<Rightarrow> witem list" where
  "request_items DNull = []"
| "request_items (DString s) = [WStr s]"
| "request_items (DStrings ss) = strs_items ss"
| "request_items (DInts xs) = count xs # map WInt32 xs"
| "request_items (DSmsWrite a) = [WInt32 (sms_status a), WStr (sms_pdu a), WStr (sms_smsc a)]"
| "request_items (DDial d) = [WStr (dial_address d), WInt32 (dial_clir d)] @
     (case dial_uusInfo d of
        None \<Rightarrow> [WInt32 0]
      | Some u \<Rightarrow> [WInt32 1, WInt32 (uusType u), WInt32 (uusDcs u)] @
          (case uusData u of None \<Rightarrow> [WInt32 (- 1)] | Some bs \<Rightarrow> [count bs, WBytes bs]))"
| "request_items (DSimIO i) = [WInt32 (io_command i), WInt32 (io_fileid i), WStr (io_path i),
     WInt32 (io_p1 i), WInt32 (io_p2 i), WInt32 (io_p3 i), WStr (io_data i), WStr (io_pin2 i),
     WStr (io_aidPtr i)]"
| "request_items (DSimAPDU a) = [WInt32 (apdu_sessionid a), WInt32 (apdu_cla a),
     WInt32 (apdu_instruction a), WInt32 (apdu_p1 a), WInt32 (apdu_p2 a), WInt32 (apdu_p3 a),
     WStr (apdu_data a)]"
| "request_items (DCallForward c) = [WInt32 (cff_status c), WInt32 (cff_reason c),
     WInt32 (cff_serviceClass c), WInt32 (cff_toa c), WStr (cff_number c), WInt32 (cff_timeSeconds c)]"
| "request_items (DRaw d) = (case d of None \<Rightarrow> [WInt32 (- 1)] | Some bs \<Rightarrow> [count bs, WBytes bs])"
| "request_items (DCdmaSms m) = cdma_items m"
| "request_items (DImsGsm retry ref ss) =
     [WInt32 RADIO_TECH_3GPP, WBytes [retry], WBytes (le32 ref)] @ strs_items ss"
| "request_items (DImsCdma retry ref m) =
     [WInt32 RADIO_TECH_3GPP2, WBytes [retry], WBytes (le32 ref)] @ cdma_items m"
| "request_items (DCdmaSmsAck c e) = [WInt32 c, WInt32 e]"
| "request_items (DGsmBr gs) = count gs # concat (map gsm_items gs)"
| "request_items (DCdmaBr cs) = count cs # concat (map cdma_br_items cs)"
| "request_items (DCdmaSmsWrite st m) = WInt32 st # cdma_items m"
| "request_items (DInitialAttachApn a) = [WStr (iaa_apn a), WStr (iaa_protocol a), WInt32 (iaa_authtype a),
     WStr (iaa_username a), WStr (iaa_password a)]"
| "request_items (DNVReadItem i) = [WInt32 i]"
| "request_items (DNVWriteItem i v) = [WInt32 i, WStr v]"
| "request_items (DSelectUiccSub u) = [WInt32 (uicc_slot u), WInt32 (uicc_app_index u),
     WInt32 (uicc_sub_type u), WInt32 (uicc_act_status u)]"
| "request_items (DSimAuthentication a) = [WInt32 (authContext a), WStr (authData a), WStr (auth_aid a)]"
| "request_items (DDataProfiles ds) = count ds # concat (map profile_items ds)"
| "request_items (DRadioCapability c) = [WInt32 (rc_version c), WInt32 (rc_session c),
     WInt32 (rc_phase c), WInt32 (rc_rat c), WInt32 (rc_status c)]"
| "request_items (DCarrierRestrictions c) =
     [count (allowed_carriers c), count (excluded_carriers c)] @
     concat (map carrier_items (allowed_carriers c)) @ concat (map carrier_items (excluded_carriers c))"
| "request_items (DOpenChannel p2 aid) = [WBytes [p2], WStr aid]"
| "request_items (DAdnRecord a) = [WInt32 (record_id a), WStr (adn_name a), WStr (adn_number a),
     count (adn_email a)] @ map WStr (adn_email a) @ [count (adn_ad_number a)] @ map WStr (adn_ad_number a)"

text \<open>The function that the table gives a request of this kind, and the \<open>datalen\<close> it passes.\<close>

fun request_fn :: "rdata \<Rightarrow> dispatch_fn" where
  "request_fn DNull = F_dispatchVoid"
| "request_fn (DString _) = F_dispatchString"
| "request_fn (DStrings _) = F_dispatchStrings"
| "request_fn (DInts _) = F_dispatchInts"
| "request_fn (DSmsWrite _) = F_dispatchSmsWrite"
| "request_fn (DDial _) = F_dispatchDial"
| "request_fn (DSimIO _) = F_dispatchSIM_IO"
| "request_fn (DSimAPDU _) = F_dispatchSIM_APDU"
| "request_fn (DCallForward _) = F_dispatchCallForward"
| "request_fn (DRaw _) = F_dispatchRaw"
| "request_fn (DCdmaSms _) = F_dispatchCdmaSms"
| "request_fn (DImsGsm _ _ _) = F_dispatchImsSms"
| "request_fn (DImsCdma _ _ _) = F_dispatchImsSms"
| "request_fn (DCdmaSmsAck _ _) = F_dispatchCdmaSmsAck"
| "request_fn (DGsmBr _) = F_dispatchGsmBrSmsCnf"
| "request_fn (DCdmaBr _) = F_dispatchCdmaBrSmsCnf"
| "request_fn (DCdmaSmsWrite _ _) = F_dispatchRilCdmaSmsWriteArgs"
| "request_fn (DInitialAttachApn _) = F_dispatchSetInitialAttachApn"
| "request_fn (DNVReadItem _) = F_dispatchNVReadItem"
| "request_fn (DNVWriteItem _ _) = F_dispatchNVWriteItem"
| "request_fn (DSelectUiccSub _) = F_dispatchUiccSubscripton"
| "request_fn (DSimAuthentication _) = F_dispatchSimAuthentication"
| "request_fn (DDataProfiles _) = F_dispatchDataProfile"
| "request_fn (DRadioCapability _) = F_dispatchRadioCapability"
| "request_fn (DCarrierRestrictions _) = F_dispatchCarrierRestrictions"
| "request_fn (DOpenChannel _ _) = F_dispatchOpenChannelWithP2"
| "request_fn (DAdnRecord _) = F_dispatchAdnRecord"

definition strs_len :: "cstr list option \<Rightarrow> nat" where
  "strs_len ss = (case ss of None \<Rightarrow> 0 | Some ss \<Rightarrow> 8 * length ss)"

fun request_len :: "env \<Rightarrow> rdata \<Rightarrow> nat" where
  "request_len E (DString _) = 8"
| "request_len E (DStrings ss) = strs_len ss"
| "request_len E (DInts xs) = 4 * length xs"
| "request_len E (DSmsWrite _) = 24"
| "request_len E (DDial _) = (if callbacks_version E < 3 then 16 else 24)"
| "request_len E (DSimIO _) = (if callbacks_version E < 6 then 48 else 56)"
| "request_len E (DSimAPDU _) = 32"
| "request_len E (DCallForward _) = 32"
| "request_len E (DRaw d) = (case d of None \<Rightarrow> 0 | Some bs \<Rightarrow> length bs)"
| "request_len E (DCdmaSms _) = 372"
| "request_len E (DImsGsm _ _ ss) = 9 + strs_len ss"
| "request_len E (DImsCdma _ _ _) = 9 + 372"
| "request_len E (DCdmaSmsAck _ _) = 8"
| "request_len E (DGsmBr gs) = 8 * length gs"
| "request_len E (DCdmaBr cs) = 8 * length cs"
| "request_len E (DCdmaSmsWrite _ _) = 376"
| "request_len E (DInitialAttachApn _) = 40"
| "request_len E (DNVReadItem _) = 4"
| "request_len E (DNVWriteItem _ _) = 16"
| "request_len E (DSelectUiccSub _) = 16"
| "request_len E (DSimAuthentication _) = 24"
| "request_len E (DDataProfiles ds) = 8 * length ds"
| "request_len E (DRadioCapability _) = 84"
| "request_len E (DCarrierRestrictions _) = 24"
| "request_len E (DOpenChannel _ _) = 16"
| "request_len E (DAdnRecord _) = 88"
| "request_len E DNull = 0"

text \<open>Which requests arrive unchanged: counts are \<open>int\<close>s, strings convert, the fixed arrays of a
  CDMA message are zero behind the digits in use, a mandatory string is not null, an empty call
  forwarding number is sent as null, and a raw request is not null.\<close>

definition digits_ok :: "nat \<Rightarrow> nat \<Rightarrow> u8 list \<Rightarrow> bool" where
  "digits_ok n k ds \<longleftrightarrow> length ds = k \<and> drop n ds = replicate (k - n) 0"

definition cdma_ok :: "RIL_CDMA_SMS_Message \<Rightarrow> bool" where
  "cdma_ok m \<longleftrightarrow>
     digits_ok (min (unat (adr_number_of_digits (sAddress m))) RIL_CDMA_SMS_ADDRESS_MAX)
       RIL_CDMA_SMS_ADDRESS_MAX (adr_digits (sAddress m)) \<and>
     digits_ok (min (unat (sub_number_of_digits (sSubAddress m))) RIL_CDMA_SMS_SUBADDRESS_MAX)
       RIL_CDMA_SMS_SUBADDRESS_MAX (sub_digits (sSubAddress m)) \<and>
     digits_ok (signed_min (uBearerDataLen m) RIL_CDMA_SMS_BEARER_DATA_MAX)
       RIL_CDMA_SMS_BEARER_DATA_MAX (aBearerData m)"

definition few :: "'a list \<Rightarrow> bool" where
  "few xs \<longleftrightarrow> length xs < 2 ^ 27"

definition strs_ok :: "cstr list option \<Rightarrow> bool" where
  "strs_ok ss \<longleftrightarrow> (case ss of None \<Rightarrow> True | Some ss \<Rightarrow> few ss \<and> list_all str_ok ss)"

definition profile_ok :: "RIL_DataProfileInfo \<Rightarrow> bool" where
  "profile_ok d \<longleftrightarrow> str_ok (dp_apn d) \<and> str_ok (dp_protocol d) \<and> str_ok (dp_user d) \<and> str_ok (dp_password d)"

definition carrier_ok :: "RIL_Carrier \<Rightarrow> bool" where
  "carrier_ok c \<longleftrightarrow> str_ok (mcc c) \<and> str_ok (mnc c) \<and> str_ok (match_data c)"

fun request_ok :: "env \<Rightarrow> rdata \<Rightarrow> bool" where
  "request_ok E (DString s) = str_ok s"
| "request_ok E (DStrings ss) = strs_ok ss"
| "request_ok E (DInts xs) = (xs \<noteq> [] \<and> few xs)"
| "request_ok E (DSmsWrite a) = (str_ok (sms_pdu a) \<and> sms_pdu a \<noteq> None \<and> str_ok (sms_smsc a))"
| "request_ok E (DDial d) = (str_ok (dial_address d) \<and> dial_address d \<noteq> None \<and>
     (case dial_uusInfo d of None \<Rightarrow> True | Some u \<Rightarrow> callbacks_version E \<ge> 3 \<and>
        (case uusData u of None \<Rightarrow> uusLength u = 0
         | Some bs \<Rightarrow> uusLength u = of_nat (length bs) \<and> few bs \<and> bs \<noteq> [])))"
| "request_ok E (DSimIO i) =
     (str_ok (io_path i) \<and> str_ok (io_data i) \<and> str_ok (io_pin2 i) \<and> str_ok (io_aidPtr i))"
| "request_ok E (DSimAPDU a) = str_ok (apdu_data a)"
| "request_ok E (DCallForward c) = (str_ok (cff_number c) \<and> cff_number c \<noteq> Some [])"
| "request_ok E (DRaw d) = (case d of None \<Rightarrow> False | Some bs \<Rightarrow> few bs \<and> bs \<noteq> [])"
| "request_ok E (DCdmaSms m) = cdma_ok m"
| "request_ok E (DImsGsm _ _ ss) = strs_ok ss"
| "request_ok E (DImsCdma _ _ m) = cdma_ok m"
| "request_ok E (DGsmBr gs) = few gs"
| "request_ok E (DCdmaBr cs) = few cs"
| "request_ok E (DCdmaSmsWrite _ m) = cdma_ok m"
| "request_ok E (DInitialAttachApn a) =
     (str_ok (iaa_apn a) \<and> str_ok (iaa_protocol a) \<and> str_ok (iaa_username a) \<and> str_ok (iaa_password a))"
| "request_ok E (DNVWriteItem _ v) = (str_ok v \<and> v \<noteq> None)"
| "request_ok E (DSimAuthentication a) = (str_ok (authData a) \<and> str_ok (auth_aid a))"
| "request_ok E (DDataProfiles ds) = (few ds \<and> list_all profile_ok ds)"
| "request_ok E (DCarrierRestrictions c) = (callbacks_version E \<ge> 14 \<and>
     few (allowed_carriers c) \<and> few (excluded_carriers c) \<and>
     list_all carrier_ok (allowed_carriers c) \<and> list_all carrier_ok (excluded_carriers c))"
| "request_ok E (DOpenChannel _ aid) = (str_ok aid \<and> aid \<noteq> None)"
| "request_ok E (DAdnRecord a) = (str_ok (adn_name a) \<and> str_ok (adn_number a) \<and>
     list_all str_ok (adn_email a) \<and> list_all str_ok (adn_ad_number a) \<and>
     length (adn_email a) \<le> RIL_MAX_NUM_EMAIL_COUNT \<and> length (adn_ad_number a) \<le> RIL_MAX_NUM_AD_COUNT \<and>
     email_elements a = of_nat (length (adn_email a)) \<and> anr_elements a = of_nat (length (adn_ad_number a)))"
| "request_ok E _ = True"

definition env_ok :: "env \<Rightarrow> bool" where
  "env_ok E \<longleftrightarrow> plenty (env_alloc E) \<and> (\<forall>n. stack_ok E n)"

section \<open>Running the loops on a message\<close>

lemma wire_strs [simp]: "wire (map WStr ss) = concat (map enc_str ss)"
  by (induction ss) simp_all

lemma few_sint [simp]: "few xs \<Longrightarrow> sint (of_nat (length xs) :: u32) = int (length xs)"
  by (rule sint_of_nat_small) (simp add: few_def)

lemma few_zero [simp]: "few xs \<Longrightarrow> (of_nat (length xs) :: u32) = 0 \<longleftrightarrow> xs = []"
  using few_sint [of xs] by (cases xs) auto

lemma few_minus1 [simp]: "few xs \<Longrightarrow> (of_nat (length xs) :: u32) \<noteq> - 1"
proof
  assume "few xs" and eq: "(of_nat (length xs) :: u32) = - 1"
  have "sint (of_nat (length xs) :: u32) = - 1" by (simp only: eq) simp
  with \<open>few xs\<close> show False by simp
qed

lemma few_to_size [simp]: "few xs \<Longrightarrow> to_size (of_nat (length xs)) = length xs"
proof -
  assume f: "few xs"
  have "(scast (of_nat (length xs) :: u32) :: u64) = of_int (sint (of_nat (length xs) :: u32))"
    by (rule scast_eq)
  also have "\<dots> = of_nat (length xs)" using f by simp
  finally show ?thesis
    using f by (simp add: to_size_def unat_of_nat few_def)
qed

lemma few_calloc: "plenty (env_alloc E) \<Longrightarrow> few xs \<Longrightarrow> k \<le> 72 \<Longrightarrow> calloc_ok E (length xs) k"
proof -
  assume "plenty (env_alloc E)" "few xs" "k \<le> 72"
  then have "length xs * k \<le> 2 ^ 27 * 72" by (intro mult_le_mono) (auto simp: few_def)
  then show ?thesis using \<open>plenty (env_alloc E)\<close> by (simp add: calloc_ok_def plenty_def)
qed

lemma msg_int_eq: "msg p (le32 w @ r) \<Longrightarrow> \<exists>q. readInt32_ptr p t = Some (NO_ERROR, w, q) \<and> msg q r"
  using msg_int [of p w r "\<lambda>x. fst x = NO_ERROR \<and> fst (snd x) = w \<and> msg (snd (snd x)) r" t]
  by (auto simp: succ_def)

lemma msg_ints [msg_elims]:
  assumes "msg p (wire (map WInt32 xs) @ r)" and "n = length xs"
    and "\<And>q. msg q r \<Longrightarrow> P (Some xs, q)"
  shows "succ (read_ints t n p) P"
proof -
  have "msg p (wire (map WInt32 xs) @ r) \<Longrightarrow> succ (read_ints t (length xs) p) (\<lambda>y. fst y = Some xs \<and> msg (snd y) r)"
  proof (induction xs arbitrary: p)
    case Nil
    then show ?case by simp
  next
    case (Cons x xs)
    obtain q where "readInt32_ptr p t = Some (NO_ERROR, x, q)" "msg q (wire (map WInt32 xs) @ r)"
      using msg_int_eq [of p x] Cons.prems by (auto simp: append_assoc)
    with Cons.IH [of q] show ?case by (auto simp: succ_def)
  qed
  then show ?thesis using assms by (auto simp: succ_def)
qed

lemma overwrite_update:
  "i < length ds \<Longrightarrow> overwrite (ds[i := b]) (Suc i) bs = overwrite ds i (b # bs)"
  by (simp add: overwrite_def take_Suc_conv_app_nth)

lemma msg_digits:
  assumes "msg p (wire (byte_items bs) @ r)" and "n = length bs" and "i + n \<le> length ds"
    and "\<And>ut' q. msg q r \<Longrightarrow> P (NO_ERROR, ut', overwrite ds i bs, q)"
  shows "succ (read_digits i n NO_ERROR ut ds p) P"
proof -
  have "msg p (wire (byte_items bs) @ r) \<Longrightarrow> i + length bs \<le> length ds \<Longrightarrow>
      succ (read_digits i (length bs) NO_ERROR ut ds p)
        (\<lambda>(st, ut', ds', q). st = NO_ERROR \<and> ds' = overwrite ds i bs \<and> msg q r)"
  proof (induction bs arbitrary: p i ut ds)
    case Nil
    then show ?case by (simp add: byte_items_def)
  next
    case (Cons b bs)
    have "succ (read_u8 p ut) (\<lambda>x. fst x = NO_ERROR \<and> fst (snd x) = b \<and> msg (snd (snd x)) (wire (byte_items bs) @ r))"
      by (rule msg_u8) (use Cons.prems in \<open>auto simp: byte_items_def\<close>)
    then obtain q where q: "read_u8 p ut = Some (NO_ERROR, b, q)" "msg q (wire (byte_items bs) @ r)"
      by (auto simp: succ_def)
    show ?case
      using Cons.IH [OF q(2), of "Suc i" "ds[i := b]" b] Cons.prems(2) q(1)
      by (simp add: overwrite_update)
  qed
  then show ?thesis using assms by (auto simp: succ_def)
qed

lemma digits_ok_fill:
  assumes "digits_ok n k ds" and "n \<le> k"
  shows "overwrite (replicate k 0) 0 (take n ds) = ds"
proof -
  have "ds = take n ds @ replicate (k - n) 0"
    using assms by (metis append_take_drop_id digits_ok_def)
  then show ?thesis using assms by (simp add: overwrite_def digits_ok_def min_def)
qed

lemma msg_array:
  assumes "msg p (wire (byte_items (take n ds)) @ r)" and "digits_ok n k ds" and "n \<le> k"
    and "\<And>ut' q. msg q r \<Longrightarrow> P (NO_ERROR, ut', ds, q)"
  shows "succ (read_digits 0 n NO_ERROR ut (replicate k 0) p) P"
proof (rule msg_digits [OF assms(1)])
  show "n = length (take n ds)" using assms(2,3) by (simp add: digits_ok_def)
  show "0 + n \<le> length (replicate k (0 :: u8))" using assms(3) by simp
qed (simp add: assms(4) digits_ok_fill [OF assms(2,3)])

lemma signed_min_le [simp]: "signed_min a b \<le> b"
  by (auto simp: signed_min_def)

text \<open>The rules for one step, over the rest of the block.\<close>

lemma bind3: "succ m (\<lambda>x. succ (f (fst x) (fst (snd x)) (snd (snd x))) P) \<Longrightarrow>
    succ (m \<bind> (\<lambda>(a, b, c). f a b c)) P"
  by (simp add: case_prod_beta)

lemma step_int:
  "msg p (le32 w @ r) \<Longrightarrow> (\<And>q. msg q r \<Longrightarrow> succ (f NO_ERROR w q) P) \<Longrightarrow>
     succ (readInt32_ptr p t \<bind> (\<lambda>(st, x, q). f st x q)) P"
  by (rule bind3, erule msg_int) simp

lemma step_u8:
  "msg p (enc_bytes [b] @ r) \<Longrightarrow> (\<And>q. msg q r \<Longrightarrow> succ (f NO_ERROR b q) P) \<Longrightarrow>
     succ (read_u8 p t \<bind> (\<lambda>(st, x, q). f st x q)) P"
  by (rule bind3, erule msg_u8) simp

lemma step_array:
  "msg p (wire (byte_items (take n ds)) @ r) \<Longrightarrow> digits_ok n k ds \<Longrightarrow> n \<le> k \<Longrightarrow>
     (\<And>ut' q. msg q r \<Longrightarrow> succ (f NO_ERROR ut' ds q) P) \<Longrightarrow>
     succ (read_digits 0 n NO_ERROR ut (replicate k 0) p \<bind> (\<lambda>(st, u, x, q). f st u x q)) P"
  by (simp, erule msg_array) auto

lemma msg_cdma [msg_elims]:
  assumes "msg p (wire (cdma_items m) @ r)" and "cdma_ok m" and "\<And>q. msg q r \<Longrightarrow> P (NO_ERROR, m, q)"
  shows "succ (constructCdmaSms t ut p) P"
proof -
  have m: "m = \<lparr>uTeleserviceID = uTeleserviceID m, bIsServicePresent = bIsServicePresent m,
      uServicecategory = uServicecategory m,
      sAddress = \<lparr>digit_mode = digit_mode (sAddress m), number_mode = number_mode (sAddress m),
        number_type = number_type (sAddress m), number_plan = number_plan (sAddress m),
        adr_number_of_digits = adr_number_of_digits (sAddress m), adr_digits = adr_digits (sAddress m)\<rparr>,
      sSubAddress = \<lparr>subaddressType = subaddressType (sSubAddress m), sub_odd = sub_odd (sSubAddress m),
        sub_number_of_digits = sub_number_of_digits (sSubAddress m), sub_digits = sub_digits (sSubAddress m)\<rparr>,
      uBearerDataLen = uBearerDataLen m, aBearerData = aBearerData m\<rparr>"
    by simp
  have ok: "digits_ok (min (unat (adr_number_of_digits (sAddress m))) 36) 36 (adr_digits (sAddress m))"
    "digits_ok (min (unat (sub_number_of_digits (sSubAddress m))) 36) 36 (sub_digits (sSubAddress m))"
    "digits_ok (signed_min (uBearerDataLen m) 255) 255 (aBearerData m)"
    using assms(2) by (auto simp: cdma_ok_def)
  show ?thesis
    apply (insert assms(1))
    apply (unfold cdma_items_def Let_def constructCdmaSms_def
      append_Cons append_Nil wire_append wire_simps enc_witem.simps append_assoc)
    apply (erule step_int step_u8 | (erule step_array, rule ok, simp))+
    apply (simp only: m [symmetric] succ_Some)
    apply (erule assms(3))
    done
qed

lemma bind2: "succ m (\<lambda>x. succ (f (fst x) (snd x)) P) \<Longrightarrow> succ (m \<bind> (\<lambda>(a, b). f a b)) P"
  by (simp add: case_prod_beta)

lemma step_str:
  "msg p (enc_str s @ r) \<Longrightarrow> str_ok s \<Longrightarrow> plenty (env_alloc E) \<Longrightarrow>
     (\<And>q. msg q r \<Longrightarrow> succ (f s q) P) \<Longrightarrow> succ (strdupReadString E p \<bind> (\<lambda>(s, q). f s q)) P"
  by (rule bind2, erule msg_str) auto

lemma peek_skip [simp]: "peek (skip k p) off n = peek p off n"
  by (simp add: peek_def)

lemma msg_inplace:
  assumes "msg p (enc_bytes bs @ r)" and "bs \<noteq> []" and "n = length bs"
    and "\<And>off q. msg q r \<Longrightarrow> peek q off n = Some bs \<Longrightarrow> P (Some off, q)"
  shows "succ (readInplace p n) P"
proof -
  have p: "parcel_ok p" "unread p = enc_bytes bs @ r" using assms(1) by (auto simp: msg_def)
  let ?q = "skip (length (enc_bytes bs)) p"
  have m: "msg ?q r" by (rule msg_skip [OF assms(1)])
  have "readInplace p n = Some (Some (mDataPos p), ?q)"
    using readInplace_reads [OF p(1), of bs "replicate (padding (length bs)) 0" r] p(2) assms(2,3)
    by (simp add: enc_bytes_def)
  moreover have "peek p (mDataPos p) n = Some bs"
    using peek_unread [OF p(1), of bs] p(2) assms(3) by (simp add: enc_bytes_def)
  then have "peek ?q (mDataPos p) n = Some bs" by simp
  ultimately show ?thesis using assms(4) [OF m] by simp
qed

lemmas step_simps = Let_def append_Cons append_Nil append_assoc wire_append wire_simps enc_witem.simps
  list.map concat.simps

lemma ucast_u8 [simp]: "(ucast (ucast (x :: u8) :: u32) :: u8) = x"
  by (rule bit_word_eqI) (auto simp: bit_simps dest: bit_imp_le_length)

lemma msg_gsm:
  "msg p (wire (concat (map gsm_items gs)) @ r) \<Longrightarrow>
     succ (read_gsm_bci (length gs) NO_ERROR t p) (\<lambda>(st, x, q). st = NO_ERROR \<and> x = gs \<and> msg q r)"
proof (induction gs arbitrary: p t)
  case (Cons g gs)
  have g: "g = \<lparr>fromServiceId = fromServiceId g, toServiceId = toServiceId g,
      fromCodeScheme = fromCodeScheme g, toCodeScheme = toCodeScheme g, gsm_selected = gsm_selected g\<rparr>"
    by simp
  show ?case
    apply (insert Cons.prems)
    apply (unfold step_simps gsm_items_def [of g] list.size add_0_right add_Suc_right read_gsm_bci.simps)
    apply (erule step_int)+
    apply (simp only: succ_bind)
    apply (rule succ_mono, erule Cons.IH)
    apply auto
    done
qed simp

lemma msg_cdma_br:
  "msg p (wire (concat (map cdma_br_items gs)) @ r) \<Longrightarrow>
     succ (read_cdma_bci (length gs) NO_ERROR t p) (\<lambda>(st, x, q). st = NO_ERROR \<and> x = gs \<and> msg q r)"
proof (induction gs arbitrary: p t)
  case (Cons g gs)
  show ?case
    apply (insert Cons.prems)
    apply (unfold step_simps cdma_br_items_def [of g] list.size add_0_right add_Suc_right read_cdma_bci.simps)
    apply (erule step_int)+
    apply (simp only: succ_bind)
    apply (rule succ_mono, erule Cons.IH)
    apply auto
    done
qed simp

lemma msg_profiles:
  "msg p (wire (concat (map profile_items gs)) @ r) \<Longrightarrow> plenty (env_alloc E) \<Longrightarrow> list_all profile_ok gs \<Longrightarrow>
     succ (read_profiles E (length gs) NO_ERROR t p) (\<lambda>(st, x, q). st = NO_ERROR \<and> x = gs \<and> msg q r)"
proof (induction gs arbitrary: p t)
  case (Cons g gs)
  have ok: "str_ok (dp_apn g)" "str_ok (dp_protocol g)" "str_ok (dp_user g)" "str_ok (dp_password g)"
    "plenty (env_alloc E)" "list_all profile_ok gs"
    using Cons.prems by (simp_all add: profile_ok_def [of g])
  show ?case
    apply (insert Cons.prems(1))
    apply (unfold step_simps profile_items_def [of g] list.size add_0_right add_Suc_right read_profiles.simps)
    apply (erule step_int | (erule step_str, rule ok, rule ok))+
    apply (drule Cons.IH [OF _ ok(5,6)])
    apply (auto elim!: succ_mono)
    done
qed simp

lemma msg_carriers:
  "msg p (wire (concat (map carrier_items gs)) @ r) \<Longrightarrow> plenty (env_alloc E) \<Longrightarrow> list_all carrier_ok gs \<Longrightarrow>
     succ (read_carriers E (length gs) t p) (\<lambda>(x, t, q). x = Some gs \<and> msg q r)"
proof (induction gs arbitrary: p t)
  case (Cons g gs)
  have ok: "str_ok (mcc g)" "str_ok (mnc g)" "str_ok (match_data g)"
    "plenty (env_alloc E)" "list_all carrier_ok gs"
    using Cons.prems by (simp_all add: carrier_ok_def [of g])
  show ?case
    apply (insert Cons.prems(1))
    apply (unfold step_simps carrier_items_def [of g] list.size add_0_right add_Suc_right read_carriers.simps)
    apply (erule step_int | (erule step_str, rule ok, rule ok) | simp only: not_True_eq_False if_False simp_thms)+
    apply (drule Cons.IH [OF _ ok(4,5)])
    apply (auto elim!: succ_mono)
    done
qed simp

lemma msg_strings:
  assumes "msg p (wire (strs_items ss) @ r)" and "strs_ok ss" and "plenty (env_alloc E)"
  obtains c q where "readInt32_ptr p t = Some (NO_ERROR, c, q)"
    "read_strings E c q = Some (Inr (ss, strs_len ss))"
    "\<not> (sint c > 0 \<and> nat (sint c) > INT32_MAX div 8)"
proof (cases ss)
  case None
  then obtain q where "readInt32_ptr p t = Some (NO_ERROR, - 1, q)"
    using msg_int_eq [of p "- 1" r] assms(1) by (auto simp: strs_items_def)
  with None that [of "- 1" q] show thesis by (simp add: read_strings_def strs_len_def)
next
  case (Some xs)
  then have f: "few xs" "list_all str_ok xs" using assms(2) by (auto simp: strs_ok_def)
  obtain q where q: "readInt32_ptr p t = Some (NO_ERROR, of_nat (length xs), q)"
    "msg q (concat (map enc_str xs) @ r)"
    using msg_int_eq [of p "of_nat (length xs)" "concat (map enc_str xs) @ r"] assms(1) Some
    by (auto simp: strs_items_def)
  have "succ (repeat_get (strdupReadString E) (length xs) q) (\<lambda>x. fst x = xs)"
    by (rule msg_strs [OF q(2) f(2) assms(3)]) auto
  then have "read_strings E (of_nat (length xs)) q = Some (Inr (ss, strs_len ss))"
    using f few_calloc [OF assms(3) f(1), of 8] assms(3) Some
    by (auto simp: read_strings_def succ_def strs_len_def Let_def calloc_ok_def plenty_def)
  moreover have "length xs \<le> INT32_MAX div 8" using f(1) by (simp add: few_def)
  ultimately show thesis using that [OF q(1)] f(1) by simp
qed


section \<open>Requests arrive as the client wrote them\<close>

abbreviation delivers :: "env \<Rightarrow> parcel \<Rightarrow> rdata \<Rightarrow> bool" where
  "delivers E p d \<equiv> run_dispatch (request_fn d) E p = Some [OnRequest d (request_len E d)]"

lemma deliver_strings:
  assumes "msg p (wire (strs_items ss) @ r)" and "strs_ok ss" and "plenty (env_alloc E)"
  shows "dispatchStrings E p = Some [OnRequest (DStrings ss) (strs_len ss)]"
    and "dispatchImsGsmSms E p retry ref = Some [OnRequest (DImsGsm retry ref ss) (4 + 1 + 4 + strs_len ss)]"
proof -
  obtain c q where c: "readInt32_ptr p (junk32 E) = Some (NO_ERROR, c, q)"
    "read_strings E c q = Some (Inr (ss, strs_len ss))"
    "\<not> (sint c > 0 \<and> nat (sint c) > INT32_MAX div 8)"
    by (rule msg_strings [OF assms])
  then show "dispatchStrings E p = Some [OnRequest (DStrings ss) (strs_len ss)]"
    by (simp add: dispatchStrings_def)
  have "\<not> (0 < sint c \<and> INT32_MAX div 8 < nat (sint c))" using c(3) by blast
  then show "dispatchImsGsmSms E p retry ref = Some [OnRequest (DImsGsm retry ref ss) (4 + 1 + 4 + strs_len ss)]"
    using c(1,2) unfolding dispatchImsGsmSms_def by (simp only: bind.simps prod.case simp_thms if_False) simp
qed

lemma deliver_ints:
  assumes "msg p (wire (request_items (DInts xs)) @ r)" and "xs \<noteq> []" "few xs" and "plenty (env_alloc E)"
  shows "delivers E p (DInts xs)"
proof -
  obtain q where q: "readInt32_ptr p (junk32 E) = Some (NO_ERROR, of_nat (length xs), q)"
    "msg q (wire (map WInt32 xs) @ r)"
    using msg_int_eq [of p "of_nat (length xs)" "wire (map WInt32 xs) @ r"] assms(1) by auto
  have "succ (read_ints (junk32 E) (length xs) q) (\<lambda>x. fst x = Some xs)"
    by (rule msg_ints [OF q(2)]) auto
  then show ?thesis
    using q(1) assms few_calloc [OF assms(4,3), of 4]
    by (auto simp: dispatchInts_def succ_def Let_def)
qed

lemma deliver_dial:
  assumes "msg p (wire (request_items (DDial d)) @ r)" and "request_ok E (DDial d)" and "plenty (env_alloc E)"
  shows "delivers E p (DDial d)"
proof -
  obtain adr clir uus where d: "d = \<lparr>dial_address = adr, dial_clir = clir, dial_uusInfo = uus\<rparr>"
    by (cases d)
  note m = assms(1) [unfolded d request_items.simps RIL_Dial.simps]
  have ok: "str_ok adr" "adr \<noteq> None" using assms(2) d by auto
  show ?thesis
  proof (cases uus)
    case None
    show ?thesis
      unfolding d request_fn.simps run_dispatch.simps request_len.simps succ_eq [symmetric]
      apply (insert m)
      apply (unfold None option.case step_simps dispatchDial_def)
      apply (erule step_str, rule ok, rule assms(3))
      apply (erule step_int)
      apply (simp only: ok simp_thms if_False if_True)
      apply (simp, intro impI)
      apply (erule msg_int)
      apply simp
      done
  next
    case (Some u)
    obtain ty dcs len data where u: "u = \<lparr>uusType = ty, uusDcs = dcs, uusLength = len, uusData = data\<rparr>"
      by (cases u)
    have v: "\<not> callbacks_version E < 3" using assms(2) d Some by simp
    show ?thesis
    proof (cases data)
      case None
      have "len = 0" using assms(2) d Some u None by simp
      then show ?thesis
      unfolding d request_fn.simps run_dispatch.simps request_len.simps succ_eq [symmetric]
        using m Some u None ok v assms(3)
        by (auto simp: dispatchDial_def elim!: msg_elims)
    next
      case (Some bs)
      have b: "len = of_nat (length bs)" "few bs" "bs \<noteq> []" using assms(2) d \<open>uus = Some u\<close> u Some by auto
      then show ?thesis
      unfolding d request_fn.simps run_dispatch.simps request_len.simps succ_eq [symmetric]
        using m \<open>uus = Some u\<close> u Some ok v assms(3)
        by (auto simp: dispatchDial_def elim!: msg_elims msg_inplace)
    qed
  qed
qed

lemma deliver_cdma:
  assumes "msg p (wire (request_items d) @ r)" and "request_ok E d" and "plenty (env_alloc E)"
  shows "d = DCdmaSms m \<Longrightarrow> delivers E p d" and "d = DCdmaSmsWrite st m \<Longrightarrow> delivers E p d"
    and "d = DImsCdma retry ref m \<Longrightarrow> delivers E p d"
  using assms unfolding succ_eq [symmetric]
  by (auto simp: dispatchCdmaSms_def dispatchRilCdmaSmsWriteArgs_def dispatchImsSms_def
      dispatchImsCdmaSms_def elim!: msg_elims)

lemma deliver_ims_gsm:
  assumes "msg p (wire (request_items (DImsGsm retry ref ss)) @ r)" and "strs_ok ss" and "plenty (env_alloc E)"
  shows "delivers E p (DImsGsm retry ref ss)"
  using assms unfolding succ_eq [symmetric]
  by (auto simp: dispatchImsSms_def deliver_strings elim!: msg_elims)

lemma deliver_config:
  assumes "env_ok E" and "few gs" and "few cs" and "few ds" and "list_all profile_ok ds"
  shows "msg p (wire (request_items (DGsmBr gs)) @ r) \<Longrightarrow> delivers E p (DGsmBr gs)"
    and "msg p (wire (request_items (DCdmaBr cs)) @ r) \<Longrightarrow> delivers E p (DCdmaBr cs)"
    and "msg p (wire (request_items (DDataProfiles ds)) @ r) \<Longrightarrow> delivers E p (DDataProfiles ds)"
proof -
  have E: "plenty (env_alloc E)" "\<And>n. stack_ok E n" using assms(1) by (auto simp: env_ok_def)
  assume "msg p (wire (request_items (DGsmBr gs)) @ r)"
  then obtain q where "readInt32_ptr p (junk32 E) = Some (NO_ERROR, of_nat (length gs), q)"
    "msg q (wire (concat (map gsm_items gs)) @ r)"
    using msg_int_eq [of p "of_nat (length gs)" "wire (concat (map gsm_items gs)) @ r"] by auto
  with msg_gsm [of q gs r "junk32 E"] show "delivers E p (DGsmBr gs)"
    using E assms by (auto simp: dispatchGsmBrSmsCnf_def succ_def)
next
  have E: "plenty (env_alloc E)" "\<And>n. stack_ok E n" using assms(1) by (auto simp: env_ok_def)
  assume "msg p (wire (request_items (DCdmaBr cs)) @ r)"
  then obtain q where "readInt32_ptr p (junk32 E) = Some (NO_ERROR, of_nat (length cs), q)"
    "msg q (wire (concat (map cdma_br_items cs)) @ r)"
    using msg_int_eq [of p "of_nat (length cs)" "wire (concat (map cdma_br_items cs)) @ r"] by auto
  with msg_cdma_br [of q cs r "junk32 E"] show "delivers E p (DCdmaBr cs)"
    using E assms by (auto simp: dispatchCdmaBrSmsCnf_def succ_def)
next
  have E: "plenty (env_alloc E)" using assms(1) by (auto simp: env_ok_def)
  assume "msg p (wire (request_items (DDataProfiles ds)) @ r)"
  then obtain q where "readInt32_ptr p (junk32 E) = Some (NO_ERROR, of_nat (length ds), q)"
    "msg q (wire (concat (map profile_items ds)) @ r)"
    using msg_int_eq [of p "of_nat (length ds)" "wire (concat (map profile_items ds)) @ r"] by auto
  with msg_profiles [of q ds r E "junk32 E"] show "delivers E p (DDataProfiles ds)"
    using E assms few_calloc [OF E assms(4)] by (auto simp: dispatchDataProfile_def succ_def Let_def)
qed

lemma deliver_carriers:
  assumes "msg p (wire (request_items (DCarrierRestrictions c)) @ r)"
    and "request_ok E (DCarrierRestrictions c)" and "plenty (env_alloc E)"
  shows "delivers E p (DCarrierRestrictions c)"
proof -
  obtain al ex where c: "c = \<lparr>allowed_carriers = al, excluded_carriers = ex\<rparr>" by (cases c)
  have ok: "\<not> callbacks_version E < 14" "few al" "few ex" "list_all carrier_ok al" "list_all carrier_ok ex"
    using assms(2) c by auto
  let ?w = "wire (concat (map carrier_items ex)) @ r"
  let ?v = "wire (concat (map carrier_items al)) @ ?w"
  obtain q1 where q1: "readInt32_ptr p (junk32 E) = Some (NO_ERROR, of_nat (length al), q1)"
    "msg q1 (le32 (of_nat (length ex)) @ ?v)"
    using msg_int_eq [of p "of_nat (length al)" "le32 (of_nat (length ex)) @ ?v"] assms(1) c by auto
  obtain q2 where q2: "readInt32_ptr q1 (of_nat (length al)) = Some (NO_ERROR, of_nat (length ex), q2)"
    "msg q2 ?v"
    using msg_int_eq [OF q1(2)] by blast
  obtain t q3 where q3: "read_carriers E (length al) (of_nat (length ex)) q2 = Some (Some al, t, q3)" "msg q3 ?w"
    using msg_carriers [OF q2(2) assms(3) ok(4), of "of_nat (length ex)"] by (auto simp: succ_def)
  obtain u q4 where q4: "read_carriers E (length ex) t q3 = Some (Some ex, u, q4)"
    using msg_carriers [OF q3(2) assms(3) ok(5), of t] by (auto simp: succ_def)
  show ?thesis
    using ok(1-3) q1(1) q2(1) q3(1) q4 few_calloc [OF assms(3) ok(2)] few_calloc [OF assms(3) ok(3)] c
    by (simp add: dispatchCarrierRestrictions_def Let_def)
qed

lemma msg_read_array:
  assumes "msg p (concat (map enc_str ss) @ r)" and "list_all str_ok ss" and "plenty (env_alloc E)"
    and "length ss \<le> k" and "k \<le> 4" and "\<And>q. msg q r \<Longrightarrow> P (ss, q)"
  shows "succ (read_array E k (of_nat (length ss)) p) P"
proof -
  have "few ss" using assms(4,5) by (simp add: few_def)
  then show ?thesis
    using msg_strs [OF assms(1-3), of "length ss" P] assms(4,6) by (simp add: read_array_def)
qed

lemma deliver_adn:
  assumes "msg p (wire (request_items (DAdnRecord a)) @ r)"
    and "request_ok E (DAdnRecord a)" and "plenty (env_alloc E)"
  shows "delivers E p (DAdnRecord a)"
  using assms unfolding succ_eq [symmetric]
  by (cases a) (auto simp: dispatchAdnRecord_def elim!: msg_int msg_str msg_read_array)


lemma deliver_raw:
  assumes "msg p (wire (request_items (DRaw d)) @ r)" and "request_ok E (DRaw d)"
  shows "delivers E p (DRaw d)"
  using assms unfolding succ_eq [symmetric]
  by (cases d) (auto simp: dispatchRaw_def elim!: msg_int msg_inplace)

lemma deliver_fields:
  assumes "msg p (wire (request_items d) @ r)" and "request_ok E d" and "plenty (env_alloc E)"
  shows "d = DString s \<Longrightarrow> delivers E p d" and "d = DSmsWrite sw \<Longrightarrow> delivers E p d"
    and "d = DSimIO io \<Longrightarrow> delivers E p d" and "d = DSimAPDU ap \<Longrightarrow> delivers E p d"
    and "d = DCallForward cf \<Longrightarrow> delivers E p d" and "d = DCdmaSmsAck ec cc \<Longrightarrow> delivers E p d"
    and "d = DInitialAttachApn ia \<Longrightarrow> delivers E p d" and "d = DNVReadItem i \<Longrightarrow> delivers E p d"
    and "d = DNVWriteItem i s \<Longrightarrow> delivers E p d" and "d = DSelectUiccSub us \<Longrightarrow> delivers E p d"
    and "d = DSimAuthentication sa \<Longrightarrow> delivers E p d" and "d = DRadioCapability rc \<Longrightarrow> delivers E p d"
    and "d = DOpenChannel c s \<Longrightarrow> delivers E p d"
  using assms unfolding succ_eq [symmetric]
  by (auto simp: dispatchString_def dispatchSmsWrite_def dispatchSIM_IO_def dispatchSIM_APDU_def
      dispatchCallForward_def dispatchCdmaSmsAck_def dispatchSetInitialAttachApn_def
      dispatchNVReadItem_def dispatchNVWriteItem_def dispatchUiccSubscripton_def
      dispatchSimAuthentication_def dispatchRadioCapability_def dispatchOpenChannelWithP2_def
      elim!: msg_elims)

lemma deliver:
  assumes "msg p (wire (request_items d) @ r)" and "request_ok E d" and "env_ok E"
  shows "delivers E p d"
proof -
  have E: "plenty (env_alloc E)" using assms(3) by (simp add: env_ok_def)
  note F = deliver_fields [OF assms(1,2) E] and C = deliver_cdma [OF assms(1,2) E]
  note G = deliver_config [OF assms(3)]
  show ?thesis
  proof (cases d)
    case DNull then show ?thesis by (simp add: dispatchVoid_def)
  next
    case (DStrings ss) then show ?thesis using deliver_strings(1) [OF _ _ E] assms by simp
  next
    case (DInts xs) then show ?thesis using deliver_ints assms E by simp
  next
    case (DDial x) then show ?thesis using deliver_dial assms E by simp
  next
    case (DRaw x) then show ?thesis using deliver_raw assms by simp
  next
    case (DImsGsm a b ss) then show ?thesis using deliver_ims_gsm assms E by simp
  next
    case (DGsmBr gs) then show ?thesis using G(1) [of gs "[]" "[]"] assms by (simp add: few_def)
  next
    case (DCdmaBr cs) then show ?thesis using G(2) [of "[]" cs "[]"] assms by (simp add: few_def)
  next
    case (DDataProfiles ds) then show ?thesis using G(3) [of "[]" "[]" ds] assms by (simp add: few_def)
  next
    case (DCarrierRestrictions c) then show ?thesis using deliver_carriers assms E by simp
  next
    case (DAdnRecord a) then show ?thesis using deliver_adn assms E by simp
  qed (erule F C)+
qed

section \<open>One request at most\<close>

definition requests_of :: "effect list \<Rightarrow> effect list" where
  "requests_of es = filter (\<lambda>e. case e of OnRequest _ _ \<Rightarrow> True | _ \<Rightarrow> False) es"

lemma requests_of_simps [simp]:
  "requests_of [] = []" "requests_of (xs @ ys) = requests_of xs @ requests_of ys"
  "requests_of (OnRequest d n # es) = OnRequest d n # requests_of es"
  "requests_of (Complete e v # es) = requests_of es"
  "requests_of (SetVoiceRadioTech i # es) = requests_of es"
  "requests_of (SetCdmaSubscriptionSource i # es) = requests_of es"
  "requests_of (InvalidCommandBlock # es) = requests_of es"
  "requests_of (AllocFailed # es) = requests_of es"
  by (simp_all add: requests_of_def)

text \<open>A command is handed on once or not at all, and never after it was found invalid.\<close>

definition single :: "effect list \<Rightarrow> bool" where
  "single es \<longleftrightarrow> length (requests_of es) \<le> 1 \<and>
     (InvalidCommandBlock \<in> set es \<or> AllocFailed \<in> set es \<longrightarrow> requests_of es = [])"

lemma single_simps [simp]:
  "single [OnRequest d n]" "single [InvalidCommandBlock]" "single [AllocFailed]" "single []"
  "single [Complete e v]" "single [InvalidCommandBlock, Complete e v]"
  by (simp_all add: single_def)

lemma safe_split:
  "(\<And>x. safe (f x) P) \<Longrightarrow> safe (m \<bind> f) P"
  "(\<And>a b. safe (g a b) P) \<Longrightarrow> safe (case_prod g y) P"
  "safe a P \<Longrightarrow> (\<And>x. safe (h x) P) \<Longrightarrow> safe (case_option a h z) P"
  "(\<And>x. safe (h1 x) P) \<Longrightarrow> (\<And>x. safe (h2 x) P) \<Longrightarrow> safe (case_sum h1 h2 s) P"
  by (auto simp: safe_def split: option.splits sum.splits prod.splits bind_splits)

lemma read_strings_error: "safe (read_strings E c p) (\<lambda>r. \<forall>e. r = Inl e \<longrightarrow> e = AllocFailed)"
  by (auto simp: read_strings_def safe_def Let_def split: bind_splits if_splits)

lemma dispatchStrings_single: "safe (dispatchStrings E p) single"
  using read_strings_error
  by (fastforce simp: dispatchStrings_def safe_def split: bind_splits if_splits sum.splits)

lemma dispatchImsGsmSms_single: "safe (dispatchImsGsmSms E p retry ref) single"
  using read_strings_error
  by (fastforce simp: dispatchImsGsmSms_def safe_def split: bind_splits if_splits sum.splits)

lemma dispatchImsSms_single: "safe (dispatchImsSms E p) single"
  unfolding dispatchImsSms_def dispatchImsCdmaSms_def Let_def
  by (intro safe_split safe_if dispatchImsGsmSms_single | simp)+

lemma dispatchDataCall_single: "safe (dispatchDataCall E p) single"
  unfolding dispatchDataCall_def Let_def
  by (intro safe_split safe_if dispatchStrings_single | simp)+

lemma run_dispatch_single: "safe (run_dispatch fn E p) single"
proof (cases fn)
  case F_dispatchStrings then show ?thesis by (simp add: dispatchStrings_single)
next
  case F_dispatchImsSms then show ?thesis by (simp add: dispatchImsSms_single)
next
  case F_dispatchDataCall then show ?thesis by (simp add: dispatchDataCall_single)
next
  case F_dispatchVoiceRadioTech
  then show ?thesis by (auto simp: dispatchVoiceRadioTech_def dispatchVoid_def single_def Let_def)
next
  case F_dispatchCdmaSubscriptionSource
  then show ?thesis by (auto simp: dispatchCdmaSubscriptionSource_def dispatchVoid_def single_def Let_def)
qed (simp only: run_dispatch.simps dispatchVoid_def dispatchString_def dispatchInts_def
      dispatchSmsWrite_def dispatchDial_def dispatchSIM_IO_def dispatchSIM_APDU_def
      dispatchCallForward_def dispatchRaw_def dispatchCdmaSms_def dispatchCdmaSmsAck_def
      dispatchGsmBrSmsCnf_def dispatchCdmaBrSmsCnf_def dispatchRilCdmaSmsWriteArgs_def
      dispatchSetInitialAttachApn_def dispatchNVReadItem_def dispatchNVWriteItem_def
      dispatchUiccSubscripton_def dispatchSimAuthentication_def dispatchDataProfile_def
      dispatchRadioCapability_def dispatchCarrierRestrictions_def dispatchOpenChannelWithP2_def
      dispatchAdnRecord_def Let_def; (intro safe_split safe_if | simp)+)+

section \<open>Requests that end early\<close>

text \<open>The functions that begin by reading an integer and look at its status.\<close>

definition checks_first :: "dispatch_fn set" where
  "checks_first = {F_dispatchStrings, F_dispatchInts, F_dispatchSmsWrite, F_dispatchRaw, F_dispatchImsSms,
     F_dispatchGsmBrSmsCnf, F_dispatchCdmaBrSmsCnf, F_dispatchNVReadItem, F_dispatchUiccSubscripton,
     F_dispatchDataProfile, F_dispatchRadioCapability, F_dispatchAdnRecord, F_dispatchDial}"

lemma strdupReadString_short:
  assumes "msg p xs" and "length xs < 4"
  shows "strdupReadString E p = Some (None, p)"
proof -
  have "readInt32 p = Some (0, p)" "parcel_ok p" "length (unread p) < 4"
    using assms readInt32_short [of p] by (auto simp: msg_def)
  then show ?thesis
    using readInplace_short [of p 2]
    by (simp add: strdupReadString_def readString16Inplace_def strndup16to8_def padding_def)
qed

lemma short_refused:
  assumes "msg p xs" and "length xs < 4" and "fn \<in> checks_first"
  shows "run_dispatch fn E p = Some [InvalidCommandBlock]"
proof -
  have "\<And>t. readInt32_ptr p t = Some (NOT_ENOUGH_DATA, t, p)"
    using assms readInt32_ptr_short [of p] by (auto simp: msg_def)
  moreover note strdupReadString_short [OF assms(1,2)]
  ultimately show ?thesis
    using assms(3)
    by (auto simp: checks_first_def dispatchStrings_def dispatchInts_def dispatchSmsWrite_def
      dispatchRaw_def dispatchImsSms_def dispatchGsmBrSmsCnf_def dispatchCdmaBrSmsCnf_def
      dispatchNVReadItem_def dispatchUiccSubscripton_def dispatchDataProfile_def
      dispatchRadioCapability_def dispatchAdnRecord_def dispatchDial_def)
qed

lemma dispatchDataCall_new:
  assumes "parcel_ok p" and "callbacks_version E \<ge> 4"
  shows "dispatchDataCall E p = dispatchStrings E p"
proof -
  obtain w k where r: "readInt32 p = Some (w, skip k p)" by (rule readInt32_ok [OF assms(1)])
  have "mDataPos p \<le> INT32_MAX" using assms(1) by (simp add: parcel_ok_def)
  then have "setDataPosition (skip k p) (mDataPos p) = Some p"
    by (simp add: setDataPosition_def skip_def)
  with r assms(2) show ?thesis by (simp add: dispatchDataCall_def Let_def)
qed

section \<open>Parcels for concrete inputs\<close>

definition parcel_of :: "u8 list \<Rightarrow> parcel" where
  "parcel_of bs = \<lparr>mError = NO_ERROR, mData = Block bs, mDataSize = length bs,
     mDataCapacity = length bs, mDataPos = 0, allocSize = int (length bs), allocCount = 1\<rparr>"

lemma msg_parcel_of: "length bs \<le> INT32_MAX \<Longrightarrow> msg (parcel_of bs) bs"
  by (simp add: msg_def parcel_ok_def parcel_of_def unread_def contents_def)

definition heap0 :: allocator where
  "heap0 = \<lparr>mem_ok = (\<lambda>_. True), mem_fresh = (\<lambda>_. 0), mem_realloc0 = False\<rparr>"

lemma plenty_heap0 [simp]: "plenty heap0"
  by (simp add: plenty_def heap0_def)

definition env0 :: "int \<Rightarrow> RIL_RadioState \<Rightarrow> env" where
  "env0 v st = \<lparr>env_alloc = heap0, stack_ok = (\<lambda>_. True), junk32 = 0, junk8 = 0,
     callbacks_version = v, onStateRequest = st, debuggable = False\<rparr>"

lemma env_ok_env0 [simp]: "env_ok (env0 v st)"
  by (simp add: env_ok_def env0_def)

text \<open>Reading a concrete parcel.\<close>

definition at :: "nat \<Rightarrow> u8 list \<Rightarrow> parcel" where
  "at n xs = skip n (parcel_of xs)"

lemma parcel_of_at: "parcel_of xs = at 0 xs"
  by (simp add: at_def)

lemma at_ok: "length xs \<le> INT32_MAX \<Longrightarrow> n \<le> length xs \<Longrightarrow> parcel_ok (at n xs) \<and> unread (at n xs) = drop n xs"
  using msg_parcel_of [of xs] by (auto simp: at_def msg_def parcel_ok_def parcel_of_def skip_def unread_def contents_def)

lemma at_simps [simp]: "mDataPos (at n xs) = n" "skip k (at n xs) = at (n + k) xs" "mData (at n xs) = Block xs"
  by (simp_all add: at_def parcel_of_def)

lemma at_int32:
  assumes "length xs \<le> INT32_MAX" and "n + 4 \<le> length xs"
  shows "readInt32_ptr (at n xs) t = Some (NO_ERROR, le_word (take 4 (drop n xs)), at (n + 4) xs)"
    and "readInt32 (at n xs) = Some (le_word (take 4 (drop n xs)), at (n + 4) xs)"
proof -
  let ?w = "le_word (take 4 (drop n xs)) :: u32"
  have ok: "parcel_ok (at n xs)" "unread (at n xs) = drop n xs" using at_ok [of xs n] assms by auto
  have "le32 ?w = take 4 (drop n xs)"
    using le_bytes_le_word [of "take 4 (drop n xs)", where 'a = 32] assms(2) by simp
  then have u: "unread (at n xs) = le32 ?w @ drop 4 (drop n xs)" using ok(2) by (simp del: drop_drop)
  show "readInt32_ptr (at n xs) t = Some (NO_ERROR, ?w, at (n + 4) xs)"
    "readInt32 (at n xs) = Some (?w, at (n + 4) xs)"
    using readInt32_ptr_reads [OF ok(1) u] readInt32_reads [OF ok(1) u] by auto
qed

lemma at_int32_short:
  assumes "length xs \<le> INT32_MAX" and "n \<le> length xs" and "length xs < n + 4"
  shows "readInt32_ptr (at n xs) t = Some (NOT_ENOUGH_DATA, t, at n xs)"
    and "readInt32 (at n xs) = Some (0, at n xs)"
  using at_ok [OF assms(1,2)] assms readInt32_ptr_short [of "at n xs" t] readInt32_short [of "at n xs"] by auto

lemma at_inplace:
  assumes "length xs \<le> INT32_MAX" and "n + (k + padding k) \<le> length xs" and "0 < k"
  shows "readInplace (at n xs) k = Some (Some n, at (n + (k + padding k)) xs)"
proof -
  have ok: "parcel_ok (at n xs)" "unread (at n xs) = drop n xs" using at_ok [of xs n] assms by auto
  let ?a = "take k (drop n xs)" and ?b = "take (padding k) (drop k (drop n xs))"
  have "unread (at n xs) = ?a @ ?b @ drop (padding k) (drop k (drop n xs))" using ok(2) by (simp del: drop_drop)
  moreover have "length ?a = k" "length ?b = padding k" using assms(2) by auto
  moreover have "?a \<noteq> []" using assms(2,3) \<open>length ?a = k\<close> by (metis length_0_conv less_numeral_extra(3))
  ultimately show ?thesis using readInplace_reads [OF ok(1), of ?a ?b] by simp
qed

lemma at_inplace_short:
  assumes "length xs \<le> INT32_MAX" and "n \<le> length xs" and "length xs < n + (k + padding k)"
  shows "readInplace (at n xs) k = Some (None, at n xs)"
  using at_ok [OF assms(1,2)] assms readInplace_short [of "at n xs" k] by auto

lemmas at_eval = parcel_of_at at_int32 at_int32_short at_inplace at_inplace_short
  strdupReadString_def readString16Inplace_def strndup16to8_def padding_def env0_def

section \<open>Requests the code does not survive or does not refuse\<close>

text \<open>A string whose terminator is missing is read past the end of the block.\<close>

lemma dispatchString_overread:
  "dispatchString (env0 12 RADIO_STATE_ON) (parcel_of [1,0,0,0, 65,0,66,0]) = None"
  by (simp add: dispatchString_def at_eval)

lemma step_None:
  "msg p (le32 w @ r) \<Longrightarrow> (\<And>q. msg q r \<Longrightarrow> f NO_ERROR w q = None) \<Longrightarrow>
     readInt32_ptr p t \<bind> (\<lambda>(st, x, q). f st x q) = None"
  "msg p (enc_str s @ r) \<Longrightarrow> str_ok s \<Longrightarrow> plenty (env_alloc E) \<Longrightarrow> (\<And>q. msg q r \<Longrightarrow> g s q = None) \<Longrightarrow>
     strdupReadString E p \<bind> (\<lambda>(s, q). g s q) = None"
proof -
  assume a: "msg p (le32 w @ r)" "\<And>q. msg q r \<Longrightarrow> f NO_ERROR w q = None"
  from msg_int_eq [OF a(1), of t] a(2) show "readInt32_ptr p t \<bind> (\<lambda>(st, x, q). f st x q) = None" by fastforce
next
  assume a: "msg p (enc_str s @ r)" "str_ok s" "plenty (env_alloc E)" "\<And>q. msg q r \<Longrightarrow> g s q = None"
  then have "strdupReadString E p = Some (s, skip (length (enc_str s)) p)"
    by (auto simp: msg_def intro: strdupReadString_reads)
  with msg_skip [OF a(1)] a(4) show "strdupReadString E p \<bind> (\<lambda>(s, q). g s q) = None" by simp
qed

text \<open>More than two e-mail addresses run over the array of the structure.\<close>

lemma dispatchAdnRecord_overflow:
  assumes "msg p (wire [WInt32 i, WStr name, WStr number, WInt32 n] @ r)"
    and "str_ok name" "str_ok number" "plenty (env_alloc E)" "sint n > 2"
  shows "dispatchAdnRecord E p = None"
  apply (insert assms(1))
  apply (unfold step_simps dispatchAdnRecord_def)
  apply (erule step_None)
  apply (simp only: simp_thms if_False)
  apply (erule step_None(2), rule assms(2), rule assms(4))
  apply (erule step_None(2), rule assms(3), rule assms(4))
  apply (erule step_None)
  apply (insert assms(5))
  apply (subgoal_tac "nat (sint n) > 2")
   apply (simp only: read_array_def if_True bind.simps simp_thms if_False)
  apply linarith
  done

text \<open>A negative length other than \<open>-1\<close> is passed on as a huge one, with a null pointer.\<close>

lemma to_size_negative: "sint w < 0 \<Longrightarrow> to_size w = nat (sint w + 2 ^ 64)"
proof -
  assume neg: "sint w < 0"
  have ge: "- (2 ^ 31) \<le> sint w" using sint_greater_eq [of w] by simp
  have "uint (word_of_int (sint w) :: u64) = sint w mod 2 ^ 64" by (simp only: uint_word_of_int) simp
  also have "\<dots> = (sint w + 2 ^ 64) mod 2 ^ 64" by simp
  also have "\<dots> = sint w + 2 ^ 64" using neg ge by (intro mod_pos_pos_trivial) auto
  finally show ?thesis
    unfolding to_size_def scast_eq by (metis nat_uint_eq)
qed

lemma dispatchRaw_negative:
  assumes "msg p (wire [WInt32 w] @ r)" and "sint w < - 1"
  shows "dispatchRaw E p = Some [OnRequest (DRaw None) (nat (sint w + 2 ^ 64))]"
proof -
  obtain q where q: "readInt32_ptr p (junk32 E) = Some (NO_ERROR, w, q)" "msg q r"
    using msg_int_eq [of p w r] assms(1) by auto
  have "w \<noteq> - 1" using assms(2) by auto
  moreover have ts: "to_size w = nat (sint w + 2 ^ 64)" using assms(2) by (intro to_size_negative) simp
  moreover have "- (2 ^ 31) \<le> sint w" using sint_greater_eq [of w] by simp
  then have "to_size w > INT32_MAX" using ts assms(2) by simp
  then have "readInplace q (to_size w) = Some (None, q)" by (simp add: readInplace_def)
  ultimately show ?thesis using q(1) by (simp add: dispatchRaw_def)
qed

lemma gsm_config_negative:
  assumes "msg p (wire [WInt32 w] @ r)" and "sint w < 0"
  shows "dispatchGsmBrSmsCnf E p = None" and "dispatchCdmaBrSmsCnf E p = None"
  using msg_int_eq [of p w r "junk32 E"] assms
  by (auto simp: dispatchGsmBrSmsCnf_def dispatchCdmaBrSmsCnf_def)

text \<open>Without a \<open>return\<close> after the first completion, an unavailable radio completes twice.\<close>

lemma dispatchVoiceRadioTech_twice:
  "onStateRequest E = RADIO_STATE_UNAVAILABLE \<Longrightarrow> dispatchVoiceRadioTech E p =
     Some [Complete RIL_E_RADIO_NOT_AVAILABLE None, SetVoiceRadioTech (- 1), Complete RIL_E_GENERIC_FAILURE None]"
  by (simp add: dispatchVoiceRadioTech_def decodeVoiceRadioTechnology_def)

lemma write_past_size:
  "(do { p \<leftarrow> setDataPosition (parcel_of [0,0,0,0]) 100; writeInt32 heap0 p 1 }) = None"
  by (simp add: setDataPosition_def parcel_of_def writeInt32_def writeAligned_def growData_def szmul_def
      continueWrite_def heap0_def writeAligned_restart_def poke_def Let_def)

end
