(* ===== verification/RilResponse.thy ===== *)
theory RilResponse
  imports RilDispatch
begin

text \<open>
  The response side of \<open>services/ril/libril/ril.cpp\<close>: the functions that marshal what the vendor
  library hands to \<open>RIL_onRequestComplete\<close> and \<open>RIL_onUnsolicitedResponse\<close>. Each only writes to
  the parcel, ignoring the status of every write, so it is modelled by its return code and the
  items it writes in order; \<open>run_response\<close> writes them. A response is the structure its pointer
  designates; \<open>None\<close> is a run that reads outside that structure, reads it as another one, or
  fails an assertion.
\<close>

section \<open>Response structures\<close>

text \<open>A \<open>char\<close> field holds the value it has after promotion to \<open>int\<close>.\<close>

record RIL_Call =
  call_state :: u32
  call_index :: u32
  call_toa :: u32
  isMpty :: u32
  isMT :: u32
  als :: u32
  isVoice :: u32
  isVoicePrivacy :: u32
  call_number :: cstr
  numberPresentation :: u32
  call_name :: cstr
  namePresentation :: u32
  call_uusInfo :: "RIL_UUS_Info option"

record RIL_Data_Call_Response_v4 =
  v4_cid :: u32
  v4_active :: u32
  v4_type :: cstr
  v4_apn :: cstr
  v4_address :: cstr

record RIL_Data_Call_Response_v6 =
  dc_status :: u32
  suggestedRetryTime :: u32
  dc_cid :: u32
  dc_active :: u32
  dc_type :: cstr
  ifname :: cstr
  addresses :: cstr
  dnses :: cstr
  gateways :: cstr

record RIL_Data_Call_Response_v9 = RIL_Data_Call_Response_v6 +
  pcscf :: cstr

record RIL_Data_Call_Response_v11 = RIL_Data_Call_Response_v9 +
  mtu :: u32

record RIL_SuppSvcNotification =
  notificationType :: u32
  ssn_code :: u32
  ssn_index :: u32
  ssn_type :: u32
  ssn_number :: cstr

record RIL_LTE_SignalStrength_v8 =
  lte_signalStrength :: u32
  lte_rsrp :: u32
  lte_rsrq :: u32
  lte_rssnr :: u32
  lte_cqi :: u32
  lte_timingAdvance :: u32

record RIL_NR5G_SignalStrength =
  nr_rsrp :: u32
  nr_rsrq :: u32
  nr_rssnr :: u32

text \<open>The GSM, WCDMA, CDMA, EVDO and TD-SCDMA members are passed on as they are, in order.\<close>

record RIL_SignalStrength_v11 =
  ss_head :: "u32 \<times> u32 \<times> u32 \<times> u32 \<times> u32 \<times> u32 \<times> u32 \<times> u32 \<times> u32"
  LTE_SignalStrength :: RIL_LTE_SignalStrength_v8
  TD_SCDMA_rscp :: u32
  NR5G_SignalStrength :: RIL_NR5G_SignalStrength

record RIL_CDMA_SignalInfoRecord =
  isPresent :: u32
  signalType :: u32
  alertPitch :: u32
  signal :: u32

record RIL_CDMA_CallWaiting_v6 =
  cw_number :: cstr
  cw_numberPresentation :: u32
  cw_name :: cstr
  signalInfoRecord :: RIL_CDMA_SignalInfoRecord
  cw_number_type :: u32
  cw_number_plan :: u32

record RIL_AppStatus =
  app_type :: u32
  app_state :: u32
  perso_substate :: u32
  aid_ptr :: cstr
  app_label_ptr :: cstr
  pin1_replaced :: u32
  pin1 :: u32
  pin2 :: u32

record RIL_CardStatus_v5 =
  card_state :: u32
  universal_pin_state :: u32
  gsm_umts_subscription_app_index :: u32
  cdma_subscription_app_index :: u32
  num_applications :: u32
  applications :: "RIL_AppStatus list"

record RIL_CardStatus_v6 = RIL_CardStatus_v5 +
  ims_subscription_app_index :: u32

record RIL_PCO_Data =
  pco_cid :: u32
  bearer_proto :: cstr
  pco_id :: u32
  pco_contents :: "u8 list"

record RIL_CDMA_DisplayInfoRecord =
  alpha_len :: u32
  alpha_buf :: "u8 list"

record RIL_CDMA_NumberInfoRecord =
  num_len :: u32
  num_buf :: "u8 list"
  num_type :: u32
  num_plan :: u32
  num_pi :: u32
  num_si :: u32

text \<open>The member of the union that \<open>name\<close> selects, in the order of the enumeration;
  \<open>InfoOther\<close> is a name outside it.\<close>

datatype RIL_CDMA_InformationRecord =
    InfoDisplay RIL_CDMA_DisplayInfoRecord
  | InfoCalledParty RIL_CDMA_NumberInfoRecord
  | InfoCallingParty RIL_CDMA_NumberInfoRecord
  | InfoConnected RIL_CDMA_NumberInfoRecord
  | InfoSignal RIL_CDMA_SignalInfoRecord
  | InfoRedirecting RIL_CDMA_NumberInfoRecord u32
  | InfoLineControl u32 u32 u32 u32
  | InfoExtendedDisplay RIL_CDMA_DisplayInfoRecord
  | InfoClir u32
  | InfoRelease
  | InfoAudioControl u32 u32
  | InfoOther u32

text \<open>The union of a cell, the identity first and then the signal strength, field by field; version
  12 has more fields in the first, third and fourth member.\<close>

datatype RIL_CellInfo_union =
    Cell_gsm u32 u32 u32 u32 u32 u32
  | Cell_cdma u32 u32 u32 u32 u32 u32 u32 u32 u32 u32
  | Cell_lte u32 u32 u32 u32 u32 RIL_LTE_SignalStrength_v8
  | Cell_wcdma u32 u32 u32 u32 u32 u32 u32
  | Cell_tdscdma u32 u32 u32 u32 u32 u32
  | Cell_other

datatype RIL_CellInfo_v12_union =
    Cell12_gsm u32 u32 u32 u32 u32 u8 u32 u32 u32
  | Cell12_cdma u32 u32 u32 u32 u32 u32 u32 u32 u32 u32
  | Cell12_lte u32 u32 u32 u32 u32 u32 RIL_LTE_SignalStrength_v8
  | Cell12_wcdma u32 u32 u32 u32 u32 u32 u32 u32
  | Cell12_tdscdma u32 u32 u32 u32 u32 u32
  | Cell12_other

record 'u RIL_CellInfo =
  cellInfoType :: u32
  registered :: u32
  timeStampType :: u32
  timeStamp :: u64
  CellInfo :: 'u

datatype RIL_HardwareConfig =
    HardwareModem "u8 list" u32 u32 u32 u32 u32
  | HardwareSim "u8 list" u32 "u8 list"
  | HardwareOther

text \<open>\<open>RIL\_StkCcUnsolSsResponse\<close>; its union is read as one of its two members.\<close>

datatype ss_union = SsInfo "u32 list" | CfData u32 "RIL_CallForwardInfo list"

record RIL_StkCcUnsolSsResponse =
  serviceType :: u32
  requestType :: u32
  teleserviceType :: u32
  ss_serviceClass :: u32
  ss_result :: u32
  ss_union :: ss_union

text \<open>What \<open>response\<close> points to.\<close>

datatype rresp =
    RNull
  | RInts "u32 list"
  | RFailCause u32 cstr
  | RStrings "cstr list"
  | RString "u8 list"
  | RCalls "RIL_Call list"
  | RSms u32 cstr u32
  | RDataCallV4 "RIL_Data_Call_Response_v4 list"
  | RDataCallV6 "RIL_Data_Call_Response_v6 list"
  | RDataCallV9 "RIL_Data_Call_Response_v9 list"
  | RDataCallV11 "RIL_Data_Call_Response_v11 list"
  | RRaw "u8 list"
  | RSimIO u32 u32 cstr
  | RCallForwards "RIL_CallForwardInfo list"
  | RSsn RIL_SuppSvcNotification
  | RCells "(u32 \<times> cstr) list"
  | RSignalStrength RIL_SignalStrength_v11
  | RSignalInfo RIL_CDMA_SignalInfoRecord
  | RCallWaiting RIL_CDMA_CallWaiting_v6
  | RSimRefresh u32 u32 cstr
  | RCardV5 RIL_CardStatus_v5
  | RCardV6 RIL_CardStatus_v6
  | RGsmBr "RIL_GSM_BroadcastSmsConfigInfo list"
  | RCdmaBr "RIL_CDMA_BroadcastSmsConfigInfo list"
  | RCdmaSms RIL_CDMA_SMS_Message
  | RDcRtInfo u64 u32
  | RLceStatus u8 u32
  | RLceData u32 u8 u8
  | RActivity u32 u32 "u32 list" u32
  | RCarriers RIL_CarrierRestrictions
  | RPco RIL_PCO_Data
  | RAdn "RIL_AdnRecordInfo list"
  | RInfoRecs u32 "RIL_CDMA_InformationRecord list"
  | RCellsV6 "RIL_CellInfo_union RIL_CellInfo list"
  | RCellsV12 "RIL_CellInfo_v12_union RIL_CellInfo list"
  | RHardware "RIL_HardwareConfig list"
  | RRadioCapability RIL_RadioCapability "u8 list"
  | RSsData RIL_StkCcUnsolSsResponse

text \<open>Return code and items written.\<close>

type_synonym marshal = "(int \<times> witem list) option"

abbreviation RIL_ERRNO_INVALID_RESPONSE :: int where "RIL_ERRNO_INVALID_RESPONSE \<equiv> - 1"

definition invalid_response :: marshal where
  "invalid_response = Some (RIL_ERRNO_INVALID_RESPONSE, [])"

definition firstn :: "nat \<Rightarrow> 'a list \<Rightarrow> 'a list option" where
  "firstn n xs = (if n \<le> length xs then Some (take n xs) else None)"

abbreviation count :: "'a list \<Rightarrow> witem" where
  "count xs \<equiv> WInt32 (of_nat (length xs))"

section \<open>Marshalling\<close>

text \<open>The two checks most functions share: a null pointer with a length, and a length that is not
  a multiple of the element size; then the elements in \<open>responselen\<close> bytes, none of which is looked at if there
  are none.\<close>

definition response_array ::
  "(rresp \<Rightarrow> 'a list option) \<Rightarrow> nat \<Rightarrow> rresp \<Rightarrow> nat \<Rightarrow> ('a list \<Rightarrow> marshal) \<Rightarrow> marshal" where
  "response_array elems sz response responselen k =
     (if response = RNull \<and> responselen \<noteq> 0 then invalid_response
      else if responselen mod sz \<noteq> 0 then invalid_response
      else do {
        xs \<leftarrow> (if responselen = 0 then Some [] else elems response);
        xs \<leftarrow> firstn (responselen div sz) xs;
        k xs
      })"

definition responseInts :: "rresp \<Rightarrow> nat \<Rightarrow> marshal" where
  "responseInts response responselen =
     response_array (\<lambda>r. case r of RInts xs \<Rightarrow> Some xs | _ \<Rightarrow> None) 4 response responselen
       (\<lambda>xs. Some (0, count xs # map WInt32 xs))"

definition responseFailCause :: "rresp \<Rightarrow> nat \<Rightarrow> marshal" where
  "responseFailCause response responselen =
     (if response = RNull \<and> responselen \<noteq> 0 then invalid_response
      else if responselen = 4 then
        (case response of
           RInts (x # _) \<Rightarrow> Some (0, [WInt32 x])
         | RFailCause cause_code _ \<Rightarrow> Some (0, [WInt32 cause_code])
         | _ \<Rightarrow> None)
      else if responselen = 16 then
        (case response of
           RFailCause cause_code vendor_cause \<Rightarrow> Some (0, [WInt32 cause_code, WStr vendor_cause])
         | _ \<Rightarrow> None)
      else invalid_response)"

definition responseStrings :: "rresp \<Rightarrow> nat \<Rightarrow> marshal" where
  "responseStrings response responselen =
     response_array (\<lambda>r. case r of RStrings ss \<Rightarrow> Some ss | _ \<Rightarrow> None) 8 response responselen
       (\<lambda>ss. Some (0, count ss # map WStr ss))"

definition responseStringsWithVersion :: "int \<Rightarrow> rresp \<Rightarrow> nat \<Rightarrow> marshal" where
  "responseStringsWithVersion version response responselen = do {
     (ret, items) \<leftarrow> responseStrings response responselen;
     Some (ret, WInt32 (of_int version) # items)
   }"

definition responseString :: "rresp \<Rightarrow> nat \<Rightarrow> marshal" where
  "responseString response responselen =
     (case response of
        RNull \<Rightarrow> Some (0, [WStr None])
      | RString s \<Rightarrow> Some (0, [WStr (Some s)])
      | _ \<Rightarrow> None)"

definition responseVoid :: "rresp \<Rightarrow> nat \<Rightarrow> marshal" where
  "responseVoid response responselen = Some (0, [])"

definition call_items :: "env \<Rightarrow> RIL_Call \<Rightarrow> witem list" where
  "call_items E c =
     [WInt32 (call_state c), WInt32 (call_index c), WInt32 (call_toa c), WInt32 (isMpty c),
      WInt32 (isMT c), WInt32 (als c), WInt32 (isVoice c), WInt32 (isVoicePrivacy c),
      WStr (call_number c), WInt32 (numberPresentation c), WStr (call_name c),
      WInt32 (namePresentation c)] @
     (case call_uusInfo c of
        None \<Rightarrow> [WInt32 0]
      | Some u \<Rightarrow>
          (case uusData u of
             None \<Rightarrow> [WInt32 0]
           | Some data \<Rightarrow>
               if callbacks_version E < 3 then [WInt32 0]
               else [WInt32 1, WInt32 (uusType u), WInt32 (uusDcs u), WInt32 (uusLength u), WBytes data]))"

definition responseCallList :: "env \<Rightarrow> rresp \<Rightarrow> nat \<Rightarrow> marshal" where
  "responseCallList E response responselen =
     response_array (\<lambda>r. case r of RCalls cs \<Rightarrow> Some cs | _ \<Rightarrow> None) 8 response responselen
       (\<lambda>cs. Some (0, count cs # concat (map (call_items E) cs)))"

definition responseSMS :: "rresp \<Rightarrow> nat \<Rightarrow> marshal" where
  "responseSMS response responselen =
     (if response = RNull \<or> responselen \<noteq> 24 then invalid_response
      else case response of
        RSms messageRef ackPDU errorCode \<Rightarrow> Some (0, [WInt32 messageRef, WStr ackPDU, WInt32 errorCode])
      | _ \<Rightarrow> None)"

section \<open>Data calls\<close>

definition responseDataCallListV4 :: "rresp \<Rightarrow> nat \<Rightarrow> marshal" where
  "responseDataCallListV4 response responselen =
     response_array (\<lambda>r. case r of RDataCallV4 cs \<Rightarrow> Some cs | _ \<Rightarrow> None) 32 response responselen
       (\<lambda>cs. Some (0, WInt32 4 # count cs # concat (map (\<lambda>c.
          [WInt32 (v4_cid c), WInt32 (v4_active c), WStr (v4_type c), WStr (v4_address c)]) cs)))"

definition v6_items :: "'a RIL_Data_Call_Response_v6_scheme \<Rightarrow> witem list" where
  "v6_items c = [WInt32 (dc_status c), WInt32 (suggestedRetryTime c), WInt32 (dc_cid c), WInt32 (dc_active c),
     WStr (dc_type c), WStr (ifname c), WStr (addresses c), WStr (dnses c), WStr (gateways c)]"

definition responseDataCallListV6 :: "rresp \<Rightarrow> nat \<Rightarrow> marshal" where
  "responseDataCallListV6 response responselen =
     response_array (\<lambda>r. case r of RDataCallV6 cs \<Rightarrow> Some cs | _ \<Rightarrow> None) 56 response responselen
       (\<lambda>cs. Some (0, WInt32 6 # count cs # concat (map v6_items cs)))"

definition responseDataCallListV9 :: "rresp \<Rightarrow> nat \<Rightarrow> marshal" where
  "responseDataCallListV9 response responselen =
     response_array (\<lambda>r. case r of RDataCallV9 cs \<Rightarrow> Some cs | _ \<Rightarrow> None) 64 response responselen
       (\<lambda>cs. Some (0, WInt32 10 # count cs # concat (map (\<lambda>c. v6_items c @ [WStr (pcscf c)]) cs)))"

definition responseDataCallListV11 :: "rresp \<Rightarrow> nat \<Rightarrow> marshal" where
  "responseDataCallListV11 response responselen =
     response_array (\<lambda>r. case r of RDataCallV11 cs \<Rightarrow> Some cs | _ \<Rightarrow> None) 72 response responselen
       (\<lambda>cs. Some (0, WInt32 11 # count cs #
          concat (map (\<lambda>c. v6_items c @ [WStr (pcscf c), WInt32 (mtu c)]) cs)))"

text \<open>The check that versions from 13 on make: \<open>isDebuggable\<close> decides between an error and a
  failed assertion.\<close>

definition expect_size :: "env \<Rightarrow> nat \<Rightarrow> nat \<Rightarrow> marshal \<Rightarrow> marshal" where
  "expect_size E sz responselen k =
     (if responselen mod sz \<noteq> 0 then (if \<not> debuggable E then invalid_response else None) else k)"

definition responseDataCallList :: "env \<Rightarrow> rresp \<Rightarrow> nat \<Rightarrow> marshal" where
  "responseDataCallList E response responselen =
     (if callbacks_version E \<le> 12 then
        (if callbacks_version E < 5 then responseDataCallListV4 response responselen
         else if responselen mod 56 = 0 then responseDataCallListV6 response responselen
         else if responselen mod 64 = 0 then responseDataCallListV9 response responselen
         else responseDataCallListV11 response responselen)
      else expect_size E 72 responselen (responseDataCallListV11 response responselen))"

definition responseSetupDataCall :: "env \<Rightarrow> rresp \<Rightarrow> nat \<Rightarrow> marshal" where
  "responseSetupDataCall E response responselen =
     (if callbacks_version E < 5
      then responseStringsWithVersion (callbacks_version E) response responselen
      else responseDataCallList E response responselen)"

section \<open>SIM, calls and notifications\<close>

definition responseRaw :: "rresp \<Rightarrow> nat \<Rightarrow> marshal" where
  "responseRaw response responselen =
     (if response = RNull \<and> responselen \<noteq> 0 then invalid_response
      else case response of
        RNull \<Rightarrow> Some (0, [WInt32 (- 1)])
      | RRaw bs \<Rightarrow> do {
          bs \<leftarrow> firstn responselen bs;
          Some (0, [WInt32 (of_nat responselen), WBytes bs])
        }
      | _ \<Rightarrow> None)"

definition responseSIM_IO :: "rresp \<Rightarrow> nat \<Rightarrow> marshal" where
  "responseSIM_IO response responselen =
     (if response = RNull \<or> responselen \<noteq> 16 then invalid_response
      else case response of
        RSimIO sw1 sw2 simResponse \<Rightarrow> Some (0, [WInt32 sw1, WInt32 sw2, WStr simResponse])
      | _ \<Rightarrow> None)"

definition cf_items :: "RIL_CallForwardInfo \<Rightarrow> witem list" where
  "cf_items c = [WInt32 (cff_status c), WInt32 (cff_reason c), WInt32 (cff_serviceClass c),
     WInt32 (cff_toa c), WStr (cff_number c), WInt32 (cff_timeSeconds c)]"

definition responseCallForwards :: "rresp \<Rightarrow> nat \<Rightarrow> marshal" where
  "responseCallForwards response responselen =
     response_array (\<lambda>r. case r of RCallForwards cs \<Rightarrow> Some cs | _ \<Rightarrow> None) 8 response responselen
       (\<lambda>cs. Some (0, count cs # concat (map cf_items cs)))"

definition responseSsn :: "rresp \<Rightarrow> nat \<Rightarrow> marshal" where
  "responseSsn response responselen =
     (if response = RNull \<or> responselen \<noteq> 24 then invalid_response
      else case response of
        RSsn s \<Rightarrow> Some (0, [WInt32 (notificationType s), WInt32 (ssn_code s), WInt32 (ssn_index s),
          WInt32 (ssn_type s), WStr (ssn_number s)])
      | _ \<Rightarrow> None)"

definition responseCellList :: "rresp \<Rightarrow> nat \<Rightarrow> marshal" where
  "responseCellList response responselen =
     response_array (\<lambda>r. case r of RCells cs \<Rightarrow> Some cs | _ \<Rightarrow> None) 8 response responselen
       (\<lambda>cs. Some (0, count cs # concat (map (\<lambda>(rssi, cid). [WInt32 rssi, WStr cid]) cs)))"

definition marshallSignalInfoRecord :: "RIL_CDMA_SignalInfoRecord \<Rightarrow> witem list" where
  "marshallSignalInfoRecord s =
     [WInt32 (isPresent s), WInt32 (signalType s), WInt32 (alertPitch s), WInt32 (signal s)]"

abbreviation INT_MAX :: u32 where "INT_MAX \<equiv> 0x7fffffff"

text \<open>\<open>-1\<close> becomes \<open>INT\_MAX\<close>, for LTE \<open>signalStrength\<close> 99; a negative \<open>rsrp\<close> changes its sign.\<close>

definition responseRilSignalStrengthV11 :: "RIL_SignalStrength_v11 \<Rightarrow> witem list" where
  "responseRilSignalStrengthV11 s =
     (case ss_head s of (g1, g2, w1, w2, c1, c2, e1, e2, e3) \<Rightarrow>
      let l = LTE_SignalStrength s; n = NR5G_SignalStrength s;
          nr = (\<lambda>x. if sint x = 32768 then INT_MAX else x) in
      map WInt32 [g1, g2, w1, w2, c1, c2, e1, e2, e3,
        (if lte_signalStrength l = - 1 then 99 else lte_signalStrength l),
        (if lte_rsrp l = - 1 then INT_MAX
         else if sint (lte_rsrp l) < - 1 then - lte_rsrp l else lte_rsrp l),
        (if lte_rsrq l = - 1 then INT_MAX else lte_rsrq l),
        lte_rssnr l,
        (if lte_cqi l = - 1 then INT_MAX else lte_cqi l),
        lte_timingAdvance l,
        TD_SCDMA_rscp s,
        nr (nr_rsrp n), nr (nr_rsrq n), nr (nr_rssnr n)])"

definition responseRilSignalStrength :: "env \<Rightarrow> rresp \<Rightarrow> nat \<Rightarrow> marshal" where
  "responseRilSignalStrength E response responselen =
     (if response = RNull then invalid_response
      else expect_size E 76 responselen
        (case response of
           RSignalStrength s \<Rightarrow> Some (0, responseRilSignalStrengthV11 s)
         | _ \<Rightarrow> None))"

definition responseCdmaSignalInfoRecord :: "rresp \<Rightarrow> nat \<Rightarrow> marshal" where
  "responseCdmaSignalInfoRecord response responselen =
     (if response = RNull \<or> responselen = 0 then invalid_response
      else if responselen \<noteq> 4 then invalid_response
      else case response of
        RSignalInfo s \<Rightarrow> Some (0, marshallSignalInfoRecord s)
      | _ \<Rightarrow> None)"

definition responseCallRing :: "rresp \<Rightarrow> nat \<Rightarrow> marshal" where
  "responseCallRing response responselen =
     (if response = RNull \<or> responselen = 0 then responseVoid response responselen
      else responseCdmaSignalInfoRecord response responselen)"

definition responseCdmaCallWaiting :: "env \<Rightarrow> rresp \<Rightarrow> nat \<Rightarrow> marshal" where
  "responseCdmaCallWaiting E response responselen =
     (if response = RNull then invalid_response
      else case response of
        RCallWaiting c \<Rightarrow>
          let items = [WStr (cw_number c), WInt32 (cw_numberPresentation c), WStr (cw_name c)] @
                marshallSignalInfoRecord (signalInfoRecord c);
              numbers = [WInt32 (cw_number_type c), WInt32 (cw_number_plan c)] in
          if callbacks_version E \<le> 12 then
            Some (0, items @ (if responselen \<ge> 40 then numbers else [WInt32 0, WInt32 0]))
          else if responselen mod 40 \<noteq> 0 then
            (if \<not> debuggable E then Some (RIL_ERRNO_INVALID_RESPONSE, items) else None)
          else Some (0, items @ numbers)
      | _ \<Rightarrow> None)"

definition responseSimRefreshV7 :: "rresp \<Rightarrow> marshal" where
  "responseSimRefreshV7 response =
     (case response of
        RSimRefresh result ef_id aid \<Rightarrow> Some (0, [WInt32 result, WInt32 ef_id, WStr aid])
      | _ \<Rightarrow> None)"

definition responseSimRefresh :: "env \<Rightarrow> rresp \<Rightarrow> nat \<Rightarrow> marshal" where
  "responseSimRefresh E response responselen =
     (if response = RNull then invalid_response
      else if callbacks_version E \<le> 12 then
        (if callbacks_version E \<ge> 7 then responseSimRefreshV7 response
         else case response of
           RInts (a # b # _) \<Rightarrow> Some (0, [WInt32 a, WInt32 b, WStr None])
         | _ \<Rightarrow> None)
      else expect_size E 16 responselen (responseSimRefreshV7 response))"

definition sendSimStatusAppInfo :: "u32 \<Rightarrow> RIL_AppStatus list \<Rightarrow> witem list option" where
  "sendSimStatusAppInfo num_apps appStatus = do {
     apps \<leftarrow> firstn (nat (sint num_apps)) appStatus;
     Some (WInt32 num_apps # concat (map (\<lambda>a.
       [WInt32 (app_type a), WInt32 (app_state a), WInt32 (perso_substate a), WStr (aid_ptr a),
        WStr (app_label_ptr a), WInt32 (pin1_replaced a), WInt32 (pin1 a), WInt32 (pin2 a)]) apps))
   }"

definition responseSimStatusV5 :: "rresp \<Rightarrow> marshal" where
  "responseSimStatusV5 response =
     (case response of
        RCardV5 c \<Rightarrow> do {
          apps \<leftarrow> sendSimStatusAppInfo (num_applications c) (applications c);
          Some (0, [WInt32 (card_state c), WInt32 (universal_pin_state c),
            WInt32 (gsm_umts_subscription_app_index c), WInt32 (cdma_subscription_app_index c)] @ apps)
        }
      | _ \<Rightarrow> None)"

definition responseSimStatusV6 :: "rresp \<Rightarrow> marshal" where
  "responseSimStatusV6 response =
     (case response of
        RCardV6 c \<Rightarrow> do {
          apps \<leftarrow> sendSimStatusAppInfo (num_applications c) (applications c);
          Some (0, [WInt32 (card_state c), WInt32 (universal_pin_state c),
            WInt32 (gsm_umts_subscription_app_index c), WInt32 (cdma_subscription_app_index c),
            WInt32 (ims_subscription_app_index c)] @ apps)
        }
      | _ \<Rightarrow> None)"

text \<open>On the 64-bit targets both structures take 408 bytes.\<close>

definition responseSimStatus :: "env \<Rightarrow> rresp \<Rightarrow> nat \<Rightarrow> marshal" where
  "responseSimStatus E response responselen =
     (if response = RNull then invalid_response
      else if callbacks_version E \<le> 12 then
        (if responselen = 408 then responseSimStatusV6 response
         else if responselen = 408 then responseSimStatusV5 response
         else invalid_response)
      else expect_size E 408 responselen (responseSimStatusV6 response))"

section \<open>SMS, traffic and restrictions\<close>

definition responseGsmBrSmsCnf :: "rresp \<Rightarrow> nat \<Rightarrow> marshal" where
  "responseGsmBrSmsCnf response responselen = do {
     gs \<leftarrow> (case response of RGsmBr gs \<Rightarrow> Some gs | RNull \<Rightarrow> Some [] | _ \<Rightarrow> None);
     gs \<leftarrow> firstn (responselen div 8) gs;
     Some (0, count gs # concat (map (\<lambda>g. [WInt32 (fromServiceId g), WInt32 (toServiceId g),
       WInt32 (fromCodeScheme g), WInt32 (toCodeScheme g), WInt32 (ucast (gsm_selected g))]) gs))
   }"

definition responseCdmaBrSmsCnf :: "rresp \<Rightarrow> nat \<Rightarrow> marshal" where
  "responseCdmaBrSmsCnf response responselen = do {
     cs \<leftarrow> (case response of RCdmaBr cs \<Rightarrow> Some cs | RNull \<Rightarrow> Some [] | _ \<Rightarrow> None);
     cs \<leftarrow> firstn (responselen div 8) cs;
     Some (0, count cs # concat (map (\<lambda>c. [WInt32 (service_category c), WInt32 (language c),
       WInt32 (ucast (cdma_selected c))]) cs))
   }"

definition digit_items :: "nat \<Rightarrow> u8 list \<Rightarrow> witem list option" where
  "digit_items n ds = do { ds \<leftarrow> firstn n ds; Some (map (\<lambda>b. WBytes [b]) ds) }"

definition responseCdmaSms :: "rresp \<Rightarrow> nat \<Rightarrow> marshal" where
  "responseCdmaSms response responselen =
     (if response = RNull \<and> responselen \<noteq> 0 then invalid_response
      else if responselen \<noteq> 372 then invalid_response
      else case response of
        RCdmaSms m \<Rightarrow> do {
          let a = sAddress m;
          let s = sSubAddress m;
          digits \<leftarrow> digit_items (min (unat (adr_number_of_digits a)) RIL_CDMA_SMS_ADDRESS_MAX) (adr_digits a);
          sub \<leftarrow> digit_items (min (unat (sub_number_of_digits s)) RIL_CDMA_SMS_SUBADDRESS_MAX) (sub_digits s);
          bearer \<leftarrow> digit_items (signed_min (uBearerDataLen m) RIL_CDMA_SMS_BEARER_DATA_MAX) (aBearerData m);
          Some (0, [WInt32 (uTeleserviceID m), WBytes [bIsServicePresent m], WInt32 (uServicecategory m),
            WInt32 (digit_mode a), WInt32 (number_mode a), WInt32 (number_type a), WInt32 (number_plan a),
            WBytes [adr_number_of_digits a]] @ digits @
            [WInt32 (subaddressType s), WBytes [sub_odd s], WBytes [sub_number_of_digits s]] @ sub @
            [WInt32 (uBearerDataLen m)] @ bearer)
        }
      | _ \<Rightarrow> None)"

definition responseDcRtInfo :: "rresp \<Rightarrow> nat \<Rightarrow> marshal" where
  "responseDcRtInfo response responselen =
     (if responselen mod 16 \<noteq> 0 \<or> responselen div 16 \<noteq> 1 then invalid_response
      else case response of
        RDcRtInfo time powerState \<Rightarrow> Some (0, [WInt64 time, WInt32 powerState])
      | _ \<Rightarrow> None)"

definition responseLceStatus :: "rresp \<Rightarrow> nat \<Rightarrow> marshal" where
  "responseLceStatus response responselen =
     (if response = RNull \<or> responselen \<noteq> 8 then invalid_response
      else case response of
        RLceStatus lce_status interval \<Rightarrow> Some (0, [WBytes [lce_status], WInt32 interval])
      | _ \<Rightarrow> None)"

definition responseLceData :: "rresp \<Rightarrow> nat \<Rightarrow> marshal" where
  "responseLceData response responselen =
     (if response = RNull \<or> responselen \<noteq> 8 then invalid_response
      else case response of
        RLceData capacity confidence suspended \<Rightarrow>
          Some (0, [WInt32 capacity, WBytes [confidence], WBytes [suspended]])
      | _ \<Rightarrow> None)"

definition responseActivityData :: "rresp \<Rightarrow> nat \<Rightarrow> marshal" where
  "responseActivityData response responselen =
     (if response = RNull \<or> responselen \<noteq> 32 then invalid_response
      else case response of
        RActivity sleep idle tx rx \<Rightarrow> do {
          tx \<leftarrow> firstn 5 tx;
          Some (0, [WInt32 sleep, WInt32 idle] @ map WInt32 tx @ [WInt32 rx])
        }
      | _ \<Rightarrow> None)"

definition carrier_out :: "RIL_Carrier \<Rightarrow> witem list" where
  "carrier_out c = [WStr (mcc c), WStr (mnc c), WInt32 (match_type c), WStr (match_data c)]"

definition responseCarrierRestrictions :: "rresp \<Rightarrow> nat \<Rightarrow> marshal" where
  "responseCarrierRestrictions response responselen =
     (if response = RNull \<or> responselen \<noteq> 24 then invalid_response
      else case response of
        RCarriers c \<Rightarrow> Some (0, [count (allowed_carriers c), count (excluded_carriers c)] @
          concat (map carrier_out (allowed_carriers c)) @ concat (map carrier_out (excluded_carriers c)))
      | _ \<Rightarrow> None)"

definition responsePcoData :: "rresp \<Rightarrow> nat \<Rightarrow> marshal" where
  "responsePcoData response responselen =
     (if response = RNull \<or> responselen \<noteq> 32 then invalid_response
      else case response of
        RPco c \<Rightarrow> Some (0, [WInt32 (pco_cid c), WStr (bearer_proto c), WInt32 (pco_id c),
          count (pco_contents c), WBytes (pco_contents c)])
      | _ \<Rightarrow> None)"

definition sendAdnRecordInfo :: "RIL_AdnRecordInfo list \<Rightarrow> witem list option" where
  "sendAdnRecordInfo rs =
     (if \<forall>r \<in> set rs. nat (sint (email_elements r)) = length (adn_email r) \<and>
           nat (sint (anr_elements r)) = length (adn_ad_number r)
      then Some (concat (map (\<lambda>r.
        [WInt32 (record_id r), WStr (adn_name r), WStr (adn_number r), WInt32 (email_elements r)] @
        map WStr (adn_email r) @ [WInt32 (anr_elements r)] @ map WStr (adn_ad_number r)) rs))
      else None)"

definition responseAdnRecords :: "rresp \<Rightarrow> nat \<Rightarrow> marshal" where
  "responseAdnRecords response responselen =
     (if response = RNull \<and> responselen \<noteq> 0 then invalid_response
      else if responselen = 888 then
        (case response of
           RAdn rs \<Rightarrow> do { items \<leftarrow> sendAdnRecordInfo rs; Some (0, count rs # items) }
         | _ \<Rightarrow> None)
      else invalid_response)"

section \<open>Information records\<close>

text \<open>A copy of \<open>len\<close> bytes into an allocated C string, which is then written; \<open>Inl\<close> the return
  code that ends the response.\<close>

definition info_string :: "env \<Rightarrow> u32 \<Rightarrow> nat \<Rightarrow> u8 list \<Rightarrow> (int + witem list) option" where
  "info_string E len limit buf =
     (if sint len > int limit then Some (Inl RIL_ERRNO_INVALID_RESPONSE)
      else if \<not> calloc_ok E (to_size (len + 1)) 1 then Some (Inl (- 12))
      else if sint len < 0 then None
      else do {
        bs \<leftarrow> firstn (nat (sint len)) buf;
        Some (Inr [WStr (Some (takeWhile (\<lambda>b. b \<noteq> 0) bs))])
      })"

definition number_items :: "env \<Rightarrow> RIL_CDMA_NumberInfoRecord \<Rightarrow> (int + witem list) option" where
  "number_items E n = do {
     r \<leftarrow> info_string E (num_len n) 81 (num_buf n);
     Some (case r of
       Inl e \<Rightarrow> Inl e
     | Inr items \<Rightarrow> Inr (items @ map WInt32 [num_type n, num_plan n, num_pi n, num_si n]))
   }"

definition infoRec_items :: "env \<Rightarrow> RIL_CDMA_InformationRecord \<Rightarrow> u32 \<times> (int + witem list) option" where
  "infoRec_items E rec =
     (case rec of
        InfoDisplay d \<Rightarrow> (0, info_string E (alpha_len d) 64 (alpha_buf d))
      | InfoCalledParty n \<Rightarrow> (1, number_items E n)
      | InfoCallingParty n \<Rightarrow> (2, number_items E n)
      | InfoConnected n \<Rightarrow> (3, number_items E n)
      | InfoSignal s \<Rightarrow> (4, Some (Inr (marshallSignalInfoRecord s)))
      | InfoRedirecting n reason \<Rightarrow> (5, do {
          r \<leftarrow> number_items E n;
          Some (case r of Inl e \<Rightarrow> Inl e | Inr items \<Rightarrow> Inr (items @ [WInt32 reason]))
        })
      | InfoLineControl a b c d \<Rightarrow> (6, Some (Inr (map WInt32 [a, b, c, d])))
      | InfoExtendedDisplay d \<Rightarrow> (7,
          if sint (alpha_len d) > 64 then Some (Inl RIL_ERRNO_INVALID_RESPONSE)
          else if sint (alpha_len d) < 0 then Some (Inr [WInt32 (alpha_len d)])
          else do {
            bs \<leftarrow> firstn (nat (sint (alpha_len d))) (alpha_buf d);
            Some (Inr [WInt32 (alpha_len d), WBytes bs])
          })
      | InfoClir cause \<Rightarrow> (8, Some (Inr [WInt32 cause]))
      | InfoRelease \<Rightarrow> (9, Some (Inl RIL_ERRNO_INVALID_RESPONSE))
      | InfoAudioControl up down \<Rightarrow> (10, Some (Inr [WInt32 up, WInt32 down]))
      | InfoOther n \<Rightarrow> (n, Some (Inl RIL_ERRNO_INVALID_RESPONSE)))"

fun infoRecs_items :: "env \<Rightarrow> RIL_CDMA_InformationRecord list \<Rightarrow> marshal" where
  "infoRecs_items E [] = Some (0, [])"
| "infoRecs_items E (rec # recs) = do {
     let (name, r) = infoRec_items E rec;
     r \<leftarrow> r;
     case r of
       Inl e \<Rightarrow> Some (e, [WInt32 name])
     | Inr items \<Rightarrow> do {
         (ret, more) \<leftarrow> infoRecs_items E recs;
         Some (ret, WInt32 name # items @ more)
       }
   }"

definition responseCdmaInformationRecords :: "env \<Rightarrow> rresp \<Rightarrow> nat \<Rightarrow> marshal" where
  "responseCdmaInformationRecords E response responselen =
     (if response = RNull \<and> responselen \<noteq> 0 then invalid_response
      else if responselen \<noteq> 964 then invalid_response
      else case response of
        RInfoRecs numberOfInfoRecs recs \<Rightarrow> do {
          let num = (if sint numberOfInfoRecs < 10 then numberOfInfoRecs else 10);
          recs \<leftarrow> firstn (nat (sint num)) recs;
          (ret, items) \<leftarrow> infoRecs_items E recs;
          Some (ret, WInt32 num # items)
        }
      | _ \<Rightarrow> None)"

section \<open>Cells, hardware and capabilities\<close>

definition cell_head :: "'u RIL_CellInfo \<Rightarrow> witem list" where
  "cell_head c = [WInt32 (cellInfoType c), WInt32 (registered c), WInt32 (timeStampType c),
     WInt64 (timeStamp c)]"

definition lte_items :: "RIL_LTE_SignalStrength_v8 \<Rightarrow> u32 list" where
  "lte_items l = [lte_signalStrength l, lte_rsrp l, lte_rsrq l, lte_rssnr l, lte_cqi l, lte_timingAdvance l]"

fun cell_fields :: "RIL_CellInfo_union \<Rightarrow> u32 list" where
  "cell_fields (Cell_gsm cc nc lac cid ss ber) = [cc, nc, lac, cid, ss, ber]"
| "cell_fields (Cell_wcdma cc nc lac cid psc ss ber) = [cc, nc, lac, cid, psc, ss, ber]"
| "cell_fields (Cell_cdma nid sid bid lon lat cdbm cecio edbm eecio snr) =
     [nid, sid, bid, lon, lat, cdbm, cecio, edbm, eecio, snr]"
| "cell_fields (Cell_lte cc nc ci pci tac ss) = [cc, nc, ci, pci, tac] @ lte_items ss"
| "cell_fields (Cell_tdscdma cc nc lac cid cpid rscp) = [cc, nc, lac, cid, cpid, rscp]"
| "cell_fields Cell_other = []"

fun cell12_fields :: "RIL_CellInfo_v12_union \<Rightarrow> u32 list" where
  "cell12_fields (Cell12_gsm cc nc lac cid arfcn bsic ss ber ta) =
     [cc, nc, lac, cid, arfcn, ucast bsic, ss, ber, ta]"
| "cell12_fields (Cell12_wcdma cc nc lac cid psc uarfcn ss ber) = [cc, nc, lac, cid, psc, uarfcn, ss, ber]"
| "cell12_fields (Cell12_cdma nid sid bid lon lat cdbm cecio edbm eecio snr) =
     [nid, sid, bid, lon, lat, cdbm, cecio, edbm, eecio, snr]"
| "cell12_fields (Cell12_lte cc nc ci pci tac earfcn ss) = [cc, nc, ci, pci, tac, earfcn] @ lte_items ss"
| "cell12_fields (Cell12_tdscdma cc nc lac cid cpid rscp) = [cc, nc, lac, cid, cpid, rscp]"
| "cell12_fields Cell12_other = []"

definition responseCellInfoListV6 :: "rresp \<Rightarrow> nat \<Rightarrow> marshal" where
  "responseCellInfoListV6 response responselen =
     response_array (\<lambda>r. case r of RCellsV6 cs \<Rightarrow> Some cs | _ \<Rightarrow> None) 72 response responselen
       (\<lambda>cs. Some (0, count cs # concat (map (\<lambda>c. cell_head c @ map WInt32 (cell_fields (CellInfo c))) cs)))"

definition responseCellInfoListV12 :: "rresp \<Rightarrow> nat \<Rightarrow> marshal" where
  "responseCellInfoListV12 response responselen =
     response_array (\<lambda>r. case r of RCellsV12 cs \<Rightarrow> Some cs | _ \<Rightarrow> None) 72 response responselen
       (\<lambda>cs. Some (0, count cs # concat (map (\<lambda>c. cell_head c @ map WInt32 (cell12_fields (CellInfo c))) cs)))"

definition responseCellInfoList :: "env \<Rightarrow> rresp \<Rightarrow> nat \<Rightarrow> marshal" where
  "responseCellInfoList E response responselen =
     (if callbacks_version E \<le> 12 then
        (if callbacks_version E < 12 then responseCellInfoListV6 response responselen
         else responseCellInfoListV12 response responselen)
      else expect_size E 72 responselen (responseCellInfoListV12 response responselen))"

text \<open>A \<open>char\<close> array read as a C string; \<open>None\<close> when no zero ends it inside the array.\<close>

definition char_array :: "u8 list \<Rightarrow> cstr option" where
  "char_array bs = (if 0 \<in> set bs then Some (Some (takeWhile (\<lambda>b. b \<noteq> 0) bs)) else None)"

definition hardware_items :: "RIL_HardwareConfig \<Rightarrow> witem list option" where
  "hardware_items h =
     (case h of
        HardwareModem uuid state rat maxVoice maxData maxStandby \<Rightarrow> do {
          uuid \<leftarrow> char_array uuid;
          Some [WStr uuid, WInt32 state, WInt32 rat, WInt32 maxVoice, WInt32 maxData, WInt32 maxStandby]
        }
      | HardwareSim uuid state modemUuid \<Rightarrow> do {
          uuid \<leftarrow> char_array uuid;
          modemUuid \<leftarrow> char_array modemUuid;
          Some [WStr uuid, WInt32 state, WStr modemUuid]
        }
      | HardwareOther \<Rightarrow> Some [])"

fun concat_options :: "'a list option list \<Rightarrow> 'a list option" where
  "concat_options [] = Some []"
| "concat_options (x # xs) = do { x \<leftarrow> x; xs \<leftarrow> concat_options xs; Some (x @ xs) }"

definition responseHardwareConfig :: "rresp \<Rightarrow> nat \<Rightarrow> marshal" where
  "responseHardwareConfig response responselen =
     response_array (\<lambda>r. case r of RHardware hs \<Rightarrow> Some hs | _ \<Rightarrow> None) 136 response responselen
       (\<lambda>hs. do { items \<leftarrow> concat_options (map hardware_items hs); Some (0, count hs # items) })"

definition responseRadioCapability :: "rresp \<Rightarrow> nat \<Rightarrow> marshal" where
  "responseRadioCapability response responselen =
     (if response = RNull \<or> responselen \<noteq> 84 then invalid_response
      else case response of
        RRadioCapability c uuid \<Rightarrow> do {
          uuid \<leftarrow> char_array uuid;
          Some (0, [WInt32 (rc_version c), WInt32 (rc_session c), WInt32 (rc_phase c), WInt32 (rc_rat c),
            WStr uuid, WInt32 (rc_status c)])
        }
      | _ \<Rightarrow> None)"

definition isServiceTypeCfQuery :: "u32 \<Rightarrow> u32 \<Rightarrow> bool" where
  "isServiceTypeCfQuery serType reqType \<longleftrightarrow> reqType = 2 \<and> serType \<in> {0, 1, 2, 3, 4, 5}"

definition responseSSData :: "rresp \<Rightarrow> nat \<Rightarrow> marshal" where
  "responseSSData response responselen =
     (if response = RNull \<and> responselen \<noteq> 0 then invalid_response
      else if responselen \<noteq> 256 then invalid_response
      else case response of
        RSsData c \<Rightarrow> do {
          items \<leftarrow> (case ss_union c of
             CfData numValidIndexes cfInfo \<Rightarrow>
               if isServiceTypeCfQuery (serviceType c) (requestType c) then do {
                 let n = (if sint numValidIndexes > 7 then 7 else numValidIndexes);
                 cfs \<leftarrow> firstn (nat (sint n)) cfInfo;
                 Some (WInt32 n # concat (map cf_items cfs))
               }
               else None
           | SsInfo ssInfo \<Rightarrow>
               if isServiceTypeCfQuery (serviceType c) (requestType c) then None
               else do { xs \<leftarrow> firstn 4 ssInfo; Some (WInt32 4 # map WInt32 xs) });
          Some (0, [WInt32 (serviceType c), WInt32 (requestType c), WInt32 (teleserviceType c),
            WInt32 (ss_serviceClass c), WInt32 (ss_result c)] @ items)
        }
      | _ \<Rightarrow> None)"

section \<open>The response functions of the tables\<close>

datatype response_fn =
    F_responseVoid | F_responseInts | F_responseFailCause | F_responseStrings | F_responseString
  | F_responseCallList | F_responseSMS | F_responseDataCallList | F_responseSetupDataCall
  | F_responseRaw | F_responseSIM_IO | F_responseCallForwards | F_responseSsn | F_responseCellList
  | F_responseRilSignalStrength | F_responseCallRing | F_responseCdmaSignalInfoRecord
  | F_responseCdmaCallWaiting | F_responseSimRefresh | F_responseSimStatus | F_responseGsmBrSmsCnf
  | F_responseCdmaBrSmsCnf | F_responseCdmaSms | F_responseDcRtInfo | F_responseLceStatus
  | F_responseLceData | F_responseActivityData | F_responseCarrierRestrictions | F_responsePcoData
  | F_responseAdnRecords | F_responseCdmaInformationRecords | F_responseCellInfoList
  | F_responseHardwareConfig | F_responseRadioCapability | F_responseSSData

fun response_items :: "response_fn \<Rightarrow> env \<Rightarrow> rresp \<Rightarrow> nat \<Rightarrow> marshal" where
  "response_items F_responseVoid E = responseVoid"
| "response_items F_responseInts E = responseInts"
| "response_items F_responseFailCause E = responseFailCause"
| "response_items F_responseStrings E = responseStrings"
| "response_items F_responseString E = responseString"
| "response_items F_responseCallList E = responseCallList E"
| "response_items F_responseSMS E = responseSMS"
| "response_items F_responseDataCallList E = responseDataCallList E"
| "response_items F_responseSetupDataCall E = responseSetupDataCall E"
| "response_items F_responseRaw E = responseRaw"
| "response_items F_responseSIM_IO E = responseSIM_IO"
| "response_items F_responseCallForwards E = responseCallForwards"
| "response_items F_responseSsn E = responseSsn"
| "response_items F_responseCellList E = responseCellList"
| "response_items F_responseRilSignalStrength E = responseRilSignalStrength E"
| "response_items F_responseCallRing E = responseCallRing"
| "response_items F_responseCdmaSignalInfoRecord E = responseCdmaSignalInfoRecord"
| "response_items F_responseCdmaCallWaiting E = responseCdmaCallWaiting E"
| "response_items F_responseSimRefresh E = responseSimRefresh E"
| "response_items F_responseSimStatus E = responseSimStatus E"
| "response_items F_responseGsmBrSmsCnf E = responseGsmBrSmsCnf"
| "response_items F_responseCdmaBrSmsCnf E = responseCdmaBrSmsCnf"
| "response_items F_responseCdmaSms E = responseCdmaSms"
| "response_items F_responseDcRtInfo E = responseDcRtInfo"
| "response_items F_responseLceStatus E = responseLceStatus"
| "response_items F_responseLceData E = responseLceData"
| "response_items F_responseActivityData E = responseActivityData"
| "response_items F_responseCarrierRestrictions E = responseCarrierRestrictions"
| "response_items F_responsePcoData E = responsePcoData"
| "response_items F_responseAdnRecords E = responseAdnRecords"
| "response_items F_responseCdmaInformationRecords E = responseCdmaInformationRecords E"
| "response_items F_responseCellInfoList E = responseCellInfoList E"
| "response_items F_responseHardwareConfig E = responseHardwareConfig"
| "response_items F_responseRadioCapability E = responseRadioCapability"
| "response_items F_responseSSData E = responseSSData"

definition run_response :: "response_fn \<Rightarrow> env \<Rightarrow> rresp \<Rightarrow> nat \<Rightarrow> parcel \<Rightarrow> (int \<times> parcel) option" where
  "run_response fn E response responselen p = do {
     (ret, items) \<leftarrow> response_items fn E response responselen;
     p \<leftarrow> put_all (put (env_alloc E)) items p;
     Some (ret, p)
   }"

end
