(* ===== verification/RecordStream.thy ===== *)
theory RecordStream
  imports Prelude
begin

text \<open>
  \<open>services/ril/librilutils/record_stream.c\<close>: splitting what a command socket delivers into
  length-prefixed records. The block of \<open>maxRecordLen + HEADER_SIZE\<close> bytes is kept as the offset of
  \<open>unconsumed\<close> and the bytes from there to \<open>read_end\<close>. \<open>None\<close> is the failed assertion on a
  full block.
\<close>

section \<open>Operations\<close>

abbreviation HEADER_SIZE :: nat where "HEADER_SIZE \<equiv> 4"

record record_stream =
  maxRecordLen :: nat
  unconsumed :: nat
  pending_bytes :: "u8 list"

definition record_stream_new :: "nat \<Rightarrow> record_stream" where
  "record_stream_new maxLen = \<lparr>maxRecordLen = maxLen, unconsumed = 0, pending_bytes = []\<rparr>"

text \<open>\<open>ntohl\<close> of the first four bytes, and \<open>htonl\<close> as bytes.\<close>

definition be32 :: "u32 \<Rightarrow> u8 list" where
  "be32 w = rev (le32 w)"

definition from_be32 :: "u8 list \<Rightarrow> u32" where
  "from_be32 bs = le_word (rev bs)"

definition getEndOfRecord :: "u8 list \<Rightarrow> nat option" where
  "getEndOfRecord bs =
     (if length bs < HEADER_SIZE then None
      else let len = unat (from_be32 (take HEADER_SIZE bs)) in
        if length bs < HEADER_SIZE + len then None else Some (HEADER_SIZE + len))"

definition getNextRecord :: "record_stream \<Rightarrow> (u8 list \<times> record_stream) option" where
  "getNextRecord rs =
     (case getEndOfRecord (pending_bytes rs) of
        None \<Rightarrow> None
      | Some n \<Rightarrow> Some (take (n - HEADER_SIZE) (drop HEADER_SIZE (pending_bytes rs)),
          rs\<lparr>unconsumed := unconsumed rs + n, pending_bytes := drop n (pending_bytes rs)\<rparr>))"

text \<open>What the successive calls of \<open>read\<close> find: bytes (what a call has no room for stays for the
  next one), the end of the stream, or an error that is \<open>EAGAIN\<close> or \<open>EINTR\<close> or another one. After
  the last one there is nothing to read yet.\<close>

datatype read_result = ReadBytes "u8 list" | ReadEof | ReadAgain | ReadError

datatype next_result = Record "u8 list" | EndOfStream | TryAgain | StreamError

definition read_fd :: "nat \<Rightarrow> read_result list \<Rightarrow> read_result \<times> read_result list" where
  "read_fd room reads =
     (case reads of
        [] \<Rightarrow> (ReadAgain, [])
      | ReadBytes xs # reads \<Rightarrow>
          (ReadBytes (take room xs), if length xs \<le> room then reads else ReadBytes (drop room xs) # reads)
      | r # reads \<Rightarrow> (r, reads))"

definition record_stream_get_next ::
  "record_stream \<Rightarrow> read_result list \<Rightarrow> (next_result \<times> record_stream \<times> read_result list) option" where
  "record_stream_get_next rs reads =
     (case getNextRecord rs of
        Some (bs, rs) \<Rightarrow> Some (Record bs, rs, reads)
      | None \<Rightarrow>
          if unconsumed rs = 0 \<and> length (pending_bytes rs) = maxRecordLen rs + HEADER_SIZE then None
          else
            let rs = rs\<lparr>unconsumed := 0\<rparr>;
                (r, reads) = read_fd (maxRecordLen rs + HEADER_SIZE - length (pending_bytes rs)) reads in
            case r of
              ReadEof \<Rightarrow> Some (EndOfStream, rs, reads)
            | ReadAgain \<Rightarrow> Some (TryAgain, rs, reads)
            | ReadError \<Rightarrow> Some (StreamError, rs, reads)
            | ReadBytes got \<Rightarrow>
                if got = [] then Some (EndOfStream, rs, reads)
                else
                  let rs = rs\<lparr>pending_bytes := pending_bytes rs @ got\<rparr> in
                  case getNextRecord rs of
                    None \<Rightarrow> Some (TryAgain, rs, reads)
                  | Some (bs, rs) \<Rightarrow> Some (Record bs, rs, reads))"

section \<open>The bytes of a stream\<close>

fun read_bytes :: "read_result \<Rightarrow> u8 list" where
  "read_bytes (ReadBytes xs) = xs"
| "read_bytes _ = []"

definition content :: "record_stream \<Rightarrow> read_result list \<Rightarrow> u8 list" where
  "content rs reads = pending_bytes rs @ concat (map read_bytes reads)"

definition frame :: "u8 list \<Rightarrow> u8 list" where
  "frame bs = be32 (of_nat (length bs)) @ bs"

definition rs_ok :: "record_stream \<Rightarrow> bool" where
  "rs_ok rs \<longleftrightarrow> unconsumed rs + length (pending_bytes rs) \<le> maxRecordLen rs + HEADER_SIZE"

lemma length_be32 [simp]: "length (be32 w) = 4"
  by (simp add: be32_def)

lemma from_be32_be32 [simp]: "from_be32 (be32 w) = w"
  by (simp add: be32_def from_be32_def)

lemma be32_from_be32: "length bs = 4 \<Longrightarrow> be32 (from_be32 bs) = bs"
  using le_bytes_le_word [of "rev bs", where 'a = 32] by (simp add: be32_def from_be32_def)

lemma be32_not_Nil: "be32 w \<noteq> []"
  using length_be32 [of w] by (metis list.size(3) zero_neq_numeral)

lemma frame_not_Nil [simp]: "frame bs \<noteq> []" "[] \<noteq> frame bs"
  by (simp_all add: frame_def be32_def le_bytes_def)

lemma rs_ok_new [simp]: "rs_ok (record_stream_new n)"
  by (simp add: rs_ok_def record_stream_new_def)

lemma getEndOfRecord_frame:
  "length bs < 2 ^ 32 \<Longrightarrow> getEndOfRecord (frame bs @ r) = Some (HEADER_SIZE + length bs)"
  by (simp add: getEndOfRecord_def frame_def unat_of_nat)

lemma getEndOfRecord_SomeD:
  assumes "getEndOfRecord bs = Some n"
  shows "\<exists>x. take n bs = frame x \<and> n = HEADER_SIZE + length x \<and> n \<le> length bs \<and>
     x = take (n - HEADER_SIZE) (drop HEADER_SIZE bs) \<and> length x < 2 ^ 32"
proof -
  define len where "len = unat (from_be32 (take 4 bs))"
  have l: "4 + len \<le> length bs" "n = 4 + len"
    using assms by (auto simp: getEndOfRecord_def len_def Let_def split: if_splits)
  have x: "length (take len (drop 4 bs)) = len" using l by simp
  have "len < 2 ^ 32" using unsigned_less [of "from_be32 (take 4 bs)"] by (simp add: len_def)
  then have x2: "length (take len (drop 4 bs)) < 2 ^ 32" using x by simp
  have "be32 (of_nat len) = take 4 bs"
    using be32_from_be32 [of "take 4 bs"] l by (simp add: len_def)
  then have "take n bs = frame (take len (drop 4 bs))"
    using l x by (simp add: frame_def take_add)
  with l x x2 show ?thesis by auto
qed

lemma getNextRecord_SomeD:
  assumes "getNextRecord rs = Some (bs, rs')" and "rs_ok rs"
  shows "pending_bytes rs = frame bs @ pending_bytes rs' \<and> rs_ok rs' \<and> maxRecordLen rs' = maxRecordLen rs \<and>
    length bs < 2 ^ 32"
proof -
  obtain n where n: "getEndOfRecord (pending_bytes rs) = Some n"
    "bs = take (n - 4) (drop 4 (pending_bytes rs))"
    "rs' = rs\<lparr>unconsumed := unconsumed rs + n, pending_bytes := drop n (pending_bytes rs)\<rparr>"
    using assms(1) by (auto simp: getNextRecord_def split: option.splits)
  from getEndOfRecord_SomeD [OF n(1)] n(2) have f: "take n (pending_bytes rs) = frame bs" "n \<le> length (pending_bytes rs)"
    "length bs < 2 ^ 32" by auto
  have "pending_bytes rs = frame bs @ drop n (pending_bytes rs)"
    using append_take_drop_id [of n "pending_bytes rs"] f(1) by simp
  with f(2,3) assms(2) show ?thesis by (simp add: n(3) rs_ok_def)
qed

lemma getNextRecord_content:
  assumes "getNextRecord rs = Some (bs, rs')" and "rs_ok rs"
  shows "content rs reads = frame bs @ content rs' reads \<and> rs_ok rs' \<and> maxRecordLen rs' = maxRecordLen rs \<and>
    length bs < 2 ^ 32"
  using getNextRecord_SomeD [OF assms] by (simp add: content_def)

lemma read_fd_bytes:
  "read_fd room reads = (r, reads') \<Longrightarrow>
     concat (map read_bytes reads) = read_bytes r @ concat (map read_bytes reads') \<and> length (read_bytes r) \<le> room"
  by (auto simp: read_fd_def split: list.splits read_result.splits if_splits)

text \<open>One call takes one record off the front of the stream, or leaves the stream as it is.\<close>

lemma get_next_content:
  assumes "record_stream_get_next rs reads = Some (x, rs', reads')" and "rs_ok rs"
  shows "rs_ok rs' \<and> maxRecordLen rs' = maxRecordLen rs \<and>
    (case x of
       Record bs \<Rightarrow> content rs reads = frame bs @ content rs' reads' \<and> length bs < 2 ^ 32
     | _ \<Rightarrow> content rs reads = content rs' reads' \<and> getNextRecord rs' = None)"
proof (cases "getNextRecord rs")
  case (Some y)
  with assms show ?thesis
    by (cases y) (auto simp: record_stream_get_next_def dest: getNextRecord_content)
next
  case None
  define room where "room = maxRecordLen rs + 4 - length (pending_bytes rs)"
  obtain r reads1 where r: "read_fd room reads = (r, reads1)" by fastforce
  let ?rs = "rs\<lparr>unconsumed := 0\<rparr>" and ?rs1 = "rs\<lparr>unconsumed := 0, pending_bytes := pending_bytes rs @ read_bytes r\<rparr>"
  have ok: "rs_ok ?rs" "rs_ok ?rs1" and none: "getNextRecord ?rs = None"
    using assms(2) None read_fd_bytes [OF r] by (auto simp: rs_ok_def room_def getNextRecord_def split: option.splits)
  have con: "content rs reads = content ?rs1 reads1"
    using read_fd_bytes [OF r] by (simp add: content_def)
  have same: "read_bytes r = [] \<Longrightarrow> content rs reads = content ?rs reads1"
    using read_fd_bytes [OF r] by (simp add: content_def)
  from assms(1) None show ?thesis
    using r ok none con same
    by (auto simp: record_stream_get_next_def Let_def room_def [symmetric]
        split: if_splits read_result.splits option.splits dest!: getNextRecord_content [where reads = reads'])
qed

text \<open>Only a record longer than the limit fills the block without being complete.\<close>

lemma get_next_total:
  assumes "4 \<le> length (pending_bytes rs) \<longrightarrow> unat (from_be32 (take 4 (pending_bytes rs))) \<le> maxRecordLen rs"
  shows "record_stream_get_next rs reads \<noteq> None"
proof (cases "getNextRecord rs")
  case None
  then have "length (pending_bytes rs) < maxRecordLen rs + 4"
    using assms by (auto simp: getNextRecord_def getEndOfRecord_def Let_def split: option.splits if_splits)
  with None show ?thesis
    by (auto simp: record_stream_get_next_def Let_def split: read_result.splits option.splits prod.splits)
qed (auto simp: record_stream_get_next_def)

section \<open>The loop over records\<close>

text \<open>The records that \<open>processCommandsCallback\<close>'s loop takes from the stream, and why it ends.\<close>

function (sequential) drain ::
  "record_stream \<Rightarrow> read_result list \<Rightarrow> (u8 list list \<times> next_result \<times> record_stream \<times> read_result list) option"
where
  "drain rs reads =
     (if \<not> rs_ok rs then None
      else case record_stream_get_next rs reads of
        None \<Rightarrow> None
      | Some (Record bs, rs, reads) \<Rightarrow>
          map_option (\<lambda>(recs, x). (bs # recs, x)) (drain rs reads)
      | Some (x, rs, reads) \<Rightarrow> Some ([], x, rs, reads))"
  by pat_completeness auto
termination
proof (relation "measure (\<lambda>(rs, reads). length (content rs reads))", goal_cases)
  case 1
  then show ?case by simp
next
  case (2 rs reads y a b bs rs' reads')
  then have "record_stream_get_next rs reads = Some (Record bs, rs', reads')" "rs_ok rs" by auto
  from get_next_content [OF this] show ?case by (simp add: frame_def)
qed

declare drain.simps [simp del]

text \<open>One run of the loop, whatever the chunks: the records it hands out and the bytes it leaves are
  exactly what the stream held; unless it met the end or an error, no complete record is left in
  the block.\<close>

lemma drain_exact:
  "drain rs reads = Some (recs, x, rs', reads') \<Longrightarrow>
     content rs reads = concat (map frame recs) @ content rs' reads' \<and> getNextRecord rs' = None \<and>
     rs_ok rs' \<and> maxRecordLen rs' = maxRecordLen rs \<and> (\<forall>bs. x \<noteq> Record bs) \<and>
     list_all (\<lambda>bs. length bs < 2 ^ 32) recs"
proof (induction rs reads arbitrary: recs rule: drain.induct)
  case (1 rs reads)
  obtain y rs1 reads1 where y: "record_stream_get_next rs reads = Some (y, rs1, reads1)" and ok: "rs_ok rs"
    using "1.prems" by (subst (asm) drain.simps) (auto split: if_splits option.splits)
  note c = get_next_content [OF y ok]
  show ?case
  proof (cases y)
    case (Record bs)
    with "1.prems" y ok obtain recs1 where "drain rs1 reads1 = Some (recs1, x, rs', reads')" "recs = bs # recs1"
      by (subst (asm) drain.simps) auto
    with "1.IH" [OF _ y _ Record] ok c Record show ?thesis by simp
  qed (use "1.prems" y ok c in \<open>subst (asm) drain.simps, auto\<close>)+
qed

text \<open>Frames are uniquely parsed.\<close>

lemma frame_append_eq:
  assumes "frame a @ r = frame b @ q" and "length a < 2 ^ 32" and "length b < 2 ^ 32"
  shows "a = b \<and> r = q"
proof -
  have "be32 (of_nat (length a)) = be32 (of_nat (length b))"
    using assms(1) by (simp add: frame_def append_eq_append_conv)
  then have "(of_nat (length a) :: u32) = of_nat (length b)"
    by (metis from_be32_be32)
  then have "unat (of_nat (length a) :: u32) = unat (of_nat (length b) :: u32)" by simp
  then have "length a = length b"
    using assms(2,3) by (simp add: unat_of_nat)
  with assms(1) show ?thesis by (simp add: frame_def)
qed

abbreviation fits :: "nat \<Rightarrow> u8 list list \<Rightarrow> bool" where
  "fits n xs \<equiv> list_all (\<lambda>x. length x \<le> n) xs"

lemma frames_prefix:
  "concat (map frame recs) @ r = concat (map frame xs) \<Longrightarrow> fits n xs \<Longrightarrow> n < 2 ^ 32 \<Longrightarrow>
     list_all (\<lambda>x. length x < 2 ^ 32) recs \<Longrightarrow> \<exists>ys. xs = recs @ ys \<and> r = concat (map frame ys)"
proof (induction recs arbitrary: xs)
  case Nil
  then show ?case by simp
next
  case (Cons a recs)
  then obtain b xs' where xs: "xs = b # xs'"
    by (cases xs) simp_all
  from frame_append_eq [of a "concat (map frame recs) @ r" b "concat (map frame xs')"] Cons.prems xs
  have "a = b" "concat (map frame recs) @ r = concat (map frame xs')" by auto
  with Cons.IH [of xs'] Cons.prems xs show ?case by auto
qed

lemma conforming_header:
  assumes "content rs reads = concat (map frame xs)" and "fits n xs" and "n < 2 ^ 32"
    and "4 \<le> length (pending_bytes rs)"
  shows "unat (from_be32 (take 4 (pending_bytes rs))) \<le> n"
proof -
  have "take 4 (pending_bytes rs) = take 4 (concat (map frame xs))"
    using assms(1,4) by (simp add: content_def flip: assms(1))
  moreover have "xs \<noteq> []" using assms(1,4) by (auto simp: content_def)
  ultimately show ?thesis
    using assms(2,3) by (cases xs) (simp_all add: frame_def unat_of_nat)
qed

text \<open>A client that keeps to the limit is served completely and never fails the assertion, however
  its frames are cut into chunks.\<close>

lemma drain_conforming:
  "rs_ok rs \<Longrightarrow> content rs reads = concat (map frame xs) \<Longrightarrow> fits (maxRecordLen rs) xs \<Longrightarrow>
     maxRecordLen rs < 2 ^ 32 \<Longrightarrow>
     \<exists>recs ys x rs' reads'. drain rs reads = Some (recs, x, rs', reads') \<and> xs = recs @ ys \<and>
       content rs' reads' = concat (map frame ys)"
proof (induction rs reads arbitrary: xs rule: drain.induct)
  case (1 rs reads)
  have "record_stream_get_next rs reads \<noteq> None"
    by (rule get_next_total) (use conforming_header [OF "1.prems"(2,3,4)] in blast)
  then obtain y rs1 reads1 where y: "record_stream_get_next rs reads = Some (y, rs1, reads1)"
    by auto
  note c = get_next_content [OF y "1.prems"(1)]
  show ?case
  proof (cases y)
    case (Record bs)
    have "frame bs @ content rs1 reads1 = concat (map frame xs)" and "length bs < 2 ^ 32"
      using c "1.prems"(2) Record by simp_all
    with frames_prefix [of "[bs]" "content rs1 reads1" xs "maxRecordLen rs"] "1.prems"(3,4)
    obtain ys where ys: "xs = bs # ys" "content rs1 reads1 = concat (map frame ys)" by auto
    have "\<exists>recs zs x rs' reads'. drain rs1 reads1 = Some (recs, x, rs', reads') \<and> ys = recs @ zs \<and>
       content rs' reads' = concat (map frame zs)"
      by (rule "1.IH" [OF _ y _ Record]) (use "1.prems" c ys in auto)
    with y Record "1.prems"(1) ys(1) show ?thesis by (subst drain.simps) auto
  qed (use "1.prems" y c in \<open>subst drain.simps, auto\<close>)+
qed

text \<open>A longer record fills the block.\<close>

lemma oversized_record_aborts:
  assumes "8192 < n" and "n < 2 ^ 32" and "length xs = 8192"
  shows "record_stream_get_next (record_stream_new 8192) [ReadBytes (be32 (of_nat n) @ xs)] =
      Some (TryAgain, \<lparr>maxRecordLen = 8192, unconsumed = 0, pending_bytes = be32 (of_nat n) @ xs\<rparr>, [])"
    and "record_stream_get_next \<lparr>maxRecordLen = 8192, unconsumed = 0, pending_bytes = be32 (of_nat n) @ xs\<rparr> reads = None"
  using assms
  by (simp_all add: record_stream_get_next_def record_stream_new_def getNextRecord_def getEndOfRecord_def
      read_fd_def unat_of_nat Let_def be32_not_Nil)

section \<open>One wake-up after the other\<close>

text \<open>What has been read and is still to be read, and reads that bring bytes or nothing yet.\<close>

definition unread_size :: "read_result list \<Rightarrow> nat" where
  "unread_size reads = sum_list (map (\<lambda>r. Suc (length (read_bytes r))) reads)"

fun is_chunk :: "read_result \<Rightarrow> bool" where
  "is_chunk (ReadBytes xs) \<longleftrightarrow> xs \<noteq> []"
| "is_chunk ReadAgain \<longleftrightarrow> True"
| "is_chunk r \<longleftrightarrow> False"

lemma read_fd_less:
  "0 < room \<Longrightarrow> reads \<noteq> [] \<Longrightarrow> read_fd room reads = (r, reads') \<Longrightarrow> unread_size reads' < unread_size reads"
  by (auto simp: read_fd_def unread_size_def split: list.splits read_result.splits if_splits)

text \<open>A call that hands out no record has read; a record may come out of the block.\<close>

lemma get_next_reads:
  assumes "record_stream_get_next rs reads = Some (x, rs', reads')" and "rs_ok rs"
  obtains bs where "x = Record bs" "reads' = reads"
  | room r where "0 < room" "read_fd room reads = (r, reads')"
      "case r of ReadEof \<Rightarrow> x = EndOfStream | ReadAgain \<Rightarrow> x = TryAgain | ReadError \<Rightarrow> x = StreamError
        | ReadBytes got \<Rightarrow> if got = [] then x = EndOfStream else x = TryAgain \<or> (\<exists>bs. x = Record bs)"
proof (cases "getNextRecord rs")
  case (Some y)
  with assms that(1) show ?thesis by (cases y) (auto simp: record_stream_get_next_def)
next
  case None
  let ?room = "maxRecordLen rs + HEADER_SIZE - length (pending_bytes rs)"
  obtain r reads1 where r: "read_fd ?room reads = (r, reads1)" by fastforce
  have "reads1 = reads'" "0 < ?room"
    "case r of ReadEof \<Rightarrow> x = EndOfStream | ReadAgain \<Rightarrow> x = TryAgain | ReadError \<Rightarrow> x = StreamError
        | ReadBytes got \<Rightarrow> if got = [] then x = EndOfStream else x = TryAgain \<or> (\<exists>bs. x = Record bs)"
    using assms None r
    by (auto simp: record_stream_get_next_def rs_ok_def Let_def split: if_splits read_result.splits option.splits)
  with r that(2) show ?thesis by blast
qed

lemma get_next_unread:
  assumes "record_stream_get_next rs reads = Some (x, rs', reads')" and "rs_ok rs" and "reads \<noteq> []"
  shows "unread_size reads' \<le> unread_size reads" and "\<forall>bs. x \<noteq> Record bs \<Longrightarrow> unread_size reads' < unread_size reads"
  using assms by (auto elim!: get_next_reads dest: read_fd_less less_imp_le)

lemma read_fd_nil: "read_fd room [] = (ReadAgain, [])"
  by (simp add: read_fd_def)

lemma drain_unread:
  "drain rs reads = Some (recs, x, rs', reads') \<Longrightarrow> reads' \<noteq> [] \<Longrightarrow> unread_size reads' < unread_size reads"
proof (induction rs reads arbitrary: recs rule: drain.induct)
  case (1 rs reads)
  obtain y rs1 reads1 where y: "record_stream_get_next rs reads = Some (y, rs1, reads1)" and ok: "rs_ok rs"
    using "1.prems" by (subst (asm) drain.simps) (auto split: if_splits option.splits)
  show ?case
  proof (cases "\<exists>bs. y = Record bs")
    case True
    then obtain bs where Record: "y = Record bs" by blast
    with "1.prems" y ok obtain recs1 where d: "drain rs1 reads1 = Some (recs1, x, rs', reads')"
      by (subst (asm) drain.simps) auto
    with "1.IH" [OF _ y _ Record] ok "1.prems" have "unread_size reads' < unread_size reads1" by simp
    moreover have "reads \<noteq> []"
    proof
      assume "reads = []"
      with y ok have "reads1 = []" by (auto elim!: get_next_reads simp: read_fd_nil)
      with \<open>unread_size reads' < unread_size reads1\<close> show False by (simp add: unread_size_def)
    qed
    ultimately show ?thesis using get_next_unread(1) [OF y ok] by simp
  next
    case False
    with "1.prems" y ok have "reads1 = reads'" by (subst (asm) drain.simps) (cases y; auto)
    moreover have "reads \<noteq> []" using y ok \<open>reads1 = reads'\<close> "1.prems"(2) by (auto elim!: get_next_reads simp: read_fd_nil)
    ultimately show ?thesis using get_next_unread(2) [OF y ok] False by simp
  qed
qed

text \<open>The event loop runs the loop over records again as long as there is something to read: the records of all
  runs, the result of the last one, and what is left.\<close>

function (sequential) drain_all ::
  "record_stream \<Rightarrow> read_result list \<Rightarrow> (u8 list list \<times> next_result \<times> record_stream \<times> read_result list) option"
where
  "drain_all rs reads =
     (case drain rs reads of
        None \<Rightarrow> None
      | Some (recs, x, rs', reads') \<Rightarrow>
          if x = TryAgain \<and> reads' \<noteq> []
          then map_option (\<lambda>(more, y). (recs @ more, y)) (drain_all rs' reads')
          else Some (recs, x, rs', reads'))"
  by pat_completeness auto
termination
  by (relation "measure (\<lambda>(rs, reads). unread_size reads)") (auto intro: drain_unread)

declare drain_all.simps [simp del]

text \<open>Reads that bring bytes or nothing yet, up to an end that may follow.\<close>

definition ends_as :: "read_result list \<Rightarrow> next_result \<Rightarrow> bool" where
  "ends_as fin x \<longleftrightarrow> (fin, x) \<in> {([], TryAgain), ([ReadEof], EndOfStream), ([ReadError], StreamError)}"

lemma get_next_chunks:
  assumes "record_stream_get_next rs (cs @ fin) = Some (y, rs', reads')" and "rs_ok rs" and "list_all is_chunk cs"
    and "ends_as fin x"
  shows "y = x \<and> reads' = [] \<or> (y = TryAgain \<or> (\<exists>bs. y = Record bs)) \<and> (\<exists>cs'. reads' = cs' @ fin \<and> list_all is_chunk cs')"
  using assms(1,2)
proof (cases rule: get_next_reads)
  case 1
  then show ?thesis using assms(3) by blast
next
  case (2 room r)
  show ?thesis
  proof (cases cs)
    case Nil
    then show ?thesis using 2 assms(4) by (auto simp: ends_as_def read_fd_def)
  next
    case (Cons c cs2)
    show ?thesis
    proof (cases c)
      case (ReadBytes xs)
      show ?thesis
      proof (cases "length xs \<le> room")
        case True
        then show ?thesis using 2 Cons ReadBytes assms(3) by (auto simp: read_fd_def)
      next
        case False
        then have "reads' = (ReadBytes (drop room xs) # cs2) @ fin" "list_all is_chunk (ReadBytes (drop room xs) # cs2)"
          using 2 Cons ReadBytes assms(3) by (auto simp: read_fd_def)
        moreover have "take room xs \<noteq> []" using 2(1) False by auto
        then have "y = TryAgain \<or> (\<exists>bs. y = Record bs)" using 2 Cons ReadBytes False by (auto simp: read_fd_def)
        ultimately show ?thesis by blast
      qed
    qed (use 2 Cons assms(3) in \<open>auto simp: read_fd_def\<close>)
  qed
qed

lemma drain_chunks:
  "drain rs (cs @ fin) = Some (recs, y, rs', reads') \<Longrightarrow> list_all is_chunk cs \<Longrightarrow> ends_as fin x \<Longrightarrow>
     y = x \<and> reads' = [] \<or> y = TryAgain \<and> (\<exists>cs'. reads' = cs' @ fin \<and> list_all is_chunk cs')"
proof (induction rs "cs @ fin" arbitrary: cs recs rule: drain.induct)
  case (1 rs)
  obtain z rs1 reads1 where z: "record_stream_get_next rs (cs @ fin) = Some (z, rs1, reads1)" and ok: "rs_ok rs"
    using "1.prems"(1) by (subst (asm) drain.simps) (auto split: if_splits option.splits)
  note c = get_next_chunks [OF z ok "1.prems"(2,3)]
  show ?case
  proof (cases "\<exists>bs. z = Record bs")
    case True
    then obtain bs where Record: "z = Record bs" by blast
    with c "1.prems"(3) obtain cs' where cs': "reads1 = cs' @ fin" "list_all is_chunk cs'" by (auto simp: ends_as_def)
    from "1.prems"(1) z ok Record obtain recs1 where d: "drain rs1 reads1 = Some (recs1, y, rs', reads')"
      by (subst (asm) drain.simps) auto
    show ?thesis
      by (rule "1.hyps" [OF _ z _ Record]) (use d cs' ok "1.prems"(3) in auto)
  next
    case False
    with "1.prems"(1) z ok have "z = y" "reads1 = reads'" by (subst (asm) drain.simps; cases z; auto)+
    with c False show ?thesis by blast
  qed
qed

text \<open>Whole frames with no complete one in front are none.\<close>

lemma no_frame_left:
  assumes "getNextRecord rs = None" and "pending_bytes rs = concat (map frame ys)" and "fits n ys" and "n < 2 ^ 32"
  shows "ys = []"
proof (cases ys)
  case (Cons y zs)
  with assms getEndOfRecord_frame [of y "concat (map frame zs)"] show ?thesis by (simp add: getNextRecord_def)
qed simp

text \<open>So everything that a conforming client has sent is handed out, in order, once it has arrived, and before its end
  or an error is reported.\<close>

lemma drain_all_conforming:
  assumes "ends_as fin x"
  shows "rs_ok rs \<Longrightarrow> list_all is_chunk cs \<Longrightarrow> content rs cs = concat (map frame xs) \<Longrightarrow> fits (maxRecordLen rs) xs \<Longrightarrow>
     maxRecordLen rs < 2 ^ 32 \<Longrightarrow> \<exists>rs'. drain_all rs (cs @ fin) = Some (xs, x, rs', []) \<and> pending_bytes rs' = []"
proof (induction "unread_size (cs @ fin)" arbitrary: rs cs xs rule: less_induct)
  case less
  have con: "content rs (cs @ fin) = content rs cs" for rs cs
    using assms by (auto simp: ends_as_def content_def)
  obtain recs ys y rs1 reads1 where d: "drain rs (cs @ fin) = Some (recs, y, rs1, reads1)" "xs = recs @ ys"
    "content rs1 reads1 = concat (map frame ys)"
    using drain_conforming [of rs "cs @ fin" xs] less.prems con by auto
  note e = drain_exact [OF d(1)]
  have fits: "fits (maxRecordLen rs) ys" using less.prems(4) d(2) by simp
  show ?case
  proof (cases "reads1 = []")
    case True
    then have "pending_bytes rs1 = concat (map frame ys)" using d(3) by (simp add: content_def)
    then have "ys = []" using no_frame_left [OF _ _ fits less.prems(5)] e by blast
    moreover have "y = x" using drain_chunks [OF d(1) less.prems(2) assms] True assms by (auto simp: ends_as_def)
    ultimately show ?thesis using d True by (subst drain_all.simps) (auto simp: content_def)
  next
    case False
    with drain_chunks [OF d(1) less.prems(2) assms] obtain cs' where
      cs': "y = TryAgain" "reads1 = cs' @ fin" "list_all is_chunk cs'" by auto
    have "content rs1 cs' = concat (map frame ys)"
      using d(3) cs'(2) con by simp
    moreover have "unread_size (cs' @ fin) < unread_size (cs @ fin)" using drain_unread [OF d(1) False] cs'(2) by simp
    ultimately obtain rs' where "drain_all rs1 (cs' @ fin) = Some (ys, x, rs', [])" "pending_bytes rs' = []"
      using less.hyps [of cs' rs1 ys] e cs'(3) fits less.prems(5) by auto
    then show ?thesis using d cs' False by (subst drain_all.simps) auto
  qed
qed

end
