(* ===== verification/RilCore.thy ===== *)
theory RilCore
  imports RilDispatchFacts RilResponse RecordStream
begin

text \<open>
  The request life cycle and the connection of \<open>services/ril/libril/ril.cpp\<close>: the command tables,
  the pending requests, \<open>processCommandBuffer\<close>, acknowledgement and completion by the vendor
  library, unsolicited responses, and the write and read paths of the command sockets. The state
  is passed explicitly; \<open>None\<close> is a run that leaves defined behaviour or that has not returned when
  the listed outcomes of \<open>write\<close> are used up.
\<close>

section \<open>Tables\<close>

text \<open>\<open>s_commands\<close> after its first, empty entry: request number, dispatch and response function.\<close>

definition s_commands :: "(nat \<times> dispatch_fn \<times> response_fn) list" where
  "s_commands = [
    (1, F_dispatchVoid, F_responseSimStatus), (2, F_dispatchStrings, F_responseInts),
    (3, F_dispatchStrings, F_responseInts), (4, F_dispatchStrings, F_responseInts),
    (5, F_dispatchStrings, F_responseInts), (6, F_dispatchStrings, F_responseInts),
    (7, F_dispatchStrings, F_responseInts), (8, F_dispatchStrings, F_responseInts),
    (9, F_dispatchVoid, F_responseCallList), (10, F_dispatchDial, F_responseVoid),
    (11, F_dispatchStrings, F_responseString), (12, F_dispatchInts, F_responseVoid),
    (13, F_dispatchVoid, F_responseVoid), (14, F_dispatchVoid, F_responseVoid),
    (15, F_dispatchVoid, F_responseVoid), (16, F_dispatchVoid, F_responseVoid),
    (17, F_dispatchVoid, F_responseVoid), (18, F_dispatchVoid, F_responseFailCause),
    (19, F_dispatchVoid, F_responseRilSignalStrength), (20, F_dispatchVoid, F_responseStrings),
    (21, F_dispatchVoid, F_responseStrings), (22, F_dispatchVoid, F_responseStrings),
    (23, F_dispatchInts, F_responseVoid), (24, F_dispatchString, F_responseVoid),
    (25, F_dispatchStrings, F_responseSMS), (26, F_dispatchStrings, F_responseSMS),
    (27, F_dispatchDataCall, F_responseSetupDataCall), (28, F_dispatchSIM_IO, F_responseSIM_IO),
    (29, F_dispatchString, F_responseVoid), (30, F_dispatchVoid, F_responseVoid),
    (31, F_dispatchVoid, F_responseInts), (32, F_dispatchInts, F_responseVoid),
    (33, F_dispatchCallForward, F_responseCallForwards), (34, F_dispatchCallForward, F_responseVoid),
    (35, F_dispatchInts, F_responseInts), (36, F_dispatchInts, F_responseVoid),
    (37, F_dispatchInts, F_responseVoid), (38, F_dispatchVoid, F_responseString),
    (39, F_dispatchVoid, F_responseString), (40, F_dispatchVoid, F_responseVoid),
    (41, F_dispatchStrings, F_responseVoid), (42, F_dispatchStrings, F_responseInts),
    (43, F_dispatchStrings, F_responseInts), (44, F_dispatchStrings, F_responseVoid),
    (45, F_dispatchVoid, F_responseInts), (46, F_dispatchVoid, F_responseVoid),
    (47, F_dispatchString, F_responseVoid), (48, F_dispatchVoid, F_responseStrings),
    (49, F_dispatchString, F_responseVoid), (50, F_dispatchVoid, F_responseVoid),
    (51, F_dispatchVoid, F_responseString), (52, F_dispatchInts, F_responseVoid),
    (53, F_dispatchInts, F_responseVoid), (54, F_dispatchVoid, F_responseInts),
    (55, F_dispatchVoid, F_responseInts), (56, F_dispatchVoid, F_responseInts),
    (57, F_dispatchVoid, F_responseDataCallList), (58, F_dispatchVoid, F_responseVoid),
    (59, F_dispatchRaw, F_responseRaw), (60, F_dispatchStrings, F_responseStrings),
    (61, F_dispatchInts, F_responseVoid), (62, F_dispatchInts, F_responseVoid),
    (63, F_dispatchSmsWrite, F_responseInts), (64, F_dispatchInts, F_responseVoid),
    (65, F_dispatchInts, F_responseVoid), (66, F_dispatchVoid, F_responseInts),
    (67, F_dispatchVoid, F_responseString), (68, F_dispatchString, F_responseVoid),
    (69, F_dispatchString, F_responseString), (70, F_dispatchString, F_responseVoid),
    (71, F_dispatchInts, F_responseVoid), (72, F_dispatchVoid, F_responseVoid),
    (73, F_dispatchInts, F_responseVoid), (74, F_dispatchVoid, F_responseInts),
    (75, F_dispatchVoid, F_responseCellList), (76, F_dispatchInts, F_responseVoid),
    (77, F_dispatchInts, F_responseVoid), (78, F_dispatchInts, F_responseVoid),
    (79, F_dispatchVoid, F_responseInts), (80, F_dispatchInts, F_responseVoid),
    (81, F_dispatchVoid, F_responseInts), (82, F_dispatchInts, F_responseVoid),
    (83, F_dispatchVoid, F_responseInts), (84, F_dispatchString, F_responseVoid),
    (85, F_dispatchStrings, F_responseVoid), (86, F_dispatchString, F_responseVoid),
    (87, F_dispatchCdmaSms, F_responseSMS), (88, F_dispatchCdmaSmsAck, F_responseVoid),
    (89, F_dispatchVoid, F_responseGsmBrSmsCnf), (90, F_dispatchGsmBrSmsCnf, F_responseVoid),
    (91, F_dispatchInts, F_responseVoid), (92, F_dispatchVoid, F_responseCdmaBrSmsCnf),
    (93, F_dispatchCdmaBrSmsCnf, F_responseVoid), (94, F_dispatchInts, F_responseVoid),
    (95, F_dispatchVoid, F_responseStrings), (96, F_dispatchRilCdmaSmsWriteArgs, F_responseInts),
    (97, F_dispatchInts, F_responseVoid), (98, F_dispatchVoid, F_responseStrings),
    (99, F_dispatchVoid, F_responseVoid), (100, F_dispatchVoid, F_responseString),
    (101, F_dispatchString, F_responseVoid), (102, F_dispatchInts, F_responseVoid),
    (103, F_dispatchVoid, F_responseVoid), (104, F_dispatchCdmaSubscriptionSource, F_responseInts),
    (105, F_dispatchString, F_responseString), (106, F_dispatchStrings, F_responseVoid),
    (107, F_dispatchString, F_responseSIM_IO), (108, F_dispatchVoiceRadioTech, F_responseInts),
    (109, F_dispatchVoid, F_responseCellInfoList), (110, F_dispatchInts, F_responseVoid),
    (111, F_dispatchSetInitialAttachApn, F_responseVoid), (112, F_dispatchVoid, F_responseInts),
    (113, F_dispatchImsSms, F_responseSMS), (114, F_dispatchSIM_APDU, F_responseSIM_IO),
    (115, F_dispatchString, F_responseInts), (116, F_dispatchInts, F_responseVoid),
    (117, F_dispatchSIM_APDU, F_responseSIM_IO), (118, F_dispatchNVReadItem, F_responseString),
    (119, F_dispatchNVWriteItem, F_responseVoid), (120, F_dispatchRaw, F_responseVoid),
    (121, F_dispatchInts, F_responseVoid), (122, F_dispatchUiccSubscripton, F_responseVoid),
    (123, F_dispatchInts, F_responseVoid), (124, F_dispatchVoid, F_responseHardwareConfig),
    (125, F_dispatchSimAuthentication, F_responseSIM_IO), (126, F_dispatchVoid, F_responseDcRtInfo),
    (127, F_dispatchInts, F_responseVoid), (128, F_dispatchDataProfile, F_responseVoid),
    (129, F_dispatchVoid, F_responseVoid), (130, F_dispatchVoid, F_responseRadioCapability),
    (131, F_dispatchRadioCapability, F_responseRadioCapability), (132, F_dispatchInts, F_responseLceStatus),
    (133, F_dispatchVoid, F_responseLceStatus), (134, F_dispatchVoid, F_responseLceData),
    (135, F_dispatchVoid, F_responseActivityData), (136, F_dispatchCarrierRestrictions, F_responseInts),
    (137, F_dispatchVoid, F_responseCarrierRestrictions), (138, F_dispatchInts, F_responseString),
    (139, F_dispatchOpenChannelWithP2, F_responseInts), (140, F_dispatchVoid, F_responseInts),
    (141, F_dispatchAdnRecord, F_responseInts)]"

datatype WakeType = DONT_WAKE | WAKE_PARTIAL

definition s_unsolResponses :: "(nat \<times> response_fn \<times> WakeType) list" where
  "s_unsolResponses = [
    (1000, F_responseVoid, WAKE_PARTIAL), (1001, F_responseVoid, WAKE_PARTIAL),
    (1002, F_responseVoid, WAKE_PARTIAL), (1003, F_responseString, WAKE_PARTIAL),
    (1004, F_responseString, WAKE_PARTIAL), (1005, F_responseInts, WAKE_PARTIAL),
    (1006, F_responseStrings, WAKE_PARTIAL), (1007, F_responseVoid, DONT_WAKE),
    (1008, F_responseString, WAKE_PARTIAL), (1009, F_responseRilSignalStrength, DONT_WAKE),
    (1010, F_responseDataCallList, WAKE_PARTIAL), (1011, F_responseSsn, WAKE_PARTIAL),
    (1012, F_responseVoid, WAKE_PARTIAL), (1013, F_responseString, WAKE_PARTIAL),
    (1014, F_responseString, WAKE_PARTIAL), (1015, F_responseInts, WAKE_PARTIAL),
    (1016, F_responseVoid, WAKE_PARTIAL), (1017, F_responseSimRefresh, WAKE_PARTIAL),
    (1018, F_responseCallRing, WAKE_PARTIAL), (1019, F_responseVoid, WAKE_PARTIAL),
    (1020, F_responseCdmaSms, WAKE_PARTIAL), (1021, F_responseRaw, WAKE_PARTIAL),
    (1022, F_responseVoid, WAKE_PARTIAL), (1023, F_responseInts, WAKE_PARTIAL),
    (1024, F_responseVoid, WAKE_PARTIAL), (1025, F_responseCdmaCallWaiting, WAKE_PARTIAL),
    (1026, F_responseInts, WAKE_PARTIAL), (1027, F_responseCdmaInformationRecords, WAKE_PARTIAL),
    (1028, F_responseRaw, WAKE_PARTIAL), (1029, F_responseInts, WAKE_PARTIAL),
    (1030, F_responseVoid, WAKE_PARTIAL), (1031, F_responseInts, WAKE_PARTIAL),
    (1032, F_responseInts, WAKE_PARTIAL), (1033, F_responseVoid, WAKE_PARTIAL),
    (1034, F_responseInts, WAKE_PARTIAL), (1035, F_responseInts, WAKE_PARTIAL),
    (1036, F_responseCellInfoList, WAKE_PARTIAL), (1037, F_responseVoid, WAKE_PARTIAL),
    (1038, F_responseInts, WAKE_PARTIAL), (1039, F_responseInts, WAKE_PARTIAL),
    (1040, F_responseHardwareConfig, WAKE_PARTIAL), (1041, F_responseDcRtInfo, WAKE_PARTIAL),
    (1042, F_responseRadioCapability, WAKE_PARTIAL), (1043, F_responseSSData, WAKE_PARTIAL),
    (1044, F_responseString, WAKE_PARTIAL), (1045, F_responseLceData, WAKE_PARTIAL),
    (1046, F_responsePcoData, WAKE_PARTIAL), (1047, F_responseVoid, WAKE_PARTIAL),
    (1048, F_responseAdnRecords, WAKE_PARTIAL)]"

abbreviation RIL_RESPONSE_ACKNOWLEDGEMENT :: int where "RIL_RESPONSE_ACKNOWLEDGEMENT \<equiv> 800"
abbreviation RIL_UNSOL_RESPONSE_BASE :: int where "RIL_UNSOL_RESPONSE_BASE \<equiv> 1000"
abbreviation RIL_UNSOL_RESPONSE_RADIO_STATE_CHANGED :: int where "RIL_UNSOL_RESPONSE_RADIO_STATE_CHANGED \<equiv> 1000"
abbreviation RIL_UNSOL_NITZ_TIME_RECEIVED :: int where "RIL_UNSOL_NITZ_TIME_RECEIVED \<equiv> 1008"
abbreviation RIL_UNSOL_RESPONSE_SIM_STATUS_CHANGED :: int where "RIL_UNSOL_RESPONSE_SIM_STATUS_CHANGED \<equiv> 1019"
abbreviation RIL_UNSOL_CDMA_SUBSCRIPTION_SOURCE_CHANGED :: int where
  "RIL_UNSOL_CDMA_SUBSCRIPTION_SOURCE_CHANGED \<equiv> 1031"
abbreviation RIL_UNSOL_RIL_CONNECTED :: int where "RIL_UNSOL_RIL_CONNECTED \<equiv> 1034"
abbreviation RIL_UNSOL_VOICE_RADIO_TECH_CHANGED :: int where "RIL_UNSOL_VOICE_RADIO_TECH_CHANGED \<equiv> 1035"

abbreviation RESPONSE_SOLICITED :: u32 where "RESPONSE_SOLICITED \<equiv> 0"
abbreviation RESPONSE_UNSOLICITED :: u32 where "RESPONSE_UNSOLICITED \<equiv> 1"
abbreviation RESPONSE_SOLICITED_ACK :: u32 where "RESPONSE_SOLICITED_ACK \<equiv> 2"
abbreviation RESPONSE_SOLICITED_ACK_EXP :: u32 where "RESPONSE_SOLICITED_ACK_EXP \<equiv> 3"
abbreviation RESPONSE_UNSOLICITED_ACK_EXP :: u32 where "RESPONSE_UNSOLICITED_ACK_EXP \<equiv> 4"
abbreviation MAX_COMMAND_BYTES :: nat where "MAX_COMMAND_BYTES \<equiv> 8192"

section \<open>State\<close>

type_synonym ptr = nat

text \<open>\<open>pCI\<close> is the index in \<open>s_commands\<close>; the list link is the position in \<open>pending\<close>.\<close>

record RequestInfo =
  token :: u32
  pCI :: nat
  cancelled :: bool
  is_local :: bool
  socket_id :: nat
  wasAckSent :: bool

text \<open>The outcomes of \<open>write\<close>: bytes written, \<open>EINTR\<close> or \<open>EAGAIN\<close>, another error.\<close>

datatype write_result = Written nat | WriteAgain | WriteFailed

text \<open>What the daemon does that others see: a request handed to the vendor library (its token, number,
  data and length, and socket), bytes written, a descriptor closed, a timed callback requested, the
  listening event of a socket added.\<close>

datatype event =
    Issued ptr nat rdata nat nat
  | Sent int "u8 list"
  | Closed int
  | TimedCallback
  | Listening nat

text \<open>The file's static variables. \<open>requests\<close> are the live \<open>RequestInfo\<close> blocks by address and
  \<open>pending\<close> the lists \<open>s_pendingRequests\<close> (socket 0), \<open>s_pendingRequests_socket2\<close> and so on.\<close>

record ril =
  requests :: "ptr \<rightharpoonup> RequestInfo"
  pending :: "nat \<Rightarrow> ptr list"
  fdCommand :: "nat \<Rightarrow> int"
  outcomes :: "write_result list"
  trace :: "event list"
  registerCalled :: bool
  voiceRadioTech :: int
  cdmaSubscriptionSource :: int
  simRuimStatus :: int
  lastNITZTimeData :: "u8 list option"

text \<open>The environment: that of the dispatch functions, \<open>SIM_COUNT\<close>, and where \<open>calloc\<close> puts the next
  \<open>RequestInfo\<close> (\<open>None\<close> for a null pointer).\<close>

record conf =
  conf_env :: env
  sim_count :: nat
  calloc_request :: "(ptr \<rightharpoonup> RequestInfo) \<Rightarrow> ptr option"

text \<open>The chains of \<open>#if (SIM_COUNT >= n)\<close> that choose the list, the lock or the descriptor of a
  socket; the first one is the default.\<close>

definition socket_hook :: "conf \<Rightarrow> nat \<Rightarrow> nat" where
  "socket_hook C s =
     (if sim_count C \<ge> 2 \<and> s = 1 then 1
      else if sim_count C \<ge> 3 \<and> s = 2 then 2
      else if sim_count C \<ge> 4 \<and> s = 3 then 3
      else 0)"

section \<open>Writing\<close>

fun blockingWrite :: "write_result list \<Rightarrow> u8 list \<Rightarrow> (int \<times> u8 list \<times> write_result list) option" where
  "blockingWrite ws [] = Some (0, [], ws)"
| "blockingWrite [] (b # bs) = None"
| "blockingWrite (WriteAgain # ws) (b # bs) = blockingWrite ws (b # bs)"
| "blockingWrite (WriteFailed # ws) (b # bs) = Some (- 1, [], ws)"
| "blockingWrite (Written n # ws) (b # bs) = do {
     (ret, out, ws) \<leftarrow> blockingWrite ws (drop n (b # bs));
     Some (ret, take n (b # bs) @ out, ws)
   }"

definition log_event :: "event \<Rightarrow> ril \<Rightarrow> ril" where
  "log_event e s = s\<lparr>trace := trace s @ [e]\<rparr>"

text \<open>\<open>blockingWrite\<close> on a descriptor; it closes it after an error.\<close>

definition write_fd :: "int \<Rightarrow> u8 list \<Rightarrow> ril \<Rightarrow> (int \<times> ril) option" where
  "write_fd fd bs s = do {
     (ret, out, ws) \<leftarrow> blockingWrite (outcomes s) bs;
     let s = log_event (Sent fd out) (s\<lparr>outcomes := ws\<rparr>);
     Some (ret, if ret < 0 then log_event (Closed fd) s else s)
   }"

definition sendResponseRaw :: "conf \<Rightarrow> u8 list \<Rightarrow> nat \<Rightarrow> ril \<Rightarrow> (int \<times> ril) option" where
  "sendResponseRaw C data sock s =
     (let fd = fdCommand s (socket_hook C sock) in
      if fd < 0 then Some (- 1, s)
      else if length data > MAX_COMMAND_BYTES then Some (- 1, s)
      else do {
        (ret, s) \<leftarrow> write_fd fd (be32 (of_nat (length data))) s;
        if ret < 0 then Some (ret, s)
        else do {
          (ret, s) \<leftarrow> write_fd fd data s;
          if ret < 0 then Some (ret, s) else Some (0, s)
        }
      })"

definition sendResponse :: "conf \<Rightarrow> parcel \<Rightarrow> nat \<Rightarrow> ril \<Rightarrow> (int \<times> ril) option" where
  "sendResponse C p sock s = do {
     data \<leftarrow> peek p 0 (dataSize p);
     sendResponseRaw C data sock s
   }"

section \<open>Requests\<close>

text \<open>\<open>checkAndDequeueRequestInfoIfAck\<close>: the token is read before it is looked up only where
  there is more than one list to choose from.\<close>

definition checkAndDequeueRequestInfoIfAck :: "conf \<Rightarrow> ptr \<Rightarrow> bool \<Rightarrow> ril \<Rightarrow> (bool \<times> ril) option" where
  "checkAndDequeueRequestInfoIfAck C pRI isAck s =
     (if pRI = 0 then Some (False, s)
      else do {
        k \<leftarrow> (if sim_count C \<ge> 2
              then map_option (\<lambda>r. socket_hook C (socket_id r)) (requests s pRI) else Some 0);
        if pRI \<in> set (pending s k) then
          (if isAck then do {
             r \<leftarrow> requests s pRI;
             Some (True, s\<lparr>requests := (requests s)(pRI \<mapsto> r\<lparr>wasAckSent := True\<rparr>)\<rparr>)
           }
           else Some (True, s\<lparr>pending := (pending s)(k := remove1 pRI (pending s k))\<rparr>))
        else Some (False, s)
      })"

definition RIL_onRequestAck :: "conf \<Rightarrow> ptr \<Rightarrow> ril \<Rightarrow> ril option" where
  "RIL_onRequestAck C t s = do {
     (found, s) \<leftarrow> checkAndDequeueRequestInfoIfAck C t True s;
     if \<not> found then Some s
     else do {
       r \<leftarrow> requests s t;
       if cancelled r then Some s
       else do {
         p \<leftarrow> put_all (put (env_alloc (conf_env C))) [WInt32 RESPONSE_SOLICITED_ACK, WInt32 (token r)] initState;
         (_, s) \<leftarrow> sendResponse C p (socket_id r) s;
         Some s
       }
     }
   }"

text \<open>The message of \<open>RIL\_onRequestComplete\<close>.\<close>

definition solicited_response :: "conf \<Rightarrow> RequestInfo \<Rightarrow> RIL_Errno \<Rightarrow> rresp \<Rightarrow> nat \<Rightarrow> parcel option" where
  "solicited_response C r e response responselen = do {
     let A = env_alloc (conf_env C);
     p \<leftarrow> put A (WInt32 (if callbacks_version (conf_env C) \<ge> 13 \<and> wasAckSent r
             then RESPONSE_SOLICITED_ACK_EXP else RESPONSE_SOLICITED)) initState;
     p \<leftarrow> put A (WInt32 (token r)) p;
     let errorOffset = mDataPos p;
     p \<leftarrow> put A (WInt32 e) p;
     if response = RNull then Some p
     else do {
       (ret, p) \<leftarrow> run_response (snd (snd (s_commands ! (pCI r - 1)))) (conf_env C) response responselen p;
       if ret \<noteq> 0 then do { p \<leftarrow> setDataPosition p errorOffset; put A (WInt32 (of_int ret)) p }
       else Some p
     }
   }"

definition RIL_onRequestComplete :: "conf \<Rightarrow> ptr \<Rightarrow> RIL_Errno \<Rightarrow> rresp \<Rightarrow> nat \<Rightarrow> ril \<Rightarrow> ril option" where
  "RIL_onRequestComplete C t e response responselen s = do {
     (found, s) \<leftarrow> checkAndDequeueRequestInfoIfAck C t False s;
     if \<not> found then Some s
     else do {
       r \<leftarrow> requests s t;
       let free = (\<lambda>s. s\<lparr>requests := (requests s)(t := None)\<rparr>);
       if is_local r then Some (free s)
       else if cancelled r then Some (free s)
       else do {
         p \<leftarrow> solicited_response C r e response responselen;
         (_, s) \<leftarrow> sendResponse C p (socket_id r) s;
         Some (free s)
       }
     }
   }"

text \<open>A new request at the head of the list of its socket.\<close>

definition enqueue_request :: "ptr \<Rightarrow> RequestInfo \<Rightarrow> nat \<Rightarrow> ril \<Rightarrow> ril" where
  "enqueue_request pRI r k s =
     s\<lparr>requests := (requests s)(pRI \<mapsto> r), pending := (pending s)(k := pRI # pending s k)\<rparr>"

definition issueLocalRequest :: "conf \<Rightarrow> nat \<Rightarrow> rdata \<Rightarrow> nat \<Rightarrow> nat \<Rightarrow> ril \<Rightarrow> ril" where
  "issueLocalRequest C request data len sock s =
     (case calloc_request C (requests s) of
        None \<Rightarrow> s
      | Some pRI \<Rightarrow>
          let r = \<lparr>token = 0xffffffff, pCI = request, cancelled = False, is_local = True, socket_id = sock,
                   wasAckSent = False\<rparr>;
              k = (if sim_count C = 2 \<and> sock = 1 then 1 else 0) in
          log_event (Issued pRI request data len sock) (enqueue_request pRI r k s))"

fun run_effect :: "conf \<Rightarrow> ptr \<Rightarrow> nat \<Rightarrow> nat \<Rightarrow> effect \<Rightarrow> ril \<Rightarrow> ril option" where
  "run_effect C pRI request sock (OnRequest data len) s = Some (log_event (Issued pRI request data len sock) s)"
| "run_effect C pRI request sock (Complete e None) s = RIL_onRequestComplete C pRI e RNull 0 s"
| "run_effect C pRI request sock (Complete e (Some x)) s = RIL_onRequestComplete C pRI e (RInts [x]) 4 s"
| "run_effect C pRI request sock (SetVoiceRadioTech t) s = Some (s\<lparr>voiceRadioTech := t\<rparr>)"
| "run_effect C pRI request sock (SetCdmaSubscriptionSource t) s = Some (s\<lparr>cdmaSubscriptionSource := t\<rparr>)"
| "run_effect C pRI request sock InvalidCommandBlock s = Some s"
| "run_effect C pRI request sock AllocFailed s = Some s"

definition processCommandBuffer :: "conf \<Rightarrow> u8 list \<Rightarrow> nat \<Rightarrow> ril \<Rightarrow> ril option" where
  "processCommandBuffer C buffer sock s = do {
     let E = conf_env C;
     (_, p) \<leftarrow> setData (env_alloc E) initState buffer;
     (_, request, p) \<leftarrow> readInt32_ptr p (junk32 E);
     (status, tok, p) \<leftarrow> readInt32_ptr p (junk32 E);
     if status \<noteq> NO_ERROR then Some s
     else if sint request = RIL_RESPONSE_ACKNOWLEDGEMENT then Some s
     else if sint request < 1 \<or> sint request \<ge> int (length s_commands + 1) then do {
       p \<leftarrow> put_all (put (env_alloc E)) [WInt32 RESPONSE_SOLICITED, WInt32 tok, WInt32 RIL_E_GENERIC_FAILURE] initState;
       (_, s) \<leftarrow> sendResponse C p sock s;
       Some s
     }
     else case calloc_request C (requests s) of
       None \<Rightarrow> Some s
     | Some pRI \<Rightarrow> do {
         let n = unat request;
         let r = \<lparr>token = tok, pCI = n, cancelled = False, is_local = False, socket_id = sock, wasAckSent = False\<rparr>;
         let s = enqueue_request pRI r (socket_hook C sock) s;
         es \<leftarrow> run_dispatch (fst (snd (s_commands ! (n - 1)))) E p;
         put_all (run_effect C pRI n sock) es s
       }
   }"

definition onCommandsSocketClosed :: "conf \<Rightarrow> nat \<Rightarrow> ril \<Rightarrow> ril" where
  "onCommandsSocketClosed C sock s =
     s\<lparr>requests := (\<lambda>t. if t \<in> set (pending s (socket_hook C sock))
        then map_option (\<lambda>r. r\<lparr>cancelled := True\<rparr>) (requests s t) else requests s t)\<rparr>"

section \<open>Unsolicited responses\<close>

text \<open>\<open>RIL\_onUnsolicitedResponse\<close> at time \<open>now\<close>, given what its calls of itself from
  \<open>processRadioState\<close> do; \<open>code\<close> is within the range of \<open>int\<close>, so that subtracting the base does
  not wrap.\<close>

type_synonym unsol = "int \<Rightarrow> rresp \<Rightarrow> nat \<Rightarrow> ril \<Rightarrow> ril option"

definition processRadioState :: "unsol \<Rightarrow> RIL_RadioState \<Rightarrow> ril \<Rightarrow> (RIL_RadioState \<times> ril) option" where
  "processRadioState unsol newRadioState s =
     (if newRadioState > RADIO_STATE_UNAVAILABLE \<and> newRadioState < RADIO_STATE_ON then do {
        let tech = decodeVoiceRadioTechnology newRadioState;
        s \<leftarrow> (if tech \<noteq> voiceRadioTech s
              then unsol RIL_UNSOL_VOICE_RADIO_TECH_CHANGED (RInts [of_int tech]) 4 (s\<lparr>voiceRadioTech := tech\<rparr>)
              else Some s);
        s \<leftarrow> (if is3gpp2 tech then
                let source = decodeCdmaSubscriptionSource newRadioState in
                if source \<noteq> cdmaSubscriptionSource s
                then unsol RIL_UNSOL_CDMA_SUBSCRIPTION_SOURCE_CHANGED (RInts [of_int source]) 4
                       (s\<lparr>cdmaSubscriptionSource := source\<rparr>)
                else Some s
              else Some s);
        let sim = decodeSimStatus newRadioState;
        s \<leftarrow> (if sim \<noteq> simRuimStatus s
              then unsol RIL_UNSOL_RESPONSE_SIM_STATUS_CHANGED RNull 0 (s\<lparr>simRuimStatus := sim\<rparr>)
              else Some s);
        Some (RADIO_STATE_ON, s)
      }
      else Some (newRadioState, s))"

definition schedule_wake_timeout :: "conf \<Rightarrow> WakeType \<Rightarrow> ril \<Rightarrow> ril option" where
  "schedule_wake_timeout C wake s =
     (if callbacks_version (conf_env C) < 13 \<and> wake = WAKE_PARTIAL then
        (if mem_ok (env_alloc (conf_env C)) 88 then Some (log_event TimedCallback s) else None)
      else Some s)"

text \<open>The further payload of two of the codes.\<close>

definition unsol_extra :: "unsol \<Rightarrow> conf \<Rightarrow> u64 \<Rightarrow> int \<Rightarrow> parcel \<Rightarrow> ril \<Rightarrow> (parcel \<times> ril) option" where
  "unsol_extra self C now code p s =
     (let A = env_alloc (conf_env C) in
      if code = RIL_UNSOL_RESPONSE_RADIO_STATE_CHANGED then do {
        (st, s) \<leftarrow> processRadioState self (onStateRequest (conf_env C)) s;
        p \<leftarrow> put A (WInt32 (of_int (radio_state_val st))) p;
        Some (p, s)
      }
      else if code = RIL_UNSOL_NITZ_TIME_RECEIVED then do {
        p \<leftarrow> put A (WInt64 now) p;
        Some (p, s)
      }
      else Some (p, s))"

text \<open>The wake timeout and the sending of the message; a NITZ message that could not be sent is
  kept.\<close>

definition unsol_send :: "conf \<Rightarrow> WakeType \<Rightarrow> nat \<Rightarrow> int \<Rightarrow> parcel \<Rightarrow> ril \<Rightarrow> ril option" where
  "unsol_send C wake sock code p s =
     (case schedule_wake_timeout C wake s of
        None \<Rightarrow> Some s
      | Some s \<Rightarrow> do {
          (ret, s) \<leftarrow> sendResponse C p sock s;
          if ret \<noteq> 0 \<and> code = RIL_UNSOL_NITZ_TIME_RECEIVED then do {
            data \<leftarrow> peek p 0 (dataSize p);
            Some (s\<lparr>lastNITZTimeData := if mem_ok (env_alloc (conf_env C)) (dataSize p) then Some data else None\<rparr>)
          }
          else Some s
        })"

definition unsol_body :: "unsol \<Rightarrow> conf \<Rightarrow> u64 \<Rightarrow> nat \<Rightarrow> unsol" where
  "unsol_body self C now sock code data datalen s =
     (let idx = code - RIL_UNSOL_RESPONSE_BASE; E = conf_env C in
      if \<not> registerCalled s then Some s
      else if idx < 0 \<or> idx \<ge> int (length s_unsolResponses) then Some s
      else do {
        let (fn, wake) = snd (s_unsolResponses ! nat idx);
        p \<leftarrow> put_all (put (env_alloc E)) [WInt32 (if callbacks_version E \<ge> 13 \<and> wake = WAKE_PARTIAL
                then RESPONSE_UNSOLICITED_ACK_EXP else RESPONSE_UNSOLICITED), WInt32 (of_int code)] initState;
        (ret, p) \<leftarrow> run_response fn E data datalen p;
        if ret \<noteq> 0 then Some s
        else do {
          (p, s) \<leftarrow> unsol_extra self C now code p s;
          unsol_send C wake sock code p s
        }
      })"

text \<open>The calls from \<open>processRadioState\<close> have other codes, so they make no further ones: the
  recursion is at most two deep, which \<open>unsolicited_unfold\<close> below confirms.\<close>

definition RIL_onUnsolicitedResponse :: "conf \<Rightarrow> u64 \<Rightarrow> nat \<Rightarrow> unsol" where
  "RIL_onUnsolicitedResponse C now sock = unsol_body (unsol_body (\<lambda>_ _ _ _. None) C now sock) C now sock"

section \<open>Connections\<close>

definition onNewCommandConnect :: "conf \<Rightarrow> u64 \<Rightarrow> nat \<Rightarrow> ril \<Rightarrow> ril option" where
  "onNewCommandConnect C now sock s = do {
     s \<leftarrow> RIL_onUnsolicitedResponse C now sock RIL_UNSOL_RIL_CONNECTED
            (RInts [of_int (callbacks_version (conf_env C))]) 4 s;
     s \<leftarrow> RIL_onUnsolicitedResponse C now sock RIL_UNSOL_RESPONSE_RADIO_STATE_CHANGED RNull 0 s;
     case lastNITZTimeData s of
       None \<Rightarrow> Some s
     | Some data \<Rightarrow> do {
         (_, s) \<leftarrow> sendResponseRaw C data sock s;
         Some (s\<lparr>lastNITZTimeData := None\<rparr>)
       }
   }"

text \<open>\<open>listenCallback\<close> for the telephony socket (without \<open>ANDROID\<close>, so with no check of the peer):
  \<open>None\<close> for the descriptor is a failed \<open>accept\<close>; \<open>None\<close> as the result the failed assertion that the
  socket has no client.\<close>

definition listenCallback ::
  "conf \<Rightarrow> u64 \<Rightarrow> nat \<Rightarrow> int option \<Rightarrow> ril \<Rightarrow> (record_stream option \<times> ril) option" where
  "listenCallback C now sock accepted s =
     (if fdCommand s sock \<ge> 0 then None
      else case accepted of
        None \<Rightarrow> Some (None, log_event (Listening sock) s)
      | Some fd \<Rightarrow> do {
          s \<leftarrow> onNewCommandConnect C now sock (s\<lparr>fdCommand := (fdCommand s)(sock := fd)\<rparr>);
          Some (Some (record_stream_new MAX_COMMAND_BYTES), s)
        })"

text \<open>\<open>processCommandsCallback\<close>: what it takes from the stream does not depend on what the commands
  do, so the loop of \<open>drain\<close> comes first. After the end of the stream the listening event added is
  \<open>s_listen_event\<close>, that of the first socket, whichever socket was closed.\<close>

definition processCommandsCallback ::
  "conf \<Rightarrow> nat \<Rightarrow> record_stream \<Rightarrow> read_result list \<Rightarrow> ril \<Rightarrow> (record_stream option \<times> read_result list \<times> ril) option"
where
  "processCommandsCallback C sock rs reads s = do {
     (recs, fin, rs, reads) \<leftarrow> drain rs reads;
     s \<leftarrow> put_all (\<lambda>rec s. processCommandBuffer C rec sock s) recs s;
     if fin = TryAgain then Some (Some rs, reads, s)
     else
       let s = log_event (Closed (fdCommand s sock)) s;
           s = log_event (Listening 0) (s\<lparr>fdCommand := (fdCommand s)(sock := - 1)\<rparr>) in
       Some (None, reads, onCommandsSocketClosed C sock s)
   }"

end
