(* ===== verification/RilCoreFacts.thy ===== *)
theory RilCoreFacts
  imports RilCore
begin

text \<open>
  Facts about the request life cycle: what \<open>write\<close> leaves on the wire, the message a completion or an
  acknowledgement sends, the table self-check, how commands enter the pending list, and what
  the operations that send leave behind.
\<close>

section \<open>Writing\<close>

fun amount :: "write_result \<Rightarrow> nat" where
  "amount (Written n) = n"
| "amount _ = 0"

text \<open>How many calls of \<open>write\<close> are going to make progress.\<close>

definition progress :: "write_result list \<Rightarrow> nat" where
  "progress ws = length (filter (\<lambda>w. amount w > 0) ws)"

lemma progress_Cons [simp]: "progress (w # ws) = (if amount w > 0 then 1 else 0) + progress ws"
  by (simp add: progress_def)

text \<open>Whatever the socket does, the bytes written are a prefix of the buffer, the whole of it
  exactly when \<open>blockingWrite\<close> returns 0.\<close>

lemma blockingWrite_prefix:
  "blockingWrite ws bs = Some (ret, out, ws') \<Longrightarrow>
     (\<exists>left. bs = out @ left \<and> (ret = 0 \<and> left = [] \<or> ret = - 1 \<and> left \<noteq> [])) \<and> set ws' \<subseteq> set ws"
proof (induction ws bs arbitrary: out rule: blockingWrite.induct)
  case (5 n ws b bs)
  obtain out1 where o: "blockingWrite ws (drop n (b # bs)) = Some (ret, out1, ws')" "out = take n (b # bs) @ out1"
    using "5.prems" by (cases "blockingWrite ws (drop n (b # bs))") auto
  from "5.IH" [OF o(1)] obtain left where
    "drop n (b # bs) = out1 @ left" "ret = 0 \<and> left = [] \<or> ret = - 1 \<and> left \<noteq> []" "set ws' \<subseteq> set ws" by auto
  then show ?case using o(2) append_take_drop_id [of n "b # bs"] by (intro conjI exI [of _ left]) auto
qed auto

text \<open>It returns, and with the whole buffer written, once enough calls make progress.\<close>

lemma blockingWrite_complete:
  "WriteFailed \<notin> set ws \<Longrightarrow> length bs \<le> progress ws \<Longrightarrow>
     \<exists>ws'. blockingWrite ws bs = Some (0, bs, ws') \<and> progress ws \<le> progress ws' + length bs \<and> set ws' \<subseteq> set ws"
proof (induction ws bs rule: blockingWrite.induct)
  case (5 n ws b bs)
  show ?case
  proof (cases n)
    case 0
    with 5 show ?thesis by fastforce
  next
    case (Suc m)
    have "length (drop n (b # bs)) \<le> progress ws" using "5.prems" Suc by simp
    with "5.IH" "5.prems" obtain ws' where "blockingWrite ws (drop n (b # bs)) = Some (0, drop n (b # bs), ws')"
      "progress ws \<le> progress ws' + length (drop n (b # bs))" "set ws' \<subseteq> set ws" by auto
    with Suc show ?thesis by auto
  qed
qed (auto simp: progress_def)

definition can_send :: "ril \<Rightarrow> nat \<Rightarrow> bool" where
  "can_send s n \<longleftrightarrow> WriteFailed \<notin> set (outcomes s) \<and> n \<le> progress (outcomes s)"

abbreviation sent :: "int \<Rightarrow> u8 list \<Rightarrow> event list" where
  "sent fd data \<equiv> [Sent fd (be32 (of_nat (length data))), Sent fd data]"

lemma write_fd_complete:
  assumes "can_send s n" and "length bs \<le> n"
  shows "\<exists>ws'. write_fd fd bs s = Some (0, s\<lparr>outcomes := ws', trace := trace s @ [Sent fd bs]\<rparr>) \<and>
     can_send (s\<lparr>outcomes := ws', trace := trace s @ [Sent fd bs]\<rparr>) (n - length bs)"
  using blockingWrite_complete [of "outcomes s" bs] assms
  by (auto simp: write_fd_def can_send_def log_event_def)

lemma sendResponseRaw_complete_more:
  assumes "can_send s (HEADER_SIZE + length data + k)" and "length data \<le> MAX_COMMAND_BYTES"
    and "fdCommand s (socket_hook C sock) \<ge> 0"
  shows "\<exists>ws'. sendResponseRaw C data sock s =
     Some (0, s\<lparr>outcomes := ws', trace := trace s @ sent (fdCommand s (socket_hook C sock)) data\<rparr>) \<and>
     WriteFailed \<notin> set ws' \<and> k \<le> progress ws'"
proof -
  let ?fd = "fdCommand s (socket_hook C sock)" and ?h = "be32 (of_nat (length data))"
  obtain ws1 where w1: "write_fd ?fd ?h s = Some (0, s\<lparr>outcomes := ws1, trace := trace s @ [Sent ?fd ?h]\<rparr>)"
    "can_send (s\<lparr>outcomes := ws1, trace := trace s @ [Sent ?fd ?h]\<rparr>) (length data + k)"
    using write_fd_complete [OF assms(1), of ?h] by (auto simp: add.assoc)
  then obtain ws2 where "write_fd ?fd data (s\<lparr>outcomes := ws1, trace := trace s @ [Sent ?fd ?h]\<rparr>) =
      Some (0, s\<lparr>outcomes := ws2, trace := trace s @ sent ?fd data\<rparr>)" "WriteFailed \<notin> set ws2" "k \<le> progress ws2"
    using write_fd_complete [OF w1(2), of data ?fd] by (auto simp: can_send_def)
  with w1(1) assms(2,3) show ?thesis by (intro exI [of _ ws2]) (simp add: sendResponseRaw_def Let_def)
qed

lemma sendResponseRaw_complete:
  assumes "can_send s (HEADER_SIZE + length data)" and "length data \<le> MAX_COMMAND_BYTES"
    and "fdCommand s (socket_hook C sock) \<ge> 0"
  shows "\<exists>ws'. sendResponseRaw C data sock s =
     Some (0, s\<lparr>outcomes := ws', trace := trace s @ sent (fdCommand s (socket_hook C sock)) data\<rparr>)"
  using sendResponseRaw_complete_more [of s data 0] assms by auto

lemma peek_all: "parcel_ok p \<Longrightarrow> peek p 0 (dataSize p) = Some (contents p)"
  using peek_contents [of p 0 "mDataSize p"] length_contents [of p]
  by (cases "mDataPos p < mDataSize p") (simp_all add: dataSize_def parcel_ok_def)

lemma sendResponse_closed:
  "fdCommand s (socket_hook C sock) < 0 \<Longrightarrow> parcel_ok p \<Longrightarrow> sendResponse C p sock s = Some (- 1, s)"
  by (simp add: sendResponse_def sendResponseRaw_def peek_all)

lemma sendResponse_complete_more:
  assumes "can_send s (HEADER_SIZE + length (contents p) + k)" and "length (contents p) \<le> MAX_COMMAND_BYTES"
    and "fdCommand s (socket_hook C sock) \<ge> 0" and "parcel_ok p"
  shows "\<exists>ws'. sendResponse C p sock s =
     Some (0, s\<lparr>outcomes := ws', trace := trace s @ sent (fdCommand s (socket_hook C sock)) (contents p)\<rparr>) \<and>
     WriteFailed \<notin> set ws' \<and> k \<le> progress ws'"
  using sendResponseRaw_complete_more [OF assms(1,2,3)] assms(4) by (simp add: sendResponse_def peek_all)

lemma sendResponse_complete:
  assumes "can_send s (HEADER_SIZE + length (contents p))" and "length (contents p) \<le> MAX_COMMAND_BYTES"
    and "fdCommand s (socket_hook C sock) \<ge> 0" and "parcel_ok p"
  shows "\<exists>ws'. sendResponse C p sock s =
     Some (0, s\<lparr>outcomes := ws', trace := trace s @ sent (fdCommand s (socket_hook C sock)) (contents p)\<rparr>)"
  using sendResponseRaw_complete [OF assms(1,2,3)] assms(4) by (simp add: sendResponse_def peek_all)

section \<open>Marshalling\<close>

abbreviation memory :: "conf \<Rightarrow> allocator" where
  "memory C \<equiv> env_alloc (conf_env C)"

text \<open>A message of valid items, below the size to which a parcel can grow.\<close>

lemma put_message:
  assumes "list_all witem_ok is" and "length (wire is) \<le> GROW_LIMIT" and "plenty A"
  shows "succ (put_all (put A) is initState)
    (\<lambda>p. at_end p \<and> contents p = wire is \<and> mDataSize p = length (wire is))"
proof -
  have "roomy A initState (length (concat (map enc_witem is)))"
    using assms(2,3) by (simp add: wire_def initState_def)
  from sink.put_all_enc [OF assms(1) at_end_initState this] obtain p where
    "put_all (put A) is initState = Some p" "at_end p" "contents p = wire is"
    by (auto simp: wire_def)
  then show ?thesis using length_contents [of p] by (simp add: succ_def at_end_def)
qed

lemma run_response_writes:
  assumes "response_items fn E response n = Some (ret, items)" and "list_all witem_ok items" and "at_end p"
    and "roomy (env_alloc E) p (length (wire items))"
  shows "succ (run_response fn E response n p)
    (\<lambda>(r, p'). r = ret \<and> at_end p' \<and> contents p' = contents p @ wire items)"
  using sink.put_all_enc [OF assms(2,3), of "env_alloc E"] assms(1,4)
  by (auto simp: run_response_def wire_def succ_def)

section \<open>Completion\<close>

text \<open>A request that waits for its completion.\<close>

definition awaiting :: "conf \<Rightarrow> ril \<Rightarrow> ptr \<Rightarrow> RequestInfo \<Rightarrow> bool" where
  "awaiting C s t r \<longleftrightarrow> t \<noteq> 0 \<and> requests s t = Some r \<and> t \<in> set (pending s (socket_hook C (socket_id r)))"

lemma socket_hook_single [simp]: "sim_count C < 2 \<Longrightarrow> socket_hook C k = 0"
  by (simp add: socket_hook_def)

definition dequeued :: "conf \<Rightarrow> ptr \<Rightarrow> RequestInfo \<Rightarrow> ril \<Rightarrow> ril" where
  "dequeued C t r s =
     (let k = socket_hook C (socket_id r) in s\<lparr>pending := (pending s)(k := remove1 t (pending s k))\<rparr>)"

lemma check_dequeue:
  "awaiting C s t r \<Longrightarrow> checkAndDequeueRequestInfoIfAck C t False s = Some (True, dequeued C t r s)"
  by (cases "sim_count C \<ge> 2")
    (simp_all add: checkAndDequeueRequestInfoIfAck_def awaiting_def dequeued_def Let_def)

lemma check_ack:
  "awaiting C s t r \<Longrightarrow> checkAndDequeueRequestInfoIfAck C t True s =
     Some (True, s\<lparr>requests := (requests s)(t \<mapsto> r\<lparr>wasAckSent := True\<rparr>)\<rparr>)"
  by (cases "sim_count C \<ge> 2")
    (simp_all add: checkAndDequeueRequestInfoIfAck_def awaiting_def Let_def)

text \<open>The kind of a solicited response, and the message as a whole: the result code of the response
  function, when it is an error, replaces that of the vendor library.\<close>

definition response_type :: "conf \<Rightarrow> RequestInfo \<Rightarrow> u32" where
  "response_type C r = (if callbacks_version (conf_env C) \<ge> 13 \<and> wasAckSent r
     then RESPONSE_SOLICITED_ACK_EXP else RESPONSE_SOLICITED)"

definition response_message :: "conf \<Rightarrow> RequestInfo \<Rightarrow> RIL_Errno \<Rightarrow> int \<Rightarrow> witem list \<Rightarrow> u8 list" where
  "response_message C r e ret items =
     wire ([WInt32 (response_type C r), WInt32 (token r), WInt32 (if ret = 0 then e else of_int ret)] @ items)"

text \<open>What the response function of a request makes of the vendor library's response.\<close>

definition payload :: "conf \<Rightarrow> RequestInfo \<Rightarrow> rresp \<Rightarrow> nat \<Rightarrow> marshal" where
  "payload C r response n =
     (if response = RNull then Some (0, [])
      else response_items (snd (snd (s_commands ! (pCI r - 1)))) (conf_env C) response n)"

lemma overwrite_third:
  "overwrite (a @ b @ c @ xs) (length a + length b) ys = a @ b @ ys @ xs" if "length c = length ys"
  using that by (simp add: overwrite_def)

lemma initState_simps [simp]: "mDataSize initState = 0" "mDataPos initState = 0"
  by (simp_all add: initState_def)

lemma put_int:
  "at_end p \<Longrightarrow> roomy A p 4 \<Longrightarrow> \<exists>p'. put A (WInt32 w) p = Some p' \<and> at_end p' \<and>
     contents p' = contents p @ le32 w \<and> mDataSize p' = mDataSize p + 4"
  using put_stores [of "WInt32 w" p A] by simp

lemma rewrite_int:
  assumes "at_end p" and "roomy A p 4" and "contents p = xs @ le32 v @ ys"
  shows "\<exists>p' p''. setDataPosition p (length xs) = Some p' \<and> put A (WInt32 w) p' = Some p'' \<and>
     parcel_ok p'' \<and> contents p'' = xs @ le32 w @ ys"
proof -
  let ?p = "p\<lparr>mDataPos := length xs\<rparr>"
  have len: "mDataSize p = length xs + 4 + length ys"
    using assms(1,3) length_contents [of p] by (simp add: at_end_def)
  have ok: "parcel_ok ?p" and c: "contents ?p = contents p"
    using assms(1) len by (simp_all add: at_end_def parcel_ok_def contents_def)
  have "setDataPosition p (length xs) = Some ?p"
    using assms(1) len by (simp add: setDataPosition_def at_end_def parcel_ok_def)
  moreover obtain st q where "writeInt32 A ?p w = Some (st, q)" "parcel_ok q"
    "contents q = overwrite (contents p) (length xs) (le32 w)"
    by (rule storesE [OF writeInt32_stores [OF ok, of A w]]) (use assms(2) c in auto)
  ultimately show ?thesis by (simp add: assms(3) overwrite_def)
qed

lemma complete_marshal:
  assumes "payload C r response n = Some (ret, items)" and "list_all witem_ok items" and "plenty (memory C)"
    and "length (response_message C r e ret items) \<le> MAX_COMMAND_BYTES"
  shows "succ (solicited_response C r e response n)
    (\<lambda>p. parcel_ok p \<and> contents p = response_message C r e ret items)"
proof -
  let ?A = "memory C"
  have len: "length (wire items) \<le> 8180" using assms(4) by (simp add: response_message_def)
  obtain p1 where p1: "put ?A (WInt32 (response_type C r)) initState = Some p1" "at_end p1"
    "contents p1 = le32 (response_type C r)" "mDataSize p1 = 4"
    using put_int [OF at_end_initState, of ?A "response_type C r"] assms(3) by (auto simp del: put.simps)
  obtain p2 where p2: "put ?A (WInt32 (token r)) p1 = Some p2" "at_end p2"
    "contents p2 = le32 (response_type C r) @ le32 (token r)" "mDataSize p2 = 8"
    using put_int [OF p1(2), of ?A "token r"] assms(3) p1 by (auto simp del: put.simps)
  obtain p3 where p3: "put ?A (WInt32 e) p2 = Some p3" "at_end p3"
    "contents p3 = (le32 (response_type C r) @ le32 (token r)) @ le32 e" "mDataSize p3 = 12"
    using put_int [OF p2(2), of ?A e] assms(3) p2 by (auto simp del: put.simps)
  have off: "mDataPos p2 = 8" using p2 by (simp add: at_end_def)
  show ?thesis
  proof (cases "response = RNull")
    case True
    with assms(1) p1 p2 p3 show ?thesis
      by (auto simp: solicited_response_def response_type_def [symmetric] payload_def response_message_def at_end_def
          simp del: put.simps)
  next
    case False
    let ?fn = "snd (snd (s_commands ! (pCI r - 1)))"
    have "response_items ?fn (conf_env C) response n = Some (ret, items)"
      using assms(1) False by (simp add: payload_def)
    from run_response_writes [OF this assms(2) p3(2)] obtain p4 where
      p4: "run_response ?fn (conf_env C) response n p3 = Some (ret, p4)" "at_end p4"
        "contents p4 = (le32 (response_type C r) @ le32 (token r)) @ le32 e @ wire items"
      using assms(3) p3 len by (auto simp: succ_def)
    have "mDataSize p4 = 12 + length (wire items)"
      using p4 length_contents [of p4] by (simp add: at_end_def)
    with rewrite_int [OF p4(2) _ p4(3), of ?A "of_int ret"] assms(3) len obtain p5 p6 where
      p56: "setDataPosition p4 8 = Some p5" "put ?A (WInt32 (of_int ret)) p5 = Some p6" "parcel_ok p6"
        "contents p6 = (le32 (response_type C r) @ le32 (token r)) @ le32 (of_int ret) @ wire items"
      by (auto simp del: put.simps)
    show ?thesis
      using False p1 p2 p3 p4 p56 off by (auto simp: solicited_response_def response_type_def [symmetric]
          response_message_def at_end_def simp del: put.simps)
  qed
qed

lemma complete_sends:
  assumes "awaiting C s t r" and "\<not> is_local r" and "\<not> cancelled r"
    and "payload C r response n = Some (ret, items)" and "list_all witem_ok items" and "plenty (memory C)"
    and "length (response_message C r e ret items) \<le> MAX_COMMAND_BYTES"
    and "fdCommand s (socket_hook C (socket_id r)) \<ge> 0"
    and "can_send s (HEADER_SIZE + length (response_message C r e ret items))"
  shows "\<exists>ws'. RIL_onRequestComplete C t e response n s =
    Some ((dequeued C t r s)\<lparr>outcomes := ws',
      trace := trace s @ sent (fdCommand s (socket_hook C (socket_id r))) (response_message C r e ret items),
      requests := (requests s)(t := None)\<rparr>)"
proof -
  let ?s = "dequeued C t r s"
  have d: "requests ?s = requests s" "fdCommand ?s = fdCommand s" "trace ?s = trace s" "outcomes ?s = outcomes s"
    by (simp_all add: dequeued_def Let_def)
  obtain p where p: "parcel_ok p" "contents p = response_message C r e ret items"
    and m: "solicited_response C r e response n = Some p"
    using complete_marshal [OF assms(4,5,6,7)] by (auto simp: succ_def)
  have "can_send ?s (HEADER_SIZE + length (contents p))"
    using assms(9) p(2) d by (simp add: can_send_def)
  from sendResponse_complete [OF this, of C "socket_id r"] assms(7,8) p d obtain ws' where
    "sendResponse C p (socket_id r) ?s = Some (0, ?s\<lparr>outcomes := ws',
       trace := trace s @ sent (fdCommand s (socket_hook C (socket_id r))) (response_message C r e ret items)\<rparr>)"
    by auto
  then show ?thesis
    using m assms(1-3) d check_dequeue [OF assms(1)]
    by (simp add: RIL_onRequestComplete_def awaiting_def) blast
qed

text \<open>Local and cancelled requests are only removed; so is a request whose client is gone.\<close>

lemma complete_silent:
  assumes "awaiting C s t r" and "is_local r \<or> cancelled r"
  shows "RIL_onRequestComplete C t e response n s = Some ((dequeued C t r s)\<lparr>requests := (requests s)(t := None)\<rparr>)"
  using assms check_dequeue [OF assms(1)]
  by (auto simp: RIL_onRequestComplete_def awaiting_def dequeued_def Let_def)

text \<open>What is not in its list is refused; with one list the token is not even looked at.\<close>

lemma complete_unknown:
  "t = 0 \<or> (sim_count C < 2 \<and> t \<notin> set (pending s 0)) \<Longrightarrow> RIL_onRequestComplete C t e response n s = Some s"
  by (auto simp: RIL_onRequestComplete_def checkAndDequeueRequestInfoIfAck_def)

lemma ack_sends:
  assumes "awaiting C s t r" and "\<not> cancelled r" and "plenty (memory C)"
    and "fdCommand s (socket_hook C (socket_id r)) \<ge> 0" and "can_send s 12"
  shows "\<exists>ws'. RIL_onRequestAck C t s =
    Some (s\<lparr>requests := (requests s)(t \<mapsto> r\<lparr>wasAckSent := True\<rparr>), outcomes := ws',
      trace := trace s @ sent (fdCommand s (socket_hook C (socket_id r)))
        (wire [WInt32 RESPONSE_SOLICITED_ACK, WInt32 (token r)])\<rparr>)"
proof -
  let ?s = "s\<lparr>requests := (requests s)(t \<mapsto> r\<lparr>wasAckSent := True\<rparr>)\<rparr>"
    and ?is = "[WInt32 RESPONSE_SOLICITED_ACK, WInt32 (token r)]"
  have "length (wire ?is) \<le> GROW_LIMIT" "list_all witem_ok ?is" by simp_all
  then obtain p where p: "put_all (put (memory C)) ?is initState = Some p" "at_end p" "contents p = wire ?is"
    using put_message [of ?is "memory C"] assms(3) by (auto simp: succ_def simp del: put_all.simps wire_simps)
  then have "length (contents p) = 8" by simp
  moreover have "parcel_ok p" using p(2) by (simp add: at_end_def)
  moreover have "can_send ?s 12" using assms(5) by (simp add: can_send_def)
  ultimately obtain ws' where
    "sendResponse C p (socket_id r) ?s = Some (0, ?s\<lparr>outcomes := ws',
       trace := trace s @ sent (fdCommand s (socket_hook C (socket_id r))) (wire ?is)\<rparr>)"
    using sendResponse_complete [of ?s p C "socket_id r"] assms(4) p(3) by auto
  then show ?thesis
    using p(1) assms(2) check_ack [OF assms(1)]
    by (simp add: RIL_onRequestAck_def del: put_all.simps wire_simps) blast
qed
section \<open>Commands\<close>

text \<open>The checks that \<open>RIL\_register\<close> makes of the tables.\<close>

lemma s_commands_numbers: "map fst s_commands = [1..<142]"
  by (simp add: s_commands_def upt_rec)

lemma s_unsolResponses_numbers: "map fst s_unsolResponses = [1000..<1049]"
  by (simp add: s_unsolResponses_def upt_rec)

lemma length_s_commands [simp]: "length s_commands = 141"
  using arg_cong [OF s_commands_numbers, of length] by simp

lemma length_s_unsolResponses [simp]: "length s_unsolResponses = 49"
  using arg_cong [OF s_unsolResponses_numbers, of length] by simp

definition new_request :: "u32 \<Rightarrow> nat \<Rightarrow> nat \<Rightarrow> RequestInfo" where
  "new_request tok n sock =
     \<lparr>token = tok, pCI = n, cancelled = False, is_local = False, socket_id = sock, wasAckSent = False\<rparr>"

lemma command_header:
  assumes "length buffer \<le> INT32_MAX" and "plenty A" and "buffer = le32 request @ le32 tok @ body"
  obtains p p1 p2 where "setData A initState buffer = Some (NO_ERROR, p)"
    "\<And>t. readInt32_ptr p t = Some (NO_ERROR, request, p1)"
    "\<And>t. readInt32_ptr p1 t = Some (NO_ERROR, tok, p2)" "msg p2 body"
proof -
  obtain p where p: "setData A initState buffer = Some (NO_ERROR, p)" "msg p buffer"
    using setData_ok [OF assms(1,2)] by (auto simp: msg_def unread_def)
  have r: "readInt32_ptr q t = Some (NO_ERROR, w, skip 4 q) \<and> msg (skip 4 q) ys" if "msg q (le32 w @ ys)" for q t w ys
    using that unread_append(2) [of q "le32 w" ys] by (auto simp: readInt32_ptr_reads msg_def)
  have m: "msg (skip 4 p) (le32 tok @ body)" using r p(2) assms(3) by blast
  show thesis by (rule that [OF p(1)]) (use r p(2) assms(3) m in blast)+
qed

text \<open>A command becomes the head of its socket's list and its dispatch function runs on the rest of
  the buffer.\<close>

lemma command_accepted:
  assumes "length buffer \<le> INT32_MAX" and "plenty (memory C)"
    and "buffer = le32 request @ le32 tok @ body"
    and "1 \<le> sint request" "sint request \<le> 141" and "calloc_request C (requests s) = Some pRI"
  shows "\<exists>p. msg p body \<and> processCommandBuffer C buffer sock s = (do {
      es \<leftarrow> run_dispatch (fst (snd (s_commands ! (unat request - 1)))) (conf_env C) p;
      put_all (run_effect C pRI (unat request) sock) es
        (enqueue_request pRI (new_request tok (unat request) sock) (socket_hook C sock) s) })"
proof -
  obtain p p1 p2 where p: "setData (memory C) initState buffer = Some (NO_ERROR, p)"
    "\<And>t. readInt32_ptr p t = Some (NO_ERROR, request, p1)"
    "\<And>t. readInt32_ptr p1 t = Some (NO_ERROR, tok, p2)" "msg p2 body"
    by (rule command_header [OF assms(1-3)]) blast
  then show ?thesis
    using assms(4-6) by (intro exI [of _ p2]) (simp add: processCommandBuffer_def new_request_def Let_def)
qed

lemma command_issues:
  assumes "length buffer \<le> INT32_MAX" and "env_ok (conf_env C)" and "request_ok (conf_env C) d"
    and "buffer = wire ([WInt32 request, WInt32 tok] @ request_items d) @ r"
    and "1 \<le> sint request" "sint request \<le> 141" and "calloc_request C (requests s) = Some pRI"
    and "fst (snd (s_commands ! (unat request - 1))) = request_fn d"
  shows "processCommandBuffer C buffer sock s =
    Some (log_event (Issued pRI (unat request) d (request_len (conf_env C) d) sock)
      (enqueue_request pRI (new_request tok (unat request) sock) (socket_hook C sock) s))"
proof -
  have pl: "plenty (memory C)" using assms(2) by (simp add: env_ok_def)
  have "buffer = le32 request @ le32 tok @ (wire (request_items d) @ r)" using assms(4) by simp
  from command_accepted [OF assms(1) pl this assms(5-7)] obtain p where
    "msg p (wire (request_items d) @ r)" and
    c: "processCommandBuffer C buffer sock s = (do {
      es \<leftarrow> run_dispatch (fst (snd (s_commands ! (unat request - 1)))) (conf_env C) p;
      put_all (run_effect C pRI (unat request) sock) es
        (enqueue_request pRI (new_request tok (unat request) sock) (socket_hook C sock) s) })" by auto
  from deliver [OF this(1) assms(3,2)] show ?thesis using assms(8) by (simp add: c)
qed

text \<open>A request number outside the table is answered with a generic failure.\<close>

lemma command_unsupported:
  assumes "length buffer \<le> INT32_MAX" and "plenty (memory C)" and "buffer = le32 request @ le32 tok @ body"
    and "sint request < 1 \<or> 141 < sint request" and "sint request \<noteq> RIL_RESPONSE_ACKNOWLEDGEMENT"
    and "fdCommand s (socket_hook C sock) \<ge> 0" and "can_send s 16"
  shows "\<exists>ws'. processCommandBuffer C buffer sock s = Some (s\<lparr>outcomes := ws',
    trace := trace s @ sent (fdCommand s (socket_hook C sock))
      (wire [WInt32 RESPONSE_SOLICITED, WInt32 tok, WInt32 RIL_E_GENERIC_FAILURE])\<rparr>)"
proof -
  let ?is = "[WInt32 RESPONSE_SOLICITED, WInt32 tok, WInt32 RIL_E_GENERIC_FAILURE]"
  obtain p p1 p2 where p: "setData (memory C) initState buffer = Some (NO_ERROR, p)"
    "\<And>t. readInt32_ptr p t = Some (NO_ERROR, request, p1)"
    "\<And>t. readInt32_ptr p1 t = Some (NO_ERROR, tok, p2)"
    by (rule command_header [OF assms(1-3)]) blast
  have "length (wire ?is) \<le> GROW_LIMIT" "list_all witem_ok ?is" by simp_all
  then obtain q where q: "put_all (put (memory C)) ?is initState = Some q" "at_end q" "contents q = wire ?is"
    using put_message [of ?is "memory C"] assms(2) by (auto simp: succ_def simp del: put_all.simps wire_simps)
  then have "length (contents q) = 12" "parcel_ok q" by (simp_all add: at_end_def)
  with sendResponse_complete [of s q C sock] assms(6,7) q(3) obtain ws' where
    "sendResponse C q sock s = Some (0, s\<lparr>outcomes := ws',
       trace := trace s @ sent (fdCommand s (socket_hook C sock)) (wire ?is)\<rparr>)"
    by (auto simp del: put_all.simps wire_simps)
  then show ?thesis
    using p q(1) assms(4,5)
    by (auto simp: processCommandBuffer_def Let_def simp del: put_all.simps wire_simps)
qed
section \<open>What the operations send\<close>

text \<open>The bytes that went to one descriptor, and the condition that they are whole frames.\<close>

fun event_bytes :: "int \<Rightarrow> event \<Rightarrow> u8 list" where
  "event_bytes fd (Sent fd' bs) = (if fd' = fd then bs else [])"
| "event_bytes fd _ = []"

definition sent_to :: "int \<Rightarrow> event list \<Rightarrow> u8 list" where
  "sent_to fd es = concat (map (event_bytes fd) es)"

definition framed :: "event list \<Rightarrow> bool" where
  "framed es \<longleftrightarrow> (\<forall>fd. \<exists>xs. sent_to fd es = concat (map frame xs) \<and> fits MAX_COMMAND_BYTES xs)"

lemma framed_Nil [simp]: "framed []"
  unfolding framed_def sent_to_def by (intro allI exI [of _ "[]"]) simp

lemma framed_append: "framed xs \<Longrightarrow> framed ys \<Longrightarrow> framed (xs @ ys)"
  unfolding framed_def sent_to_def
proof (intro allI)
  fix fd
  assume "\<forall>fd. \<exists>zs. concat (map (event_bytes fd) xs) = concat (map frame zs) \<and> fits MAX_COMMAND_BYTES zs"
    and "\<forall>fd. \<exists>zs. concat (map (event_bytes fd) ys) = concat (map frame zs) \<and> fits MAX_COMMAND_BYTES zs"
  then obtain as bs where "concat (map (event_bytes fd) xs) = concat (map frame as)" "fits MAX_COMMAND_BYTES as"
    "concat (map (event_bytes fd) ys) = concat (map frame bs)" "fits MAX_COMMAND_BYTES bs" by meson
  then show "\<exists>zs. concat (map (event_bytes fd) (xs @ ys)) = concat (map frame zs) \<and> fits MAX_COMMAND_BYTES zs"
    by (intro exI [of _ "as @ bs"]) simp
qed

lemma framed_no_bytes: "(\<And>fd. event_bytes fd e = []) \<Longrightarrow> framed [e]"
  unfolding framed_def sent_to_def by (intro allI exI [of _ "[]"]) simp

lemma framed_sent: "length data \<le> MAX_COMMAND_BYTES \<Longrightarrow> framed (sent fd data)"
  unfolding framed_def sent_to_def
proof (intro allI)
  fix fd'
  assume "length data \<le> MAX_COMMAND_BYTES"
  then show "\<exists>xs. concat (map (event_bytes fd') (sent fd data)) = concat (map frame xs) \<and> fits MAX_COMMAND_BYTES xs"
    by (intro exI [of _ "if fd = fd' then [data] else []"]) (simp add: frame_def)
qed

text \<open>What every operation keeps of the write side: it only appends to the trace and consumes
  outcomes, and appends whole frames as long as no \<open>write\<close> fails.\<close>

definition extends :: "ril \<Rightarrow> ril \<Rightarrow> bool" where
  "extends s s' \<longleftrightarrow> set (outcomes s') \<subseteq> set (outcomes s) \<and>
     (\<exists>es. trace s' = trace s @ es \<and> (WriteFailed \<notin> set (outcomes s) \<longrightarrow> framed es))"

lemma extends_refl [simp]: "outcomes s' = outcomes s \<Longrightarrow> trace s' = trace s \<Longrightarrow> extends s s'"
  by (simp add: extends_def)

lemma extends_trans: "extends s s' \<Longrightarrow> extends s' s'' \<Longrightarrow> extends s s''"
  unfolding extends_def by (auto intro: framed_append)

lemma extends_event [simp]: "(\<And>fd. event_bytes fd e = []) \<Longrightarrow> extends s (log_event e s)"
  unfolding extends_def log_event_def by (auto intro!: framed_no_bytes)

text \<open>Operations that leave the requests and descriptors alone.\<close>

definition sends :: "ril \<Rightarrow> ril \<Rightarrow> bool" where
  "sends s s' \<longleftrightarrow> extends s s' \<and> requests s' = requests s \<and> pending s' = pending s \<and> fdCommand s' = fdCommand s"

lemma sends_refl [simp]: "sends s s"
  by (simp add: sends_def)

lemma sends_trans: "sends s s' \<Longrightarrow> sends s' s'' \<Longrightarrow> sends s s''"
  by (auto simp: sends_def intro: extends_trans)

lemma blockingWrite_failed: "blockingWrite ws bs = Some (ret, out, ws') \<Longrightarrow> ret < 0 \<Longrightarrow> WriteFailed \<in> set ws"
  by (induction ws bs arbitrary: out rule: blockingWrite.induct) (auto split: bind_splits)

lemma sendResponseRaw_sends: "safe (sendResponseRaw C data sock s) (\<lambda>(r, s'). sends s s')"
  unfolding safe_def
proof (intro allI impI)
  fix x
  assume x: "sendResponseRaw C data sock s = Some x"
  let ?fd = "fdCommand s (socket_hook C sock)" and ?h = "be32 (of_nat (length data))"
  show "case x of (r, s') \<Rightarrow> sends s s'"
  proof (cases "?fd < 0 \<or> length data > MAX_COMMAND_BYTES")
    case True
    with x show ?thesis by (auto simp: sendResponseRaw_def Let_def split: if_splits)
  next
    case False
    with x obtain ret1 out1 ws1 where b1: "blockingWrite (outcomes s) ?h = Some (ret1, out1, ws1)"
      by (auto simp: sendResponseRaw_def write_fd_def Let_def split: bind_splits)
    note p1 = blockingWrite_prefix [OF b1]
    show ?thesis
    proof (cases "ret1 < 0")
      case True
      have "WriteFailed \<in> set (outcomes s)"
        by (rule blockingWrite_failed [OF b1 True])
      with x False True b1 p1 show ?thesis
        by (auto simp: sendResponseRaw_def write_fd_def Let_def sends_def extends_def log_event_def)
    next
      case ok: False
      then have h: "out1 = ?h" using p1 by auto
      from x False ok b1 obtain ret2 out2 ws2 where b2: "blockingWrite ws1 data = Some (ret2, out2, ws2)"
        by (auto simp: sendResponseRaw_def write_fd_def Let_def log_event_def split: bind_splits)
      note p2 = blockingWrite_prefix [OF b2]
      have f: "ret2 < 0 \<Longrightarrow> WriteFailed \<in> set ws1" by (rule blockingWrite_failed [OF b2])
      show ?thesis
        using x False ok b1 b2 h p1 p2 f framed_sent [of data ?fd]
        by (auto simp: sendResponseRaw_def write_fd_def Let_def sends_def extends_def log_event_def split: if_splits)
    qed
  qed
qed

lemma sendResponse_sends: "safe (sendResponse C p sock s) (\<lambda>(r, s'). sends s s')"
  unfolding sendResponse_def by (intro safe_split sendResponseRaw_sends)
section \<open>Unsolicited responses\<close>

text \<open>The recursion of \<open>RIL\_onUnsolicitedResponse\<close> through \<open>processRadioState\<close> is the one that the
  two levels of the definition unfold.\<close>

lemma processRadioState_cong:
  assumes "\<And>code. code \<noteq> RIL_UNSOL_RESPONSE_RADIO_STATE_CHANGED \<Longrightarrow> f code = g code"
  shows "processRadioState f st s = processRadioState g st s"
proof -
  have "f RIL_UNSOL_VOICE_RADIO_TECH_CHANGED = g RIL_UNSOL_VOICE_RADIO_TECH_CHANGED"
    "f RIL_UNSOL_CDMA_SUBSCRIPTION_SOURCE_CHANGED = g RIL_UNSOL_CDMA_SUBSCRIPTION_SOURCE_CHANGED"
    "f RIL_UNSOL_RESPONSE_SIM_STATUS_CHANGED = g RIL_UNSOL_RESPONSE_SIM_STATUS_CHANGED"
    by (simp_all add: assms)
  note eqs = this
  show ?thesis unfolding processRadioState_def eqs ..
qed

lemma unsol_body_cong:
  assumes "unsol_extra f C now code = unsol_extra g C now code"
  shows "unsol_body f C now sock code = unsol_body g C now sock code"
  unfolding unsol_body_def [abs_def] assms ..

lemma unsol_body_other:
  "code \<noteq> RIL_UNSOL_RESPONSE_RADIO_STATE_CHANGED \<Longrightarrow> unsol_body f C now sock code = unsol_body g C now sock code"
  by (rule unsol_body_cong) (intro ext, simp add: unsol_extra_def)

lemma unsolicited_unfold:
  "RIL_onUnsolicitedResponse C now sock = unsol_body (RIL_onUnsolicitedResponse C now sock) C now sock"
proof -
  let ?f = "unsol_body (\<lambda>_ _ _ _. None) C now sock"
  have eq: "processRadioState ?f = processRadioState (unsol_body ?f C now sock)"
    by (intro ext processRadioState_cong unsol_body_other)
  have "unsol_body ?f C now sock code = unsol_body (unsol_body ?f C now sock) C now sock code" for code
    by (rule unsol_body_cong) (simp only: unsol_extra_def [abs_def] eq [symmetric])
  then show ?thesis unfolding RIL_onUnsolicitedResponse_def by (intro ext) simp
qed

lemma sends_fields [simp]:
  "sends s (s\<lparr>voiceRadioTech := x\<rparr>)" "sends s (s\<lparr>cdmaSubscriptionSource := x\<rparr>)" "sends s (s\<lparr>simRuimStatus := x\<rparr>)"
  "sends s (s\<lparr>lastNITZTimeData := d\<rparr>)" "sends s (log_event TimedCallback s)"
  by (simp_all add: sends_def) (simp add: log_event_def)

lemma sends_chain:
  "safe m (sends s) \<Longrightarrow> (\<And>s1. safe (f s1) (\<lambda>(x, s2). sends s1 s2)) \<Longrightarrow> safe (m \<bind> f) (\<lambda>(x, s2). sends s s2)"
  by (auto simp: safe_def split: bind_splits intro: sends_trans)

lemma processRadioState_sends:
  assumes "\<And>code d n s. safe (self code d n s) (sends s)"
  shows "safe (processRadioState self st s) (\<lambda>(st, s'). sends s s')"
proof -
  have step: "safe (if b then self code d n (f s) else Some s) (sends s)" if "sends s (f s)" for b code d n f s
    using assms [of code d n "f s"] that by (auto simp: safe_def intro: sends_trans)
  have step2: "safe (if b1 then if b then self code d n (f s) else Some s else Some s) (sends s)"
    if "sends s (f s)" for b1 b code d n f s
    using step [of s f b code d n] that by simp
  show ?thesis
    unfolding processRadioState_def Let_def
    by (intro safe_if sends_chain step [where f = "\<lambda>s. s\<lparr>voiceRadioTech := _\<rparr>"]
        step2 [where f = "\<lambda>s. s\<lparr>cdmaSubscriptionSource := _\<rparr>"] step [where f = "\<lambda>s. s\<lparr>simRuimStatus := _\<rparr>"]) simp_all
qed

lemma unsol_extra_sends:
  assumes "\<And>code d n s. safe (self code d n s) (sends s)"
  shows "safe (unsol_extra self C now code p s) (\<lambda>(p, s'). sends s s')"
  using processRadioState_sends [of self, OF assms, of "onStateRequest (conf_env C)" s]
  by (auto simp: unsol_extra_def safe_def Let_def split: bind_splits)

lemma unsol_send_sends: "safe (unsol_send C wake sock code p s) (sends s)"
proof -
  have "safe (sendResponse C p sock s1) (\<lambda>(r, s'). sends s s')" if "sends s s1" for s1
    using sendResponse_sends [of C p sock s1] that by (auto simp: safe_def intro: sends_trans)
  moreover have "safe (schedule_wake_timeout C wake s) (sends s)"
    by (simp add: schedule_wake_timeout_def)
  ultimately show ?thesis
    unfolding unsol_send_def
    by (auto simp: safe_def split: option.splits bind_splits if_splits intro: sends_trans [OF _ sends_fields(4)])
qed

lemma unsol_body_sends:
  assumes "\<And>code d n s. safe (self code d n s) (sends s)"
  shows "safe (unsol_body self C now sock code data n s) (sends s)"
proof -
  have "safe (do { (p, s) \<leftarrow> unsol_extra self C now code p s; unsol_send C wake sock code p s }) (sends s)" for p wake
    using unsol_extra_sends [of self, OF assms, of C now code p s] unsol_send_sends [of C wake sock code]
    by (auto simp: safe_def split: bind_splits intro: sends_trans)
  then show ?thesis
    unfolding unsol_body_def Let_def by (auto simp: safe_def split: bind_splits if_splits prod.splits)
qed

lemma unsolicited_sends: "safe (RIL_onUnsolicitedResponse C now sock code data n s) (sends s)"
  unfolding RIL_onUnsolicitedResponse_def by (intro unsol_body_sends) simp

end
