(* ===== verification/RilSteps.thy ===== *)
theory RilSteps
  imports RilCoreFacts
begin

text \<open>
  The daemon as a transition system: the invariant of the pending lists, that every operation
  keeps it and puts only whole frames on the wire, and the reachable states under any interleaving of
  clients, vendor library and environment.
\<close>

section \<open>The pending requests\<close>

text \<open>
  The list a request is put into: the one its socket selects, except that \<open>issueLocalRequest\<close> knows only two.
\<close>

definition request_list :: "conf \<Rightarrow> RequestInfo \<Rightarrow> nat" where
  "request_list C r =
     (if is_local r then (if sim_count C = 2 \<and> socket_id r = 1 then 1 else 0) else socket_hook C (socket_id r))"

lemma request_list_eq: "is_local r = is_local r' \<Longrightarrow> socket_id r = socket_id r' \<Longrightarrow> request_list C r = request_list C r'"
  by (simp add: request_list_def)

lemma request_list_client [simp]: "\<not> is_local r \<Longrightarrow> request_list C r = socket_hook C (socket_id r)"
  by (simp add: request_list_def)

text \<open>
  The invariant: each list names live blocks, none twice, and each live block is in its list (so no request is
  lost and none is in two lists).
\<close>

definition table_ok :: "conf \<Rightarrow> (ptr \<rightharpoonup> RequestInfo) \<Rightarrow> (nat \<Rightarrow> ptr list) \<Rightarrow> bool" where
  "table_ok C h q \<longleftrightarrow>
     (\<forall>k. distinct (q k)) \<and>
     (\<forall>k. \<forall>t \<in> set (q k). t \<noteq> 0 \<and> (\<exists>r. h t = Some r \<and> request_list C r = k)) \<and>
     (\<forall>t r. h t = Some r \<longrightarrow> t \<in> set (q (request_list C r)))"

abbreviation ril_ok :: "conf \<Rightarrow> ril \<Rightarrow> bool" where
  "ril_ok C s \<equiv> table_ok C (requests s) (pending s)"

text \<open>\<open>calloc\<close> never returns the address of a live block.\<close>

definition fresh_calloc :: "conf \<Rightarrow> bool" where
  "fresh_calloc C \<longleftrightarrow> (\<forall>h p. calloc_request C h = Some p \<longrightarrow> p \<noteq> 0 \<and> h p = None)"

lemma table_ok_enqueue:
  assumes "table_ok C h q" and "h t = None" and "t \<noteq> 0" and "k = request_list C r"
  shows "table_ok C (h(t \<mapsto> r)) (q(k := t # q k))"
  using assms unfolding table_ok_def by (auto split: if_splits) (metis option.distinct(1))+

lemma table_ok_dequeue:
  assumes "table_ok C h q" and "h t = Some r" and "k = request_list C r"
  shows "table_ok C (h(t := None)) (q(k := remove1 t (q k)))"
  using assms unfolding table_ok_def by (auto split: if_splits) (metis option.inject)+

lemma table_ok_update:
  assumes "table_ok C h q" and "\<And>t. map_option (\<lambda>r. (is_local r, socket_id r)) (h' t) = map_option (\<lambda>r. (is_local r, socket_id r)) (h t)"
  shows "table_ok C h' q"
proof -
  have 1: "\<exists>r'. h' t = Some r' \<and> request_list C r' = request_list C r" if "h t = Some r" for t r
    using that assms(2) [of t] by (auto intro: request_list_eq)
  have 2: "\<exists>r'. h t = Some r' \<and> request_list C r' = request_list C r" if "h' t = Some r" for t r
    using that assms(2) [of t] by (cases "h t") (auto intro: request_list_eq)
  show ?thesis
    using assms(1) 1 2 unfolding table_ok_def by metis
qed

text \<open>A completion finds every live request, but for local ones of the second and later of more than two sockets.\<close>

definition misplaced :: "conf \<Rightarrow> RequestInfo \<Rightarrow> bool" where
  "misplaced C r \<longleftrightarrow> is_local r \<and> 3 \<le> sim_count C \<and> socket_hook C (socket_id r) \<noteq> 0"

lemma misplaced_iff: "misplaced C r \<longleftrightarrow> request_list C r \<noteq> socket_hook C (socket_id r)"
  by (auto simp: misplaced_def request_list_def socket_hook_def)

lemma awaiting_iff: "ril_ok C s \<Longrightarrow> awaiting C s t r \<longleftrightarrow> requests s t = Some r \<and> \<not> misplaced C r"
  unfolding awaiting_def table_ok_def misplaced_iff by (metis option.inject)

lemma awaiting_list: "ril_ok C s \<Longrightarrow> awaiting C s t r \<Longrightarrow> request_list C r = socket_hook C (socket_id r)"
  using awaiting_iff misplaced_iff by blast

text \<open>Under the invariant the lookup finds exactly the live requests.\<close>

lemma check_cases:
  assumes "ril_ok C s" and "checkAndDequeueRequestInfoIfAck C t ack s = Some (found, s1)"
  shows "found \<longrightarrow> (\<exists>r. awaiting C s t r)" and "\<not> found \<longrightarrow> s1 = s"
proof -
  have live: "t \<in> set (pending s k) \<Longrightarrow> \<exists>r. requests s t = Some r" for k
    using assms(1) unfolding table_ok_def by blast
  then show "found \<longrightarrow> (\<exists>r. awaiting C s t r)" "\<not> found \<longrightarrow> s1 = s"
    using assms(2) unfolding checkAndDequeueRequestInfoIfAck_def awaiting_def
    by (auto split: if_splits bind_splits)
qed

text \<open>What every operation keeps.\<close>

definition keeps :: "conf \<Rightarrow> ril \<Rightarrow> ril \<Rightarrow> bool" where
  "keeps C s s' \<longleftrightarrow> (ril_ok C s \<longrightarrow> ril_ok C s') \<and> extends s s'"

lemma keeps_refl [simp]: "keeps C s s"
  by (simp add: keeps_def)

lemma keeps_trans: "keeps C s s' \<Longrightarrow> keeps C s' s'' \<Longrightarrow> keeps C s s''"
  by (auto simp: keeps_def intro: extends_trans)

lemma sends_keeps: "sends s s' \<Longrightarrow> keeps C s s'"
  by (simp add: sends_def keeps_def)

lemma put_all_keeps:
  "(\<And>x s. safe (f x s) (keeps C s)) \<Longrightarrow> safe (put_all f xs s) (keeps C s)"
proof (induction xs arbitrary: s)
  case (Cons x xs)
  have "safe (f x s) (keeps C s)" by (rule Cons.prems)
  moreover have "safe (put_all f xs s1) (keeps C s1)" for s1 by (rule Cons.IH) (rule Cons.prems)
  ultimately show ?case by (auto simp: safe_def split: bind_splits intro: keeps_trans)
qed simp

lemma enqueue_keeps:
  assumes "requests s t = None" and "t \<noteq> 0" and "k = request_list C r"
  shows "keeps C s (enqueue_request t r k s)"
  using table_ok_enqueue [of C "requests s" "pending s" t k r, OF _ assms] by (simp add: keeps_def enqueue_request_def)

lemma dequeue_keeps:
  assumes "ril_ok C s" and "awaiting C s t r" and "sends (dequeued C t r s) s1"
  shows "keeps C s (s1\<lparr>requests := (requests s1)(t := None)\<rparr>)"
proof -
  have "extends s s1" "requests s1 = requests s" "pending s1 = pending (dequeued C t r s)"
    using assms(3) by (auto simp: sends_def extends_def dequeued_def Let_def)
  moreover have "requests s t = Some r" using assms(2) by (simp add: awaiting_def)
  ultimately show ?thesis
    using table_ok_dequeue [of C "requests s" "pending s" t r, OF _ _ refl] awaiting_list [OF assms(1,2)]
    by (auto simp: keeps_def dequeued_def Let_def extends_def)
qed

lemma complete_result:
  assumes r: "awaiting C s t r" and s': "RIL_onRequestComplete C t e response n s = Some s'"
  shows "\<exists>s2. sends (dequeued C t r s) s2 \<and> s' = s2\<lparr>requests := (requests s2)(t := None)\<rparr>"
proof -
  have req: "requests s t = Some r" using r by (simp add: awaiting_def)
  have d: "requests (dequeued C t r s) = requests s" by (simp add: dequeued_def Let_def)
  show ?thesis
  proof (cases "is_local r \<or> cancelled r")
    case True
    with complete_silent [OF r True] s' d show ?thesis
      by (intro exI [of _ "dequeued C t r s"]) simp
  next
    case False
    with s' check_dequeue [OF r] req d obtain p ret s2 where
      s2: "sendResponse C p (socket_id r) (dequeued C t r s) = Some (ret, s2)"
      "s' = s2\<lparr>requests := (requests s2)(t := None)\<rparr>"
      by (auto simp: RIL_onRequestComplete_def split: bind_splits)
    with sendResponse_sends [of C p "socket_id r" "dequeued C t r s"] show ?thesis
      by (auto simp: safe_def)
  qed
qed

lemma complete_keeps:
  assumes "ril_ok C s"
  shows "safe (RIL_onRequestComplete C t e response n s) (keeps C s)"
  unfolding safe_def
proof (intro allI impI)
  fix s'
  assume s': "RIL_onRequestComplete C t e response n s = Some s'"
  then obtain found s1 where c: "checkAndDequeueRequestInfoIfAck C t False s = Some (found, s1)"
    by (auto simp: RIL_onRequestComplete_def split: bind_splits)
  show "keeps C s s'"
  proof (cases found)
    case False
    with c s' check_cases(2) [OF assms c] show ?thesis by (simp add: RIL_onRequestComplete_def)
  next
    case True
    then obtain r where r: "awaiting C s t r" using check_cases(1) [OF assms c] by blast
    from complete_result [OF r s'] show ?thesis using dequeue_keeps [OF assms r] by blast
  qed
qed

lemma ack_keeps:
  assumes "ril_ok C s"
  shows "safe (RIL_onRequestAck C t s) (keeps C s)"
  unfolding safe_def
proof (intro allI impI)
  fix s'
  assume s': "RIL_onRequestAck C t s = Some s'"
  then obtain found s1 where c: "checkAndDequeueRequestInfoIfAck C t True s = Some (found, s1)"
    by (auto simp: RIL_onRequestAck_def split: bind_splits)
  show "keeps C s s'"
  proof (cases found)
    case False
    with c s' check_cases(2) [OF assms c] show ?thesis by (simp add: RIL_onRequestAck_def)
  next
    case True
    then obtain r where r: "awaiting C s t r" using check_cases(1) [OF assms c] by blast
    let ?s = "s\<lparr>requests := (requests s)(t \<mapsto> r\<lparr>wasAckSent := True\<rparr>)\<rparr>"
    have k: "keeps C s ?s"
      using r table_ok_update [of C "requests s" "pending s" "requests ?s"]
      by (simp add: keeps_def awaiting_def)
    have at: "requests ?s t = Some (r\<lparr>wasAckSent := True\<rparr>)" by simp
    have "sends ?s s'"
    proof (cases "cancelled r")
      case True
      with s' check_ack [OF r] at show ?thesis by (simp add: RIL_onRequestAck_def)
    next
      case False
      with s' check_ack [OF r] at obtain p ret where "sendResponse C p (socket_id r) ?s = Some (ret, s')"
        by (auto simp: RIL_onRequestAck_def simp del: put_all.simps split: bind_splits)
      with sendResponse_sends [of C p "socket_id r" ?s] show ?thesis by (simp add: safe_def)
    qed
    with k show ?thesis by (blast intro: keeps_trans sends_keeps)
  qed
qed

lemma run_effect_keeps:
  assumes "ril_ok C s"
  shows "safe (run_effect C t n sock eff s) (keeps C s)"
proof (cases eff)
  case (Complete e x)
  with complete_keeps [OF assms] show ?thesis by (cases x) simp_all
qed (simp_all add: keeps_def log_event_def extends_event [unfolded log_event_def] extends_refl)

lemma run_effects_keeps:
  assumes "ril_ok C s"
  shows "safe (put_all (run_effect C t n sock) es s) (keeps C s)"
  using assms
proof (induction es arbitrary: s)
  case (Cons x xs)
  note run_effect_keeps [OF Cons.prems, of t n sock x] Cons.IH
  then show ?case
    by (auto simp: safe_def split: bind_splits) (meson keeps_def keeps_trans Cons.prems)
qed simp

lemma sendResponse_keeps: "safe (sendResponse C p sock s) (\<lambda>(r, s'). keeps C s s')"
  using sendResponse_sends [of C p sock s] by (auto simp: safe_def intro: sends_keeps)

lemma command_keeps:
  assumes "ril_ok C s" and "fresh_calloc C"
  shows "safe (processCommandBuffer C buffer sock s) (keeps C s)"
proof -
  have unsup: "safe (do { p \<leftarrow> m; (_, s) \<leftarrow> sendResponse C p sock s; Some s }) (keeps C s)" for m
    using sendResponse_keeps [of C _ sock s] by (auto simp: safe_def split: bind_splits)
  have acc: "safe (do { es \<leftarrow> m; put_all (run_effect C t n sock) es (enqueue_request t r (socket_hook C sock) s) }) (keeps C s)"
    if "calloc_request C (requests s) = Some t" "socket_id r = sock" "\<not> is_local r" for m t n r
  proof -
    have k: "keeps C s (enqueue_request t r (socket_hook C sock) s)"
      using enqueue_keeps [of s t _ C r] that assms(2) by (simp add: fresh_calloc_def)
    then have ok: "ril_ok C (enqueue_request t r (socket_hook C sock) s)" using assms(1) by (simp add: keeps_def)
    show ?thesis
      using run_effects_keeps [OF ok, of t n sock] keeps_trans [OF k] by (auto simp: safe_def split: bind_splits)
  qed
  note bind = safe_split(1) and pair = safe_split(2)
  show ?thesis
    unfolding processCommandBuffer_def Let_def
    by (rule bind, rule pair, rule bind, rule pair, rule pair, rule bind, rule pair, rule pair)
      (auto split: option.splits intro!: acc unsup safe_if simp del: put_all.simps safe_bind)
qed

lemma closed_keeps: "keeps C s (onCommandsSocketClosed C sock s)"
  using table_ok_update [of C "requests s" "pending s" "requests (onCommandsSocketClosed C sock s)"]
  by (simp add: keeps_def onCommandsSocketClosed_def option.map_comp o_def extends_refl)
lemma commands_keeps:
  assumes "ril_ok C s" and "fresh_calloc C"
  shows "safe (put_all (\<lambda>rec s. processCommandBuffer C rec sock s) recs s) (keeps C s)"
  using assms(1)
proof (induction recs arbitrary: s)
  case (Cons x xs)
  note command_keeps [OF Cons.prems assms(2), of x sock] Cons.IH
  then show ?case
    by (auto simp: safe_def split: bind_splits) (meson keeps_def keeps_trans Cons.prems)
qed simp

lemma keeps_fields: "keeps C s s' \<Longrightarrow> keeps C s (s'\<lparr>fdCommand := f\<rparr>)" "keeps C s s' \<Longrightarrow> keeps C s (s'\<lparr>lastNITZTimeData := d\<rparr>)"
  by (simp_all add: keeps_def extends_def)

lemma keeps_event: "keeps C s s' \<Longrightarrow> (\<And>fd. event_bytes fd e = []) \<Longrightarrow> keeps C s (log_event e s')"
  using extends_trans [of s s' "log_event e s'"] by (simp add: keeps_def) (simp add: log_event_def)

lemma callback_keeps:
  assumes "ril_ok C s" and "fresh_calloc C"
  shows "safe (processCommandsCallback C sock rs reads s) (\<lambda>(rs, reads, s'). keeps C s s')"
proof -
  have "keeps C s (onCommandsSocketClosed C sock (log_event (Listening 0) ((log_event (Closed fd) s1)\<lparr>fdCommand := f\<rparr>)))"
    if "keeps C s s1" for s1 fd f
    using that by (intro keeps_trans [OF _ closed_keeps] keeps_event keeps_fields) simp_all
  then show ?thesis
    using commands_keeps [OF assms, of sock]
    by (auto simp: processCommandsCallback_def safe_def Let_def log_event_def split: bind_splits if_splits)
qed

lemma keeps_chain:
  "safe m (keeps C s) \<Longrightarrow> (\<And>s1. safe (f s1) (keeps C s1)) \<Longrightarrow> safe (m \<bind> f) (keeps C s)"
  by (auto simp: safe_def split: bind_splits intro: keeps_trans)

lemma connect_keeps: "safe (onNewCommandConnect C now sock s) (keeps C s)"
proof -
  have u: "safe (RIL_onUnsolicitedResponse C now sock code d n s1) (keeps C s1)" for code d n s1
    using unsolicited_sends [of C now sock code d n s1] by (auto simp: safe_def intro: sends_keeps)
  have w: "safe (do { (_, s) \<leftarrow> sendResponseRaw C d sock s1; Some (s\<lparr>lastNITZTimeData := None\<rparr>) }) (keeps C s1)" for d s1
    using sendResponseRaw_sends [of C d sock s1]
    by (auto simp: safe_def split: bind_splits intro: keeps_fields sends_keeps)
  then have "safe (case lastNITZTimeData s1 of None \<Rightarrow> Some s1
     | Some d \<Rightarrow> do { (_, s) \<leftarrow> sendResponseRaw C d sock s1; Some (s\<lparr>lastNITZTimeData := None\<rparr>) }) (keeps C s1)" for s1
    by (cases "lastNITZTimeData s1") (simp_all only: option.case safe_Some keeps_refl)
  then show ?thesis
    unfolding onNewCommandConnect_def by (intro keeps_chain u)
qed

lemma listen_keeps: "safe (listenCallback C now sock acc s) (\<lambda>(rs, s'). keeps C s s')"
proof -
  have "keeps C s (log_event (Listening sock) s)" by (rule keeps_event) simp_all
  moreover have "keeps C s s2" if "keeps C (s\<lparr>fdCommand := f\<rparr>) s2" for f s2
    using keeps_trans [OF keeps_fields(1) [OF keeps_refl] that] .
  ultimately show ?thesis
    using connect_keeps [of C now sock]
    by (auto simp: listenCallback_def safe_def split: bind_splits option.splits if_splits)
qed

lemma local_keeps:
  assumes "fresh_calloc C"
  shows "keeps C s (issueLocalRequest C n d len sock s)"
proof (cases "calloc_request C (requests s)")
  case (Some t)
  then have "requests s t = None" "t \<noteq> 0" using assms(1) by (auto simp: fresh_calloc_def)
  then show ?thesis
    using Some by (auto simp: issueLocalRequest_def Let_def request_list_def intro!: keeps_event enqueue_keeps)
qed (simp add: issueLocalRequest_def)

section \<open>Interleavings\<close>

text \<open>One step of the daemon: a client's command, the vendor library's acknowledgements, completions
  and unsolicited responses in any order and with any token, local requests for any socket, connections opened and
  closed, and, for the environment, what the next writes are going to do (any of \<open>W\<close>).\<close>

inductive ril_step :: "conf \<Rightarrow> write_result set \<Rightarrow> ril \<Rightarrow> ril \<Rightarrow> bool" for C W where
  command: "processCommandBuffer C buffer sock s = Some s' \<Longrightarrow> ril_step C W s s'"
| ack: "RIL_onRequestAck C t s = Some s' \<Longrightarrow> ril_step C W s s'"
| complete: "RIL_onRequestComplete C t e response n s = Some s' \<Longrightarrow> ril_step C W s s'"
| unsolicited: "RIL_onUnsolicitedResponse C now sock code data n s = Some s' \<Longrightarrow> ril_step C W s s'"
| connect: "listenCallback C now sock acc s = Some (rs, s') \<Longrightarrow> ril_step C W s s'"
| readable: "processCommandsCallback C sock rs reads s = Some (rs', reads', s') \<Longrightarrow> ril_step C W s s'"
| local_request: "ril_step C W s (issueLocalRequest C n d len sock s)"
| writes: "set ws \<subseteq> W \<Longrightarrow> ril_step C W s (s\<lparr>outcomes := ws\<rparr>)"

text \<open>The state that \<open>RIL\_register\<close> leaves.\<close>

definition ril_init :: ril where
  "ril_init = \<lparr>requests = Map.empty, pending = (\<lambda>_. []), fdCommand = (\<lambda>_. - 1), outcomes = [], trace = [],
     registerCalled = True, voiceRadioTech = - 1, cdmaSubscriptionSource = - 1, simRuimStatus = - 1,
     lastNITZTimeData = None\<rparr>"

inductive ril_reachable :: "conf \<Rightarrow> write_result set \<Rightarrow> ril \<Rightarrow> bool" for C W where
  init: "ril_reachable C W ril_init"
| step: "ril_reachable C W s \<Longrightarrow> ril_step C W s s' \<Longrightarrow> ril_reachable C W s'"

lemma ril_step_keeps:
  assumes "ril_step C W s s'" and "ril_ok C s" and "fresh_calloc C"
  shows "keeps C s s' \<or> (\<exists>ws. set ws \<subseteq> W \<and> s' = s\<lparr>outcomes := ws\<rparr>)"
  using assms
proof (induction rule: ril_step.induct)
  case (command buffer sock s s')
  then show ?case using command_keeps by (auto simp: safe_def)
next
  case (ack t s s')
  then show ?case using ack_keeps by (auto simp: safe_def)
next
  case (complete t e response n s s')
  then show ?case using complete_keeps by (auto simp: safe_def)
next
  case (unsolicited now sock code data n s s')
  then show ?case using unsolicited_sends sends_keeps by (fastforce simp: safe_def)
next
  case (connect now sock acc s rs s')
  then show ?case using listen_keeps by (fastforce simp: safe_def)
next
  case (readable sock rs reads s rs' reads' s')
  then show ?case using callback_keeps by (fastforce simp: safe_def)
next
  case (local_request s n d len sock)
  then show ?case using local_keeps by blast
qed blast

lemma reachable_inv:
  assumes "ril_reachable C W s" and "fresh_calloc C"
  shows "ril_ok C s \<and> set (outcomes s) \<subseteq> W \<and> (WriteFailed \<notin> W \<longrightarrow> framed (trace s))"
  using assms(1)
proof (induction rule: ril_reachable.induct)
  case init
  show ?case by (simp add: ril_init_def table_ok_def)
next
  case (step s s')
  from ril_step_keeps [OF step.hyps(2) _ assms(2)] step.IH show ?case
    by (auto simp: keeps_def extends_def intro: framed_append)
qed

end
