(* ===== verification/RilScenarios.thy ===== *)
theory RilScenarios
  imports RilSteps
begin

text \<open>
  What the daemon says and to whom: reports in the layout of requests, unsolicited messages and
  their extra payload, the greeting of a new client, the NITZ message kept for it, and completions
  that do not apply; and concrete states to run the model on.
\<close>

section \<open>Reports in the layout of requests\<close>

text \<open>Several responses report what a request sets; the function, the structure and its length.\<close>

fun report_of :: "rdata \<Rightarrow> (response_fn \<times> rresp \<times> nat) option" where
  "report_of (DString s) = (case s of None \<Rightarrow> Some (F_responseString, RNull, 0)
     | Some bs \<Rightarrow> Some (F_responseString, RString bs, length bs))"
| "report_of (DStrings (Some ss)) = Some (F_responseStrings, RStrings ss, 8 * length ss)"
| "report_of (DInts xs) = Some (F_responseInts, RInts xs, 4 * length xs)"
| "report_of (DRaw (Some bs)) = Some (F_responseRaw, RRaw bs, length bs)"
| "report_of (DCdmaSms m) = Some (F_responseCdmaSms, RCdmaSms m, 372)"
| "report_of (DGsmBr gs) = Some (F_responseGsmBrSmsCnf, RGsmBr gs, 8 * length gs)"
| "report_of (DCdmaBr cs) = Some (F_responseCdmaBrSmsCnf, RCdmaBr cs, 8 * length cs)"
| "report_of (DCarrierRestrictions c) = Some (F_responseCarrierRestrictions, RCarriers c, 24)"
| "report_of _ = None"

lemma digit_items_eq: "digits_ok n k ds \<Longrightarrow> n \<le> k \<Longrightarrow> digit_items n ds = Some (byte_items (take n ds))"
  by (simp add: digit_items_def digits_ok_def firstn_def byte_items_def)

lemma report_cdma:
  assumes "cdma_ok m"
  shows "responseCdmaSms (RCdmaSms m) 372 = Some (0, cdma_items m)"
proof -
  note d = assms [unfolded cdma_ok_def]
  have "digit_items (min (unat (adr_number_of_digits (sAddress m))) RIL_CDMA_SMS_ADDRESS_MAX) (adr_digits (sAddress m)) =
      Some (byte_items (take (min (unat (adr_number_of_digits (sAddress m))) RIL_CDMA_SMS_ADDRESS_MAX) (adr_digits (sAddress m))))"
    by (rule digit_items_eq) (use d in auto)
  moreover have "digit_items (min (unat (sub_number_of_digits (sSubAddress m))) RIL_CDMA_SMS_SUBADDRESS_MAX) (sub_digits (sSubAddress m)) =
      Some (byte_items (take (min (unat (sub_number_of_digits (sSubAddress m))) RIL_CDMA_SMS_SUBADDRESS_MAX) (sub_digits (sSubAddress m))))"
    by (rule digit_items_eq) (use d in auto)
  moreover have "digit_items (signed_min (uBearerDataLen m) RIL_CDMA_SMS_BEARER_DATA_MAX) (aBearerData m) =
      Some (byte_items (take (signed_min (uBearerDataLen m) RIL_CDMA_SMS_BEARER_DATA_MAX) (aBearerData m)))"
    by (rule digit_items_eq) (use d in auto)
  ultimately show ?thesis
    by (simp only: responseCdmaSms_def cdma_items_def Let_def rresp.case rresp.distinct Option.bind.simps
        not_True_eq_False not_False_eq_True simp_thms if_True if_False append_Cons append_Nil append_assoc)
qed

lemma report_items:
  assumes "report_of d = Some (fn, response, n)" and "request_ok E d"
  shows "response_items fn E response n = Some (0, request_items d)"
proof (cases d)
  case (DStrings ss)
  with assms show ?thesis
    by (cases ss) (auto simp: responseStrings_def response_array_def firstn_def strs_items_def)
next
  case (DCdmaSms m)
  with assms report_cdma [of m] show ?thesis by auto
next
  case (DRaw bs)
  with assms show ?thesis by (cases bs) (auto simp: responseRaw_def firstn_def)
next
  case (DGsmBr gs)
  with assms show ?thesis by (auto simp: responseGsmBrSmsCnf_def firstn_def gsm_items_def [abs_def])
next
  case (DCdmaBr cs)
  with assms show ?thesis by (auto simp: responseCdmaBrSmsCnf_def firstn_def cdma_br_items_def [abs_def])
next
  case (DCarrierRestrictions c)
  have eq: "carrier_out = carrier_items" by (intro ext) (simp add: carrier_out_def carrier_items_def)
  from DCarrierRestrictions assms show ?thesis by (auto simp: responseCarrierRestrictions_def eq)
qed (use assms in \<open>auto simp: responseString_def responseInts_def response_array_def firstn_def split: option.splits\<close>)

lemma report_roundtrip:
  assumes "report_of d = Some (fn, response, n)" and "request_ok E d" and "env_ok E"
    and "list_all witem_ok (request_items d)" and "length (wire (request_items d)) \<le> GROW_LIMIT"
  shows "\<exists>p p'. run_response fn E response n initState = Some (0, p) \<and> setDataPosition p 0 = Some p' \<and>
    run_dispatch (request_fn d) E p' = Some [OnRequest d (request_len E d)]"
proof -
  have pl: "plenty (env_alloc E)" using assms(3) by (simp add: env_ok_def)
  obtain p where p: "run_response fn E response n initState = Some (0, p)" "at_end p" "contents p = wire (request_items d)"
    using run_response_writes [OF report_items [OF assms(1,2)] assms(4) at_end_initState] pl assms(5)
    by (auto simp: succ_def)
  have "setDataPosition p 0 = Some (p\<lparr>mDataPos := 0\<rparr>)"
    by (simp add: setDataPosition_def)
  moreover have "msg (p\<lparr>mDataPos := 0\<rparr>) (wire (request_items d) @ [])"
    using p(2,3) by (simp add: msg_def at_end_def parcel_ok_def unread_def contents_def)
  ultimately show ?thesis using p(1) deliver [OF _ assms(2,3)] by blast
qed

section \<open>Unsolicited messages\<close>

text \<open>The message for a code, the event that a wake timeout leaves, and what is written for the two
  codes with more payload (an old radio state is announced by other messages first).\<close>

definition wakes :: "conf \<Rightarrow> WakeType \<Rightarrow> event list" where
  "wakes C wake = (if callbacks_version (conf_env C) < 13 \<and> wake = WAKE_PARTIAL then [TimedCallback] else [])"

definition unsol_type :: "conf \<Rightarrow> WakeType \<Rightarrow> u32" where
  "unsol_type C wake = (if callbacks_version (conf_env C) \<ge> 13 \<and> wake = WAKE_PARTIAL
     then RESPONSE_UNSOLICITED_ACK_EXP else RESPONSE_UNSOLICITED)"

definition extra_items :: "conf \<Rightarrow> u64 \<Rightarrow> int \<Rightarrow> witem list" where
  "extra_items C now code =
     (if code = RIL_UNSOL_RESPONSE_RADIO_STATE_CHANGED
      then [WInt32 (of_int (radio_state_val (onStateRequest (conf_env C))))]
      else if code = RIL_UNSOL_NITZ_TIME_RECEIVED then [WInt64 now] else [])"

definition current_state :: "RIL_RadioState \<Rightarrow> bool" where
  "current_state st \<longleftrightarrow> \<not> (st > RADIO_STATE_UNAVAILABLE \<and> st < RADIO_STATE_ON)"

definition unsol_message :: "conf \<Rightarrow> u64 \<Rightarrow> WakeType \<Rightarrow> int \<Rightarrow> witem list \<Rightarrow> witem list" where
  "unsol_message C now wake code items =
     [WInt32 (unsol_type C wake), WInt32 (of_int code)] @ items @ extra_items C now code"

lemma extra_written:
  assumes "code = RIL_UNSOL_RESPONSE_RADIO_STATE_CHANGED \<longrightarrow> current_state (onStateRequest (conf_env C))"
    and "at_end p" and "roomy (memory C) p (length (wire (extra_items C now code)))"
  shows "\<exists>p'. unsol_extra self C now code p s = Some (p', s) \<and> at_end p' \<and>
    contents p' = contents p @ wire (extra_items C now code)"
proof -
  have "list_all witem_ok (extra_items C now code)" by (simp add: extra_items_def)
  from sink.put_all_enc [OF this assms(2), of "memory C"] assms(3) obtain p' where
    "put_all (put (memory C)) (extra_items C now code) p = Some p'" "at_end p'"
    "contents p' = contents p @ wire (extra_items C now code)" by (auto simp: wire_def)
  then have e: "put_all (put (memory C)) (extra_items C now code) p = Some p'" by blast
  have st: "code = RIL_UNSOL_RESPONSE_RADIO_STATE_CHANGED \<Longrightarrow>
      processRadioState self (onStateRequest (conf_env C)) s = Some (onStateRequest (conf_env C), s)"
    using assms(1) by (auto simp: processRadioState_def current_state_def)
  have "unsol_extra self C now code p s = Some (p', s)"
  proof -
    consider "code = RIL_UNSOL_RESPONSE_RADIO_STATE_CHANGED" | "code = RIL_UNSOL_NITZ_TIME_RECEIVED"
      | "code \<noteq> RIL_UNSOL_RESPONSE_RADIO_STATE_CHANGED" "code \<noteq> RIL_UNSOL_NITZ_TIME_RECEIVED" by blast
    then show ?thesis
      using e st by cases (auto simp: unsol_extra_def extra_items_def Let_def simp del: put.simps split: bind_splits)
  qed
  with \<open>at_end p'\<close> \<open>contents p' = _\<close> show ?thesis by blast
qed

text \<open>The parcel of an unsolicited response, up to its sending.\<close>

lemma unsol_marshal:
  assumes "registerCalled s" and "0 \<le> code - RIL_UNSOL_RESPONSE_BASE" "code - RIL_UNSOL_RESPONSE_BASE < 49"
    and "snd (s_unsolResponses ! nat (code - RIL_UNSOL_RESPONSE_BASE)) = (fn, wake)"
    and "response_items fn (conf_env C) data n = Some (0, items)" and "list_all witem_ok items"
    and "plenty (memory C)" and "length (wire (unsol_message C now wake code items)) \<le> GROW_LIMIT"
    and "code = RIL_UNSOL_RESPONSE_RADIO_STATE_CHANGED \<longrightarrow> current_state (onStateRequest (conf_env C))"
  shows "\<exists>p. at_end p \<and> contents p = wire (unsol_message C now wake code items) \<and>
    RIL_onUnsolicitedResponse C now sock code data n s = unsol_send C wake sock code p s"
proof -
  let ?head = "[WInt32 (unsol_type C wake), WInt32 (of_int code)]"
  note len = assms(8) [unfolded unsol_message_def wire_append length_append]
  obtain p1 where p1: "put_all (put (memory C)) ?head initState = Some p1" "at_end p1" "contents p1 = wire ?head"
    "mDataSize p1 = length (wire ?head)"
    using put_message [of ?head "memory C"] assms(7) len by (auto simp: succ_def simp del: put_all.simps wire_simps)
  obtain p2 where p2: "run_response fn (conf_env C) data n p1 = Some (0, p2)" "at_end p2"
    "contents p2 = wire ?head @ wire items"
    using run_response_writes [OF assms(5,6) p1(2)] p1 assms(7) len
    by (auto simp: succ_def simp del: put_all.simps wire_simps)
  have "mDataSize p2 = length (wire ?head) + length (wire items)"
    using length_contents [of p2] p2 by (simp add: at_end_def)
  then have room: "roomy (memory C) p2 (length (wire (extra_items C now code)))"
    using len assms(7) by simp
  have ex: "\<exists>p3. unsol_extra self C now code p2 s = Some (p3, s) \<and> at_end p3 \<and>
      contents p3 = contents p2 @ wire (extra_items C now code)" for self
    by (rule extra_written [OF assms(9) p2(2) room])
  then obtain p3 where p3: "unsol_extra (unsol_body (\<lambda>_ _ _ _. None) C now sock) C now code p2 s = Some (p3, s)"
    "at_end p3" "contents p3 = contents p2 @ wire (extra_items C now code)" by blast
  have "RIL_onUnsolicitedResponse C now sock code data n s = unsol_send C wake sock code p3 s"
    using assms(1-4) p1(1) p2(1) p3(1)
    by (simp add: RIL_onUnsolicitedResponse_def unsol_body_def [of "unsol_body _ _ _ _"] Let_def unsol_type_def
        del: put_all.simps)
  with p3 p2(3) show ?thesis by (auto simp: unsol_message_def)
qed

lemma unsol_sent:
  assumes "registerCalled s" and "0 \<le> code - RIL_UNSOL_RESPONSE_BASE" "code - RIL_UNSOL_RESPONSE_BASE < 49"
    and "snd (s_unsolResponses ! nat (code - RIL_UNSOL_RESPONSE_BASE)) = (fn, wake)"
    and "response_items fn (conf_env C) data n = Some (0, items)" and "list_all witem_ok items"
    and "plenty (memory C)" and "length (wire (unsol_message C now wake code items)) \<le> MAX_COMMAND_BYTES"
    and "code = RIL_UNSOL_RESPONSE_RADIO_STATE_CHANGED \<longrightarrow> current_state (onStateRequest (conf_env C))"
    and "fdCommand s (socket_hook C sock) \<ge> 0"
    and "can_send s (HEADER_SIZE + length (wire (unsol_message C now wake code items)) + k)"
  shows "\<exists>ws'. RIL_onUnsolicitedResponse C now sock code data n s =
    Some (s\<lparr>outcomes := ws', trace := trace s @ wakes C wake @
      sent (fdCommand s (socket_hook C sock)) (wire (unsol_message C now wake code items))\<rparr>) \<and>
    WriteFailed \<notin> set ws' \<and> k \<le> progress ws'"
proof -
  obtain p where p: "at_end p" "contents p = wire (unsol_message C now wake code items)"
    "RIL_onUnsolicitedResponse C now sock code data n s = unsol_send C wake sock code p s"
    using unsol_marshal [OF assms(1-7) _ assms(9), of now sock] assms(8) by fastforce
  let ?s = "s\<lparr>trace := trace s @ wakes C wake\<rparr>"
  have w: "schedule_wake_timeout C wake s = Some ?s"
    using assms(7) by (simp add: schedule_wake_timeout_def wakes_def plenty_def log_event_def)
  have "can_send ?s (HEADER_SIZE + length (contents p) + k)" using assms(11) p(2) by (simp add: can_send_def)
  from sendResponse_complete_more [OF this, of C sock] assms(8,10) p(1,2) obtain ws' where
    "sendResponse C p sock ?s = Some (0, ?s\<lparr>outcomes := ws', trace := trace ?s @
      sent (fdCommand s (socket_hook C sock)) (wire (unsol_message C now wake code items))\<rparr>)"
    "WriteFailed \<notin> set ws'" "k \<le> progress ws'"
    by (auto simp: at_end_def)
  then show ?thesis using p(3) w by (intro exI [of _ ws']) (simp add: unsol_send_def)
qed

text \<open>A NITZ message with no client is kept, as it would have been sent.\<close>

lemma nitz_kept:
  assumes "registerCalled s" and "str_ok (Some bs)" and "plenty (memory C)"
    and "fdCommand s (socket_hook C sock) < 0"
    and "length (wire (unsol_message C now WAKE_PARTIAL RIL_UNSOL_NITZ_TIME_RECEIVED [WStr (Some bs)])) \<le> GROW_LIMIT"
  shows "RIL_onUnsolicitedResponse C now sock RIL_UNSOL_NITZ_TIME_RECEIVED (RString bs) n s =
    Some (s\<lparr>trace := trace s @ wakes C WAKE_PARTIAL, lastNITZTimeData :=
      Some (wire (unsol_message C now WAKE_PARTIAL RIL_UNSOL_NITZ_TIME_RECEIVED [WStr (Some bs)]))\<rparr>)"
proof -
  have fn: "snd (s_unsolResponses ! nat (RIL_UNSOL_NITZ_TIME_RECEIVED - RIL_UNSOL_RESPONSE_BASE)) = (F_responseString, WAKE_PARTIAL)"
    by (simp add: s_unsolResponses_def)
  have ok: "list_all witem_ok [WStr (Some bs)]"
    using assms(2) by (auto simp: str_ok_def enc_string8_def)
  have r: "response_items F_responseString (conf_env C) (RString bs) n = Some (0, [WStr (Some bs)])"
    by (simp add: responseString_def)
  obtain p where p: "at_end p"
    "contents p = wire (unsol_message C now WAKE_PARTIAL RIL_UNSOL_NITZ_TIME_RECEIVED [WStr (Some bs)])"
    "RIL_onUnsolicitedResponse C now sock RIL_UNSOL_NITZ_TIME_RECEIVED (RString bs) n s =
      unsol_send C WAKE_PARTIAL sock RIL_UNSOL_NITZ_TIME_RECEIVED p s"
    using unsol_marshal [OF assms(1) _ _ fn r ok assms(3,5), of sock] by auto
  let ?s = "s\<lparr>trace := trace s @ wakes C WAKE_PARTIAL\<rparr>"
  have "schedule_wake_timeout C WAKE_PARTIAL s = Some ?s"
    using assms(3) by (simp add: schedule_wake_timeout_def wakes_def plenty_def log_event_def)
  moreover have "sendResponse C p sock ?s = Some (- 1, ?s)"
    using sendResponse_closed [of ?s C sock p] assms(4) p(1) by (simp add: at_end_def)
  ultimately show ?thesis
    using p assms(3) by (simp add: unsol_send_def peek_all at_end_def plenty_def)
qed

text \<open>What a new client is sent: the version, the radio state, and the message kept, if any.\<close>

definition greeting :: "conf \<Rightarrow> u64 \<Rightarrow> u8 list list" where
  "greeting C now =
     [wire (unsol_message C now WAKE_PARTIAL RIL_UNSOL_RIL_CONNECTED
        [count [()], WInt32 (of_int (callbacks_version (conf_env C)))]),
      wire (unsol_message C now WAKE_PARTIAL RIL_UNSOL_RESPONSE_RADIO_STATE_CHANGED [])]"

lemma length_greeting: "map length (greeting C now) = [16, 12]"
  by (simp add: greeting_def unsol_message_def extra_items_def)

lemma connect_greets:
  assumes "registerCalled s" and "plenty (memory C)" and "current_state (onStateRequest (conf_env C))"
    and "fdCommand s (socket_hook C sock) = fd" "0 \<le> fd" and "lastNITZTimeData s = Some data"
    and "length data \<le> MAX_COMMAND_BYTES" and "can_send s (40 + length data)"
  shows "\<exists>ws'. onNewCommandConnect C now sock s = Some (s\<lparr>outcomes := ws', trace := trace s @
      wakes C WAKE_PARTIAL @ sent fd (greeting C now ! 0) @ wakes C WAKE_PARTIAL @ sent fd (greeting C now ! 1) @
      sent fd data, lastNITZTimeData := None\<rparr>)"
proof -
  have fn1: "snd (s_unsolResponses ! nat (RIL_UNSOL_RIL_CONNECTED - RIL_UNSOL_RESPONSE_BASE)) = (F_responseInts, WAKE_PARTIAL)"
    and fn2: "snd (s_unsolResponses ! nat (RIL_UNSOL_RESPONSE_RADIO_STATE_CHANGED - RIL_UNSOL_RESPONSE_BASE)) =
      (F_responseVoid, WAKE_PARTIAL)"
    by (simp_all add: s_unsolResponses_def)
  let ?v = "of_int (callbacks_version (conf_env C)) :: u32" and ?w = "wakes C WAKE_PARTIAL"
  have r1: "response_items F_responseInts (conf_env C) (RInts [?v]) 4 = Some (0, [count [()], WInt32 ?v])"
    by (simp add: responseInts_def response_array_def firstn_def)
  have r2: "response_items F_responseVoid (conf_env C) RNull 0 = Some (0, [])"
    by (simp add: responseVoid_def)
  note l = length_greeting [of C now, unfolded greeting_def]
  obtain ws1 where u1: "RIL_onUnsolicitedResponse C now sock RIL_UNSOL_RIL_CONNECTED (RInts [?v]) 4 s =
      Some (s\<lparr>outcomes := ws1, trace := trace s @ ?w @ sent fd (greeting C now ! 0)\<rparr>)"
    "WriteFailed \<notin> set ws1" "20 + length data \<le> progress ws1"
    using unsol_sent [OF assms(1) _ _ fn1 r1 _ assms(2), of now sock "20 + length data"] l assms(3-5,8)
    by (auto simp: greeting_def)
  let ?s1 = "s\<lparr>outcomes := ws1, trace := trace s @ ?w @ sent fd (greeting C now ! 0)\<rparr>"
  obtain ws2 where u2: "RIL_onUnsolicitedResponse C now sock RIL_UNSOL_RESPONSE_RADIO_STATE_CHANGED RNull 0 ?s1 =
      Some (?s1\<lparr>outcomes := ws2, trace := trace ?s1 @ ?w @ sent fd (greeting C now ! 1)\<rparr>)"
    "WriteFailed \<notin> set ws2" "4 + length data \<le> progress ws2"
    using unsol_sent [of ?s1, OF _ _ _ fn2 r2 _ assms(2), of now sock "4 + length data"] l assms(1,3-5) u1(2,3)
    by (auto simp: greeting_def can_send_def)
  let ?s2 = "s\<lparr>outcomes := ws2, trace := trace s @ ?w @ sent fd (greeting C now ! 0) @ ?w @ sent fd (greeting C now ! 1)\<rparr>"
  obtain ws3 where "sendResponseRaw C data sock ?s2 = Some (0, ?s2\<lparr>outcomes := ws3, trace := trace ?s2 @ sent fd data\<rparr>)"
    using sendResponseRaw_complete [of ?s2 data C sock] assms(4,5,7) u2(2,3) by (auto simp: can_send_def)
  with u1(1) u2(1) assms(6) show ?thesis
    by (intro exI [of _ ws3]) (simp add: onNewCommandConnect_def)
qed

section \<open>Completions that do not apply\<close>

text \<open>With one list a second completion of the same token changes nothing.\<close>

lemma complete_twice:
  assumes "ril_ok C s" and "sim_count C < 2" and "RIL_onRequestComplete C t e response n s = Some s1"
  shows "RIL_onRequestComplete C t e' response' n' s1 = Some s1"
proof -
  obtain found s0 where c: "checkAndDequeueRequestInfoIfAck C t False s = Some (found, s0)"
    using assms(3) by (auto simp: RIL_onRequestComplete_def split: bind_splits)
  have "t = 0 \<or> t \<notin> set (pending s1 0)"
  proof (cases found)
    case False
    with assms(2,3) c check_cases(2) [OF assms(1) c] show ?thesis
      by (auto simp: RIL_onRequestComplete_def checkAndDequeueRequestInfoIfAck_def split: if_splits)
  next
    case True
    obtain r where r: "awaiting C s t r" using True check_cases(1) [OF assms(1) c] by blast
    have "distinct (pending s 0)" using assms(1) by (simp add: table_ok_def)
    then have "t \<notin> set (pending (dequeued C t r s) 0)" using assms(2) by (simp add: dequeued_def)
    moreover have "pending s1 = pending (dequeued C t r s)"
      using complete_result [OF r assms(3)] by (auto simp: sends_def)
    ultimately show ?thesis by simp
  qed
  with complete_unknown [of t C s1] assms(2) show ?thesis by blast
qed

text \<open>With several lists it reads the socket from the request's block, which the first one has freed.\<close>

lemma complete_freed:
  assumes "2 \<le> sim_count C" and "awaiting C s t r" and "RIL_onRequestComplete C t e response n s = Some s1"
  shows "RIL_onRequestComplete C t e' response' n' s1 = None"
proof -
  have "requests s1 t = None" using complete_result [OF assms(2,3)] by auto
  moreover have "t \<noteq> 0" using assms(2) by (simp add: awaiting_def)
  ultimately show ?thesis
    using assms(1) by (simp add: RIL_onRequestComplete_def checkAndDequeueRequestInfoIfAck_def)
qed

text \<open>With three or four sockets a local request for the second one cannot be completed: its
  completion searches another list.\<close>

lemma local_request_lost:
  assumes "3 \<le> sim_count C" and "calloc_request C (requests s) = Some t" and "t \<notin> set (pending s 1)" and "t \<noteq> 0"
  shows "RIL_onRequestComplete C t e response n' (issueLocalRequest C n d len 1 s) = Some (issueLocalRequest C n d len 1 s)"
  using assms
  by (simp add: issueLocalRequest_def RIL_onRequestComplete_def checkAndDequeueRequestInfoIfAck_def enqueue_request_def
      log_event_def socket_hook_def)

section \<open>A concrete daemon\<close>

text \<open>One SIM, a vendor library of the given version with the radio on, one place for a request, and
  a client on descriptor 5 that takes one byte at a time.\<close>

definition conf0 :: "int \<Rightarrow> conf" where
  "conf0 v = \<lparr>conf_env = env0 v RADIO_STATE_ON, sim_count = 1,
     calloc_request = (\<lambda>h. if h 8 = None then Some 8 else None)\<rparr>"

definition ril0 :: "int \<Rightarrow> nat \<Rightarrow> ril" where
  "ril0 fd n = ril_init\<lparr>fdCommand := (\<lambda>_. fd), outcomes := replicate n (Written 1)\<rparr>"

lemma conf0_simps [simp]:
  "conf_env (conf0 v) = env0 v RADIO_STATE_ON" "sim_count (conf0 v) = 1" "fresh_calloc (conf0 v)"
  "env_alloc (env0 v st) = heap0" "callbacks_version (env0 v st) = v" "onStateRequest (env0 v st) = st"
  by (simp_all add: conf0_def env0_def fresh_calloc_def)

lemma conf0_calloc [simp]: "h 8 = None \<Longrightarrow> calloc_request (conf0 v) h = Some 8"
  by (simp add: conf0_def)

lemma ril0_simps [simp]:
  "requests (ril0 fd n) = Map.empty" "pending (ril0 fd n) k = []" "fdCommand (ril0 fd n) k = fd"
  "outcomes (ril0 fd n) = replicate n (Written 1)" "trace (ril0 fd n) = []" "registerCalled (ril0 fd n)"
  "lastNITZTimeData (ril0 fd n) = None"
  by (simp_all add: ril0_def ril_init_def)

lemma ril_ok_ril0 [simp]: "ril_ok C (ril0 fd n)"
  by (simp add: table_ok_def)

lemma can_send_ril0 [simp]: "can_send (ril0 fd n) m \<longleftrightarrow> m \<le> n"
  by (simp add: can_send_def progress_def)

lemma env_ok_conf0 [simp]: "env_ok (conf_env (conf0 v))"
  by simp

end
