(* ===== verification/ParcelOps.thy ===== *)
theory ParcelOps
  imports ParcelFacts
begin

text \<open>
  The parcel under an arbitrary sequence of its public operations, reads and writes mixed: where each is used as it
  is meant, the invariant \<open>parcel_ok\<close> is kept and no operation leaves defined behaviour; and what happens where
  one is not.
\<close>

section \<open>Any sequence of operations\<close>

text \<open>Every public operation of the class that changes it, as one step each.\<close>

datatype parcel_op =
    OpSetData "u8 list" | OpAppendFrom parcel nat nat | OpSetDataPosition nat | OpSetDataSize nat | OpSetDataCapacity nat
  | OpWriteInt32 u32 | OpWriteInt64 u64 | OpWriteUint64 u64 | OpWrite "u8 list" | OpWriteInplace nat
  | OpWriteString16 "u16 list option" | OpWriteString8AsString16 cstr
  | OpReadInt32 | OpReadInt32Ptr u32 | OpReadUint64 | OpReadUint64Ptr u64 | OpRead nat | OpReadInplace nat
  | OpReadString16Inplace | OpReadString16 | OpReadCString

text \<open>What the class relies on: the position is only set inside the data; no data is set only where there is no block
  yet (or the C library does not free it); another parcel is appended from that is itself well formed; strings have lengths
  that fit into a machine word, those of bytes are UTF-8; and a C string is looked for in data made of whole words.\<close>

definition units_ok :: "u16 list \<Rightarrow> bool" where
  "units_ok us \<longleftrightarrow> 2 * length us + 2 \<le> SIZE_T_MAX"

fun op_ok :: "allocator \<Rightarrow> parcel_op \<Rightarrow> parcel \<Rightarrow> bool" where
  "op_ok A (OpSetData xs) p \<longleftrightarrow> xs \<noteq> [] \<or> mData p = NullBuf \<or> mem_realloc0 A"
| "op_ok A (OpAppendFrom src off n) p \<longleftrightarrow> parcel_ok src"
| "op_ok A (OpSetDataPosition n) p \<longleftrightarrow> n \<le> mDataSize p"
| "op_ok A (OpWriteString16 s) p \<longleftrightarrow> (case s of None \<Rightarrow> True | Some us \<Rightarrow> units_ok us)"
| "op_ok A (OpWriteString8AsString16 s) p \<longleftrightarrow>
     (case s of None \<Rightarrow> True | Some bs \<Rightarrow> (case from_bytes bs of None \<Rightarrow> False | Some us \<Rightarrow> units_ok us))"
| "op_ok A OpReadCString p \<longleftrightarrow> 4 dvd mDataPos p \<and> 4 dvd mDataSize p"
| "op_ok A _ p \<longleftrightarrow> True"

fun run_op :: "allocator \<Rightarrow> parcel_op \<Rightarrow> parcel \<Rightarrow> parcel option" where
  "run_op A (OpSetData xs) p = map_option snd (setData A p xs)"
| "run_op A (OpAppendFrom src off n) p = map_option snd (appendFrom A p src off n)"
| "run_op A (OpSetDataPosition n) p = setDataPosition p n"
| "run_op A (OpSetDataSize n) p = map_option snd (setDataSize A p n)"
| "run_op A (OpSetDataCapacity n) p = map_option snd (setDataCapacity A p n)"
| "run_op A (OpWriteInt32 w) p = map_option snd (writeInt32 A p w)"
| "run_op A (OpWriteInt64 w) p = map_option snd (writeInt64 A p w)"
| "run_op A (OpWriteUint64 w) p = map_option snd (writeUint64 A p w)"
| "run_op A (OpWrite xs) p = map_option snd (parcel_write A p xs)"
| "run_op A (OpWriteInplace n) p = map_option snd (writeInplace A p n)"
| "run_op A (OpWriteString16 s) p = map_option snd (writeString16 A p s)"
| "run_op A (OpWriteString8AsString16 s) p = map_option snd (writeString8AsString16 A p s)"
| "run_op A OpReadInt32 p = map_option snd (readInt32 p)"
| "run_op A (OpReadInt32Ptr w) p = map_option (snd \<circ> snd) (readInt32_ptr p w)"
| "run_op A OpReadUint64 p = map_option snd (readUint64 p)"
| "run_op A (OpReadUint64Ptr w) p = map_option (snd \<circ> snd) (readUint64_ptr p w)"
| "run_op A (OpRead n) p = map_option (snd \<circ> snd) (parcel_read p (replicate n 0))"
| "run_op A (OpReadInplace n) p = map_option snd (readInplace p n)"
| "run_op A OpReadString16Inplace p = map_option (snd \<circ> snd) (readString16Inplace p)"
| "run_op A OpReadString16 p = map_option snd (readString16 p)"
| "run_op A OpReadCString p = map_option snd (readCString p)"

fun run_ops :: "allocator \<Rightarrow> parcel_op list \<Rightarrow> parcel \<Rightarrow> parcel option" where
  "run_ops A [] p = Some p"
| "run_ops A (x # xs) p = do { p \<leftarrow> run_op A x p; run_ops A xs p }"

text \<open>Each operation of a sequence is used as it is meant in the state that the ones before it leave.\<close>

fun ops_ok :: "allocator \<Rightarrow> parcel_op list \<Rightarrow> parcel \<Rightarrow> bool" where
  "ops_ok A [] p \<longleftrightarrow> True"
| "ops_ok A (x # xs) p \<longleftrightarrow> op_ok A x p \<and> (case run_op A x p of None \<Rightarrow> True | Some q \<Rightarrow> ops_ok A xs q)"

section \<open>What each operation keeps\<close>

lemma continueWrite_ok:
  assumes "parcel_ok p"
  shows "succ (continueWrite A p n) (\<lambda>(st, p'). parcel_ok p' \<and> (st = NO_ERROR \<longrightarrow> n \<le> mDataCapacity p' \<and>
     mDataPos p' \<le> n))"
proof -
  consider (big) "n > INT32_MAX" | (null) "n \<le> INT32_MAX" "mData p = NullBuf"
    | (grow) "n \<le> INT32_MAX" "mData p \<noteq> NullBuf" "n > mDataCapacity p"
    | (fits) "n \<le> INT32_MAX" "n \<le> mDataCapacity p" "mData p \<noteq> NullBuf"
    by linarith
  then show ?thesis
  proof cases
    case big
    with assms show ?thesis by (simp add: continueWrite_def)
  next
    case null
    with assms show ?thesis by (auto simp: continueWrite_def malloc_def Let_def parcel_ok_def)
  next
    case grow
    with assms show ?thesis
      by (auto simp: continueWrite_def realloc_grow [OF assms(1)] parcel_ok_def)
  next
    case fits
    with assms show ?thesis by (auto simp: continueWrite_def parcel_ok_def)
  qed
qed

lemma setDataSize_ok: "parcel_ok p \<Longrightarrow> succ (setDataSize A p n) (\<lambda>(st, p'). parcel_ok p')"
  using continueWrite_ok [of p A n]
  by (auto simp: setDataSize_def succ_def parcel_ok_def)

lemma setDataCapacity_ok: "parcel_ok p \<Longrightarrow> succ (setDataCapacity A p n) (\<lambda>(st, p'). parcel_ok p')"
  using continueWrite_ok [of p A n]
  by (auto simp: setDataCapacity_def succ_def)

lemma stores_ok: "stores A p xs m \<Longrightarrow> \<exists>q. map_option snd m = Some q \<and> parcel_ok q"
  by (auto simp: stores_def)

lemma setData_any_ok:
  assumes "parcel_ok p" and "op_ok A (OpSetData xs) p"
  shows "\<exists>q. map_option snd (setData A p xs) = Some q \<and> parcel_ok q"
proof (cases "mData p")
  case NullBuf
  then show ?thesis
    using assms(1) by (auto simp: setData_def restartWrite_def malloc_def Let_def poke_def parcel_ok_def)
next
  case (Block bs)
  then show ?thesis
    using assms by (auto simp: setData_def restartWrite_def Let_def poke_def parcel_ok_def)
next
  case Freed
  then show ?thesis using assms(1) by (simp add: parcel_ok_def)
qed

lemma growData_size:
  assumes "parcel_ok p" and "0 < len" and "len \<le> INT32_MAX"
  shows "\<exists>st q. growData A p len = Some (st, q) \<and> parcel_ok q \<and> mDataPos q = mDataPos p \<and> mDataSize q = mDataSize p \<and>
     (st = NO_ERROR \<longrightarrow> mDataSize p + len \<le> mDataCapacity q)"
proof -
  let ?n = "(mDataSize p + len) * 3 div 2"
  have sz: "mDataSize p \<le> INT32_MAX" using assms(1) by (simp add: parcel_ok_def)
  have n: "szmul (szadd (mDataSize p) len) 3 div 2 = ?n"
  proof -
    have "(mDataSize p + len) * 3 < SIZE_T_MAX + 1" using sz assms(3) by simp
    then show ?thesis using sz assms(3) unfolding szmul_def by (simp only: mod_less szadd_small)
  qed
  have gt: "mDataSize p < ?n" "mDataSize p + len \<le> ?n" using assms(2) by (simp_all add: algebra_simps)
  then have "growData A p len = continueWrite A p ?n" using assms(3) n by (simp add: growData_def Let_def)
  with continueWrite_grow [OF assms(1) less_imp_le [OF gt(1)], of A] gt(2) show ?thesis by (auto dest: order_trans)
qed

lemma append_step:
  assumes "parcel_ok p" and "mDataSize p + length xs \<le> mDataCapacity p"
  shows "\<exists>q. poke p (mDataPos p) xs = Some q \<and>
    parcel_ok (q\<lparr>mDataPos := szadd (mDataPos q) (length xs), mDataSize := szadd (mDataSize q) (length xs)\<rparr>)"
proof (cases "xs = []")
  case True
  with assms(1) show ?thesis by (auto simp: poke_def parcel_ok_def)
next
  case False
  with assms obtain bs where bs: "mData p = Block bs" using parcel_ok_Block [of p] by fastforce
  with False assms show ?thesis by (auto simp: poke_def parcel_ok_def)
qed

lemma appendFrom_ok:
  assumes "parcel_ok p" and "parcel_ok src"
  shows "\<exists>q. map_option snd (appendFrom A p src off n) = Some q \<and> parcel_ok q"
proof (cases "n = 0 \<or> n > INT32_MAX \<or> off > mDataSize src \<or> n > mDataSize src \<or> szadd off n > mDataSize src")
  case True
  then show ?thesis using assms(1) by (auto simp: appendFrom_def)
next
  case False
  have sizes: "mDataSize src \<le> INT32_MAX" "mDataSize p \<le> INT32_MAX" using assms by (simp_all add: parcel_ok_def)
  then have sz: "szadd off n = off + n" "szadd (mDataSize p) n = mDataSize p + n" using False by simp_all
  then have le: "off + n \<le> mDataSize src" using False by simp
  then have "n \<le> mDataSize src - off" by linarith
  then have pk: "peek src off n = Some (take n (drop off (contents src)))" and
    len: "length (take n (drop off (contents src))) = n"
    using peek_contents [OF assms(2) le] assms(2) by simp_all
  have "\<exists>st q. (if mDataSize p + n > mDataCapacity p then growData A p n else Some (NO_ERROR, p)) = Some (st, q) \<and>
      parcel_ok q \<and> mDataPos q = mDataPos p \<and> mDataSize q = mDataSize p \<and> (st = NO_ERROR \<longrightarrow> mDataSize q + n \<le> mDataCapacity q)"
    using growData_size [OF assms(1), of n A] False assms(1) by auto
  then obtain st q where q: "(if mDataSize p + n > mDataCapacity p then growData A p n else Some (NO_ERROR, p)) = Some (st, q)"
    "parcel_ok q" "mDataPos q = mDataPos p" "mDataSize q = mDataSize p" "st = NO_ERROR \<longrightarrow> mDataSize q + n \<le> mDataCapacity q"
    by blast
  show ?thesis
  proof (cases "st = NO_ERROR")
    case True
    with append_step [OF q(2), of "take n (drop off (contents src))"] q len pk False sz show ?thesis
      by (auto simp: appendFrom_def)
  qed (use q False sz in \<open>simp add: appendFrom_def\<close>)
qed

lemma writeInplace_large:
  assumes "parcel_ok p" and "n > INT32_MAX - 3"
  shows "writeInplace A p n = Some (None, p)"
proof (cases "n > INT32_MAX")
  case False
  then consider "n = 2147483645" | "n = 2147483646" | "n = 2147483647" using assms(2) by linarith
  then have "n + padding n = INT32_MAX + 1" by cases (simp_all add: padding_def)
  moreover have "mDataPos p \<le> INT32_MAX" "mDataCapacity p \<le> INT32_MAX" using assms(1) by (simp_all add: parcel_ok_def)
  ultimately show ?thesis using False by (simp add: writeInplace_def pad_size_eq growData_def)
qed (simp add: writeInplace_def)

lemma writeInplace_ok: "parcel_ok p \<Longrightarrow> \<exists>d q. writeInplace A p n = Some (d, q) \<and> parcel_ok q"
proof -
  assume p: "parcel_ok p"
  consider "n = 0" | "n > INT32_MAX - 3" | "0 < n" "n \<le> INT32_MAX - 3" by linarith
  then show ?thesis
  proof cases
    case 1
    with p show ?thesis
      by (auto simp: writeInplace_def pad_size_def writeInplace_restart_def finishWrite_def parcel_ok_def)
  next
    case 2
    with p writeInplace_large show ?thesis by blast
  next
    case 3
    with writeInplace_spec [OF p] show ?thesis by blast
  qed
qed

lemma parcel_write_ok:
  assumes "parcel_ok p"
  shows "\<exists>q. map_option snd (parcel_write A p xs) = Some q \<and> parcel_ok q"
proof -
  consider "xs = []" | "length xs > INT32_MAX - 3" | "xs \<noteq> []" "length xs \<le> INT32_MAX - 3" by linarith
  then show ?thesis
  proof cases
    case 1
    with assms show ?thesis
      by (auto simp: parcel_write_def writeInplace_def pad_size_def writeInplace_restart_def
        poke_def finishWrite_def parcel_ok_def)
  next
    case 2
    with assms writeInplace_large [OF assms 2] show ?thesis by (auto simp: parcel_write_def)
  next
    case 3
    then show ?thesis using stores_ok [OF parcel_write_stores [OF assms 3(2,1)]] by blast
  qed
qed

lemma writeString16_ok:
  assumes "parcel_ok p" and "case s of None \<Rightarrow> True | Some us \<Rightarrow> units_ok us"
  shows "\<exists>st q. writeString16 A p s = Some (st, q) \<and> parcel_ok q"
proof (cases "case s of None \<Rightarrow> True | Some us \<Rightarrow> 2 * length us \<le> INT32_MAX - 5")
  case True
  then have "stores A p (enc_string16 s) (writeString16 A p s)"
    using writeString16_stores [OF assms(1), of s A] by (cases s) simp_all
  then show ?thesis by (auto simp: stores_def)
next
  case False
  then obtain us where us: "s = Some us" "2 * length us + 2 > INT32_MAX - 3" by (cases s) auto
  then have sz: "szadd (szmul (length us) 2) 2 = 2 * length us + 2" using assms(2) by (simp add: units_ok_def)
  obtain st q where q: "writeInt32 A p (of_nat (length us)) = Some (st, q)" "parcel_ok q"
    using writeInt32_stores [OF assms(1), of A "of_nat (length us)"] by (auto simp: stores_def)
  then show ?thesis
    using writeInplace_large [OF q(2) us(2), of A] by (simp add: writeString16_def us(1) sz)
qed

lemma writeString8_ok:
  assumes "parcel_ok p" and "op_ok A (OpWriteString8AsString16 s) p"
  shows "\<exists>q. map_option snd (writeString8AsString16 A p s) = Some q \<and> parcel_ok q"
proof (cases s)
  case None
  with stores_ok [OF writeInt32_stores [OF assms(1)]] show ?thesis by (simp add: writeString8AsString16_def)
next
  case (Some bs)
  with assms(2) obtain us where us: "from_bytes bs = Some us" "units_ok us" by (auto split: option.splits)
  with writeString16_ok [OF assms(1), of "Some us" A] Some assms(1) show ?thesis
    by (auto simp: writeString8AsString16_def)
qed

lemma readCString_ok:
  assumes "parcel_ok p" and "4 dvd mDataPos p" and "4 dvd mDataSize p"
  shows "\<exists>s q. readCString p = Some (s, q) \<and> parcel_ok q"
proof (cases "mDataPos p < mDataSize p")
  case False
  with assms(1) show ?thesis by (auto simp: readCString_def szsub_def parcel_ok_def Let_def)
next
  case True
  then obtain bs where bs: "mData p = Block bs" using parcel_ok_Block [of p] assms(1) by (fastforce simp: parcel_ok_def)
  let ?n = "mDataSize p - mDataPos p" and ?xs = "drop (mDataPos p) bs"
  let ?k = "length (takeWhile (\<lambda>b. b \<noteq> 0) ?xs)"
  have len: "?n \<le> length ?xs" and sz: "mDataSize p \<le> INT32_MAX" using assms(1) bs by (auto simp: parcel_ok_def)
  show ?thesis
  proof (cases "?k < ?n")
    case False
    then have "memchr0 ?xs ?n = Some None" using len by (simp add: memchr0_def Let_def)
    with True bs assms(1) show ?thesis by (simp add: readCString_def szsub_def Let_def)
  next
    case k: True
    then have m: "memchr0 ?xs ?n = Some (Some ?k)" using len by (simp add: memchr0_def Let_def)
    obtain a b where ab: "mDataPos p = 4 * a" "mDataSize p = 4 * b" using assms(2,3) by (auto simp: dvd_def)
    have "mDataPos p + (?k + 1 + padding (?k + 1)) \<le> mDataSize p"
    proof -
      have "(?k + 1 + 3) div 4 * 4 = ?k + 1 + padding (?k + 1)" using padding_mult [of "?k + 1"] by simp
      moreover have "(?k + 1 + 3) div 4 \<le> b - a" using k ab by linarith
      ultimately show ?thesis using ab True by linarith
    qed
    then have "parcel_ok (p\<lparr>mDataPos := szadd (mDataPos p) (?k + 1 + padding (?k + 1))\<rparr>)"
      using assms(1) sz by (simp add: parcel_ok_def)
    moreover have "pad_size (?k + 1) = Some (?k + 1 + padding (?k + 1))" using k sz by (intro pad_size_eq) linarith
    ultimately show ?thesis using True bs m by (simp add: readCString_def szsub_def Let_def)
  qed
qed

lemma readUint64_ptr_ok: "parcel_ok p \<Longrightarrow> \<exists>st w q. readUint64_ptr p t = Some (st, w, q) \<and> parcel_ok q"
proof (cases "length (unread p) < 8")
  case True
  assume "parcel_ok p"
  with True readAligned_short [of p t] show ?thesis by (simp add: readUint64_ptr_def)
next
  case False
  assume p: "parcel_ok p"
  let ?w = "le_word (take 8 (unread p)) :: u64"
  have "le64 ?w = take 8 (unread p)"
    using le_bytes_le_word [of "take 8 (unread p)", where 'a = 64] False by simp
  then have u: "unread p = le64 ?w @ drop 8 (unread p)" by simp
  show ?thesis using readUint64_ptr_reads [OF p u] unread_append(2) [OF p u] by simp
qed

lemma readUint64_ok: "parcel_ok p \<Longrightarrow> \<exists>w q. readUint64 p = Some (w, q) \<and> parcel_ok q"
  using readUint64_ptr_ok [of p 0] by (auto simp: readUint64_def readAligned0_def readUint64_ptr_def)

lemma read_any_ok:
  assumes "parcel_ok p"
  shows "(\<exists>r q. readInplace p n = Some (r, q) \<and> parcel_ok q) \<and>
    (\<exists>st xs q. parcel_read p (replicate n 0) = Some (st, xs, q) \<and> parcel_ok q)"
proof (cases "n > INT32_MAX")
  case False
  then have pad: "pad_size n = Some (n + padding n)" by (intro pad_size_eq) linarith
  have "padding n \<le> 3" "mDataPos p \<le> INT32_MAX" using assms(1) by (simp_all add: parcel_ok_def)
  then have sz: "szadd (mDataPos p) (n + padding n) = mDataPos p + (n + padding n)"
    using False by (intro szadd_small) linarith
  have "mDataPos p + n \<le> mDataSize p \<Longrightarrow> peek p (mDataPos p) n \<noteq> None"
    using peek_contents [OF assms(1)] by simp
  then show ?thesis
    using assms False by (auto simp: readInplace_def parcel_read_def pad sz read_guard_def Let_def parcel_ok_def replicate_eq_replicate)
qed (use assms in \<open>simp add: readInplace_def parcel_read_def\<close>)

lemma readString16_ok: "parcel_ok p \<Longrightarrow> \<exists>us q. readString16 p = Some (us, q) \<and> parcel_ok q"
proof -
  assume p: "parcel_ok p"
  obtain off n k where r: "readString16Inplace p = Some (off, n, skip k p)" "parcel_ok (skip k p)"
    "\<And>q. off = Some q \<Longrightarrow> q + 2 * n + 2 \<le> mDataSize p"
    using readString16Inplace_ok [OF p] by metis
  show ?thesis
  proof (cases off)
    case None
    with r show ?thesis by (simp add: readString16_def)
  next
    case (Some q)
    then have "peek (skip k p) q (2 * n) \<noteq> None"
      using r(3) peek_contents [OF r(2), of q "2 * n"] by simp
    with Some r show ?thesis by (auto simp: readString16_def)
  qed
qed

lemma run_op_ok: "parcel_ok p \<Longrightarrow> op_ok A x p \<Longrightarrow> \<exists>q. run_op A x p = Some q \<and> parcel_ok q"
proof (cases x)
  case (OpSetData xs)
  moreover assume "parcel_ok p" "op_ok A x p"
  ultimately show ?thesis using setData_any_ok [of p A xs] by simp
next
  case (OpAppendFrom src off n)
  moreover assume "parcel_ok p" "op_ok A x p"
  ultimately show ?thesis using appendFrom_ok [of p src A off n] by simp
next
  case (OpSetDataPosition n)
  moreover assume "parcel_ok p" "op_ok A x p"
  ultimately show ?thesis by (auto simp: setDataPosition_def parcel_ok_def)
next
  case (OpSetDataSize n)
  moreover assume "parcel_ok p"
  ultimately show ?thesis using setDataSize_ok [of p A n] by (auto simp: succ_def)
next
  case (OpSetDataCapacity n)
  moreover assume "parcel_ok p"
  ultimately show ?thesis using setDataCapacity_ok [of p A n] by (auto simp: succ_def)
next
  case (OpWriteInt32 w)
  moreover assume "parcel_ok p"
  ultimately show ?thesis using stores_ok [OF writeInt32_stores] by simp
next
  case (OpWriteInt64 w)
  moreover assume "parcel_ok p"
  ultimately show ?thesis using stores_ok [OF writeInt64_stores] by simp
next
  case (OpWriteUint64 w)
  moreover assume "parcel_ok p"
  ultimately show ?thesis using stores_ok [OF writeInt64_stores] by (simp add: writeUint64_def writeInt64_def)
next
  case (OpWrite xs)
  moreover assume "parcel_ok p"
  ultimately show ?thesis using parcel_write_ok by simp
next
  case (OpWriteInplace n)
  moreover assume "parcel_ok p"
  ultimately show ?thesis using writeInplace_ok [of p A n] by auto
next
  case (OpWriteString16 s)
  moreover assume "parcel_ok p" "op_ok A x p"
  ultimately show ?thesis using writeString16_ok [of p s A] by auto
next
  case (OpWriteString8AsString16 s)
  moreover assume "parcel_ok p" "op_ok A x p"
  ultimately show ?thesis using writeString8_ok [of p A s] by simp
next
  case OpReadInt32
  moreover assume "parcel_ok p"
  moreover then obtain w k where "readInt32 p = Some (w, skip k p)" "parcel_ok (skip k p)" by (rule readInt32_ok)
  ultimately show ?thesis by simp
next
  case (OpReadInt32Ptr t)
  moreover assume "parcel_ok p"
  moreover then obtain st w k where "readInt32_ptr p t = Some (st, w, skip k p)" "parcel_ok (skip k p)"
    by (rule readInt32_ptr_ok)
  ultimately show ?thesis by simp
next
  case OpReadUint64
  moreover assume "parcel_ok p"
  ultimately show ?thesis using readUint64_ok [of p] by auto
next
  case (OpReadUint64Ptr t)
  moreover assume "parcel_ok p"
  ultimately show ?thesis using readUint64_ptr_ok [of p t] by auto
next
  case (OpRead n)
  moreover assume "parcel_ok p"
  ultimately show ?thesis using read_any_ok [of p n] by auto
next
  case (OpReadInplace n)
  moreover assume "parcel_ok p"
  ultimately show ?thesis using read_any_ok [of p n] by auto
next
  case OpReadString16Inplace
  moreover assume "parcel_ok p"
  moreover then obtain off n k where "readString16Inplace p = Some (off, n, skip k p)" "parcel_ok (skip k p)"
    using readString16Inplace_ok by metis
  ultimately show ?thesis by simp
next
  case OpReadString16
  moreover assume "parcel_ok p"
  ultimately show ?thesis using readString16_ok [of p] by auto
next
  case OpReadCString
  moreover assume "parcel_ok p" "op_ok A x p"
  ultimately show ?thesis using readCString_ok [of p] by auto
qed

lemma run_ops_ok: "parcel_ok p \<Longrightarrow> ops_ok A xs p \<Longrightarrow> \<exists>q. run_ops A xs p = Some q \<and> parcel_ok q"
proof (induction xs arbitrary: p)
  case (Cons x xs)
  then obtain q where "run_op A x p = Some q" "parcel_ok q" using run_op_ok [of p A x] by auto
  with Cons show ?case by simp
qed simp

section \<open>Operations used otherwise\<close>

text \<open>Setting no data frees the block where the C library does; every later access goes to freed memory.\<close>

lemma empty_data_dangles:
  assumes "mData p = Block bs" and "\<not> mem_realloc0 A"
  shows "map_option (mData \<circ> snd) (setData A p []) = Some Freed"
  using assms by (simp add: setData_def restartWrite_def poke_def Let_def)

text \<open>Behind the last whole word of the data, the padding of a C string is counted although it is not there.\<close>

lemma c_string_past_size:
  "\<exists>p q. parcel_ok p \<and> readCString p = Some (Some [65], q) \<and> mDataSize q < mDataPos q"
  by (rule exI [of _ "initState\<lparr>mData := Block [65, 0], mDataSize := 2, mDataCapacity := 2\<rparr>"])
    (simp add: parcel_ok_def initState_def readCString_def szsub_def memchr0_def pad_size_def Let_def)

end
