(* ===== verification/RilEvent.thy ===== *)
theory RilEvent
  imports Prelude
begin

text \<open>
  \<open>services/ril/libril/ril_event.cpp\<close>: the event loop of the daemon, with its table of watched
  descriptors and its two circular doubly linked lists, the sorted timers and the pending events.
  The events are blocks of a heap with explicit links; \<open>None\<close> is a dereference of a pointer that
  is not an event, or a descriptor outside the range of an \<open>fd_set\<close>.
\<close>

section \<open>State\<close>

text \<open>Addresses are positive; the two list heads are static variables. A \<open>timeval\<close> is a pair of
  seconds and microseconds.\<close>

type_synonym addr = nat
type_synonym timeval = "int \<times> int"

abbreviation TIMER_LIST :: addr where "TIMER_LIST \<equiv> 1"
abbreviation PENDING_LIST :: addr where "PENDING_LIST \<equiv> 2"
abbreviation MAX_FD_EVENTS :: nat where "MAX_FD_EVENTS \<equiv> 8"
abbreviation FD_SETSIZE :: int where "FD_SETSIZE \<equiv> 1024"

record ril_event =
  ev_next :: addr
  ev_prev :: addr
  ev_fd :: int
  ev_index :: int
  persist :: bool
  timeout :: timeval
  ev_func :: nat
  ev_param :: nat

type_synonym heap = "addr \<rightharpoonup> ril_event"

text \<open>The statics of the file, and for the callbacks made the events in order; a free entry of the
  table is 0.\<close>

record ev_state =
  events :: heap
  readFds :: "int set"
  nfds :: int
  watch_table :: "addr list"
  fired :: "addr list"

section \<open>Times\<close>

fun timeradd :: "timeval \<Rightarrow> timeval \<Rightarrow> timeval" where
  "timeradd (s1, u1) (s2, u2) =
     (if u1 + u2 \<ge> 1000000 then (s1 + s2 + 1, u1 + u2 - 1000000) else (s1 + s2, u1 + u2))"

fun timersub :: "timeval \<Rightarrow> timeval \<Rightarrow> timeval" where
  "timersub (s1, u1) (s2, u2) =
     (if u1 - u2 < 0 then (s1 - s2 - 1, u1 - u2 + 1000000) else (s1 - s2, u1 - u2))"

text \<open>\<open>timercmp(a, b, <)\<close>; with \<open>>\<close> the arguments are swapped.\<close>

fun timer_less :: "timeval \<Rightarrow> timeval \<Rightarrow> bool" where
  "timer_less (s1, u1) (s2, u2) = (if s1 = s2 then u1 < u2 else s1 < s2)"

section \<open>Lists\<close>

definition store :: "(ril_event \<Rightarrow> ril_event) \<Rightarrow> addr \<Rightarrow> heap \<Rightarrow> heap option" where
  "store f p h = (case h p of None \<Rightarrow> None | Some e \<Rightarrow> Some (h(p \<mapsto> f e)))"

definition init_list :: "addr \<Rightarrow> heap \<Rightarrow> heap" where
  "init_list l h = h(l \<mapsto> \<lparr>ev_next = l, ev_prev = l, ev_fd = - 1, ev_index = 0, persist = False, timeout = (0, 0),
     ev_func = 0, ev_param = 0\<rparr>)"

definition addToList :: "addr \<Rightarrow> addr \<Rightarrow> heap \<Rightarrow> heap option" where
  "addToList ev list h = do {
     h \<leftarrow> store (\<lambda>e. e\<lparr>ev_next := list\<rparr>) ev h;
     l \<leftarrow> h list;
     h \<leftarrow> store (\<lambda>e. e\<lparr>ev_prev := ev_prev l\<rparr>) ev h;
     e \<leftarrow> h ev;
     h \<leftarrow> store (\<lambda>x. x\<lparr>ev_next := ev\<rparr>) (ev_prev e) h;
     store (\<lambda>x. x\<lparr>ev_prev := ev\<rparr>) list h
   }"

definition removeFromList :: "addr \<Rightarrow> heap \<Rightarrow> heap option" where
  "removeFromList ev h = do {
     e \<leftarrow> h ev;
     h \<leftarrow> store (\<lambda>x. x\<lparr>ev_prev := ev_prev e\<rparr>) (ev_next e) h;
     e \<leftarrow> h ev;
     h \<leftarrow> store (\<lambda>x. x\<lparr>ev_next := ev_next e\<rparr>) (ev_prev e) h;
     h \<leftarrow> store (\<lambda>e. e\<lparr>ev_next := 0\<rparr>) ev h;
     store (\<lambda>e. e\<lparr>ev_prev := 0\<rparr>) ev h
   }"

section \<open>Watched descriptors\<close>

definition ril_event_init :: "heap \<Rightarrow> ev_state" where
  "ril_event_init h = \<lparr>events = init_list PENDING_LIST (init_list TIMER_LIST h), readFds = {}, nfds = 0,
     watch_table = replicate MAX_FD_EVENTS 0, fired = []\<rparr>"

definition ril_event_set :: "addr \<Rightarrow> int \<Rightarrow> bool \<Rightarrow> nat \<Rightarrow> nat \<Rightarrow> ev_state \<Rightarrow> ev_state" where
  "ril_event_set ev fd pers func param s =
     s\<lparr>events := (events s)(ev \<mapsto> \<lparr>ev_next = 0, ev_prev = 0, ev_fd = fd, ev_index = - 1, persist = pers,
       timeout = (0, 0), ev_func = func, ev_param = param\<rparr>)\<rparr>"

fun free_entry :: "addr list \<Rightarrow> nat option" where
  "free_entry [] = None"
| "free_entry (p # ps) = (if p = 0 then Some 0 else map_option Suc (free_entry ps))"

text \<open>An event beyond the eighth is dropped without a word.\<close>

definition ril_event_add :: "addr \<Rightarrow> ev_state \<Rightarrow> ev_state option" where
  "ril_event_add ev s =
     (case free_entry (watch_table s) of
        None \<Rightarrow> Some s
      | Some i \<Rightarrow> do {
          e \<leftarrow> events s ev;
          if ev_fd e < 0 \<or> ev_fd e \<ge> FD_SETSIZE then None
          else Some (s\<lparr>events := (events s)(ev \<mapsto> e\<lparr>ev_index := int i\<rparr>),
            readFds := insert (ev_fd e) (readFds s),
            nfds := (if ev_fd e \<ge> nfds s then ev_fd e + 1 else nfds s),
            watch_table := (watch_table s)[i := ev]\<rparr>)
        })"

text \<open>The greatest watched descriptor, at least 0.\<close>

fun greatest_fd :: "heap \<Rightarrow> addr list \<Rightarrow> int \<Rightarrow> int option" where
  "greatest_fd h [] n = Some n"
| "greatest_fd h (p # ps) n =
     (if p = 0 then greatest_fd h ps n
      else case h p of
        None \<Rightarrow> None
      | Some e \<Rightarrow> greatest_fd h ps (if ev_fd e > n then ev_fd e else n))"

definition removeWatch :: "addr \<Rightarrow> nat \<Rightarrow> ev_state \<Rightarrow> ev_state option" where
  "removeWatch ev i s = do {
     e \<leftarrow> events s ev;
     let h = (events s)(ev \<mapsto> e\<lparr>ev_index := - 1\<rparr>);
     let table = (watch_table s)[i := 0];
     n \<leftarrow> (if ev_fd e + 1 = nfds s then map_option (\<lambda>n. n + 1) (greatest_fd h table 0) else Some (nfds s));
     Some (s\<lparr>events := h, readFds := readFds s - {ev_fd e}, nfds := n, watch_table := table\<rparr>)
   }"

definition ril_event_del :: "addr \<Rightarrow> ev_state \<Rightarrow> ev_state option" where
  "ril_event_del ev s = do {
     e \<leftarrow> events s ev;
     if ev_index e < 0 \<or> ev_index e \<ge> int MAX_FD_EVENTS then Some s
     else removeWatch ev (nat (ev_index e)) s
   }"

section \<open>Timers\<close>

text \<open>The walk to the first timer that is not earlier.\<close>

partial_function (option) find_timer :: "heap \<Rightarrow> timeval \<Rightarrow> addr \<Rightarrow> addr option" where
  "find_timer h t list = do {
     l \<leftarrow> h list;
     if timer_less (timeout l) t \<and> list \<noteq> TIMER_LIST then find_timer h t (ev_next l) else Some list
   }"

text \<open>\<open>ril\_timer\_add\<close> at time \<open>now\<close>; a null interval adds nothing.\<close>

definition ril_timer_add :: "timeval \<Rightarrow> addr \<Rightarrow> timeval option \<Rightarrow> ev_state \<Rightarrow> ev_state option" where
  "ril_timer_add now ev tv s =
     (case tv of
        None \<Rightarrow> Some s
      | Some tv \<Rightarrow> do {
          head \<leftarrow> events s TIMER_LIST;
          h \<leftarrow> store (\<lambda>e. e\<lparr>ev_fd := - 1, timeout := timeradd now tv\<rparr>) ev (events s);
          list \<leftarrow> find_timer h (timeradd now tv) (ev_next head);
          h \<leftarrow> addToList ev list h;
          Some (s\<lparr>events := h\<rparr>)
        })"

partial_function (option) expire_timers :: "timeval \<Rightarrow> addr \<Rightarrow> heap \<Rightarrow> heap option" where
  "expire_timers now tev h =
     (if tev = TIMER_LIST then Some h
      else do {
        e \<leftarrow> h tev;
        if timer_less (timeout e) now then do {
          h \<leftarrow> removeFromList tev h;
          h \<leftarrow> addToList tev PENDING_LIST h;
          expire_timers now (ev_next e) h
        }
        else Some h
      })"

definition processTimeouts :: "timeval \<Rightarrow> ev_state \<Rightarrow> ev_state option" where
  "processTimeouts now s = do {
     head \<leftarrow> events s TIMER_LIST;
     h \<leftarrow> expire_timers now (ev_next head) (events s);
     Some (s\<lparr>events := h\<rparr>)
   }"

text \<open>\<open>None\<close> when there is no timer, otherwise how long to wait.\<close>

definition calcNextTimeout :: "timeval \<Rightarrow> ev_state \<Rightarrow> timeval option option" where
  "calcNextTimeout now s = do {
     head \<leftarrow> events s TIMER_LIST;
     if ev_next head = TIMER_LIST then Some None
     else do {
       e \<leftarrow> events s (ev_next head);
       Some (Some (if timer_less now (timeout e) then timersub (timeout e) now else (0, 0)))
     }
   }"

section \<open>The loop\<close>

text \<open>The entries from \<open>i\<close> on, while \<open>n\<close> ready descriptors are left.\<close>

fun read_readies :: "int set \<Rightarrow> nat list \<Rightarrow> int \<Rightarrow> ev_state \<Rightarrow> ev_state option" where
  "read_readies rfds [] n s = Some s"
| "read_readies rfds (i # is) n s =
     (if n \<le> 0 then Some s
      else let rev = watch_table s ! i in
        if rev = 0 then read_readies rfds is n s
        else do {
          e \<leftarrow> events s rev;
          if ev_fd e \<in> rfds then do {
            h \<leftarrow> addToList rev PENDING_LIST (events s);
            let s = s\<lparr>events := h\<rparr>;
            s \<leftarrow> (if persist e then Some s else removeWatch rev i s);
            read_readies rfds is (n - 1) s
          }
          else read_readies rfds is n s
        })"

definition processReadReadies :: "int set \<Rightarrow> int \<Rightarrow> ev_state \<Rightarrow> ev_state option" where
  "processReadReadies rfds n s = read_readies rfds [0..<MAX_FD_EVENTS] n s"

text \<open>A callback is a parameter: what it does to the event state, given the event.\<close>

partial_function (option) fire_events ::
  "(addr \<Rightarrow> ev_state \<Rightarrow> ev_state option) \<Rightarrow> addr \<Rightarrow> ev_state \<Rightarrow> ev_state option" where
  "fire_events cb ev s =
     (if ev = PENDING_LIST then Some s
      else do {
        e \<leftarrow> events s ev;
        h \<leftarrow> removeFromList ev (events s);
        s \<leftarrow> cb ev (s\<lparr>events := h, fired := fired s @ [ev]\<rparr>);
        fire_events cb (ev_next e) s
      })"

definition firePending :: "(addr \<Rightarrow> ev_state \<Rightarrow> ev_state option) \<Rightarrow> ev_state \<Rightarrow> ev_state option" where
  "firePending cb s = do {
     head \<leftarrow> events s PENDING_LIST;
     fire_events cb (ev_next head) s
   }"

text \<open>One round of \<open>ril\_event\_loop\<close> after \<open>select\<close>: \<open>None\<close> for an error other than \<open>EINTR\<close>, which ends
  the loop, otherwise the ready descriptors (none after \<open>EINTR\<close>, when the round ends) and their
  number. The result tells whether the loop goes on.\<close>

datatype select_result = Interrupted | SelectError | Ready "int set" int

definition loop_round ::
  "(addr \<Rightarrow> ev_state \<Rightarrow> ev_state option) \<Rightarrow> timeval \<Rightarrow> select_result \<Rightarrow> ev_state \<Rightarrow> (bool \<times> ev_state) option" where
  "loop_round cb now sel s =
     (case sel of
        Interrupted \<Rightarrow> Some (True, s)
      | SelectError \<Rightarrow> Some (False, s)
      | Ready rfds n \<Rightarrow> do {
          s \<leftarrow> processTimeouts now s;
          s \<leftarrow> processReadReadies rfds n s;
          s \<leftarrow> firePending cb s;
          Some (True, s)
        })"

end
