(* ===== verification/RilEventFacts.thy ===== *)
theory RilEventFacts
  imports RilEvent
begin

text \<open>
  The event loop of \<open>ril_event.cpp\<close> keeps what its lists promise: the circular lists stay well linked,
  the timers sorted and the table of watched descriptors consistent. The contract of a list of events is
  the locale \<open>event_lists\<close>; the operations on the heap are its interpretation.
\<close>

section \<open>The contract of the lists\<close>

locale event_lists =
  fixes rep :: "'a \<Rightarrow> 'a list \<Rightarrow> 'h \<Rightarrow> bool" and data :: "'h \<Rightarrow> 'a \<Rightarrow> 'd option" and nxt :: "'h \<Rightarrow> 'a \<Rightarrow> 'a option"
    and add :: "'a \<Rightarrow> 'a \<Rightarrow> 'h \<Rightarrow> 'h option" and remove :: "'a \<Rightarrow> 'h \<Rightarrow> 'h option"
  assumes rep_distinct: "rep l xs h \<Longrightarrow> distinct (l # xs)"
    and rep_data: "rep l xs h \<Longrightarrow> x \<in> set (l # xs) \<Longrightarrow> data h x \<noteq> None"
    and rep_next: "rep l xs h \<Longrightarrow> l # xs = us @ x # vs \<Longrightarrow> nxt h x = Some (hd (vs @ [l]))"
    and add_rep: "rep l (xs @ ys) h \<Longrightarrow> ev \<notin> set (l # xs @ ys) \<Longrightarrow> data h ev \<noteq> None \<Longrightarrow>
        \<exists>h'. add ev (hd (ys @ [l])) h = Some h' \<and> rep l (xs @ ev # ys) h' \<and> data h' = data h \<and>
          (\<forall>l' zs. rep l' zs h \<longrightarrow> set (l' # zs) \<inter> set (ev # l # xs @ ys) = {} \<longrightarrow> rep l' zs h')"
    and remove_rep: "rep l (xs @ ev # ys) h \<Longrightarrow>
        \<exists>h'. remove ev h = Some h' \<and> rep l (xs @ ys) h' \<and> data h' = data h \<and>
          (\<forall>l' zs. rep l' zs h \<longrightarrow> set (l' # zs) \<inter> set (l # xs @ ev # ys) = {} \<longrightarrow> rep l' zs h')"
begin

text \<open>The head of a list moved to the end of another.\<close>

lemma move_rep:
  assumes a: "rep a (x # xs) h" and b: "rep b ys h" and ab: "set (a # x # xs) \<inter> set (b # ys) = {}"
  shows "\<exists>h1 h'. remove x h = Some h1 \<and> add x b h1 = Some h' \<and> rep a xs h' \<and> rep b (ys @ [x]) h' \<and> data h' = data h \<and>
    (\<forall>c zs. rep c zs h \<longrightarrow> set (c # zs) \<inter> set (a # x # xs @ b # ys) = {} \<longrightarrow> rep c zs h')"
proof -
  obtain h1 where h1: "remove x h = Some h1" "rep a xs h1" "data h1 = data h"
    "\<And>l zs. rep l zs h \<Longrightarrow> set (l # zs) \<inter> set (a # x # xs) = {} \<Longrightarrow> rep l zs h1"
    using remove_rep [of a "[]" x xs h] a by auto
  have "rep b ys h1" by (rule h1(4) [OF b]) (use ab in auto)
  moreover have "x \<notin> set (b # ys)" using ab by auto
  moreover have "data h1 x \<noteq> None" using rep_data [OF a, of x] h1(3) by simp
  ultimately obtain h' where h': "add x b h1 = Some h'" "rep b (ys @ [x]) h'" "data h' = data h1"
    "\<And>l zs. rep l zs h1 \<Longrightarrow> set (l # zs) \<inter> set (x # b # ys) = {} \<Longrightarrow> rep l zs h'"
    using add_rep [of b ys "[]" h1 x] by auto
  have "rep a xs h'" by (rule h'(4) [OF h1(2)]) (use ab rep_distinct [OF a] in auto)
  moreover have "rep c zs h'" if "rep c zs h" "set (c # zs) \<inter> set (a # x # xs @ b # ys) = {}" for c zs
    by (rule h'(4) [OF h1(4) [OF that(1)]]) (use that(2) in auto)
  ultimately show ?thesis using h1 h' by auto
qed

lemma rep_first: "rep l xs h \<Longrightarrow> nxt h l = Some (hd (xs @ [l]))"
  by (rule rep_next [of l xs h "[]" l xs]) simp_all

lemma rep_second: "rep l (x # xs) h \<Longrightarrow> nxt h x = Some (hd (xs @ [l]))"
  by (rule rep_next [of l "x # xs" h "[l]" x xs]) simp_all

end

section \<open>Linked blocks\<close>

definition next_of :: "heap \<Rightarrow> addr \<Rightarrow> addr option" where
  "next_of h p = map_option ev_next (h p)"

definition prev_of :: "heap \<Rightarrow> addr \<Rightarrow> addr option" where
  "prev_of h p = map_option ev_prev (h p)"

text \<open>What an event holds besides its links.\<close>

definition data_of :: "heap \<Rightarrow> addr \<Rightarrow> ril_event option" where
  "data_of h p = map_option (\<lambda>e. e\<lparr>ev_next := 0, ev_prev := 0\<rparr>) (h p)"

fun links :: "('a \<Rightarrow> 'a option) \<Rightarrow> ('a \<Rightarrow> 'a option) \<Rightarrow> 'a list \<Rightarrow> bool" where
  "links f g (a # b # xs) \<longleftrightarrow> f a = Some b \<and> g b = Some a \<and> links f g (b # xs)"
| "links f g _ \<longleftrightarrow> True"

definition dll :: "addr \<Rightarrow> addr list \<Rightarrow> heap \<Rightarrow> bool" where
  "dll l xs h \<longleftrightarrow> distinct (l # xs) \<and> links (next_of h) (prev_of h) (l # xs @ [l])"

lemma links_append: "links f g (xs @ a # ys) \<longleftrightarrow> links f g (xs @ [a]) \<and> links f g (a # ys)"
  by (induction f g xs rule: links.induct) (auto elim: links.elims)

lemma links_cong:
  "(\<And>a. a \<in> set (butlast xs) \<Longrightarrow> f a = f' a) \<Longrightarrow> (\<And>b. b \<in> set (tl xs) \<Longrightarrow> g b = g' b) \<Longrightarrow>
     links f g xs \<longleftrightarrow> links f' g' xs"
  by (induction f g xs rule: links.induct) (auto split: if_splits)

lemma links_Cons: "zs \<noteq> [] \<Longrightarrow> links f g (a # zs) \<longleftrightarrow> f a = Some (hd zs) \<and> g (hd zs) = Some a \<and> links f g zs"
  by (cases zs) simp_all

lemma links_append_ne:
  assumes "xs \<noteq> []" and "zs \<noteq> []"
  shows "links f g (xs @ zs) \<longleftrightarrow> links f g xs \<and> f (last xs) = Some (hd zs) \<and> g (hd zs) = Some (last xs) \<and> links f g zs"
proof -
  have e: "xs @ zs = butlast xs @ last xs # zs" using assms(1) by simp
  show ?thesis unfolding e using links_append [of f g "butlast xs" "last xs" zs] assms by (simp add: links_Cons)
qed

text \<open>The ring cut at a node, and with one more node at the cut.\<close>

lemma ring_seam:
  "links f g (l # xs @ ys @ [l]) \<longleftrightarrow> links f g (l # xs) \<and> f (last (l # xs)) = Some (hd (ys @ [l])) \<and>
     g (hd (ys @ [l])) = Some (last (l # xs)) \<and> links f g (ys @ [l])"
  using links_append_ne [of "l # xs" "ys @ [l]"] by simp

lemma ring_insert:
  "links f g (l # xs @ ev # ys @ [l]) \<longleftrightarrow> links f g (l # xs) \<and> f (last (l # xs)) = Some ev \<and> g ev = Some (last (l # xs)) \<and>
     f ev = Some (hd (ys @ [l])) \<and> g (hd (ys @ [l])) = Some ev \<and> links f g (ys @ [l])"
  using ring_seam [of f g l xs "ev # ys"] links_Cons [of "ys @ [l]" f g ev] by simp

lemma butlast_not_last: "distinct xs \<Longrightarrow> a \<in> set (butlast xs) \<Longrightarrow> a \<noteq> last xs"
  by (induction xs) (auto split: if_splits)

lemma links_dom: "links f g xs \<Longrightarrow> a \<in> set (butlast xs) \<Longrightarrow> f a \<noteq> None"
  by (induction f g xs rule: links.induct) (auto split: if_splits)

section \<open>The operations on a ring\<close>

lemma addToList_effect:
  assumes "h ev = Some e" "h list = Some x" "h (ev_prev x) = Some y" "ev \<noteq> list" "ev_prev x \<noteq> ev"
  shows "\<exists>h'. addToList ev list h = Some h' \<and> next_of h' = (next_of h)(ev \<mapsto> list, ev_prev x \<mapsto> ev) \<and>
    prev_of h' = (prev_of h)(ev \<mapsto> ev_prev x, list \<mapsto> ev) \<and> data_of h' = data_of h \<and>
    (\<forall>p. p \<notin> {ev, list, ev_prev x} \<longrightarrow> h' p = h p)"
proof -
  define h' where "h' = h(ev \<mapsto> e\<lparr>ev_next := list, ev_prev := ev_prev x\<rparr>, ev_prev x \<mapsto> y\<lparr>ev_next := ev\<rparr>,
    list \<mapsto> (if list = ev_prev x then y\<lparr>ev_next := ev\<rparr> else x)\<lparr>ev_prev := ev\<rparr>)"
  have "addToList ev list h = Some h'" using assms by (auto simp: addToList_def store_def h'_def)
  then show ?thesis using assms by (intro exI [of _ h']) (auto simp: h'_def next_of_def prev_of_def data_of_def fun_eq_iff)
qed

lemma removeFromList_effect:
  assumes "h ev = Some e" "h (ev_next e) = Some x" "h (ev_prev e) = Some y" "ev_next e \<noteq> ev" "ev_prev e \<noteq> ev"
  shows "\<exists>h'. removeFromList ev h = Some h' \<and> next_of h' = (next_of h)(ev_prev e \<mapsto> ev_next e, ev \<mapsto> 0) \<and>
    prev_of h' = (prev_of h)(ev_next e \<mapsto> ev_prev e, ev \<mapsto> 0) \<and> data_of h' = data_of h \<and>
    (\<forall>p. p \<notin> {ev, ev_next e, ev_prev e} \<longrightarrow> h' p = h p)"
proof -
  define h' where "h' = h(ev_next e \<mapsto> x\<lparr>ev_prev := ev_prev e\<rparr>,
    ev_prev e \<mapsto> (if ev_next e = ev_prev e then x\<lparr>ev_prev := ev_prev e\<rparr> else y)\<lparr>ev_next := ev_next e\<rparr>,
    ev \<mapsto> e\<lparr>ev_next := 0, ev_prev := 0\<rparr>)"
  have "removeFromList ev h = Some h'" using assms by (auto simp: removeFromList_def store_def h'_def)
  then show ?thesis using assms by (intro exI [of _ h']) (auto simp: h'_def next_of_def prev_of_def data_of_def fun_eq_iff)
qed

lemma dll_Some:
  assumes "dll l xs h" and "p \<in> set (l # xs)"
  obtains e where "h p = Some e"
proof -
  have "p \<in> set (butlast (l # xs @ [l]))" using assms(2) by (auto simp: butlast_append)
  then have "next_of h p \<noteq> None" using assms(1) unfolding dll_def by (blast dest: links_dom)
  then show ?thesis using that by (auto simp: next_of_def)
qed

lemma set_tl: "x \<in> set (tl xs) \<Longrightarrow> x \<in> set xs"
  by (cases xs) simp_all

lemma links_heap_cong:
  assumes "\<And>p. p \<in> set xs \<Longrightarrow> h' p = h p"
  shows "links (next_of h') (prev_of h') xs \<longleftrightarrow> links (next_of h) (prev_of h) xs"
  by (rule links_cong) (auto simp: next_of_def prev_of_def assms dest: in_set_butlastD set_tl)

lemma dll_frame: "dll l xs h \<Longrightarrow> (\<And>p. p \<in> set (l # xs) \<Longrightarrow> h' p = h p) \<Longrightarrow> dll l xs h'"
  unfolding dll_def by (subst links_heap_cong [of "l # xs @ [l]" h' h]) auto

lemma dll_seam:
  assumes "dll l (xs @ ys) h"
  obtains x y where "h (hd (ys @ [l])) = Some x" "ev_prev x = last (l # xs)" "h (last (l # xs)) = Some y"
    "ev_next y = hd (ys @ [l])"
  using assms ring_seam [of "next_of h" "prev_of h" l xs ys] that by (auto simp: dll_def next_of_def prev_of_def)

lemma dll_add:
  assumes d: "dll l (xs @ ys) h" and ev: "ev \<notin> set (l # xs @ ys)" "h ev = Some e"
  shows "\<exists>h'. addToList ev (hd (ys @ [l])) h = Some h' \<and> dll l (xs @ ev # ys) h' \<and> data_of h' = data_of h \<and>
    (\<forall>p. p \<notin> set (ev # l # xs @ ys) \<longrightarrow> h' p = h p)"
proof -
  let ?b = "hd (ys @ [l])" and ?a = "last (l # xs)"
  obtain x y where xy: "h ?b = Some x" "ev_prev x = ?a" "h ?a = Some y" using dll_seam [OF d] by metis
  have in_ab: "?b \<in> set (l # ys)" "?a \<in> set (l # xs)" by (cases ys; simp) (rule last_in_set; simp)
  have "?b \<noteq> ev" "?a \<noteq> ev" using in_ab ev(1) by auto
  then obtain h' where h': "addToList ev ?b h = Some h'" "next_of h' = (next_of h)(ev \<mapsto> ?b, ?a \<mapsto> ev)"
    "prev_of h' = (prev_of h)(ev \<mapsto> ?a, ?b \<mapsto> ev)" "data_of h' = data_of h" "\<And>p. p \<notin> {ev, ?b, ?a} \<Longrightarrow> h' p = h p"
    using addToList_effect [OF ev(2) xy(1)] xy by auto
  have dist: "distinct (l # xs @ ys)" using d by (simp add: dll_def)
  have "links (next_of h) (prev_of h) (l # xs) \<longleftrightarrow> links (next_of h') (prev_of h') (l # xs)"
  proof (rule links_cong)
    fix a assume a: "a \<in> set (butlast (l # xs))"
    have "a \<noteq> ?a" using a dist by (intro butlast_not_last) simp_all
    moreover have "a \<noteq> ev" using a ev(1) by (metis in_set_butlastD Un_iff set_append append_Cons)
    ultimately show "next_of h a = next_of h' a" by (simp add: h'(2))
  next
    fix b assume b: "b \<in> set (tl (l # xs))"
    then have "b \<noteq> ev" "b \<noteq> ?b" using ev(1) dist in_ab(1) by auto
    then show "prev_of h b = prev_of h' b" by (simp add: h'(3))
  qed
  moreover have "links (next_of h) (prev_of h) (ys @ [l]) \<longleftrightarrow> links (next_of h') (prev_of h') (ys @ [l])"
  proof (rule links_cong)
    fix a assume a: "a \<in> set (butlast (ys @ [l]))"
    then have "a \<noteq> ?a" "a \<noteq> ev" using ev(1) dist in_ab(2) by auto
    then show "next_of h a = next_of h' a" by (simp add: h'(2))
  next
    fix b assume b: "b \<in> set (tl (ys @ [l]))"
    then have "b \<noteq> ev" "b \<noteq> ?b" using ev(1) dist by (cases ys; auto)+
    then show "prev_of h b = prev_of h' b" by (simp add: h'(3))
  qed
  moreover have "links (next_of h) (prev_of h) (l # xs)" "links (next_of h) (prev_of h) (ys @ [l])"
    using d ring_seam [of "next_of h" "prev_of h" l xs ys] by (simp_all add: dll_def)
  ultimately have "links (next_of h') (prev_of h') (l # xs @ ev # ys @ [l])"
    using \<open>?b \<noteq> ev\<close> \<open>?a \<noteq> ev\<close> by (simp only: ring_insert) (simp add: h'(2,3))
  then have "dll l (xs @ ev # ys) h'" using dist ev(1) by (auto simp: dll_def)
  moreover have "h' p = h p" if "p \<notin> set (ev # l # xs @ ys)" for p
    by (rule h'(5)) (use that in_ab in auto)
  ultimately show ?thesis using h'(1,4) by blast
qed

lemma dll_remove:
  assumes d: "dll l (xs @ ev # ys) h"
  shows "\<exists>h'. removeFromList ev h = Some h' \<and> dll l (xs @ ys) h' \<and> data_of h' = data_of h \<and>
    (\<forall>p. p \<notin> set (l # xs @ ev # ys) \<longrightarrow> h' p = h p)"
proof -
  let ?b = "hd (ys @ [l])" and ?a = "last (l # xs)"
  have dist: "distinct (l # xs @ ev # ys)" using d by (simp add: dll_def)
  have in_ab: "?b \<in> set (l # ys)" "?a \<in> set (l # xs)" by (cases ys; simp) (rule last_in_set; simp)
  have ne: "?b \<noteq> ev" "?a \<noteq> ev" using in_ab dist by auto
  have old: "links (next_of h) (prev_of h) (l # xs)" "links (next_of h) (prev_of h) (ys @ [l])"
    "prev_of h ev = Some ?a" "next_of h ev = Some ?b" "next_of h ?a = Some ev" "prev_of h ?b = Some ev"
    using d ring_insert [of "next_of h" "prev_of h" l xs ev ys] by (simp_all add: dll_def)
  then obtain e x y where e: "h ev = Some e" "ev_next e = ?b" "ev_prev e = ?a" "h ?b = Some x" "h ?a = Some y"
    by (auto simp: next_of_def prev_of_def)
  then obtain h' where h': "removeFromList ev h = Some h'" "next_of h' = (next_of h)(?a \<mapsto> ?b, ev \<mapsto> 0)"
    "prev_of h' = (prev_of h)(?b \<mapsto> ?a, ev \<mapsto> 0)" "data_of h' = data_of h" "\<And>p. p \<notin> {ev, ?b, ?a} \<Longrightarrow> h' p = h p"
    using removeFromList_effect [of h ev e x y] ne by auto
  have "links (next_of h) (prev_of h) (l # xs) \<longleftrightarrow> links (next_of h') (prev_of h') (l # xs)"
  proof (rule links_cong)
    fix a assume a: "a \<in> set (butlast (l # xs))"
    have "a \<noteq> ?a" using a dist by (intro butlast_not_last) simp_all
    moreover have "a \<noteq> ev" using in_set_butlastD [OF a] dist by auto
    ultimately show "next_of h a = next_of h' a" by (simp add: h'(2))
  next
    fix b assume b: "b \<in> set (tl (l # xs))"
    then have "b \<noteq> ev" "b \<noteq> ?b" using dist in_ab(1) by auto
    then show "prev_of h b = prev_of h' b" by (simp add: h'(3))
  qed
  moreover have "links (next_of h) (prev_of h) (ys @ [l]) \<longleftrightarrow> links (next_of h') (prev_of h') (ys @ [l])"
  proof (rule links_cong)
    fix a assume a: "a \<in> set (butlast (ys @ [l]))"
    then have "a \<noteq> ?a" "a \<noteq> ev" using dist in_ab(2) by auto
    then show "next_of h a = next_of h' a" by (simp add: h'(2))
  next
    fix b assume b: "b \<in> set (tl (ys @ [l]))"
    then have "b \<noteq> ev" "b \<noteq> ?b" using dist by (cases ys; auto)+
    then show "prev_of h b = prev_of h' b" by (simp add: h'(3))
  qed
  ultimately have "links (next_of h') (prev_of h') (l # xs @ ys @ [l])"
    using ne old(1,2) by (simp only: ring_seam) (simp add: h'(2,3))
  then have "dll l (xs @ ys) h'" using dist by (auto simp: dll_def)
  moreover have "h' p = h p" if "p \<notin> set (l # xs @ ev # ys)" for p
    by (rule h'(5)) (use that in_ab in auto)
  ultimately show ?thesis using h'(1,4) by blast
qed

lemma dll_next: "dll l xs h \<Longrightarrow> l # xs = us @ x # vs \<Longrightarrow> next_of h x = Some (hd (vs @ [l]))"
proof -
  assume d: "dll l xs h" and e: "l # xs = us @ x # vs"
  have r: "l # xs @ [l] = us @ x # (vs @ [l])" using arg_cong [OF e, of "\<lambda>zs. zs @ [l]"] by simp
  have "links (next_of h) (prev_of h) (us @ x # (vs @ [l]))" using d unfolding dll_def r by (rule conjunct2)
  then have "links (next_of h) (prev_of h) (x # vs @ [l])" by (rule links_append [THEN iffD1, THEN conjunct2])
  then show ?thesis by (simp add: links_Cons)
qed

interpretation ring: event_lists dll data_of next_of addToList removeFromList
proof unfold_locales
  fix l xs h x assume "dll l xs h" "x \<in> set (l # xs)"
  then obtain e where "h x = Some e" by (rule dll_Some)
  then show "data_of h x \<noteq> None" by (simp add: data_of_def)
next
  fix l xs ys h ev
  assume d: "dll l (xs @ ys) h" "ev \<notin> set (l # xs @ ys)" and "data_of h ev \<noteq> None"
  then obtain e where "h ev = Some e" by (auto simp: data_of_def)
  then obtain h' where h': "addToList ev (hd (ys @ [l])) h = Some h'" "dll l (xs @ ev # ys) h'" "data_of h' = data_of h"
    "\<forall>p. p \<notin> set (ev # l # xs @ ys) \<longrightarrow> h' p = h p" using dll_add [OF d] by blast
  have "dll l' zs h'" if "dll l' zs h" "set (l' # zs) \<inter> set (ev # l # xs @ ys) = {}" for l' zs
    by (rule dll_frame [OF that(1)]) (use that(2) h'(4) in blast)
  then show "\<exists>h'. addToList ev (hd (ys @ [l])) h = Some h' \<and> dll l (xs @ ev # ys) h' \<and> data_of h' = data_of h \<and>
    (\<forall>l' zs. dll l' zs h \<longrightarrow> set (l' # zs) \<inter> set (ev # l # xs @ ys) = {} \<longrightarrow> dll l' zs h')" using h' by blast
next
  fix l xs ev ys h
  assume "dll l (xs @ ev # ys) h"
  then obtain h' where h': "removeFromList ev h = Some h'" "dll l (xs @ ys) h'" "data_of h' = data_of h"
    "\<forall>p. p \<notin> set (l # xs @ ev # ys) \<longrightarrow> h' p = h p" using dll_remove by blast
  have "dll l' zs h'" if "dll l' zs h" "set (l' # zs) \<inter> set (l # xs @ ev # ys) = {}" for l' zs
    by (rule dll_frame [OF that(1)]) (use that(2) h'(4) in blast)
  then show "\<exists>h'. removeFromList ev h = Some h' \<and> dll l (xs @ ys) h' \<and> data_of h' = data_of h \<and>
    (\<forall>l' zs. dll l' zs h \<longrightarrow> set (l' # zs) \<inter> set (l # xs @ ev # ys) = {} \<longrightarrow> dll l' zs h')" using h' by blast
qed (simp add: dll_def, rule dll_next)

end
