(* ===== verification/RilEventLoop.thy ===== *)
theory RilEventLoop
  imports RilEventFacts "HOL-Library.Product_Lexorder"
begin

text \<open>
  The invariant of the event loop and one round of it: the timers stay sorted and expire in order, the
  table of watched descriptors agrees with the set given to \<open>select\<close>, and a round calls the expired
  timers and the ready descriptors exactly once, in that order.
\<close>

section \<open>Times\<close>

lemma timer_less_iff [simp]: "timer_less a b \<longleftrightarrow> a < b"
  by (cases a; cases b) auto

fun normal :: "timeval \<Rightarrow> bool" where
  "normal (s, u) \<longleftrightarrow> 0 \<le> u \<and> u < 1000000"

lemma timeradd_timersub: "normal a \<Longrightarrow> normal b \<Longrightarrow> timeradd a (timersub b a) = b"
  by (cases a; cases b) auto

lemma timersub_nonneg: "normal a \<Longrightarrow> normal b \<Longrightarrow> a \<le> b \<Longrightarrow> (0, 0) \<le> timersub b a \<and> normal (timersub b a)"
  by (cases a; cases b) auto

section \<open>The fields that the lists leave alone\<close>

definition due :: "heap \<Rightarrow> addr \<Rightarrow> timeval" where
  "due h p = (case h p of None \<Rightarrow> (0, 0) | Some e \<Rightarrow> timeout e)"

definition fd_of :: "heap \<Rightarrow> addr \<Rightarrow> int" where
  "fd_of h p = (case h p of None \<Rightarrow> - 1 | Some e \<Rightarrow> ev_fd e)"

definition index_of :: "heap \<Rightarrow> addr \<Rightarrow> int" where
  "index_of h p = (case h p of None \<Rightarrow> - 1 | Some e \<Rightarrow> ev_index e)"

lemma field_of_data:
  assumes "data_of h' = data_of h" and "\<And>e a b. f (e\<lparr>ev_next := a, ev_prev := b\<rparr>) = f e"
  shows "(case h' p of None \<Rightarrow> d | Some e \<Rightarrow> f e) = (case h p of None \<Rightarrow> d | Some e \<Rightarrow> f e)"
proof -
  have "map_option f (h' p) = map_option f (h p)"
    using fun_cong [OF assms(1), of p] assms(2) by (cases "h p"; cases "h' p") (auto simp: data_of_def, metis)
  then show ?thesis by (cases "h p"; cases "h' p") auto
qed

lemma same_data:
  assumes "data_of h' = data_of h"
  shows "due h' = due h" and "fd_of h' = fd_of h" and "index_of h' = index_of h" and "dom h' = dom h"
proof -
  show "due h' = due h" "fd_of h' = fd_of h" "index_of h' = index_of h"
    unfolding due_def fd_of_def index_of_def by (intro ext field_of_data [OF assms]; simp)+
  have "h' p = None \<longleftrightarrow> h p = None" for p
    using fun_cong [OF assms, of p] by (auto simp: data_of_def)
  then show "dom h' = dom h" by (auto simp: dom_def)
qed

section \<open>The invariant\<close>

definition watched :: "ev_state \<Rightarrow> nat set" where
  "watched s = {i. i < MAX_FD_EVENTS \<and> watch_table s ! i \<noteq> 0}"

definition entry_ok :: "ev_state \<Rightarrow> nat \<Rightarrow> bool" where
  "entry_ok s i \<longleftrightarrow> watch_table s ! i \<in> dom (events s) \<and> index_of (events s) (watch_table s ! i) = int i \<and>
     0 \<le> fd_of (events s) (watch_table s ! i) \<and> fd_of (events s) (watch_table s ! i) < FD_SETSIZE \<and>
     fd_of (events s) (watch_table s ! i) < nfds s"

definition watch_ok :: "ev_state \<Rightarrow> bool" where
  "watch_ok s \<longleftrightarrow> length (watch_table s) = MAX_FD_EVENTS \<and> (\<forall>i\<in>watched s. entry_ok s i) \<and>
     inj_on (\<lambda>i. fd_of (events s) (watch_table s ! i)) (watched s) \<and>
     readFds s = (\<lambda>i. fd_of (events s) (watch_table s ! i)) ` watched s"

text \<open>\<open>ts\<close> are the timers and \<open>ps\<close> the pending events.\<close>

definition loop_ok :: "addr list \<Rightarrow> addr list \<Rightarrow> ev_state \<Rightarrow> bool" where
  "loop_ok ts ps s \<longleftrightarrow> dll TIMER_LIST ts (events s) \<and> dll PENDING_LIST ps (events s) \<and>
     set (TIMER_LIST # ts) \<inter> set (PENDING_LIST # ps) = {} \<and> sorted (map (due (events s)) ts) \<and>
     (\<forall>p\<in>set (TIMER_LIST # PENDING_LIST # ts). fd_of (events s) p = - 1) \<and> watch_ok s"

lemma watch_ok_data:
  assumes "data_of h' = data_of (events s)"
  shows "watch_ok (s\<lparr>events := h'\<rparr>) \<longleftrightarrow> watch_ok s"
  by (simp add: watch_ok_def watched_def entry_ok_def same_data [OF assms])

lemma loop_okD:
  assumes "loop_ok ts ps s"
  shows "dll TIMER_LIST ts (events s)" and "dll PENDING_LIST ps (events s)"
    and "set (TIMER_LIST # ts) \<inter> set (PENDING_LIST # ps) = {}" and "sorted (map (due (events s)) ts)"
    and "\<And>p. p \<in> set (TIMER_LIST # PENDING_LIST # ts) \<Longrightarrow> fd_of (events s) p = - 1" and "watch_ok s"
  using assms unfolding loop_ok_def by blast+

lemma loop_ok_fired [simp]: "loop_ok ts ps (s\<lparr>fired := xs\<rparr>) = loop_ok ts ps s"
  by (simp add: loop_ok_def watch_ok_def watched_def entry_ok_def)

lemma watched_init: "watched (ril_event_init h) = {}"
  by (auto simp: watched_def ril_event_init_def nth_replicate)

lemma loop_ok_init: "loop_ok [] [] (ril_event_init h)"
  by (simp add: watched_init watch_ok_def loop_ok_def) (auto simp: loop_ok_def ril_event_init_def init_list_def dll_def next_of_def prev_of_def fd_of_def)

section \<open>Timers\<close>

lemma find_timer_dll:
  assumes "dll TIMER_LIST (us @ vs) h"
  shows "find_timer h t (hd (vs @ [TIMER_LIST])) = Some (hd (dropWhile (\<lambda>p. due h p < t) vs @ [TIMER_LIST]))"
  using assms
proof (induction vs arbitrary: us)
  case Nil
  then obtain e where "h TIMER_LIST = Some e" by (auto elim: dll_Some [where p = TIMER_LIST])
  then show ?case by (simp add: find_timer.simps)
next
  case (Cons v vs)
  then obtain e where e: "h v = Some e" by (auto elim: dll_Some [where p = v])
  have "next_of h v = Some (hd (vs @ [TIMER_LIST]))"
    by (rule dll_next [OF Cons.prems, of "TIMER_LIST # us"]) simp
  then have "ev_next e = hd (vs @ [TIMER_LIST])" using e by (simp add: next_of_def)
  moreover have "v \<noteq> TIMER_LIST" using Cons.prems by (auto simp: dll_def)
  ultimately show ?case using e Cons.IH [of "us @ [v]"] Cons.prems
    by (subst find_timer.simps) (simp add: due_def)
qed

lemma sorted_insert_at:
  fixes f :: "'a \<Rightarrow> 'b::linorder"
  assumes "sorted (map f xs)"
  shows "sorted (map f (takeWhile (\<lambda>x. f x < f y) xs @ y # dropWhile (\<lambda>x. f x < f y) xs))"
proof -
  let ?P = "\<lambda>x. f x < f y"
  have "sorted (map f (takeWhile ?P xs) @ map f (dropWhile ?P xs))" using assms by (simp flip: map_append)
  then have s: "sorted (map f (takeWhile ?P xs))" "sorted (map f (dropWhile ?P xs))"
    "\<forall>a\<in>set (takeWhile ?P xs). \<forall>b\<in>set (dropWhile ?P xs). f a \<le> f b"
    by (simp_all only: sorted_append) auto
  moreover have "\<forall>a\<in>set (takeWhile ?P xs). f a \<le> f y" by (auto dest!: set_takeWhileD)
  moreover have "\<forall>b\<in>set (dropWhile ?P xs). f y \<le> f b"
  proof (cases "dropWhile ?P xs")
    case (Cons z zs)
    then have "f y \<le> f z" using hd_dropWhile [of ?P xs] by (simp add: not_less)
    then show ?thesis using s(2) Cons by auto
  next
    case Nil
    show ?thesis unfolding Nil by simp
  qed
  ultimately show ?thesis by (simp add: sorted_append)
qed

text \<open>An event that is in neither list and not watched.\<close>

definition idle :: "addr list \<Rightarrow> addr list \<Rightarrow> addr \<Rightarrow> ev_state \<Rightarrow> bool" where
  "idle ts ps ev s \<longleftrightarrow> ev \<in> dom (events s) \<and> ev \<notin> set (TIMER_LIST # PENDING_LIST # ts @ ps) \<and> ev \<noteq> 0 \<and>
     ev \<notin> (\<lambda>i. watch_table s ! i) ` watched s"

lemma watch_ok_update:
  assumes "watch_ok s" and "\<And>p. p \<in> (\<lambda>i. watch_table s ! i) ` watched s \<Longrightarrow> h p = events s p"
  shows "watch_ok (s\<lparr>events := h\<rparr>)"
proof -
  have w: "watched (s\<lparr>events := h\<rparr>) = watched s" by (simp add: watched_def)
  have f: "fd_of h (watch_table s ! i) = fd_of (events s) (watch_table s ! i)" if "i \<in> watched s" for i
    using assms(2) [OF imageI [OF that]] by (simp add: fd_of_def)
  moreover have "entry_ok (s\<lparr>events := h\<rparr>) i" if "i \<in> watched s" for i
    using assms(1) f [OF that] that assms(2) [OF imageI [OF that]]
    by (auto simp: watch_ok_def entry_ok_def index_of_def dom_def)
  moreover have "inj_on (\<lambda>i. fd_of h (watch_table s ! i)) (watched s)"
    using assms(1) f unfolding watch_ok_def by (metis (no_types, lifting) inj_on_cong)
  moreover have "(\<lambda>i. fd_of h (watch_table s ! i)) ` watched s = (\<lambda>i. fd_of (events s) (watch_table s ! i)) ` watched s"
    using f by (rule image_cong [OF refl])
  ultimately show ?thesis using assms(1) by (simp add: watch_ok_def w)
qed

text \<open>\<open>ril\_timer\_add\<close> inserts the event before the first timer that is not earlier.\<close>

lemma timer_add_ok:
  fixes now tv :: timeval and ts ps :: "addr list"
  assumes ok: "loop_ok ts ps s" and ev: "idle ts ps ev s"
  defines "t \<equiv> timeradd now tv"
  defines "ts' \<equiv> takeWhile (\<lambda>p. due (events s) p < t) ts @ ev # dropWhile (\<lambda>p. due (events s) p < t) ts"
  shows "\<exists>s'. ril_timer_add now ev (Some tv) s = Some s' \<and> loop_ok ts' ps s' \<and> due (events s') ev = t \<and>
    (\<forall>p. p \<noteq> ev \<longrightarrow> due (events s') p = due (events s) p) \<and> watch_table s' = watch_table s \<and> fired s' = fired s"
proof -
  note d = loop_okD [OF ok]
  let ?P = "\<lambda>p. due (events s) p < t"
  obtain e0 where e0: "events s ev = Some e0" using ev by (auto simp: idle_def)
  define h where "h = (events s)(ev \<mapsto> e0\<lparr>ev_fd := - 1, timeout := t\<rparr>)"
  have frame: "h p = events s p" if "p \<noteq> ev" for p using that by (simp add: h_def)
  have nin: "ev \<notin> set (TIMER_LIST # PENDING_LIST # ts @ ps)" using ev by (simp add: idle_def)
  have dt: "dll TIMER_LIST ts h" by (rule dll_frame [OF d(1)]) (rule frame, use nin in auto)
  have dp: "dll PENDING_LIST ps h" by (rule dll_frame [OF d(2)]) (rule frame, use nin in auto)
  have due_h: "due h p = due (events s) p" if "p \<noteq> ev" for p using frame [OF that] by (simp add: due_def)
  have due_ev: "due h ev = t" by (simp add: h_def due_def)
  have due_ts: "due h p = due (events s) p" if "p \<in> set ts" for p by (rule due_h) (use that nin in auto)
  have tw: "takeWhile (\<lambda>p. due h p < t) ts = takeWhile ?P ts" "dropWhile (\<lambda>p. due h p < t) ts = dropWhile ?P ts"
    by (auto intro!: takeWhile_cong dropWhile_cong simp: due_ts)
  have find: "find_timer h t (hd (ts @ [TIMER_LIST])) = Some (hd (dropWhile ?P ts @ [TIMER_LIST]))"
    using find_timer_dll [of "[]" ts h t] dt tw by simp
  obtain e1 where e1: "events s TIMER_LIST = Some e1" "ev_next e1 = hd (ts @ [TIMER_LIST])"
    using ring.rep_first [OF d(1)] by (auto simp: next_of_def)
  have split: "dll TIMER_LIST (takeWhile ?P ts @ dropWhile ?P ts) h" using dt by simp
  have "ev \<notin> set (TIMER_LIST # takeWhile ?P ts @ dropWhile ?P ts)" using nin by simp
  moreover have "data_of h ev \<noteq> None" by (simp add: h_def data_of_def)
  ultimately obtain h' where h': "addToList ev (hd (dropWhile ?P ts @ [TIMER_LIST])) h = Some h'" "dll TIMER_LIST ts' h'"
    "data_of h' = data_of h"
    "\<And>l zs. dll l zs h \<Longrightarrow> set (l # zs) \<inter> set (ev # TIMER_LIST # takeWhile ?P ts @ dropWhile ?P ts) = {} \<Longrightarrow> dll l zs h'"
    using ring.add_rep [OF split] unfolding ts'_def by blast
  have run: "ril_timer_add now ev (Some tv) s = Some (s\<lparr>events := h'\<rparr>)"
    using e0 e1 find h'(1) by (simp add: ril_timer_add_def store_def h_def t_def)
  have dp': "dll PENDING_LIST ps h'" by (rule h'(4) [OF dp]) (use d(3) nin in auto)
  have set_ts': "set ts' = insert ev (set ts)"
    unfolding ts'_def by (metis Un_insert_right list.simps(15) set_append takeWhile_dropWhile_id)
  have "sorted (map (due h) ts')"
  proof -
    have "sorted (map (due h) ts)" using d(4) due_ts by (simp cong: map_cong)
    from sorted_insert_at [OF this, of ev] show ?thesis by (simp add: ts'_def due_ev tw)
  qed
  moreover have "fd_of h p = - 1" if "p \<in> set (TIMER_LIST # PENDING_LIST # ts')" for p
    using that d(5) [of p] set_ts' by (cases "p = ev") (auto simp: h_def fd_of_def)
  moreover have "watch_ok (s\<lparr>events := h'\<rparr>)"
  proof -
    have "watch_ok (s\<lparr>events := h\<rparr>)" by (rule watch_ok_update [OF d(6)]) (rule frame, use ev in \<open>auto simp: idle_def\<close>)
    then show ?thesis using watch_ok_data [of h' "s\<lparr>events := h\<rparr>"] h'(3) by simp
  qed
  ultimately have "loop_ok ts' ps (s\<lparr>events := h'\<rparr>)"
    using h'(2) dp' d(3) nin set_ts' by (auto simp: loop_ok_def same_data [OF h'(3)])
  then show ?thesis using run due_ev due_h by (simp add: same_data [OF h'(3)])
qed

text \<open>The expired timers move to the end of the pending list.\<close>

lemma expire_timers_moves:
  assumes "dll TIMER_LIST ts h" and "dll PENDING_LIST ps h" and "set (TIMER_LIST # ts) \<inter> set (PENDING_LIST # ps) = {}"
  shows "\<exists>h'. expire_timers now (hd (ts @ [TIMER_LIST])) h = Some h' \<and> data_of h' = data_of h \<and>
    dll TIMER_LIST (dropWhile (\<lambda>p. due h p < now) ts) h' \<and> dll PENDING_LIST (ps @ takeWhile (\<lambda>p. due h p < now) ts) h'"
  using assms
proof (induction ts arbitrary: ps h)
  case Nil
  then show ?case by (simp add: expire_timers.simps)
next
  case (Cons t ts)
  obtain e where e: "h t = Some e" by (rule dll_Some [OF Cons.prems(1), of t]) simp
  have n: "ev_next e = hd (ts @ [TIMER_LIST])" using ring.rep_second [OF Cons.prems(1)] e by (simp add: next_of_def)
  have t: "t \<noteq> TIMER_LIST" "due h t = timeout e" using Cons.prems(1) e by (auto simp: dll_def due_def)
  show ?case
  proof (cases "due h t < now")
    case False
    then show ?thesis using Cons.prems e t by (simp add: expire_timers.simps)
  next
    case True
    obtain h1 h' where h: "removeFromList t h = Some h1" "addToList t PENDING_LIST h1 = Some h'" "dll TIMER_LIST ts h'"
      "dll PENDING_LIST (ps @ [t]) h'" "data_of h' = data_of h"
      using ring.move_rep [OF Cons.prems] by blast
    have "set (TIMER_LIST # ts) \<inter> set (PENDING_LIST # ps @ [t]) = {}"
      using Cons.prems(1,3) by (auto simp: dll_def)
    from Cons.IH [OF h(3,4) this] obtain h'' where h'': "expire_timers now (hd (ts @ [TIMER_LIST])) h' = Some h''"
      "data_of h'' = data_of h" "dll TIMER_LIST (dropWhile (\<lambda>p. due h p < now) ts) h''"
      "dll PENDING_LIST ((ps @ [t]) @ takeWhile (\<lambda>p. due h p < now) ts) h''"
      unfolding same_data(1) [OF h(5)] h(5) by blast
    then show ?thesis using True e n t h(1,2) by (subst expire_timers.simps) simp
  qed
qed

lemma processTimeouts_ok:
  fixes now :: timeval and ts ps :: "addr list"
  assumes ok: "loop_ok ts ps s"
  defines "old \<equiv> takeWhile (\<lambda>p. due (events s) p < now) ts" and "later \<equiv> dropWhile (\<lambda>p. due (events s) p < now) ts"
  shows "\<exists>h. processTimeouts now s = Some (s\<lparr>events := h\<rparr>) \<and> loop_ok later (ps @ old) (s\<lparr>events := h\<rparr>) \<and>
    data_of h = data_of (events s)"
proof -
  note d = loop_okD [OF ok]
  have s: "ts = old @ later" by (simp add: old_def later_def)
  obtain e where e: "events s TIMER_LIST = Some e" "ev_next e = hd (ts @ [TIMER_LIST])"
    using ring.rep_first [OF d(1)] by (auto simp: next_of_def)
  obtain h where h: "expire_timers now (hd (ts @ [TIMER_LIST])) (events s) = Some h" "data_of h = data_of (events s)"
    "dll TIMER_LIST later h" "dll PENDING_LIST (ps @ old) h"
    using expire_timers_moves [OF d(1,2,3), of now] by (auto simp: old_def later_def)
  have dis: "set old \<inter> set later = {}" "TIMER_LIST \<notin> set ts" using ring.rep_distinct [OF d(1)] s by auto
  have "loop_ok later (ps @ old) (s\<lparr>events := h\<rparr>)"
    using h(3,4) d(3-6) dis unfolding s loop_ok_def
    by (auto simp: watch_ok_data [OF h(2)] same_data [OF h(2)] sorted_append)
  then show ?thesis using e h(1,2) by (intro exI [of _ h]) (simp add: processTimeouts_def)
qed

text \<open>After the wait that \<open>calcNextTimeout\<close> gives, the first timer is due, and no later than needed.\<close>

lemma calcNextTimeout_ok:
  assumes ok: "loop_ok ts ps s" and "normal now" and "\<And>p. p \<in> set ts \<Longrightarrow> normal (due (events s) p)"
  shows "case ts of
      [] \<Rightarrow> calcNextTimeout now s = Some None
    | t # _ \<Rightarrow> \<exists>w. calcNextTimeout now s = Some (Some w) \<and> (0, 0) \<le> w \<and> normal w \<and>
        timeradd now w = max now (due (events s) t)"
proof -
  note d = loop_okD [OF ok]
  obtain e where e: "events s TIMER_LIST = Some e" "ev_next e = hd (ts @ [TIMER_LIST])"
    using ring.rep_first [OF d(1)] by (auto simp: next_of_def)
  show ?thesis
  proof (cases ts)
    case Nil
    then show ?thesis using e by (simp add: calcNextTimeout_def)
  next
    case (Cons t ts')
    obtain x where x: "events s t = Some x" by (rule dll_Some [OF d(1), of t]) (simp add: Cons)
    have t: "t \<noteq> TIMER_LIST" using ring.rep_distinct [OF d(1)] Cons by auto
    have n: "normal (timeout x)" and dx: "due (events s) t = timeout x" using assms(3) [of t] x Cons by (simp_all add: due_def)
    have 0: "timeradd now (0, 0) = now" using assms(2) by (cases now) auto
    have less: "(0, 0) \<le> timersub (timeout x) now \<and> normal (timersub (timeout x) now) \<and>
        timeradd now (timersub (timeout x) now) = timeout x" if "now < timeout x"
      using timersub_nonneg [OF assms(2) n] timeradd_timersub [OF assms(2) n] that by simp
    show ?thesis
    proof (cases "now < timeout x")
      case True
      then show ?thesis using e x t dx less by (simp add: Cons calcNextTimeout_def max_absorb2 less_imp_le del: timersub.simps timeradd.simps)
    next
      case False
      then show ?thesis using e x t dx 0 by (simp add: Cons calcNextTimeout_def max_def not_less) auto
    qed
  qed
qed

section \<open>Watched descriptors\<close>

lemma watched_entry:
  assumes "watch_ok s" and "i \<in> watched s"
  obtains e where "events s (watch_table s ! i) = Some e" "ev_index e = int i" "0 \<le> ev_fd e" "ev_fd e < FD_SETSIZE"
    "ev_fd e < nfds s" "ev_fd e \<in> readFds s"
proof -
  have "entry_ok s i" "fd_of (events s) (watch_table s ! i) \<in> readFds s" using assms by (auto simp: watch_ok_def)
  then show ?thesis using that by (auto simp: entry_ok_def index_of_def fd_of_def)
qed

lemma watched_inj: "watch_ok s \<Longrightarrow> inj_on (\<lambda>i. watch_table s ! i) (watched s)"
  by (intro inj_onI) (metis entry_ok_def of_nat_eq_iff watch_ok_def)

lemma greatest_fd_ok:
  "(\<And>p. p \<in> set ps \<Longrightarrow> p \<noteq> 0 \<Longrightarrow> p \<in> dom h) \<Longrightarrow>
     \<exists>n. greatest_fd h ps m = Some n \<and> m \<le> n \<and> (\<forall>p\<in>set ps. p \<noteq> 0 \<longrightarrow> fd_of h p \<le> n)"
proof (induction ps arbitrary: m)
  case (Cons p ps)
  show ?case
  proof (cases "p = 0")
    case True
    then show ?thesis using Cons.IH [of m] Cons.prems by auto
  next
    case False
    then obtain e where e: "h p = Some e" using Cons.prems [of p] by auto
    obtain n where n: "greatest_fd h ps (if ev_fd e > m then ev_fd e else m) = Some n" "(if ev_fd e > m then ev_fd e else m) \<le> n"
      "\<forall>p\<in>set ps. p \<noteq> 0 \<longrightarrow> fd_of h p \<le> n" using Cons.IH [of "if ev_fd e > m then ev_fd e else m"] Cons.prems by auto
    then show ?thesis using False e by (intro exI [of _ n]) (auto simp: fd_of_def split: if_splits)
  qed
qed simp

lemma data_index:
  assumes "h p = Some e" and "h' = h(p \<mapsto> e\<lparr>ev_index := i\<rparr>)"
  shows "next_of h' = next_of h" and "prev_of h' = prev_of h" and "fd_of h' = fd_of h" and "due h' = due h" and "dom h' = dom h"
    and "index_of h' q = (if q = p then i else index_of h q)"
  unfolding assms(2) using assms(1) by (auto simp: next_of_def prev_of_def fd_of_def due_def index_of_def fun_eq_iff)

lemma loop_ok_index:
  assumes "loop_ok ts ps s" and "events s p = Some e" and "events s' = (events s)(p \<mapsto> e\<lparr>ev_index := i\<rparr>)" and "watch_ok s'"
  shows "loop_ok ts ps s'"
  using assms(1,4) unfolding loop_ok_def dll_def by (simp add: data_index [OF assms(2,3)])

lemma removeWatch_ok:
  assumes ok: "loop_ok ts ps s" and i: "i \<in> watched s"
  shows "\<exists>s'. removeWatch (watch_table s ! i) i s = Some s' \<and> loop_ok ts ps s' \<and> watch_table s' = (watch_table s)[i := 0] \<and>
    readFds s' = readFds s - {fd_of (events s) (watch_table s ! i)} \<and> fired s' = fired s \<and>
    fd_of (events s') = fd_of (events s) \<and> due (events s') = due (events s) \<and>
    (\<forall>p. map_option persist (events s' p) = map_option persist (events s p))"
proof -
  note w = loop_okD(6) [OF ok]
  let ?p = "watch_table s ! i"
  obtain e where e: "events s ?p = Some e" "ev_index e = int i" "0 \<le> ev_fd e" "ev_fd e < nfds s"
    using watched_entry [OF w i] by blast
  define h where "h = (events s)(?p \<mapsto> e\<lparr>ev_index := - 1\<rparr>)"
  note h = data_index [OF e(1) h_def]
  define tbl where "tbl = (watch_table s)[i := 0]"
  have len: "length (watch_table s) = MAX_FD_EVENTS" "i < length (watch_table s)" using w i by (auto simp: watch_ok_def watched_def)
  have ij: "watch_table s ! j \<noteq> ?p" if "j \<in> watched s" "j \<noteq> i" for j
    using inj_onD [OF watched_inj [OF w] _ that(1) i] that(2) by blast
  have wd: "{j. j < MAX_FD_EVENTS \<and> tbl ! j \<noteq> 0} = watched s - {i}"
    using len by (auto simp: tbl_def watched_def nth_list_update)
  have "p \<in> dom h" if p: "p \<in> set tbl" "p \<noteq> 0" for p
  proof -
    obtain j where "j < length tbl" "p = tbl ! j" using p by (metis in_set_conv_nth)
    then have "j \<in> watched s - {i}" "p = watch_table s ! j" using wd p(2) len by (auto simp: tbl_def nth_list_update split: if_splits)
    then show ?thesis using w h(5) by (auto simp: watch_ok_def entry_ok_def)
  qed
  then obtain m where m: "greatest_fd h tbl 0 = Some m" "0 \<le> m" "\<forall>p\<in>set tbl. p \<noteq> 0 \<longrightarrow> fd_of h p \<le> m"
    using greatest_fd_ok [of tbl h 0] by blast
  define n where "n = (if ev_fd e + 1 = nfds s then m + 1 else nfds s)"
  define s' where "s' = s\<lparr>events := h, readFds := readFds s - {ev_fd e}, nfds := n, watch_table := tbl\<rparr>"
  have run: "removeWatch ?p i s = Some s'"
    using e m(1) by (simp add: removeWatch_def h_def [symmetric] tbl_def [symmetric] n_def s'_def)
  have w': "watched s' = watched s - {i}" using wd by (simp add: watched_def s'_def)
  have tj: "tbl ! j = watch_table s ! j" if "j \<in> watched s - {i}" for j using that by (simp add: tbl_def)
  have "entry_ok s' j" if j: "j \<in> watched s - {i}" for j
  proof -
    have o: "entry_ok s j" using w j by (auto simp: watch_ok_def)
    have "j < length tbl" "tbl ! j \<noteq> 0" using j len unfolding tj [OF j] by (simp_all add: tbl_def watched_def)
    then have "fd_of h (tbl ! j) \<le> m" using m(3) nth_mem by blast
    then have "fd_of h (watch_table s ! j) < n" using o unfolding tj [OF j] h(3) by (simp add: n_def entry_ok_def)
    then show ?thesis using o ij [of j] j h tj [OF j] by (auto simp: entry_ok_def s'_def)
  qed
  moreover have "inj_on (\<lambda>j. fd_of h (tbl ! j)) (watched s - {i})"
  proof (rule inj_onI)
    fix a b assume ab: "a \<in> watched s - {i}" "b \<in> watched s - {i}" "fd_of h (tbl ! a) = fd_of h (tbl ! b)"
    have "inj_on (\<lambda>j. fd_of (events s) (watch_table s ! j)) (watched s)" using w by (simp add: watch_ok_def)
    then show "a = b" by (rule inj_onD) (use ab tj [OF ab(1)] tj [OF ab(2)] in \<open>simp_all add: h(3)\<close>)
  qed
  moreover have "readFds s - {ev_fd e} = (\<lambda>j. fd_of h (tbl ! j)) ` (watched s - {i})"
  proof -
    let ?f = "\<lambda>j. fd_of (events s) (watch_table s ! j)"
    have "?f ` (watched s - {i}) = ?f ` watched s - ?f ` {i}"
      by (rule inj_on_image_set_diff) (use w i in \<open>auto simp: watch_ok_def\<close>)
    moreover have "(\<lambda>j. fd_of h (tbl ! j)) ` (watched s - {i}) = ?f ` (watched s - {i})"
      by (rule image_cong) (simp_all only: tj h(3))
    ultimately show ?thesis using w e(1) by (simp add: watch_ok_def fd_of_def)
  qed
  ultimately have "watch_ok s'" using len w' by (simp add: watch_ok_def s'_def) (simp add: tbl_def)
  then have "loop_ok ts ps s'" by (rule loop_ok_index [OF ok e(1), of s' "- 1", rotated]) (simp add: s'_def h_def)
  then show ?thesis using run e(1) h by (auto simp: s'_def tbl_def fd_of_def h_def)
qed

lemma free_entry_None: "free_entry xs = None \<longleftrightarrow> 0 \<notin> set xs"
  by (induction xs) auto

lemma free_entry_Some: "free_entry xs = Some i \<Longrightarrow> i < length xs \<and> xs ! i = 0 \<and> (\<forall>j<i. xs ! j \<noteq> 0)"
  by (induction xs arbitrary: i) (auto split: if_splits simp: nth_Cons')

lemma idle_not_watched: "idle ts ps ev s \<Longrightarrow> j \<in> watched s \<Longrightarrow> watch_table s ! j \<noteq> ev"
  by (auto simp: idle_def)

text \<open>\<open>ril\_event\_add\<close> takes the first free entry; when there is none it does nothing.\<close>

lemma event_add_ok:
  assumes ok: "loop_ok ts ps s" and ev: "idle ts ps ev s"
    and fd: "0 \<le> fd_of (events s) ev" "fd_of (events s) ev < FD_SETSIZE" "fd_of (events s) ev \<notin> readFds s"
  shows "\<exists>s'. ril_event_add ev s = Some s' \<and> loop_ok ts ps s' \<and> fired s' = fired s \<and>
    (case free_entry (watch_table s) of
       None \<Rightarrow> s' = s
     | Some i \<Rightarrow> watch_table s' = (watch_table s)[i := ev] \<and> readFds s' = insert (fd_of (events s) ev) (readFds s))"
proof (cases "free_entry (watch_table s)")
  case None
  then show ?thesis using ok by (simp add: ril_event_add_def)
next
  case (Some i)
  note w = loop_okD(6) [OF ok]
  obtain e where e: "events s ev = Some e" using ev by (auto simp: idle_def)
  have fde: "fd_of (events s) ev = ev_fd e" using e by (simp add: fd_of_def)
  have i: "i < MAX_FD_EVENTS" "watch_table s ! i = 0" "i \<notin> watched s" and len: "length (watch_table s) = MAX_FD_EVENTS"
    using free_entry_Some [OF Some] w by (auto simp: watch_ok_def watched_def)
  define h where "h = (events s)(ev \<mapsto> e\<lparr>ev_index := int i\<rparr>)"
  note h = data_index [OF e h_def]
  define tbl where "tbl = (watch_table s)[i := ev]"
  define n where "n = (if ev_fd e \<ge> nfds s then ev_fd e + 1 else nfds s)"
  define s' where "s' = s\<lparr>events := h, readFds := insert (ev_fd e) (readFds s), nfds := n, watch_table := tbl\<rparr>"
  have run: "ril_event_add ev s = Some s'"
    using Some e fd by (simp add: ril_event_add_def fde s'_def h_def tbl_def n_def)
  have w': "watched s' = insert i (watched s)"
    using i len ev by (auto simp: watched_def s'_def tbl_def nth_list_update idle_def)
  have ti: "tbl ! i = ev" using i len by (simp add: tbl_def)
  have tj: "tbl ! j = watch_table s ! j" if "j \<in> watched s" for j
    using that i(3) by (cases "j = i") (simp_all add: tbl_def)
  have f: "fd_of h (tbl ! j) = fd_of (events s) (watch_table s ! j)" if "j \<in> watched s" for j
    unfolding tj [OF that] h(3) ..
  have im: "(\<lambda>j. fd_of h (tbl ! j)) ` watched s = readFds s" using w image_cong [OF refl f] by (simp add: watch_ok_def)
  have "entry_ok s' j" if j: "j \<in> watched s" for j
  proof -
    have o: "entry_ok s j" using w j by (auto simp: watch_ok_def)
    then have "fd_of (events s) (watch_table s ! j) < n" by (simp add: n_def entry_ok_def)
    then show ?thesis using o idle_not_watched [OF ev j] h tj [OF j] by (auto simp: entry_ok_def s'_def)
  qed
  moreover have "entry_ok s' i" using h ti fd fde e by (auto simp: entry_ok_def s'_def n_def)
  moreover have "inj_on (\<lambda>j. fd_of h (tbl ! j)) (insert i (watched s))"
  proof -
    have "inj_on (\<lambda>j. fd_of h (tbl ! j)) (watched s) \<longleftrightarrow> inj_on (\<lambda>j. fd_of (events s) (watch_table s ! j)) (watched s)"
      using f by (rule inj_on_cong)
    then show ?thesis using im w fd(3) i(3) ti h(3) unfolding inj_on_insert by (simp add: watch_ok_def)
  qed
  moreover have "insert (ev_fd e) (readFds s) = (\<lambda>j. fd_of h (tbl ! j)) ` insert i (watched s)"
    unfolding image_insert im using ti h(3) fde by simp
  ultimately have "watch_ok s'" using len w' by (simp add: watch_ok_def s'_def) (simp add: tbl_def)
  then have "loop_ok ts ps s'" by (rule loop_ok_index [OF ok e, of s' "int i", rotated]) (simp add: s'_def h_def)
  then show ?thesis using run Some by (simp add: s'_def tbl_def fde)
qed

lemma event_add_fd:
  assumes "loop_ok ts ps s" and "idle ts ps ev s"
    and "0 \<le> fd_of (events s) ev" and "fd_of (events s) ev < FD_SETSIZE" and "fd_of (events s) ev \<notin> readFds s"
    and "free_entry (watch_table s) = Some i"
  shows "\<exists>s'. ril_event_add ev s = Some s' \<and> loop_ok ts ps s' \<and> watch_table s' = (watch_table s)[i := ev] \<and>
    readFds s' = insert (fd_of (events s) ev) (readFds s) \<and> fd_of (events s') ev = fd_of (events s) ev"
proof -
  obtain s' where "ril_event_add ev s = Some s'" "loop_ok ts ps s'" "watch_table s' = (watch_table s)[i := ev]"
    "readFds s' = insert (fd_of (events s) ev) (readFds s)"
    using event_add_ok [OF assms(1-5)] assms(6) by auto
  moreover from this(1) have "fd_of (events s') ev = fd_of (events s) ev"
    using assms(3,4,6) by (auto simp: ril_event_add_def fd_of_def split: bind_splits if_splits option.splits)
  ultimately show ?thesis by blast
qed

lemma event_del_ok:
  assumes ok: "loop_ok ts ps s" and i: "i \<in> watched s"
  shows "\<exists>s'. ril_event_del (watch_table s ! i) s = Some s' \<and> loop_ok ts ps s' \<and> watch_table s' = (watch_table s)[i := 0] \<and>
    readFds s' = readFds s - {fd_of (events s) (watch_table s ! i)} \<and> fired s' = fired s"
proof -
  obtain e where e: "events s (watch_table s ! i) = Some e" "ev_index e = int i" using watched_entry [OF loop_okD(6) [OF ok] i] by blast
  moreover have "i < MAX_FD_EVENTS" using i by (simp add: watched_def)
  ultimately show ?thesis using removeWatch_ok [OF ok i] by (auto simp: ril_event_del_def)
qed

lemma event_del_unwatched: "index_of (events s) ev = - 1 \<Longrightarrow> ev \<in> dom (events s) \<Longrightarrow> ril_event_del ev s = Some s"
  by (auto simp: ril_event_del_def index_of_def)

section \<open>A round of the loop\<close>

text \<open>The watched events among the entries \<open>is\<close> whose descriptors are ready.\<close>

definition ready_events :: "int set \<Rightarrow> ev_state \<Rightarrow> nat list \<Rightarrow> addr list" where
  "ready_events rfds s is = map (\<lambda>i. watch_table s ! i)
     (filter (\<lambda>i. watch_table s ! i \<noteq> 0 \<and> fd_of (events s) (watch_table s ! i) \<in> rfds) is)"

lemma ready_events_cong:
  "(\<And>i. i \<in> set is \<Longrightarrow> watch_table s' ! i = watch_table s ! i) \<Longrightarrow> fd_of (events s') = fd_of (events s) \<Longrightarrow>
     ready_events rfds s' is = ready_events rfds s is"
  unfolding ready_events_def by (intro map_cong filter_cong) auto

lemma pend_ok:
  assumes ok: "loop_ok ts ps s" and i: "i \<in> watched s" and p: "watch_table s ! i \<notin> set ps"
  shows "\<exists>h. addToList (watch_table s ! i) PENDING_LIST (events s) = Some h \<and>
    loop_ok ts (ps @ [watch_table s ! i]) (s\<lparr>events := h\<rparr>) \<and> data_of h = data_of (events s)"
proof -
  let ?p = "watch_table s ! i"
  note d = loop_okD [OF ok]
  obtain e where e: "events s ?p = Some e" "0 \<le> ev_fd e" using watched_entry [OF d(6) i] by blast
  have "?p \<notin> set (TIMER_LIST # PENDING_LIST # ts)" using d(5) [of ?p] e by (auto simp: fd_of_def)
  then have nin: "?p \<notin> set (PENDING_LIST # ps @ [])" "?p \<notin> set (TIMER_LIST # ts)" using p by auto
  obtain h where h: "addToList ?p PENDING_LIST (events s) = Some h" "dll PENDING_LIST (ps @ [?p]) h" "data_of h = data_of (events s)"
    "\<And>l zs. dll l zs (events s) \<Longrightarrow> set (l # zs) \<inter> set (?p # PENDING_LIST # ps) = {} \<Longrightarrow> dll l zs h"
    using ring.add_rep [of PENDING_LIST ps "[]" "events s" ?p] d(2) nin(1) e(1) by (auto simp: data_of_def)
  have "dll TIMER_LIST ts h" by (rule h(4) [OF d(1)]) (use d(3) nin(2) in auto)
  then have "loop_ok ts (ps @ [?p]) (s\<lparr>events := h\<rparr>)" using h(2) d(3-6) nin(2) unfolding loop_ok_def
    by (auto simp: watch_ok_data [OF h(3)] same_data [OF h(3)])
  then show ?thesis using h by blast
qed

lemma read_readies_ok:
  assumes "loop_ok ts ps s" and "distinct is" and "set is \<subseteq> {..<MAX_FD_EVENTS}"
    and "\<And>i. i \<in> set is \<Longrightarrow> i \<in> watched s \<Longrightarrow> watch_table s ! i \<notin> set ps"
  shows "\<exists>s'. read_readies rfds is n s = Some s' \<and> loop_ok ts (ps @ take (nat n) (ready_events rfds s is)) s' \<and> fired s' = fired s"
  using assms
proof (induction "is" arbitrary: n ps s)
  case Nil
  then show ?case by (simp add: ready_events_def)
next
  case (Cons i "is")
  let ?p = "watch_table s ! i"
  have rest: "\<exists>s'. read_readies rfds is n s = Some s' \<and> loop_ok ts (ps @ take (nat n) (ready_events rfds s is)) s' \<and> fired s' = fired s"
    using Cons.IH [of ps s n] Cons.prems by auto
  have "\<exists>e. events s ?p = Some e" if "i \<in> watched s"
    using watched_entry [OF loop_okD(6) [OF Cons.prems(1)] that] by blast
  moreover have "?p \<noteq> 0 \<Longrightarrow> i \<in> watched s" using Cons.prems(3) by (simp add: watched_def)
  ultimately consider "n \<le> 0" | "0 < n" "?p = 0" | e where "0 < n" "i \<in> watched s" "events s ?p = Some e"
    by (metis not_le)
  then show ?case
  proof cases
    case 1
    then show ?thesis using Cons.prems by simp
  next
    case 2
    then show ?thesis using rest by (simp add: ready_events_def)
  next
    case (3 e)
    have p0: "?p \<noteq> 0" using 3(2) by (simp add: watched_def)
    have fe: "fd_of (events s) ?p = ev_fd e" using 3(3) by (simp add: fd_of_def)
    show ?thesis
    proof (cases "ev_fd e \<in> rfds")
      case False
      then show ?thesis using 3 p0 fe rest by (simp add: ready_events_def)
    next
      case True
      obtain h where h: "addToList ?p PENDING_LIST (events s) = Some h" "loop_ok ts (ps @ [?p]) (s\<lparr>events := h\<rparr>)"
        "data_of h = data_of (events s)" using pend_ok [OF Cons.prems(1) 3(2)] Cons.prems(4) [of i] 3(2) by auto
      obtain s1 where s1: "(if persist e then Some (s\<lparr>events := h\<rparr>) else removeWatch ?p i (s\<lparr>events := h\<rparr>)) = Some s1"
        "loop_ok ts (ps @ [?p]) s1" "fired s1 = fired s" "fd_of (events s1) = fd_of (events s)"
        "\<And>j. j \<noteq> i \<Longrightarrow> watch_table s1 ! j = watch_table s ! j"
        using removeWatch_ok [OF h(2), of i] 3(2) h(2) same_data(2) [OF h(3)] by (cases "persist e") (auto simp: watched_def)
      have same: "ready_events rfds s1 is = ready_events rfds s is"
        by (rule ready_events_cong [OF s1(5) s1(4)]) (use Cons.prems(2) in auto)
      have nin: "watch_table s1 ! j \<notin> set (ps @ [?p])" if j: "j \<in> set is" "j \<in> watched s1" for j
      proof -
        have ji: "j \<noteq> i" using j Cons.prems(2) by auto
        have js: "j \<in> watched s" using j s1(5) [OF ji] by (simp add: watched_def)
        then have "watch_table s ! j \<noteq> ?p"
          using inj_onD [OF watched_inj [OF loop_okD(6) [OF Cons.prems(1)]], of j i] 3(2) ji by blast
        then show ?thesis using Cons.prems(4) [of j] j(1) js s1(5) [OF ji] by simp
      qed
      obtain s' where s': "read_readies rfds is (n - 1) s1 = Some s'"
        "loop_ok ts ((ps @ [?p]) @ take (nat (n - 1)) (ready_events rfds s is)) s'" "fired s' = fired s"
        using Cons.IH [OF s1(2), of "n - 1"] nin Cons.prems(2,3) s1(3) unfolding same by auto
      have run: "read_readies rfds (i # is) n s = Some s'"
        using 3 p0 True h(1) s1(1) s'(1) by (simp add: Let_def)
      have "ready_events rfds s (i # is) = ?p # ready_events rfds s is" using p0 True fe by (simp add: ready_events_def)
      moreover have "nat n = Suc (nat (n - 1))" using 3(1) by simp
      ultimately show ?thesis using run s'(2,3) by simp
    qed
  qed
qed

text \<open>What the loop relies on from a callback: called for an event that is in neither list, it returns
  with the invariant, the events still pending and nothing else called. It may add timers and watched
  descriptors, and delete or free events that are not pending.\<close>

definition callback_ok :: "(addr \<Rightarrow> ev_state \<Rightarrow> ev_state option) \<Rightarrow> bool" where
  "callback_ok cb \<longleftrightarrow> (\<forall>ev ts ps s. loop_ok ts ps s \<longrightarrow> ev \<in> dom (events s) \<longrightarrow>
     ev \<notin> set (TIMER_LIST # PENDING_LIST # ts @ ps) \<longrightarrow>
     (\<exists>ts' s'. cb ev s = Some s' \<and> loop_ok ts' ps s' \<and> fired s' = fired s))"

lemma unpend_ok:
  assumes ok: "loop_ok ts (p # ps) s"
  shows "\<exists>h. removeFromList p (events s) = Some h \<and> loop_ok ts ps (s\<lparr>events := h\<rparr>) \<and> p \<in> dom h \<and>
    p \<notin> set (TIMER_LIST # PENDING_LIST # ts @ ps)"
proof -
  note d = loop_okD [OF ok]
  have d2: "dll PENDING_LIST ([] @ p # ps) (events s)" using d(2) by simp
  obtain h where h: "removeFromList p (events s) = Some h" "dll PENDING_LIST ps h" "data_of h = data_of (events s)"
    "\<And>l zs. dll l zs (events s) \<Longrightarrow> set (l # zs) \<inter> set (PENDING_LIST # p # ps) = {} \<Longrightarrow> dll l zs h"
    using ring.remove_rep [OF d2] by auto
  have "dll TIMER_LIST ts h" by (rule h(4) [OF d(1)]) (use d(3) in auto)
  then have "loop_ok ts ps (s\<lparr>events := h\<rparr>)" using h(2) d(3-6) unfolding loop_ok_def
    by (auto simp: watch_ok_data [OF h(3)] same_data [OF h(3)])
  moreover have "p \<in> dom h" using ring.rep_data [OF d(2), of p] same_data(4) [OF h(3)] by (auto simp: data_of_def)
  ultimately show ?thesis using h(1) ring.rep_distinct [OF d(2)] d(3) by (intro exI [of _ h]) auto
qed

lemma fire_events_ok:
  assumes "loop_ok ts ps s" and "callback_ok cb"
  shows "\<exists>ts' s'. fire_events cb (hd (ps @ [PENDING_LIST])) s = Some s' \<and> loop_ok ts' [] s' \<and> fired s' = fired s @ ps"
  using assms(1)
proof (induction ps arbitrary: ts s)
  case Nil
  then show ?case by (auto simp: fire_events.simps)
next
  case (Cons p ps)
  note d = loop_okD [OF Cons.prems]
  obtain e where e: "events s p = Some e" by (rule dll_Some [OF d(2), of p]) simp
  have n: "ev_next e = hd (ps @ [PENDING_LIST])" using ring.rep_second [OF d(2)] e by (simp add: next_of_def)
  have p: "p \<noteq> PENDING_LIST" using ring.rep_distinct [OF d(2)] by simp
  obtain h where h: "removeFromList p (events s) = Some h" "loop_ok ts ps (s\<lparr>events := h\<rparr>)" "p \<in> dom h"
    "p \<notin> set (TIMER_LIST # PENDING_LIST # ts @ ps)" using unpend_ok [OF Cons.prems] by blast
  let ?s1 = "s\<lparr>events := h, fired := fired s @ [p]\<rparr>"
  have "loop_ok ts ps ?s1" using h(2) loop_ok_fired [where s = "s\<lparr>events := h\<rparr>"] by simp
  then obtain ts2 s2 where s2: "cb p ?s1 = Some s2" "loop_ok ts2 ps s2" "fired s2 = fired s @ [p]"
    using assms(2) h(3,4) unfolding callback_ok_def by fastforce
  obtain ts' s' where "fire_events cb (hd (ps @ [PENDING_LIST])) s2 = Some s'" "loop_ok ts' [] s'" "fired s' = fired s2 @ ps"
    using Cons.IH [OF s2(2)] by blast
  then show ?case using e n p h(1) s2 by (subst fire_events.simps) auto
qed

lemma firePending_ok:
  assumes ok: "loop_ok ts ps s" and "callback_ok cb"
  shows "\<exists>ts' s'. firePending cb s = Some s' \<and> loop_ok ts' [] s' \<and> fired s' = fired s @ ps"
proof -
  obtain e where "events s PENDING_LIST = Some e" "ev_next e = hd (ps @ [PENDING_LIST])"
    using ring.rep_first [OF loop_okD(2) [OF ok]] by (auto simp: next_of_def)
  then show ?thesis using fire_events_ok [OF assms] by (simp add: firePending_def)
qed

lemma loop_round_ok:
  fixes rfds :: "int set"
  assumes ok: "loop_ok ts [] s" and cb: "callback_ok cb"
  shows "\<exists>ts' s'. loop_round cb now (Ready rfds n) s = Some (True, s') \<and> loop_ok ts' [] s' \<and>
    fired s' = fired s @ takeWhile (\<lambda>p. due (events s) p < now) ts @ take (nat n) (ready_events rfds s [0..<MAX_FD_EVENTS])"
proof -
  let ?old = "takeWhile (\<lambda>p. due (events s) p < now) ts"
  obtain h where h: "processTimeouts now s = Some (s\<lparr>events := h\<rparr>)"
    "loop_ok (dropWhile (\<lambda>p. due (events s) p < now) ts) ?old (s\<lparr>events := h\<rparr>)" "data_of h = data_of (events s)"
    using processTimeouts_ok [OF ok, of now] by auto
  have nin: "watch_table s ! i \<notin> set ?old" if "i \<in> watched (s\<lparr>events := h\<rparr>)" for i
  proof
    assume "watch_table s ! i \<in> set ?old"
    then have "fd_of (events s) (watch_table s ! i) = - 1" using loop_okD(5) [OF ok] by (auto dest: set_takeWhileD)
    moreover have "i \<in> watched s" using that by (simp add: watched_def)
    then obtain e where "events s (watch_table s ! i) = Some e" "0 \<le> ev_fd e"
      using watched_entry [OF loop_okD(6) [OF ok]] by blast
    ultimately show False by (simp add: fd_of_def)
  qed
  have "ready_events rfds (s\<lparr>events := h\<rparr>) is = ready_events rfds s is" for "is"
    by (rule ready_events_cong) (simp_all add: same_data [OF h(3)])
  then obtain s1 where s1: "processReadReadies rfds n (s\<lparr>events := h\<rparr>) = Some s1" "fired s1 = fired s"
    "loop_ok (dropWhile (\<lambda>p. due (events s) p < now) ts) (?old @ take (nat n) (ready_events rfds s [0..<MAX_FD_EVENTS])) s1"
    using read_readies_ok [OF h(2), of "[0..<MAX_FD_EVENTS]" rfds n] nin
    unfolding processReadReadies_def by (auto simp: atLeast0LessThan simp del: upt_rec_numeral)
  obtain ts' s' where "firePending cb s1 = Some s'" "loop_ok ts' [] s'"
    "fired s' = fired s1 @ ?old @ take (nat n) (ready_events rfds s [0..<MAX_FD_EVENTS])"
    using firePending_ok [OF s1(3) cb] by blast
  then show ?thesis using h(1) s1(1,2) by (auto simp: loop_round_def)
qed

section \<open>A loop with a timer and a watched descriptor\<close>

definition demo_loop :: ev_state where
  "demo_loop = \<lparr>events =
     [TIMER_LIST \<mapsto> \<lparr>ev_next = 11, ev_prev = 11, ev_fd = - 1, ev_index = 0, persist = False, timeout = (0, 0), ev_func = 0, ev_param = 0\<rparr>,
      PENDING_LIST \<mapsto> \<lparr>ev_next = 2, ev_prev = 2, ev_fd = - 1, ev_index = 0, persist = False, timeout = (0, 0), ev_func = 0, ev_param = 0\<rparr>,
      10 \<mapsto> \<lparr>ev_next = 0, ev_prev = 0, ev_fd = 3, ev_index = 0, persist = True, timeout = (0, 0), ev_func = 7, ev_param = 0\<rparr>,
      11 \<mapsto> \<lparr>ev_next = 1, ev_prev = 1, ev_fd = - 1, ev_index = - 1, persist = False, timeout = (3, 0), ev_func = 8, ev_param = 0\<rparr>,
      12 \<mapsto> \<lparr>ev_next = 0, ev_prev = 0, ev_fd = 7, ev_index = - 1, persist = False, timeout = (0, 0), ev_func = 9, ev_param = 0\<rparr>],
     readFds = {3}, nfds = 4, watch_table = [10, 0, 0, 0, 0, 0, 0, 0], fired = []\<rparr>"

lemma demo_watched: "watched demo_loop = {0}"
  by (auto simp: watched_def demo_loop_def nth_Cons' split: if_splits)

lemma demo_loop_ok: "loop_ok [11] [] demo_loop"
  by (auto simp: loop_ok_def watch_ok_def demo_watched entry_ok_def)
    (auto simp: demo_loop_def dll_def next_of_def prev_of_def due_def fd_of_def index_of_def)

lemma demo_idle: "idle [11] [] 12 demo_loop"
  by (simp add: idle_def demo_watched) (simp add: demo_loop_def)

text \<open>The callback of a timer frees its event, as \<open>userTimerCallback\<close> does.\<close>

definition freeing :: "addr \<Rightarrow> ev_state \<Rightarrow> ev_state option" where
  "freeing ev s = Some (if ev \<in> (\<lambda>i. watch_table s ! i) ` watched s then s else s\<lparr>events := (events s)(ev := None)\<rparr>)"

lemma freeing_ok: "callback_ok freeing"
  unfolding callback_ok_def
proof (intro allI impI)
  fix ev ts ps s
  assume ok: "loop_ok ts ps s" and nin: "ev \<notin> set (TIMER_LIST # PENDING_LIST # ts @ ps)"
  note d = loop_okD [OF ok]
  show "\<exists>ts' s'. freeing ev s = Some s' \<and> loop_ok ts' ps s' \<and> fired s' = fired s"
  proof (cases "ev \<in> (\<lambda>i. watch_table s ! i) ` watched s")
    case True
    then show ?thesis using ok by (auto simp: freeing_def)
  next
    case False
    let ?h = "(events s)(ev := None)"
    have same: "?h p = events s p" if "p \<in> set (TIMER_LIST # PENDING_LIST # ts @ ps)" for p using that nin by auto
    have "dll TIMER_LIST ts ?h" by (rule dll_frame [OF d(1)]) (rule same, auto)
    moreover have "dll PENDING_LIST ps ?h" by (rule dll_frame [OF d(2)]) (rule same, auto)
    moreover have "watch_ok (s\<lparr>events := ?h\<rparr>)" by (rule watch_ok_update [OF d(6)]) (use False in auto)
    moreover have "due ?h p = due (events s) p" if "p \<in> set ts" for p using same [of p] that by (simp add: due_def)
    then have "sorted (map (due ?h) ts)" using d(4) by (simp cong: map_cong)
    moreover have "fd_of ?h p = fd_of (events s) p" if "p \<in> set (TIMER_LIST # PENDING_LIST # ts)" for p
      using same [of p] that by (auto simp: fd_of_def)
    ultimately have "loop_ok ts ps (s\<lparr>events := ?h\<rparr>)" using d(3,4,5) by (auto simp: loop_ok_def)
    then show ?thesis using False by (auto simp: freeing_def)
  qed
qed

end
