(* ===== verification/V2xBuf.thy ===== *)
theory V2xBuf
  imports Interfaces
begin

text \<open>
  \<open>rits/src/qCoder/include/asnbuf.h\<close>: the bit buffer of the V2X codec. Bits are put behind the tail and
  in front of the data of a fixed block; a reader takes them off with a byte pointer and a count of bits
  left. \<open>None\<close> is an access outside the block, a shift by 32 or more or a failed assertion. Lengths
  in bits are never negative in the calls, so they are naturals here; masks that the code shifts as signed
  integers are 32-bit words, as its compilers take them. The trace output is left out.
\<close>

section \<open>The buffer\<close>

text \<open>\<open>ab_block\<close> is the block that \<open>head\<close> points to; its length is \<open>size\<close> and \<open>end\<close> is one past it.
  \<open>ab_data\<close> and \<open>ab_tail\<close> are offsets from \<open>head\<close>.\<close>

record abuf =
  ab_block :: "u8 list"
  ab_data :: int
  ab_tail :: int
  head_headspace_bits :: nat
  tail_bits_left :: nat

abbreviation ab_size :: "abuf \<Rightarrow> int" where "ab_size bp \<equiv> int (length (ab_block bp))"

definition rd :: "u8 list \<Rightarrow> int \<Rightarrow> u8 option" where
  "rd blk i = (if 0 \<le> i \<and> i < int (length blk) then Some (blk ! nat i) else None)"

definition wr :: "int \<Rightarrow> u8 \<Rightarrow> abuf \<Rightarrow> abuf option" where
  "wr i v bp = (if 0 \<le> i \<and> i < ab_size bp then Some (bp\<lparr>ab_block := (ab_block bp)[nat i := v]\<rparr>) else None)"

text \<open>\<open>None\<close> when the parameters are refused, which the code reports as - 1.\<close>

definition abuf_alloc :: "nat \<Rightarrow> nat \<Rightarrow> abuf option" where
  "abuf_alloc sz headroom =
     (if sz \<noteq> 0 \<and> headroom < sz
      then Some \<lparr>ab_block = replicate sz 0, ab_data = int headroom, ab_tail = int headroom,
        head_headspace_bits = 0, tail_bits_left = 8\<rparr>
      else None)"

definition abuf_reset :: "nat \<Rightarrow> abuf \<Rightarrow> abuf" where
  "abuf_reset headroom bp = bp\<lparr>ab_data := int headroom, ab_tail := int headroom, tail_bits_left := 8, head_headspace_bits := 0\<rparr>"

definition abuf_purge :: "nat \<Rightarrow> abuf \<Rightarrow> abuf" where
  "abuf_purge headroom bp =
     (if int headroom < ab_size bp
      then bp\<lparr>ab_block := replicate (length (ab_block bp)) 0, ab_data := int headroom, ab_tail := int headroom,
        tail_bits_left := 8, head_headspace_bits := 0\<rparr>
      else bp)"

definition abuf_isaligned :: "abuf \<Rightarrow> bool" where
  "abuf_isaligned bp = (head_headspace_bits bp = 0 \<or> head_headspace_bits bp = 8)"

definition abuf_trim :: "abuf \<Rightarrow> abuf" where
  "abuf_trim bp =
     (let bp = (if head_headspace_bits bp = 8 then bp\<lparr>ab_data := ab_data bp + 1, head_headspace_bits := 0\<rparr> else bp) in
      if tail_bits_left bp = 8 then bp\<lparr>ab_tail := ab_tail bp - 1, tail_bits_left := 0\<rparr> else bp)"

definition abuf_bits_len :: "abuf \<Rightarrow> int" where
  "abuf_bits_len bp = (ab_tail bp - ab_data bp + 1) * 8 - int (head_headspace_bits bp) - int (tail_bits_left bp)"

definition abuf_byte_len :: "abuf \<Rightarrow> int" where
  "abuf_byte_len bp = ab_tail bp - ab_data bp + (if tail_bits_left bp \<noteq> 8 then 1 else 0)"

definition abuf_tailroom :: "abuf \<Rightarrow> int" where
  "abuf_tailroom bp = ab_size bp - ab_tail bp"

definition abuf_headroom :: "abuf \<Rightarrow> int" where
  "abuf_headroom bp = ab_data bp"

definition abuf_headroom_bits :: "abuf \<Rightarrow> int" where
  "abuf_headroom_bits bp = ab_data bp * 8 + int (head_headspace_bits bp)"

definition abuf_check_put_tailroom :: "abuf \<Rightarrow> int \<Rightarrow> int" where
  "abuf_check_put_tailroom bp bitlen =
     (if bitlen > 0 then
        let bitlen = bitlen - int (tail_bits_left bp) in
        if bitlen > 0 then
          let tailroom_B = (bitlen + 7) div 8 in
          if tailroom_B > abuf_tailroom bp then - 1 else tailroom_B
        else 0
      else 1)"

definition abuf_tail_ready :: "abuf \<Rightarrow> abuf" where
  "abuf_tail_ready bp =
     (if tail_bits_left bp < 1 \<and> abuf_tailroom bp \<noteq> 0
      then bp\<lparr>ab_tail := ab_tail bp + 1, tail_bits_left := 8\<rparr> else bp)"

text \<open>The offset that the returned pointer has; \<open>None\<close> is the null pointer.\<close>

definition abuf_put :: "abuf \<Rightarrow> int \<Rightarrow> int option \<times> abuf" where
  "abuf_put bp bytes =
     (if ab_tail bp + bytes > ab_size bp then (None, bp)
      else (Some (ab_tail bp), bp\<lparr>ab_tail := ab_tail bp + bytes\<rparr>))"

definition abuf_pull :: "abuf \<Rightarrow> nat \<Rightarrow> int option \<times> abuf" where
  "abuf_pull bp bytes =
     (if ab_data bp + int bytes > ab_tail bp then (None, bp\<lparr>ab_data := ab_data bp + int bytes\<rparr>)
      else (Some (ab_data bp), bp\<lparr>ab_data := ab_data bp + int bytes\<rparr>))"

definition abuf_push :: "abuf \<Rightarrow> nat \<Rightarrow> int option \<times> abuf" where
  "abuf_push bp bytes =
     (if ab_data bp < int bytes then (None, bp)
      else (Some (ab_data bp - int bytes), bp\<lparr>ab_data := ab_data bp - int bytes\<rparr>))"

definition abuf_tail :: "abuf \<Rightarrow> int option \<times> abuf" where
  "abuf_tail bp = (if tail_bits_left bp = 0 then abuf_put bp 1 else (Some (ab_tail bp), bp))"

section \<open>Bits behind the tail\<close>

abbreviation low8 :: "u32 \<Rightarrow> u8" where "low8 \<equiv> ucast"

text \<open>The whole bytes, then the last partial one.\<close>

fun ncat_bytes :: "u32 \<Rightarrow> nat \<Rightarrow> abuf \<Rightarrow> (nat \<times> abuf) option" where
  "ncat_bytes d n bp =
     (if n \<ge> 8 then do {
        bp \<leftarrow> wr (ab_tail bp) (low8 (drop_bit (n - 8) (d AND push_bit (n - 8) 0xff))) bp;
        ncat_bytes d (n - 8) (bp\<lparr>ab_tail := ab_tail bp + 1\<rparr>)
      }
      else Some (n, bp))"

declare ncat_bytes.simps [simp del]

definition ncat_rest :: "u32 \<Rightarrow> nat \<Rightarrow> abuf \<Rightarrow> abuf option" where
  "ncat_rest d n bp = do {
     (n, bp) \<leftarrow> ncat_bytes d n bp;
     if n \<noteq> 0 then do {
       bp \<leftarrow> wr (ab_tail bp) (low8 (push_bit (8 - n) (d AND mask n))) bp;
       Some (bp\<lparr>tail_bits_left := tail_bits_left bp - n\<rparr>)
     }
     else Some bp
   }"

definition asn_ncat_bits :: "abuf \<Rightarrow> u32 \<Rightarrow> nat \<Rightarrow> (int \<times> abuf) option" where
  "asn_ncat_bits bp d bitlen =
     (let tb = tail_bits_left bp in
      if bitlen = 0 then Some (- 1, bp)
      else if bitlen \<le> tb then
        (if bitlen = 8 \<and> tb = 8 then do {
           bp \<leftarrow> wr (ab_tail bp) (low8 d) bp;
           Some (0, bp\<lparr>ab_tail := ab_tail bp + 1\<rparr>)
         }
         else do {
           b \<leftarrow> rd (ab_block bp) (ab_tail bp);
           bp \<leftarrow> wr (ab_tail bp) (b OR push_bit (tb - bitlen) (low8 d AND mask bitlen)) bp;
           Some (0, abuf_tail_ready (bp\<lparr>tail_bits_left := tb - bitlen\<rparr>))
         })
      else if bitlen > 32 \<or> bitlen - tb \<ge> 32 then None
      else do {
        b \<leftarrow> rd (ab_block bp) (ab_tail bp);
        bp \<leftarrow> wr (ab_tail bp) (b OR low8 (drop_bit (bitlen - tb) (d AND push_bit (bitlen - tb) (mask tb)))) bp;
        let bp = bp\<lparr>tail_bits_left := 0\<rparr>;
        if abuf_check_put_tailroom bp (int (bitlen - tb)) \<ge> 0 then do {
          bp \<leftarrow> ncat_rest d (bitlen - tb) (abuf_tail_ready bp);
          Some (0, abuf_tail_ready bp)
        }
        else Some (- 1, abuf_tail_ready bp)
      })"

fun wr_all :: "int \<Rightarrow> u8 list \<Rightarrow> abuf \<Rightarrow> abuf option" where
  "wr_all p [] bp = Some bp"
| "wr_all p (b # bs) bp = do { bp \<leftarrow> wr p b bp; wr_all (p + 1) bs bp }"

text \<open>The source is what is readable from its pointer on.\<close>

fun be32_front :: "u8 list \<Rightarrow> u32 option" where
  "be32_front (a # b # c # d # _) = Some (le_word [d, c, b, a])"
| "be32_front _ = None"

fun ncat_words :: "u8 list \<Rightarrow> nat \<Rightarrow> abuf \<Rightarrow> abuf option" where
  "ncat_words src n bp =
     (if n = 0 then Some bp
      else do {
        w \<leftarrow> be32_front src;
        if n \<ge> 32 then do { (_, bp) \<leftarrow> asn_ncat_bits bp w 4; ncat_words (drop 4 src) (n - 4) bp }
        else do { (_, bp) \<leftarrow> asn_ncat_bits bp w n; Some bp }
      })"

declare ncat_words.simps [simp del]

definition asn_ncat :: "abuf \<Rightarrow> u8 list \<Rightarrow> nat \<Rightarrow> (int \<times> abuf) option" where
  "asn_ncat bp src total_source_bytes =
     (if total_source_bytes = 0 then Some (0, bp)
      else
        let bp = abuf_tail_ready bp in
        if tail_bits_left bp = 8 then
          (case abuf_put bp (int total_source_bytes) of
             (None, bp) \<Rightarrow> Some (- 1, bp)
           | (Some p, bp) \<Rightarrow>
               if total_source_bytes \<le> length src
               then do { bp \<leftarrow> wr_all p (take total_source_bytes src) bp; Some (0, bp) }
               else None)
        else do { bp \<leftarrow> ncat_words src (8 * total_source_bytes) bp; Some (0, bp) })"

definition abuf_reserve_headspace :: "abuf \<Rightarrow> nat \<Rightarrow> abuf option" where
  "abuf_reserve_headspace bp reserved_bits =
     (if head_headspace_bits bp \<noteq> 0 then None
      else do {
        (_, bp) \<leftarrow> asn_ncat_bits bp 0 reserved_bits;
        Some (bp\<lparr>head_headspace_bits := reserved_bits\<rparr>)
      })"

text \<open>The length in bits is held in eight bits.\<close>

definition abuf_pad_to_even_octet :: "abuf \<Rightarrow> abuf option" where
  "abuf_pad_to_even_octet bp =
     (let bit_len = nat (abuf_bits_len bp mod 256); mod8 = bit_len mod 8 in
      if bit_len > 0 \<and> mod8 \<noteq> 0 then do {
        (_, bp) \<leftarrow> asn_ncat_bits bp 0 (8 - mod8);
        Some bp
      }
      else Some bp)"

section \<open>Bits in front of the data\<close>

fun push_bytes :: "u32 \<Rightarrow> nat \<Rightarrow> abuf \<Rightarrow> (u32 \<times> nat \<times> abuf) option" where
  "push_bytes d n bp =
     (if n \<ge> 8 then do {
        bp \<leftarrow> wr (ab_data bp) (low8 (d AND 0xff)) bp;
        push_bytes (drop_bit 8 d) (n - 8) (bp\<lparr>ab_data := ab_data bp - 1, head_headspace_bits := 8\<rparr>)
      }
      else Some (d, n, bp))"

declare push_bytes.simps [simp del]

text \<open>The guard is \<open>bits\_to\_add\<close> and enough headroom. A shift of a 32-bit word by 32 is not defined.\<close>

definition asn_push_bits :: "abuf \<Rightarrow> u32 \<Rightarrow> nat \<Rightarrow> (int \<times> abuf) option" where
  "asn_push_bits bp d bits_to_add =
     (if bits_to_add = 0 \<or> abuf_headroom_bits bp < int bits_to_add then Some (- 1, bp)
      else do {
        let hs = head_headspace_bits bp;
        let q = (if bits_to_add < hs then bits_to_add else hs);
        b \<leftarrow> rd (ab_block bp) (ab_data bp);
        bp \<leftarrow> wr (ab_data bp)
          ((b AND NOT (push_bit (8 - hs) (mask q))) OR low8 (push_bit (8 - hs) (d AND mask q))) bp;
        let d' = drop_bit q d;
        let n = bits_to_add - q;
        let bp = bp\<lparr>head_headspace_bits := hs - q\<rparr>;
        let bp = (if head_headspace_bits bp < 1 then bp\<lparr>ab_data := ab_data bp - 1, head_headspace_bits := 8\<rparr> else bp);
        (d', n, bp) \<leftarrow> push_bytes d' n bp;
        bp \<leftarrow> (if n \<noteq> 0 then do {
            bp \<leftarrow> wr (ab_data bp) (low8 (d' AND mask n)) bp;
            Some (bp\<lparr>head_headspace_bits := 8 - n\<rparr>)
          } else Some bp);
        let bp = (if head_headspace_bits bp = 8 then bp\<lparr>ab_data := ab_data bp + 1, head_headspace_bits := 0\<rparr> else bp);
        Some (int bits_to_add, bp)
      })"

section \<open>Lengths\<close>

definition asn_push_encoded_len :: "abuf \<Rightarrow> int \<Rightarrow> (int \<times> abuf) option" where
  "asn_push_encoded_len bp len =
     (if len > 0 then
        if len < 0x80 then
          if head_headspace_bits bp = 8 then do {
            bp \<leftarrow> wr (ab_data bp) (of_int len) bp;
            Some (8, bp\<lparr>head_headspace_bits := 0\<rparr>)
          }
          else if head_headspace_bits bp = 0 then
            if ab_data bp > 0 then do {
              bp \<leftarrow> wr (ab_data bp - 1) (of_int len) (bp\<lparr>ab_data := ab_data bp - 1\<rparr>);
              Some (8, bp)
            }
            else Some (- 1, bp)
          else asn_push_bits bp (of_int len) 8
        else if len < 0x4000 then asn_push_bits bp ((of_int len OR 0x8000) AND 0xDFFF) 16
        else Some (- 1, bp)
      else Some (0, bp))"

text \<open>What the three calls of the long form return is not looked at.\<close>

definition asn_push_CER_encoded_len :: "abuf \<Rightarrow> int \<Rightarrow> (int \<times> abuf) option" where
  "asn_push_CER_encoded_len bp len =
     (if len > 0 then
        if len < 0x80 then
          if head_headspace_bits bp = 8 then do {
            bp \<leftarrow> wr (ab_data bp) (of_int len) bp;
            Some (8, bp\<lparr>head_headspace_bits := 0\<rparr>)
          }
          else if head_headspace_bits bp = 0 then
            if ab_data bp > 0 then do {
              bp \<leftarrow> wr (ab_data bp - 1) (of_int len) (bp\<lparr>ab_data := ab_data bp - 1\<rparr>);
              Some (8, bp)
            }
            else Some (- 1, bp)
          else asn_push_bits bp (of_int len) 8
        else do {
          let noctets = (if len < 0x100 then 1 else if len < 0x10000 then 2 else if len < 0x1000000 then 3 else (4 :: nat));
          (_, bp) \<leftarrow> asn_push_bits bp (of_int len) (8 * noctets);
          (_, bp) \<leftarrow> asn_push_bits bp (of_nat noctets) 7;
          (_, bp) \<leftarrow> asn_push_bits bp 1 1;
          Some (0, bp)
        }
      else Some (0, bp))"

definition htons32 :: "u32 \<Rightarrow> u32" where
  "htons32 w = push_bit 8 (w AND 0xff) OR (drop_bit 8 w AND 0xff)"

definition asn_put_encoded_len :: "abuf \<Rightarrow> int \<Rightarrow> (int \<times> abuf) option" where
  "asn_put_encoded_len bp len =
     (if len > 0 then
        if len < 0x80 then do { (_, bp) \<leftarrow> asn_ncat_bits bp (of_int len) 8; Some (0, bp) }
        else if len < 0x4000 then do {
          (_, bp) \<leftarrow> asn_ncat_bits bp (htons32 ((of_int len OR 0x8000) AND 0xDFFF)) 16;
          Some (0, bp)
        }
        else Some (1, bp)
      else Some (0, bp))"

definition bits_to_bytes :: "int \<Rightarrow> int" where
  "bits_to_bytes len = (if len < 0 then - ((- len) div 8) else len div 8) + (if len mod 8 \<noteq> 0 then 1 else 0)"

definition asn_push_len :: "abuf \<Rightarrow> (int \<times> abuf) option" where
  "asn_push_len bp = asn_push_encoded_len bp (bits_to_bytes (abuf_bits_len bp))"

definition asn_push_ieee1609_2_len :: "abuf \<Rightarrow> (int \<times> abuf) option" where
  "asn_push_ieee1609_2_len bp = asn_push_CER_encoded_len bp (bits_to_bytes (abuf_bits_len bp))"

section \<open>Merging\<close>

text \<open>The bytes of the first buffer from its tail back to its data go in front of the second.\<close>

fun push_back :: "u8 list \<Rightarrow> abuf \<Rightarrow> abuf option" where
  "push_back [] bp = Some bp"
| "push_back (b # bs) bp = do {
     (_, bp) \<leftarrow> asn_push_bits bp (ucast b) 8;
     push_back bs bp
   }"

definition abuf_merge_second :: "abuf \<Rightarrow> abuf \<Rightarrow> abuf option" where
  "abuf_merge_second first combined =
     (if ab_tail first < ab_data first then Some combined
      else if 0 \<le> ab_data first \<and> ab_tail first < ab_size first
      then push_back (rev (take (nat (ab_tail first - ab_data first) + 1) (drop (nat (ab_data first)) (ab_block first)))) combined
      else None)"

section \<open>Reading bits\<close>

definition calc_bytes_needed_for_n_more_bits :: "nat \<Rightarrow> nat \<Rightarrow> nat" where
  "calc_bytes_needed_for_n_more_bits n bits_left = (n - bits_left) div 8 + 1"

definition rd32 :: "u8 list \<Rightarrow> int \<Rightarrow> u32 option" where
  "rd32 blk i = map_option ucast (rd blk i)"

text \<open>Of the byte after the last whole one, the first \<open>n\<close> bits.\<close>

definition rd_first :: "u8 list \<Rightarrow> int \<Rightarrow> nat \<Rightarrow> u32 option" where
  "rd_first blk cp n = map_option (\<lambda>b. drop_bit (8 - n) (b AND push_bit (8 - n) (mask n))) (rd32 blk cp)"

text \<open>The bits wanted, the pointer moved on and the bits left in its byte. Up to 32 bits reach at most four
  bytes further; the code for more would need a longer word.\<close>

definition get_next_n_bits :: "u8 list \<Rightarrow> int \<Rightarrow> nat \<Rightarrow> nat \<Rightarrow> (u32 \<times> int \<times> nat) option" where
  "get_next_n_bits blk cp n bits_left =
     (let more = (if n > bits_left then calc_bytes_needed_for_n_more_bits n bits_left else 0);
          finish = (\<lambda>result cp left. Some (if left = 0 then (result, cp + 1, 8) else (result, cp, left))) in
      if more = 0 then do {
        b \<leftarrow> rd32 blk cp;
        finish (drop_bit (bits_left - n) (b AND push_bit (bits_left - n) (mask n))) cp (bits_left - n)
      }
      else if more = 1 then do {
        let k = n - bits_left;
        b \<leftarrow> rd32 blk cp;
        c \<leftarrow> rd_first blk (cp + 1) k;
        finish (push_bit k (b AND mask bits_left) OR c) (cp + 1) (8 - k)
      }
      else if more = 2 then do {
        let k = n - 8 - bits_left;
        b \<leftarrow> rd32 blk cp;
        b1 \<leftarrow> rd32 blk (cp + 1);
        c \<leftarrow> rd_first blk (cp + 2) k;
        finish (push_bit (8 + k) (b AND mask bits_left) OR push_bit k b1 OR c) (cp + 2) (8 - k)
      }
      else if more = 3 then do {
        let k = n - 16 - bits_left;
        b \<leftarrow> rd32 blk cp;
        b1 \<leftarrow> rd32 blk (cp + 1);
        b2 \<leftarrow> rd32 blk (cp + 2);
        c \<leftarrow> rd_first blk (cp + 3) k;
        finish (push_bit k (push_bit 8 (push_bit 8 (b AND mask bits_left) OR b1) OR b2) OR c) (cp + 3) (8 - k)
      }
      else if more = 4 \<and> n \<le> 32 then do {
        let k = n - 24 - bits_left;
        b \<leftarrow> rd32 blk cp;
        b1 \<leftarrow> rd32 blk (cp + 1);
        b2 \<leftarrow> rd32 blk (cp + 2);
        b3 \<leftarrow> rd32 blk (cp + 3);
        c \<leftarrow> rd_first blk (cp + 4) k;
        finish (push_bit k (push_bit 8 (push_bit 8 (push_bit 8 (b AND mask bits_left) OR b1) OR b2) OR b3) OR c) (cp + 4) (8 - k)
      }
      else None)"

text \<open>The length, - 1 when it is fragmented; the pointer stays at such a length that is octet aligned.\<close>

definition parse_asn_variable_length_enc :: "u8 list \<Rightarrow> int \<Rightarrow> nat \<Rightarrow> (int \<times> int \<times> nat) option" where
  "parse_asn_variable_length_enc blk cp bits_left =
     (if bits_left > 7 then do {
        b \<leftarrow> rd blk cp;
        if b AND 0x80 \<noteq> 0 then
          if b AND 0x40 \<noteq> 0 then Some (- 1, cp, bits_left)
          else do {
            c \<leftarrow> rd blk (cp + 1);
            Some (int (256 * unat b + unat c) mod 0x8000, cp + 2, bits_left)
          }
        else Some (uint b, cp + 1, bits_left)
      }
      else do {
        (b, cp, bits_left) \<leftarrow> get_next_n_bits blk cp 8 bits_left;
        if b < 0x80 then Some (uint b, cp, bits_left)
        else if b AND 0x40 \<noteq> 0 then Some (- 1, cp, bits_left)
        else do {
          (c, cp, bits_left) \<leftarrow> get_next_n_bits blk cp 8 bits_left;
          Some (uint (push_bit 8 (b AND 0x7f) OR c), cp, bits_left)
        }
      })"

text \<open>The octets of a long form; the length is an unsigned 64-bit word, all ones before the first.\<close>

fun cer_octets :: "u8 list \<Rightarrow> nat \<Rightarrow> u64 \<Rightarrow> int \<Rightarrow> nat \<Rightarrow> (u64 \<times> int \<times> nat) option" where
  "cer_octets blk 0 len cp left = Some (len, cp, left)"
| "cer_octets blk (Suc n) len cp left = do {
     (b, cp, left) \<leftarrow> get_next_n_bits blk cp 8 left;
     cer_octets blk n (if len = - 1 then ucast b else push_bit 8 len OR ucast b) cp left
   }"

definition parse_asn_CER_len_enc :: "u8 list \<Rightarrow> int \<Rightarrow> nat \<Rightarrow> (u64 \<times> int \<times> nat) option" where
  "parse_asn_CER_len_enc blk cp bits_left = do {
     b \<leftarrow> rd blk cp;
     if b AND 0x80 \<noteq> 0 then do {
       (k, cp, left) \<leftarrow> get_next_n_bits blk cp 7 7;
       cer_octets blk (unat k) (- 1) cp left
     }
     else Some (ucast b, cp + 1, bits_left)
   }"

end
