(* ===== verification/V2xBufFacts.thy ===== *)
theory V2xBufFacts
  imports V2xBuf
begin

text \<open>
  The bit buffer as a sequence of bits: what the append and prepend operations write, what the readers
  return, and the lengths in front of a payload.
\<close>

section \<open>Bits of a block\<close>

definition abit :: "u8 list \<Rightarrow> nat \<Rightarrow> bool" where
  "abit blk j = bit (blk ! (j div 8)) (7 - j mod 8)"

text \<open>\<open>blk'\<close> is \<open>blk\<close> with the \<open>n\<close> low bits of \<open>d\<close>, the highest first, from position \<open>p\<close> on.\<close>

definition written :: "u8 list \<Rightarrow> nat \<Rightarrow> nat \<Rightarrow> u32 \<Rightarrow> u8 list \<Rightarrow> bool" where
  "written blk p n d blk' \<longleftrightarrow> length blk' = length blk \<and>
     (\<forall>j < 8 * length blk. abit blk' j = (if p \<le> j \<and> j < p + n then bit d (p + n - 1 - j) else abit blk j))"

text \<open>The \<open>n\<close> bits from position \<open>p\<close> on are the low bits of \<open>d\<close>.\<close>

definition bits_at :: "u8 list \<Rightarrow> nat \<Rightarrow> nat \<Rightarrow> u32 \<Rightarrow> bool" where
  "bits_at blk p n d \<longleftrightarrow> (\<forall>i < n. abit blk (p + i) = bit d (n - 1 - i))"

lemma writtenD: "written blk p n d blk' \<Longrightarrow> p + n \<le> 8 * length blk \<Longrightarrow> bits_at blk' p n d"
  by (auto simp: written_def bits_at_def)

lemma written_length: "written blk p n d blk' \<Longrightarrow> length blk' = length blk"
  by (simp add: written_def)

lemma written_frame:
  "written blk p n d blk' \<Longrightarrow> bits_at blk q m e \<Longrightarrow> q + m \<le> 8 * length blk \<Longrightarrow> q + m \<le> p \<or> p + n \<le> q \<Longrightarrow> bits_at blk' q m e"
  unfolding written_def bits_at_def by auto

lemma written_0: "written blk p 0 d blk"
  by (auto simp: written_def)

text \<open>The high bits first, then the low ones.\<close>

lemma written_trans:
  assumes "written blk p m (drop_bit k d) blk1" and "written blk1 (p + m) k d blk2"
  shows "written blk p (m + k) d blk2"
  unfolding written_def
proof (intro conjI allI impI)
  show "length blk2 = length blk" using assms by (simp add: written_def)
next
  fix j assume j: "j < 8 * length blk"
  have 1: "abit blk1 j = (if p \<le> j \<and> j < p + m then bit (drop_bit k d) (p + m - 1 - j) else abit blk j)"
    using assms(1) j by (simp add: written_def)
  have "j < 8 * length blk1" using assms(1) j by (simp add: written_def)
  then have 2: "abit blk2 j = (if p + m \<le> j \<and> j < p + m + k then bit d (p + m + k - 1 - j) else abit blk1 j)"
    using assms(2) by (simp add: written_def)
  show "abit blk2 j = (if p \<le> j \<and> j < p + (m + k) then bit d (p + (m + k) - 1 - j) else abit blk j)"
  proof (cases "p \<le> j \<and> j < p + m")
    case True
    then have "k + (p + m - Suc j) = p + (m + k) - Suc j" by linarith
    then show ?thesis using 1 2 True by (simp add: bit_drop_bit_eq)
  next
    case False
    then show ?thesis using 1 2 by (auto simp: add.assoc)
  qed
qed

text \<open>One byte replaced.\<close>

lemma abit_update:
  "t < length blk \<Longrightarrow> abit (blk[t := v]) j = (if j div 8 = t then bit v (7 - j mod 8) else abit blk j)"
  by (simp add: abit_def)

lemma written_byte:
  assumes "t < length blk" and "o1 + n \<le> 8"
    and "\<And>o2. o2 < 8 \<Longrightarrow> bit v (7 - o2) = (if o1 \<le> o2 \<and> o2 < o1 + n then bit d (o1 + n - 1 - o2) else bit (blk ! t) (7 - o2))"
  shows "written blk (8 * t + o1) n d (blk[t := v])"
  unfolding written_def
proof (intro conjI allI impI)
  fix j assume "j < 8 * length blk"
  show "abit (blk[t := v]) j = (if 8 * t + o1 \<le> j \<and> j < 8 * t + o1 + n then bit d (8 * t + o1 + n - 1 - j) else abit blk j)"
  proof (cases "j div 8 = t")
    case True
    define o2 where "o2 = j mod 8"
    have j: "j = 8 * t + o2" "o2 < 8" using True by (auto simp: o2_def)
    have "abit (blk[t := v]) j = bit v (7 - o2)" "abit blk j = bit (blk ! t) (7 - o2)"
      using True assms(1) by (simp_all add: abit_def o2_def)
    then show ?thesis using assms(3) [OF j(2)] j(1) by simp
  next
    case False
    then have "\<not> (8 * t + o1 \<le> j \<and> j < 8 * t + o1 + n)" using assms(2) by auto
    then show ?thesis using False by (auto simp: abit_update [OF assms(1)])
  qed
qed simp

section \<open>Appending\<close>

definition tail_pos :: "abuf \<Rightarrow> nat" where
  "tail_pos bp = 8 * nat (ab_tail bp) + (8 - tail_bits_left bp)"

text \<open>Ready for more bits: the tail inside the block with a bit free, nothing but zeros behind it.\<close>

definition tail_ok :: "abuf \<Rightarrow> bool" where
  "tail_ok bp \<longleftrightarrow> 0 \<le> ab_tail bp \<and> 1 \<le> tail_bits_left bp \<and> tail_bits_left bp \<le> 8 \<and>
     (\<forall>j. tail_pos bp \<le> j \<longrightarrow> j < 8 * length (ab_block bp) \<longrightarrow> \<not> abit (ab_block bp) j)"

lemma low_bits_clean:
  assumes "tail_ok bp" and "nat (ab_tail bp) < length (ab_block bp)" and "i < tail_bits_left bp"
  shows "\<not> bit (ab_block bp ! nat (ab_tail bp)) i"
proof -
  have i: "i < 8" "tail_bits_left bp \<le> 8" using assms by (simp_all add: tail_ok_def)
  define k where "k = 7 - i"
  define j where "j = 8 * nat (ab_tail bp) + k"
  have k: "k < 8" by (simp add: k_def)
  have "j div 8 = nat (ab_tail bp)" "j mod 8 = 7 - i" using k by (simp_all add: j_def) (simp add: k_def)
  moreover have "tail_pos bp \<le> j" "j < 8 * length (ab_block bp)" using assms i by (auto simp: tail_pos_def j_def k_def)
  ultimately show ?thesis using assms(1) i by (auto simp: tail_ok_def abit_def dest!: spec [of _ j])
qed

lemma written_first:
  assumes "t < length blk" and "tb \<le> 8" and "n \<le> tb" and "\<And>i. i < tb \<Longrightarrow> \<not> bit (blk ! t) i"
  shows "written blk (8 * t + (8 - tb)) n d (blk[t := blk ! t OR push_bit (tb - n) (low8 d AND mask n)])"
proof (rule written_byte [OF assms(1)])
  show "8 - tb + n \<le> 8" using assms by simp
  fix o2 :: nat assume o2: "o2 < 8"
  let ?v = "blk ! t OR push_bit (tb - n) (low8 d AND mask n)"
  have v: "bit ?v (7 - o2) \<longleftrightarrow> bit (blk ! t) (7 - o2) \<or> (tb - n \<le> 7 - o2 \<and> 7 - o2 - (tb - n) < n \<and> bit d (7 - o2 - (tb - n)))"
    using o2 by (auto simp: bit_simps)
  show "bit ?v (7 - o2) = (if 8 - tb \<le> o2 \<and> o2 < 8 - tb + n then bit d (8 - tb + n - 1 - o2) else bit (blk ! t) (7 - o2))"
  proof (cases "8 - tb \<le> o2 \<and> o2 < 8 - tb + n")
    case True
    then have "7 - o2 < tb" "tb - n \<le> 7 - o2" "7 - o2 - (tb - n) < n" "7 - o2 - (tb - n) = 8 - tb + n - 1 - o2"
      using assms(2,3) o2 by auto
    then show ?thesis using v assms(4) [of "7 - o2"] True by auto
  next
    case False
    then have "\<not> (tb - n \<le> 7 - o2 \<and> 7 - o2 - (tb - n) < n)" using assms(2,3) o2 by auto
    then show ?thesis using v False by auto
  qed
qed

lemma written_spill:
  assumes "t < length blk" and "tb \<le> 8" and "\<And>i. i < tb \<Longrightarrow> \<not> bit (blk ! t) i"
  shows "written blk (8 * t + (8 - tb)) tb (drop_bit k d) (blk[t := blk ! t OR low8 (drop_bit k (d AND push_bit k (mask tb)))])"
proof (rule written_byte [OF assms(1)])
  show "8 - tb + tb \<le> 8" using assms by simp
  fix o2 :: nat assume o2: "o2 < 8"
  let ?v = "blk ! t OR low8 (drop_bit k (d AND push_bit k (mask tb)))"
  have v: "bit ?v (7 - o2) \<longleftrightarrow> bit (blk ! t) (7 - o2) \<or> (7 - o2 < tb \<and> bit d (k + (7 - o2)))"
    using o2 by (auto simp: bit_simps dest: bit_imp_le_length)
  show "bit ?v (7 - o2) = (if 8 - tb \<le> o2 \<and> o2 < 8 - tb + tb then bit (drop_bit k d) (8 - tb + tb - 1 - o2) else bit (blk ! t) (7 - o2))"
  proof (cases "8 - tb \<le> o2")
    case True
    then have "7 - o2 < tb" using assms(2) o2 by auto
    then show ?thesis using v assms(2) assms(3) [of "7 - o2"] True o2 by (auto simp: bit_drop_bit_eq)
  next
    case False
    then have "\<not> 7 - o2 < tb" using assms(2) o2 by auto
    then show ?thesis using v False by auto
  qed
qed

lemma mask_8: "(0xff :: u32) = mask 8"
  by (simp add: mask_eq_exp_minus_1)

lemma written_full:
  assumes "t < length blk"
  shows "written blk (8 * t) 8 (drop_bit k d) (blk[t := low8 (drop_bit k (d AND push_bit k 0xff))])"
proof -
  have "written blk (8 * t + 0) 8 (drop_bit k d) (blk[t := low8 (drop_bit k (d AND push_bit k 0xff))])"
    by (rule written_byte [OF assms]) (auto simp: mask_8 bit_simps dest: bit_imp_le_length)
  then show ?thesis by simp
qed

lemma written_last:
  assumes "t < length blk" and "n \<le> 8" and "\<And>j. 8 * t \<le> j \<Longrightarrow> j < 8 * t + 8 \<Longrightarrow> \<not> abit blk j"
  shows "written blk (8 * t) n d (blk[t := low8 (push_bit (8 - n) (d AND mask n))])"
proof -
  have old: "\<not> bit (blk ! t) (7 - o2)" if "o2 < 8" for o2
    using assms(3) [of "8 * t + o2"] that by (simp add: abit_def)
  have "written blk (8 * t + 0) n d (blk[t := low8 (push_bit (8 - n) (d AND mask n))])"
  proof (rule written_byte [OF assms(1)])
    show "0 + n \<le> 8" using assms by simp
    fix o2 :: nat assume o2: "o2 < 8"
    have "bit (low8 (push_bit (8 - n) (d AND mask n))) (7 - o2) \<longleftrightarrow> 8 - n \<le> 7 - o2 \<and> 7 - o2 - (8 - n) < n \<and> bit d (7 - o2 - (8 - n))"
      using o2 by (auto simp: bit_simps)
    moreover have "7 - o2 - (8 - n) = 0 + n - 1 - o2" if "8 - n \<le> 7 - o2" using that o2 assms(2) by auto
    ultimately show "bit (low8 (push_bit (8 - n) (d AND mask n))) (7 - o2) =
        (if 0 \<le> o2 \<and> o2 < 0 + n then bit d (0 + n - 1 - o2) else bit (blk ! t) (7 - o2))"
      using old [OF o2] o2 assms(2) by auto
  qed
  then show ?thesis by simp
qed

lemma written_clean:
  "written blk p n d blk' \<Longrightarrow> (\<And>j. p \<le> j \<Longrightarrow> j < 8 * length blk \<Longrightarrow> \<not> abit blk j) \<Longrightarrow> p + n \<le> j \<Longrightarrow>
     j < 8 * length blk' \<Longrightarrow> \<not> abit blk' j"
  by (auto simp: written_def)

lemma ncat_bytes_ok:
  assumes "0 \<le> ab_tail bp" and "8 * nat (ab_tail bp) + n \<le> 8 * length (ab_block bp)"
  shows "\<exists>blk. ncat_bytes d n bp = Some (n mod 8, bp\<lparr>ab_block := blk, ab_tail := ab_tail bp + int (n div 8)\<rparr>) \<and>
    written (ab_block bp) (8 * nat (ab_tail bp)) (8 * (n div 8)) (drop_bit (n mod 8) d) blk"
  using assms
proof (induction n arbitrary: bp rule: less_induct)
  case (less n)
  show ?case
  proof (cases "n \<ge> 8")
    case False
    then show ?thesis by (subst ncat_bytes.simps) (auto intro!: exI [of _ "ab_block bp"] simp: written_0)
  next
    case True
    let ?t = "nat (ab_tail bp)"
    define v where "v = low8 (drop_bit (n - 8) (d AND push_bit (n - 8) 0xff))"
    define bp1 where "bp1 = bp\<lparr>ab_block := (ab_block bp)[?t := v], ab_tail := ab_tail bp + 1\<rparr>"
    have t: "?t < length (ab_block bp)" using less.prems(2) True by simp
    have "0 \<le> ab_tail bp1" "8 * nat (ab_tail bp1) + (n - 8) \<le> 8 * length (ab_block bp1)"
      using less.prems True by (auto simp: bp1_def nat_add_distrib)
    then obtain blk where blk: "ncat_bytes d (n - 8) bp1 = Some ((n - 8) mod 8, bp1\<lparr>ab_block := blk, ab_tail := ab_tail bp1 + int ((n - 8) div 8)\<rparr>)"
      "written (ab_block bp1) (8 * nat (ab_tail bp1)) (8 * ((n - 8) div 8)) (drop_bit ((n - 8) mod 8) d) blk"
      using less.IH [of "n - 8" bp1] True by auto
    have m: "(n - 8) mod 8 = n mod 8" "n div 8 = Suc ((n - 8) div 8)" using True by (simp_all add: le_mod_geq le_div_geq)
    have k: "n - 8 = 8 * ((n - 8) div 8) + n mod 8" using mult_div_mod_eq [of 8 "n - 8"] m by simp
    have "drop_bit (n - 8) d = drop_bit (8 * ((n - 8) div 8)) (drop_bit (n mod 8) d)"
      by (subst k) (simp add: drop_bit_drop_bit add.commute)
    then have "written (ab_block bp) (8 * ?t) 8 (drop_bit (8 * ((n - 8) div 8)) (drop_bit (n mod 8) d)) (ab_block bp1)"
      using written_full [OF t, of "n - 8" d] by (simp add: bp1_def v_def)
    moreover have "written (ab_block bp1) (8 * ?t + 8) (8 * ((n - 8) div 8)) (drop_bit (n mod 8) d) blk"
      using blk(2) m less.prems(1) by (simp add: bp1_def nat_add_distrib add.commute)
    ultimately have "written (ab_block bp) (8 * ?t) (8 + 8 * ((n - 8) div 8)) (drop_bit (n mod 8) d) blk"
      by (rule written_trans)
    moreover have "ncat_bytes d n bp = ncat_bytes d (n - 8) bp1"
      using True less.prems(1) t by (subst ncat_bytes.simps) (auto simp: wr_def v_def bp1_def)
    ultimately show ?thesis using blk(1) m by (intro exI [of _ blk]) (simp add: bp1_def add.assoc)
  qed
qed

lemma ncat_rest_ok:
  assumes "0 \<le> ab_tail bp" and "tail_bits_left bp = 8" and "8 * nat (ab_tail bp) + n \<le> 8 * length (ab_block bp)"
    and "\<And>j. 8 * nat (ab_tail bp) \<le> j \<Longrightarrow> j < 8 * length (ab_block bp) \<Longrightarrow> \<not> abit (ab_block bp) j"
  shows "\<exists>blk. ncat_rest d n bp = Some (bp\<lparr>ab_block := blk, ab_tail := ab_tail bp + int (n div 8), tail_bits_left := 8 - n mod 8\<rparr>) \<and>
    written (ab_block bp) (8 * nat (ab_tail bp)) n d blk"
proof -
  let ?t = "nat (ab_tail bp)"
  obtain blk where blk: "ncat_bytes d n bp = Some (n mod 8, bp\<lparr>ab_block := blk, ab_tail := ab_tail bp + int (n div 8)\<rparr>)"
    "written (ab_block bp) (8 * ?t) (8 * (n div 8)) (drop_bit (n mod 8) d) blk"
    using ncat_bytes_ok [OF assms(1,3)] by blast
  show ?thesis
  proof (cases "n mod 8 = 0")
    case True
    then have "8 * (n div 8) = n" by auto
    then show ?thesis using blk True assms(2) by (auto simp: ncat_rest_def intro!: exI [of _ blk])
  next
    case False
    let ?u = "?t + n div 8"
    have len: "length blk = length (ab_block bp)" using blk(2) by (rule written_length)
    have "n = 8 * (n div 8) + n mod 8" by simp
    then have u: "?u < length blk" using assms(3) False len by linarith
    have clean: "\<not> abit blk j" if "8 * ?u \<le> j" "j < 8 * ?u + 8" for j
      by (rule written_clean [OF blk(2) assms(4)]) (use that u in auto)
    have w: "written blk (8 * ?u) (n mod 8) d (blk[?u := low8 (push_bit (8 - n mod 8) (d AND mask (n mod 8)))])"
      by (rule written_last [OF u _ clean]) simp_all
    have "written (ab_block bp) (8 * ?t) (8 * (n div 8) + n mod 8) d (blk[?u := low8 (push_bit (8 - n mod 8) (d AND mask (n mod 8)))])"
      by (rule written_trans [OF blk(2)]) (use w in simp)
    then show ?thesis using blk(1) False u assms(1,2)
      by (intro exI [of _ "blk[?u := low8 (push_bit (8 - n mod 8) (d AND mask (n mod 8)))]"])
        (auto simp: ncat_rest_def wr_def nat_add_distrib)
  qed
qed

text \<open>Where there is room, the bits are appended and the buffer is ready for more.\<close>

lemma ncat_ok:
  assumes ok: "tail_ok bp" and n: "0 < n" "n \<le> 32" and room: "tail_pos bp + n \<le> 8 * length (ab_block bp)"
  shows "\<exists>blk t tb. asn_ncat_bits bp d n = Some (0, bp\<lparr>ab_block := blk, ab_tail := t, tail_bits_left := tb\<rparr>) \<and>
    written (ab_block bp) (tail_pos bp) n d blk \<and>
    tail_ok (bp\<lparr>ab_block := blk, ab_tail := t, tail_bits_left := tb\<rparr>) \<and>
    tail_pos (bp\<lparr>ab_block := blk, ab_tail := t, tail_bits_left := tb\<rparr>) = tail_pos bp + n"
proof -
  let ?t = "nat (ab_tail bp)" and ?tb = "tail_bits_left bp" and ?b = "ab_block bp"
  have tb: "1 \<le> ?tb" "?tb \<le> 8" and t0: "0 \<le> ab_tail bp" using ok by (simp_all add: tail_ok_def)
  have t: "?t < length ?b" using room n tb by (simp add: tail_pos_def)
  have tI: "ab_tail bp < ab_size bp" using t t0 by linarith
  have zero: "\<And>i. i < ?tb \<Longrightarrow> \<not> bit (?b ! ?t) i" by (rule low_bits_clean [OF ok t])
  have fin: "?thesis" if run: "asn_ncat_bits bp d n = Some (0, bp\<lparr>ab_block := blk, ab_tail := u, tail_bits_left := ub\<rparr>)"
    and w: "written ?b (tail_pos bp) n d blk" and pos: "8 * nat u + (8 - ub) = tail_pos bp + n" "0 \<le> u" "1 \<le> ub" "ub \<le> 8" for blk u ub
  proof -
    have "\<not> abit blk j" if "tail_pos bp + n \<le> j" "j < 8 * length blk" for j
      by (rule written_clean [OF w _ that]) (use ok in \<open>simp add: tail_ok_def\<close>)
    then show ?thesis using run w pos
      by (intro exI [of _ blk] exI [of _ u] exI [of _ ub]) (auto simp: tail_ok_def tail_pos_def)
  qed
  consider "n = 8" "?tb = 8" | "n \<le> ?tb" "\<not> (n = 8 \<and> ?tb = 8)" | "?tb < n" by linarith
  then show ?thesis
  proof cases
    case 1
    have w: "written ?b (8 * ?t) 8 (drop_bit 0 d) (?b[?t := low8 (drop_bit 0 (d AND push_bit 0 0xff))])"
      by (rule written_full [OF t])
    have low: "low8 (d AND 0xff) = low8 d" unfolding mask_8 by (rule bit_word_eqI) (auto simp: bit_simps)
    then show ?thesis using w 1 t0 tI
      by (intro fin [where blk = "?b[?t := low8 d]" and u = "ab_tail bp + 1" and ub = 8])
        (auto simp: asn_ncat_bits_def wr_def tail_pos_def nat_add_distrib)
  next
    case 2
    have "written ?b (8 * ?t + (8 - ?tb)) n d (?b[?t := ?b ! ?t OR push_bit (?tb - n) (low8 d AND mask n)])"
      by (rule written_first [OF t tb(2) 2(1) zero])
    moreover have "abuf_tailroom bp \<noteq> 0" using tI by (simp add: abuf_tailroom_def)
    ultimately show ?thesis using 2 n t0 tI tb
      by (cases "n = ?tb"; intro fin [where blk = "?b[?t := ?b ! ?t OR push_bit (?tb - n) (low8 d AND mask n)]"
            and u = "if n = ?tb then ab_tail bp + 1 else ab_tail bp" and ub = "if n = ?tb then 8 else ?tb - n"])
        (auto simp: asn_ncat_bits_def rd_def wr_def tail_pos_def abuf_tail_ready_def abuf_tailroom_def nat_add_distrib Let_def)
  next
    case 3
    define k where "k = n - ?tb"
    define b1 where "b1 = ?b[?t := ?b ! ?t OR low8 (drop_bit k (d AND push_bit k (mask ?tb)))]"
    define bp1 where "bp1 = bp\<lparr>ab_block := b1, ab_tail := ab_tail bp + 1, tail_bits_left := 8\<rparr>"
    have k: "0 < k" "k < 32" "n = ?tb + k" using 3 n tb by (auto simp: k_def)
    have w1: "written ?b (8 * ?t + (8 - ?tb)) ?tb (drop_bit k d) b1"
      unfolding b1_def by (rule written_spill [OF t tb(2) zero])
    have len1: "length b1 = length ?b" by (simp add: b1_def)
    have room1: "8 * (?t + 1) + k \<le> 8 * length ?b" using room k tb by (simp add: tail_pos_def)
    have clean1: "\<not> abit b1 j" if "8 * (?t + 1) \<le> j" "j < 8 * length b1" for j
      by (rule written_clean [OF w1 _ _ that(2)]) (use ok that tb in \<open>auto simp: tail_ok_def tail_pos_def\<close>)
    obtain b2 where b2: "ncat_rest d k bp1 = Some (bp1\<lparr>ab_block := b2, ab_tail := ab_tail bp1 + int (k div 8), tail_bits_left := 8 - k mod 8\<rparr>)"
      "written b1 (8 * (?t + 1)) k d b2"
      using ncat_rest_ok [of bp1 k d] clean1 room1 t0 len1 by (auto simp: bp1_def nat_add_distrib)
    have "written ?b (8 * ?t + (8 - ?tb)) (?tb + k) d b2"
      by (rule written_trans [OF w1]) (use b2(2) tb in \<open>simp add: add.commute\<close>)
    then have w: "written ?b (tail_pos bp) n d b2" using k(3) by (simp add: tail_pos_def)
    have "(int k + 7) div 8 \<le> ab_size bp - ab_tail bp"
    proof -
      have "int k \<le> 8 * (ab_size bp - ab_tail bp - 1)" using room1 t0 by (simp add: nat_add_distrib)
      moreover have "(a + 7) div 8 \<le> c" if "a \<le> 8 * (c - 1)" for a c :: int using that by presburger
      ultimately show ?thesis by blast
    qed
    then have chk: "0 \<le> abuf_check_put_tailroom (bp\<lparr>ab_block := b1, tail_bits_left := 0\<rparr>) (int k)"
      by (simp add: abuf_check_put_tailroom_def abuf_tailroom_def len1 Let_def pos_imp_zdiv_nonneg_iff)
    have ready: "abuf_tail_ready (bp\<lparr>ab_block := b1, tail_bits_left := 0\<rparr>) = bp1"
      using tI by (simp add: abuf_tail_ready_def abuf_tailroom_def bp1_def len1)
    have nk: "\<not> 8 \<le> k mod 8" by (simp add: not_le)
    have ready2: "abuf_tail_ready (bp\<lparr>ab_block := b2, ab_tail := u, tail_bits_left := 8 - k mod 8\<rparr>) =
        bp\<lparr>ab_block := b2, ab_tail := u, tail_bits_left := 8 - k mod 8\<rparr>" for u
      by (simp add: abuf_tail_ready_def nk)
    have "asn_ncat_bits bp d n = Some (0, bp\<lparr>ab_block := b2, ab_tail := ab_tail bp + 1 + int (k div 8), tail_bits_left := 8 - k mod 8\<rparr>)"
      using 3 n k t0 tI chk b2(1) ready ready2
      by (simp add: asn_ncat_bits_def Let_def rd_def wr_def k_def [symmetric] b1_def [symmetric] del: drop_bit_and)
        (simp add: bp1_def)
    moreover have "8 * nat (ab_tail bp + 1 + int (k div 8)) + (8 - (8 - k mod 8)) = tail_pos bp + n"
      using t0 k(3) tb by (simp add: nat_add_distrib tail_pos_def)
    ultimately show ?thesis using t0
      by (intro fin [where u = "ab_tail bp + 1 + int (k div 8)" and ub = "8 - k mod 8", OF _ w]) (auto simp: Suc_le_eq)
  qed
qed

section \<open>Reading\<close>

text \<open>\<open>w\<close> is the number made of the \<open>n\<close> bits from position \<open>p\<close> on.\<close>

definition val_at :: "u8 list \<Rightarrow> nat \<Rightarrow> nat \<Rightarrow> u32 \<Rightarrow> bool" where
  "val_at blk p n w \<longleftrightarrow> (\<forall>i < 32. bit w i \<longleftrightarrow> i < n \<and> abit blk (p + n - 1 - i))"

lemma val_bits_at: "val_at blk p n w \<Longrightarrow> bits_at blk p n d \<Longrightarrow> n \<le> 32 \<Longrightarrow> w = d AND mask n"
proof (rule bit_word_eqI)
  fix i assume v: "val_at blk p n w" and b: "bits_at blk p n d" and n: "n \<le> 32" and i: "i < LENGTH(32)"
  have "bit w i \<longleftrightarrow> i < n \<and> abit blk (p + n - 1 - i)" using v i by (simp add: val_at_def)
  moreover have "abit blk (p + n - 1 - i) = bit d i" if "i < n"
  proof -
    have "n - 1 - i < n" using that by simp
    then have "abit blk (p + (n - 1 - i)) = bit d (n - 1 - (n - 1 - i))" by (rule b [unfolded bits_at_def, rule_format])
    moreover have "p + (n - 1 - i) = p + n - 1 - i" "n - 1 - (n - 1 - i) = i" using that by simp_all
    ultimately show ?thesis by simp
  qed
  ultimately show "bit w i = bit (d AND mask n) i" using i by (auto simp: bit_simps)
qed

lemma val_append:
  assumes "val_at blk p m v" and "val_at blk (p + m) k w" and "m + k \<le> 32"
  shows "val_at blk p (m + k) (push_bit k v OR w)"
  unfolding val_at_def
proof (intro allI impI)
  fix i :: nat assume i: "i < 32"
  have w: "bit w i \<longleftrightarrow> i < k \<and> abit blk (p + m + k - 1 - i)" using assms(2) i by (simp add: val_at_def)
  have v: "bit v (i - k) \<longleftrightarrow> i - k < m \<and> abit blk (p + m - 1 - (i - k))" using assms(1) i by (simp add: val_at_def)
  have "p + m - 1 - (i - k) = p + (m + k) - 1 - i" if "k \<le> i" using that by simp
  then show "bit (push_bit k v OR w) i \<longleftrightarrow> i < m + k \<and> abit blk (p + (m + k) - 1 - i)"
    using v w i by (cases "k \<le> i") (auto simp: bit_simps add.assoc)
qed

text \<open>A run of bits inside one byte.\<close>

lemma val_byte:
  assumes "o1 + n \<le> 8" and "\<And>i. i < 32 \<Longrightarrow> bit w i \<longleftrightarrow> i < n \<and> bit (blk ! t) (8 - o1 - n + i)"
  shows "val_at blk (8 * t + o1) n w"
  unfolding val_at_def
proof (intro allI impI)
  fix i :: nat assume i: "i < 32"
  have "abit blk (8 * t + o1 + n - 1 - i) = bit (blk ! t) (8 - o1 - n + i)" if "i < n"
  proof -
    define o2 where "o2 = o1 + n - 1 - i"
    have "8 * t + o1 + n - 1 - i = 8 * t + o2" "o2 < 8" "7 - o2 = 8 - o1 - n + i" using that assms(1) by (auto simp: o2_def)
    then show ?thesis by (simp add: abit_def)
  qed
  then show "bit w i \<longleftrightarrow> i < n \<and> abit blk (8 * t + o1 + n - 1 - i)" using assms(2) [OF i] by auto
qed

lemma val_first:
  assumes "left \<le> 8" and "n \<le> left"
  shows "val_at blk (8 * t + (8 - left)) n (drop_bit (left - n) (ucast (blk ! t) AND push_bit (left - n) (mask n)))"
  using assms by (intro val_byte) (auto simp: bit_simps add.commute dest: bit_imp_le_length)

lemma val_rest: "left \<le> 8 \<Longrightarrow> val_at blk (8 * t + (8 - left)) left (ucast (blk ! t) AND mask left)"
  by (intro val_byte) (auto simp: bit_simps)

lemma val_whole: "val_at blk (8 * t) 8 (ucast (blk ! t))"
proof -
  have "val_at blk (8 * t + 0) 8 (ucast (blk ! t))"
    by (rule val_byte) (auto simp: bit_simps dest: bit_imp_le_length)
  then show ?thesis by simp
qed

lemma val_part: "k \<le> 8 \<Longrightarrow> val_at blk (8 * t) k (drop_bit (8 - k) (ucast (blk ! t) AND push_bit (8 - k) (mask k)))"
  using val_first [of 8 k blk t] by simp

lemma rd_Some: "0 \<le> cp \<Longrightarrow> nat cp + k < length blk \<Longrightarrow> rd blk (cp + int k) = Some (blk ! (nat cp + k))"
  by (auto simp: rd_def nat_add_distrib)

lemma rd32_Some: "0 \<le> cp \<Longrightarrow> nat cp + k < length blk \<Longrightarrow> rd32 blk (cp + int k) = Some (ucast (blk ! (nat cp + k)))"
  by (simp add: rd32_def rd_Some)

lemmas rd32_here = rd32_Some [where k = 0, simplified]

text \<open>The position of a reader, and what it needs: the bytes that the bits wanted reach, and where they
  end with a byte the one after it.\<close>

definition reader_ok :: "u8 list \<Rightarrow> int \<Rightarrow> nat \<Rightarrow> bool" where
  "reader_ok blk cp left \<longleftrightarrow> 0 \<le> cp \<and> 1 \<le> left \<and> left \<le> 8"

definition rpos :: "int \<Rightarrow> nat \<Rightarrow> nat" where
  "rpos cp left = 8 * nat cp + (8 - left)"

lemma get_ok:
  assumes r: "reader_ok blk cp left" and n: "0 < n" "n \<le> 32"
    and room: "nat cp + (if n > left then (n - left) div 8 + 1 else 0) < length blk"
    and b: "bits_at blk (rpos cp left) n d"
  shows "\<exists>cp' left'. get_next_n_bits blk cp n left = Some (d AND mask n, cp', left') \<and> reader_ok blk cp' left' \<and>
    rpos cp' left' = rpos cp left + n"
proof -
  let ?t = "nat cp"
  have l: "1 \<le> left" "left \<le> 8" "0 \<le> cp" using r by (simp_all add: reader_ok_def)
  have first: "val_at blk (rpos cp left) left (ucast (blk ! ?t) AND mask left)"
    unfolding rpos_def by (rule val_rest [OF l(2)])
  have end_pos: "rpos cp left + left = 8 * (?t + 1)" using l by (simp add: rpos_def)
  have fin: ?thesis
    if run: "get_next_n_bits blk cp n left = Some (if k = 8 then (w, cp + int j + 1, 8) else (w, cp + int j, 8 - k))"
      and w: "val_at blk (rpos cp left) n w" and k: "k \<le> 8" "8 * (?t + j) + k = rpos cp left + n" for w j k
  proof -
    have "w = d AND mask n" by (rule val_bits_at [OF w b n(2)])
    then show ?thesis using run k l(3) by (auto simp: reader_ok_def rpos_def nat_add_distrib)
  qed
  have more: "val_at blk (8 * t) (8 + k) (push_bit k (ucast (blk ! t)) OR w)" if "val_at blk (8 * (t + 1)) k w" "8 + k \<le> 32" for t k w
    by (rule val_append [OF val_whole]) (use that in \<open>simp_all add: add.commute\<close>)
  have p: "rpos cp left + (left + 8) = 8 * (?t + 2)" "rpos cp left + (left + 8 + 8) = 8 * (?t + 3)"
    "rpos cp left + (left + 8 + 8 + 8) = 8 * (?t + 4)" using end_pos by simp_all
  have whole: "val_at blk (rpos cp left + left) 8 (ucast (blk ! (?t + 1)))"
    "val_at blk (rpos cp left + (left + 8)) 8 (ucast (blk ! (?t + 2)))"
    "val_at blk (rpos cp left + (left + 8 + 8)) 8 (ucast (blk ! (?t + 3)))"
    unfolding p end_pos by (rule val_whole)+
  consider "n \<le> left" | "left < n" "(n - left) div 8 = 0" | "left < n" "(n - left) div 8 = 1"
    | "left < n" "(n - left) div 8 = 2" | "left < n" "(n - left) div 8 = 3"
    using n l by linarith
  then show ?thesis
  proof cases
    case 1
    have "val_at blk (rpos cp left) n (drop_bit (left - n) (ucast (blk ! ?t) AND push_bit (left - n) (mask n)))"
      unfolding rpos_def by (rule val_first [OF l(2) 1])
    then show ?thesis using 1 l n room
      by (intro fin [where j = 0 and k = "8 - (left - n)"])
        (auto simp: get_next_n_bits_def rd32_here rpos_def Let_def)
  next
    case 2
    define k where "k = n - left"
    have k: "k < 8" "n = left + k" using 2 by (auto simp: k_def)
    have "val_at blk (rpos cp left) (left + k) (push_bit k (ucast (blk ! ?t) AND mask left) OR
        drop_bit (8 - k) (ucast (blk ! (?t + 1)) AND push_bit (8 - k) (mask k)))"
      by (rule val_append [OF first]) (use val_part [of k blk "?t + 1"] k n end_pos in simp_all)
    then show ?thesis using 2 l n room k
      by (intro fin [where j = 1 and k = k])
        (auto simp: get_next_n_bits_def calc_bytes_needed_for_n_more_bits_def rd32_here rd_first_def
          rd32_Some [where k = 1, simplified] end_pos k_def [symmetric] Let_def nat_add_distrib)
  next
    case 3
    define k where "k = n - 8 - left"
    have k: "k < 8" "n = left + (8 + k)" using 3 by (auto simp: k_def)
    have "val_at blk (8 * (?t + 1)) (8 + k) (push_bit k (ucast (blk ! (?t + 1))) OR
        drop_bit (8 - k) (ucast (blk ! (?t + 2)) AND push_bit (8 - k) (mask k)))"
      by (rule more) (use val_part [of k blk "?t + 2"] k in simp_all)
    then have "val_at blk (rpos cp left) (left + (8 + k)) (push_bit (8 + k) (ucast (blk ! ?t) AND mask left) OR
        (push_bit k (ucast (blk ! (?t + 1))) OR drop_bit (8 - k) (ucast (blk ! (?t + 2)) AND push_bit (8 - k) (mask k))))"
      by (intro val_append [OF first]) (use k n end_pos in simp_all)
    then show ?thesis using 3 l n room k
      by (intro fin [where j = 2 and k = k])
        (auto simp: get_next_n_bits_def calc_bytes_needed_for_n_more_bits_def rd32_here rd_first_def
          rd32_Some [where k = 1, simplified] rd32_Some [where k = 2, simplified] end_pos k_def [symmetric] Let_def nat_add_distrib or.assoc)
  next
    case 4
    define k where "k = n - 16 - left"
    have k: "k < 8" "n = left + 8 + 8 + k" using 4 by (auto simp: k_def)
    have part: "val_at blk (rpos cp left + (left + 8 + 8)) k (drop_bit (8 - k) (ucast (blk ! (?t + 3)) AND push_bit (8 - k) (mask k)))"
      unfolding p by (rule val_part) (use k in simp)
    have "val_at blk (rpos cp left) (left + 8) (push_bit 8 (ucast (blk ! ?t) AND mask left) OR ucast (blk ! (?t + 1)))"
      by (rule val_append [OF first whole(1)]) (use l in simp)
    then have "val_at blk (rpos cp left) (left + 8 + 8)
        (push_bit 8 (push_bit 8 (ucast (blk ! ?t) AND mask left) OR ucast (blk ! (?t + 1))) OR ucast (blk ! (?t + 2)))"
      by (rule val_append [OF _ whole(2)]) (use l in simp)
    then have "val_at blk (rpos cp left) (left + 8 + 8 + k)
        (push_bit k (push_bit 8 (push_bit 8 (ucast (blk ! ?t) AND mask left) OR ucast (blk ! (?t + 1))) OR ucast (blk ! (?t + 2))) OR
          drop_bit (8 - k) (ucast (blk ! (?t + 3)) AND push_bit (8 - k) (mask k)))"
      by (rule val_append [OF _ part]) (use l k n in simp)
    then show ?thesis using 4 l n room k
      by (intro fin [where j = 3 and k = k])
        (auto simp: get_next_n_bits_def calc_bytes_needed_for_n_more_bits_def rd32_here rd_first_def
          rd32_Some [where k = 1, simplified] rd32_Some [where k = 2, simplified] rd32_Some [where k = 3, simplified]
          end_pos k_def [symmetric] Let_def nat_add_distrib)
  next
    case 5
    define k where "k = n - 24 - left"
    have k: "k < 8" "n = left + 8 + 8 + 8 + k" using 5 by (auto simp: k_def)
    have part: "val_at blk (rpos cp left + (left + 8 + 8 + 8)) k (drop_bit (8 - k) (ucast (blk ! (?t + 4)) AND push_bit (8 - k) (mask k)))"
      unfolding p by (rule val_part) (use k in simp)
    have "val_at blk (rpos cp left) (left + 8) (push_bit 8 (ucast (blk ! ?t) AND mask left) OR ucast (blk ! (?t + 1)))"
      by (rule val_append [OF first whole(1)]) (use l in simp)
    then have "val_at blk (rpos cp left) (left + 8 + 8)
        (push_bit 8 (push_bit 8 (ucast (blk ! ?t) AND mask left) OR ucast (blk ! (?t + 1))) OR ucast (blk ! (?t + 2)))"
      by (rule val_append [OF _ whole(2)]) (use l in simp)
    then have "val_at blk (rpos cp left) (left + 8 + 8 + 8)
        (push_bit 8 (push_bit 8 (push_bit 8 (ucast (blk ! ?t) AND mask left) OR ucast (blk ! (?t + 1))) OR ucast (blk ! (?t + 2))) OR
          ucast (blk ! (?t + 3)))"
      by (rule val_append [OF _ whole(3)]) (use l in simp)
    then have "val_at blk (rpos cp left) (left + 8 + 8 + 8 + k)
        (push_bit k (push_bit 8 (push_bit 8 (push_bit 8 (ucast (blk ! ?t) AND mask left) OR ucast (blk ! (?t + 1))) OR ucast (blk ! (?t + 2))) OR
          ucast (blk ! (?t + 3))) OR drop_bit (8 - k) (ucast (blk ! (?t + 4)) AND push_bit (8 - k) (mask k)))"
      by (rule val_append [OF _ part]) (use l k n in simp)
    then show ?thesis using 5 l n room k
      by (intro fin [where j = 4 and k = k])
        (auto simp: get_next_n_bits_def calc_bytes_needed_for_n_more_bits_def rd32_here rd_first_def
          rd32_Some [where k = 1, simplified] rd32_Some [where k = 2, simplified] rd32_Some [where k = 3, simplified]
          rd32_Some [where k = 4, simplified] end_pos k_def [symmetric] Let_def nat_add_distrib)
  qed
qed

section \<open>Prepending\<close>

text \<open>As \<open>written\<close>, but nothing is said of what stands before \<open>p\<close>.\<close>

definition pushed :: "u8 list \<Rightarrow> nat \<Rightarrow> nat \<Rightarrow> u32 \<Rightarrow> u8 list \<Rightarrow> bool" where
  "pushed blk p n d blk' \<longleftrightarrow> length blk' = length blk \<and>
     (\<forall>j < 8 * length blk. p \<le> j \<longrightarrow> abit blk' j = (if j < p + n then bit d (p + n - 1 - j) else abit blk j))"

lemma written_pushed: "written blk p n d blk' \<Longrightarrow> pushed blk p n d blk'"
  by (simp add: written_def pushed_def)

lemma pushed_0: "pushed blk p 0 d blk"
  by (simp add: pushed_def)

lemma pushedD: "pushed blk p n d blk' \<Longrightarrow> p + n \<le> 8 * length blk \<Longrightarrow> bits_at blk' p n d"
  by (auto simp: pushed_def bits_at_def)

lemma pushed_frame:
  "pushed blk p n d blk' \<Longrightarrow> bits_at blk q m e \<Longrightarrow> q + m \<le> 8 * length blk \<Longrightarrow> p + n \<le> q \<Longrightarrow> bits_at blk' q m e"
  unfolding pushed_def bits_at_def by auto

text \<open>The low bits first, then the high ones in front of them.\<close>

lemma pushed_trans:
  assumes "pushed blk (p + m) k d blk1" and "pushed blk1 p m (drop_bit k d) blk2"
  shows "pushed blk p (m + k) d blk2"
  unfolding pushed_def
proof (intro conjI allI impI)
  show "length blk2 = length blk" using assms by (simp add: pushed_def)
next
  fix j assume j: "j < 8 * length blk" "p \<le> j"
  have 1: "p + m \<le> j \<Longrightarrow> abit blk1 j = (if j < p + m + k then bit d (p + m + k - 1 - j) else abit blk j)"
    using assms(1) j by (simp add: pushed_def)
  have "j < 8 * length blk1" using assms(1) j by (simp add: pushed_def)
  then have 2: "abit blk2 j = (if j < p + m then bit (drop_bit k d) (p + m - 1 - j) else abit blk1 j)"
    using assms(2) j(2) by (simp add: pushed_def)
  show "abit blk2 j = (if j < p + (m + k) then bit d (p + (m + k) - 1 - j) else abit blk j)"
  proof (cases "j < p + m")
    case True
    then have "k + (p + m - Suc j) = p + (m + k) - Suc j" by linarith
    then show ?thesis using 2 True by (simp add: bit_drop_bit_eq)
  next
    case False
    then show ?thesis using 1 2 by (auto simp: add.assoc)
  qed
qed

lemma written_headspace:
  assumes "t < length blk" and "hs \<le> 8" and "q \<le> hs"
  shows "written blk (8 * t + (hs - q)) q d
    (blk[t := (blk ! t AND NOT (push_bit (8 - hs) (mask q))) OR low8 (push_bit (8 - hs) (d AND mask q))])"
proof (rule written_byte [OF assms(1)])
  show "hs - q + q \<le> 8" using assms by simp
  fix o2 :: nat assume o2: "o2 < 8"
  let ?v = "(blk ! t AND NOT (push_bit (8 - hs) (mask q))) OR low8 (push_bit (8 - hs) (d AND mask q))"
  let ?in = "8 - hs \<le> 7 - o2 \<and> 7 - o2 - (8 - hs) < q"
  have v: "bit ?v (7 - o2) \<longleftrightarrow> (if ?in then bit d (7 - o2 - (8 - hs)) else bit (blk ! t) (7 - o2))"
    using o2 by (auto simp: bit_simps)
  have "?in \<longleftrightarrow> hs - q \<le> o2 \<and> o2 < hs - q + q" using assms(2,3) o2 by auto
  moreover have "7 - o2 - (8 - hs) = hs - q + q - 1 - o2" if ?in using that assms(2,3) o2 by auto
  ultimately show "bit ?v (7 - o2) = (if hs - q \<le> o2 \<and> o2 < hs - q + q then bit d (hs - q + q - 1 - o2) else bit (blk ! t) (7 - o2))"
    unfolding v by presburger
qed

lemma pushed_top:
  assumes "t < length blk" and "n \<le> 8"
  shows "pushed blk (8 * t + (8 - n)) n d (blk[t := low8 (d AND mask n)])"
proof -
  have "abit (blk[t := low8 (d AND mask n)]) j = (if j < 8 * t + (8 - n) + n then bit d (8 * t + (8 - n) + n - 1 - j) else abit blk j)"
    if j: "8 * t + (8 - n) \<le> j" for j
  proof (cases "j div 8 = t")
    case True
    define o2 where "o2 = j mod 8"
    have o2: "j = 8 * t + o2" "o2 < 8" using True by (auto simp: o2_def)
    then have "7 - o2 < n" using j assms(2) by auto
    then have "bit (low8 (d AND mask n)) (7 - o2) = bit d (7 - o2)" using o2 by (auto simp: bit_simps)
    then show ?thesis using o2 assms True by (auto simp: abit_update o2_def [symmetric])
  next
    case False
    then have "\<not> j < 8 * t + (8 - n) + n" using assms(2) j by auto
    then show ?thesis using False by (auto simp: abit_update [OF assms(1)])
  qed
  then show ?thesis by (simp add: pushed_def)
qed

lemma push_bytes_ok:
  assumes "ab_data bp < ab_size bp" and "int (n div 8) \<le> ab_data bp + 1" and "head_headspace_bits bp = 8"
  shows "\<exists>blk. push_bytes d n bp = Some (drop_bit (8 * (n div 8)) d, n mod 8,
      bp\<lparr>ab_block := blk, ab_data := ab_data bp - int (n div 8)\<rparr>) \<and>
    pushed (ab_block bp) (8 * nat (ab_data bp + 1 - int (n div 8))) (8 * (n div 8)) d blk"
  using assms
proof (induction n arbitrary: bp d rule: less_induct)
  case (less n)
  show ?case
  proof (cases "n \<ge> 8")
    case False
    then show ?thesis by (subst push_bytes.simps) (auto intro!: exI [of _ "ab_block bp"] simp: pushed_0)
  next
    case True
    let ?t = "nat (ab_data bp)" and ?k = "(n - 8) div 8"
    have m: "(n - 8) mod 8 = n mod 8" "n div 8 = Suc ?k" using True by (simp_all add: le_mod_geq le_div_geq)
    have d0: "0 \<le> ab_data bp" using less.prems(2) m by simp
    have t: "?t < length (ab_block bp)" using less.prems(1) d0 by linarith
    define b1 where "b1 = (ab_block bp)[?t := low8 (d AND 0xff)]"
    define bp1 where "bp1 = bp\<lparr>ab_block := b1, ab_data := ab_data bp - 1\<rparr>"
    have "ab_data bp1 < ab_size bp1" "int ?k \<le> ab_data bp1 + 1" "head_headspace_bits bp1 = 8"
      using less.prems m by (auto simp: bp1_def b1_def)
    then obtain blk where blk: "push_bytes (drop_bit 8 d) (n - 8) bp1 = Some (drop_bit (8 * ?k) (drop_bit 8 d), (n - 8) mod 8,
        bp1\<lparr>ab_block := blk, ab_data := ab_data bp1 - int ?k\<rparr>)"
      "pushed (ab_block bp1) (8 * nat (ab_data bp1 + 1 - int ?k)) (8 * ?k) (drop_bit 8 d) blk"
      using less.IH [of "n - 8" bp1 "drop_bit 8 d"] True by auto
    have "int ?k \<le> ab_data bp" using less.prems(2) m by simp
    then have kk: "?k \<le> ?t" by linarith
    have p: "8 * nat (ab_data bp + 1 - int (n div 8)) + 8 * ?k = 8 * ?t" "ab_data bp1 + 1 - int ?k = ab_data bp + 1 - int (n div 8) "
      "ab_data bp + 1 - int (n div 8) = ab_data bp - int ?k" using less.prems(2) m d0 kk by (simp_all add: bp1_def nat_diff_distrib diff_mult_distrib2)
    have "pushed (ab_block bp) (8 * ?t + (8 - 8)) 8 d b1"
      unfolding b1_def mask_8 by (rule pushed_top [OF t]) simp
    then have "pushed (ab_block bp) (8 * nat (ab_data bp + 1 - int (n div 8)) + 8 * ?k) 8 d b1" by (simp add: p(1))
    moreover have "pushed b1 (8 * nat (ab_data bp + 1 - int (n div 8))) (8 * ?k) (drop_bit 8 d) blk"
      using blk(2) m by (simp add: bp1_def)
    ultimately have "pushed (ab_block bp) (8 * nat (ab_data bp + 1 - int (n div 8))) (8 * ?k + 8) d blk"
      by (rule pushed_trans)
    moreover have "push_bytes d n bp = push_bytes (drop_bit 8 d) (n - 8) bp1"
      using True d0 less.prems t by (subst push_bytes.simps) (cases bp; auto simp: wr_def bp1_def b1_def)
    ultimately show ?thesis using blk(1) m
      by (intro exI [of _ blk]) (simp add: bp1_def drop_bit_drop_bit add.commute algebra_simps)
  qed
qed

definition head_pos :: "abuf \<Rightarrow> nat" where
  "head_pos bp = 8 * nat (ab_data bp) + head_headspace_bits bp"

definition head_ok :: "abuf \<Rightarrow> bool" where
  "head_ok bp \<longleftrightarrow> 0 \<le> ab_data bp \<and> ab_data bp < ab_size bp \<and> head_headspace_bits bp < 8"

text \<open>Where there is headroom, the bits come in front of the others.\<close>

lemma push_ok:
  assumes ok: "head_ok bp" and n: "0 < n" and room: "n \<le> head_pos bp"
  shows "\<exists>blk a hs. asn_push_bits bp d n = Some (int n, bp\<lparr>ab_block := blk, ab_data := a, head_headspace_bits := hs\<rparr>) \<and>
    pushed (ab_block bp) (head_pos bp - n) n d blk \<and> head_ok (bp\<lparr>ab_block := blk, ab_data := a, head_headspace_bits := hs\<rparr>) \<and>
    head_pos (bp\<lparr>ab_block := blk, ab_data := a, head_headspace_bits := hs\<rparr>) = head_pos bp - n"
proof -
  let ?t = "nat (ab_data bp)" and ?hs = "head_headspace_bits bp" and ?b = "ab_block bp"
  have hs: "?hs < 8" and d0: "0 \<le> ab_data bp" "ab_data bp < ab_size bp" using ok by (simp_all add: head_ok_def)
  have t: "?t < length ?b" using d0 by linarith
  define q where "q = (if n < ?hs then n else ?hs)"
  define b1 where "b1 = ?b[?t := (?b ! ?t AND NOT (push_bit (8 - ?hs) (mask q))) OR low8 (push_bit (8 - ?hs) (d AND mask q))]"
  have q: "q \<le> ?hs" "q \<le> n" by (auto simp: q_def)
  have len1: "length b1 = length ?b" by (simp add: b1_def)
  have w1: "pushed ?b (8 * ?t + (?hs - q)) q d b1"
    unfolding b1_def by (rule written_pushed, rule written_headspace) (use t hs q in simp_all)
  have guard: "\<not> (n = 0 \<or> abuf_headroom_bits bp < int n)"
    using n room d0 by (simp add: abuf_headroom_bits_def head_pos_def)
  have rw: "rd ?b (ab_data bp) = Some (?b ! ?t)" "\<And>v. wr (ab_data bp) v bp = Some (bp\<lparr>ab_block := ?b[?t := v]\<rparr>)"
    using d0 by (simp_all add: rd_def wr_def)
  have fin: "?thesis" if run: "asn_push_bits bp d n = Some (int n, bp\<lparr>ab_block := blk, ab_data := a, head_headspace_bits := h\<rparr>)"
    and w: "pushed ?b (head_pos bp - n) n d blk" and pos: "8 * nat a + h = head_pos bp - n" "0 \<le> a" "h < 8" for blk a h
  proof -
    have "8 * nat a + 8 * 1 \<le> 8 * ?t + 8" using pos(1) room n hs by (simp add: head_pos_def)
    then have "a < ab_size bp" using t pos(2) by linarith
    then show ?thesis using run w pos written_length
      by (intro exI [of _ blk] exI [of _ a] exI [of _ h]) (auto simp: head_ok_def head_pos_def pushed_def)
  qed
  show ?thesis
  proof (cases "n < ?hs")
    case True
    then have "q = n" by (simp add: q_def)
    have pb: "push_bytes (drop_bit n d) 0 bp' = Some (drop_bit n d, 0, bp')" for bp' by (subst push_bytes.simps) simp
    show ?thesis using True n guard rw w1 pb d0 hs \<open>q = n\<close>
      by (intro fin [where blk = b1 and a = "ab_data bp" and h = "?hs - n"])
        (auto simp: asn_push_bits_def Let_def b1_def head_pos_def)
  next
    case False
    then have qh: "q = ?hs" by (simp add: q_def)
    have wr1: "wr (ab_data bp) ((?b ! ?t AND NOT (push_bit (8 - ?hs) (mask ?hs))) OR low8 (push_bit (8 - ?hs) (d AND mask ?hs))) bp =
        Some (bp\<lparr>ab_block := b1\<rparr>)" using rw(2) by (simp add: b1_def qh del: push_bit_and)
    define m where "m = n - ?hs"
    define bp1 where "bp1 = bp\<lparr>ab_block := b1, ab_data := ab_data bp - 1, head_headspace_bits := 8\<rparr>"
    have m: "m \<le> 8 * ?t" "n = m + ?hs" using room False by (auto simp: m_def head_pos_def)
    then have md: "m div 8 \<le> ?t" by linarith
    then have mdI: "int (m div 8) \<le> ab_data bp" using d0 by linarith
    obtain b2 where b2: "push_bytes (drop_bit ?hs d) m bp1 = Some (drop_bit (8 * (m div 8)) (drop_bit ?hs d), m mod 8,
        bp1\<lparr>ab_block := b2, ab_data := ab_data bp1 - int (m div 8)\<rparr>)"
      "pushed b1 (8 * (?t - m div 8)) (8 * (m div 8)) (drop_bit ?hs d) b2"
      using push_bytes_ok [of bp1 m "drop_bit ?hs d"] d0 mdI len1 by (auto simp: bp1_def nat_diff_distrib)
    have len2: "length b2 = length ?b" using b2(2) len1 by (simp add: pushed_def)
    let ?u = "?t - m div 8"
    let ?d2 = "drop_bit (8 * (m div 8)) (drop_bit ?hs d)"
    show ?thesis
    proof (cases "m mod 8 = 0")
      case True
      then have m8: "8 * (m div 8) = m" by auto
      have "pushed ?b (8 * ?u + m) ?hs d b1" using w1 qh m8 md by (simp add: diff_mult_distrib2)
      then have w: "pushed ?b (8 * ?u) (m + ?hs) d b2" by (rule pushed_trans) (use b2(2) m8 in simp)
      have pos: "head_pos bp - n = 8 * ?u" using m m8 by (simp add: head_pos_def diff_mult_distrib2)
      show ?thesis
        using False guard n rw b2(1) d0 hs w m pos md True qh
        by (intro fin [where blk = b2 and a = "ab_data bp - int (m div 8)" and h = 0])
          (auto simp: asn_push_bits_def Let_def m_def [symmetric] bp1_def b1_def q_def nat_diff_distrib)
    next
      case False2: False
      let ?r = "m mod 8"
      define b3 where "b3 = b2[?u - 1 := low8 (?d2 AND mask ?r)]"
      have m8: "m = 8 * (m div 8) + ?r" by simp
      then have u1: "1 \<le> ?u" using m(1) False2 md by linarith
      have top: "pushed b2 (8 * (?u - 1) + (8 - ?r)) ?r ?d2 b3"
        unfolding b3_def by (rule pushed_top) (use u1 t len2 in auto)
      have e: "8 * (?u - 1) + (8 - ?r) + ?r = 8 * ?u" using u1 mod_less_divisor [of 8 m] by simp
      have "pushed b1 (8 * (?u - 1) + (8 - ?r) + ?r) (8 * (m div 8)) (drop_bit ?hs d) b2" unfolding e by (rule b2(2))
      from pushed_trans [OF this top]
      have "pushed b1 (8 * (?u - 1) + (8 - ?r)) (?r + 8 * (m div 8)) (drop_bit ?hs d) b3" .
      then have p1: "pushed b1 (8 * (?u - 1) + (8 - ?r)) m (drop_bit ?hs d) b3" by (simp only: add.commute [of ?r] mult_div_mod_eq)
      have "8 * ?u + 8 * (m div 8) = 8 * ?t" using md by (simp add: diff_mult_distrib2)
      then have st: "8 * (?u - 1) + (8 - ?r) + m = 8 * ?t"
        using e mult_div_mod_eq [of 8 m] by linarith
      have "pushed ?b (8 * (?u - 1) + (8 - ?r) + m) ?hs d b1" unfolding st using w1 qh by simp
      from pushed_trans [OF this p1] have w: "pushed ?b (8 * (?u - 1) + (8 - ?r)) (m + ?hs) d b3" .
      have pos: "head_pos bp - n = 8 * (?u - 1) + (8 - ?r)" unfolding head_pos_def m(2) st [symmetric] by (simp only: add_diff_cancel_right add_diff_cancel_right')
      let ?a = "ab_data bp - 1 - int (m div 8)"
      have "int (m div 8) < ab_data bp" using u1 d0 md by linarith
      then have a: "0 \<le> ?a" "?a < int (length b2)" "nat ?a = ?u - 1"
        using d0 len2 by (simp_all add: nat_diff_distrib)
      have b2': "push_bytes (drop_bit ?hs d) m (bp\<lparr>ab_block := b1, ab_data := ab_data bp - 1, head_headspace_bits := 8\<rparr>) =
          Some (?d2, ?r, bp\<lparr>ab_block := b2, ab_data := ?a, head_headspace_bits := 8\<rparr>)"
        using b2(1) by (simp add: bp1_def)
      have wr3: "wr ?a (low8 (?d2 AND mask ?r)) (bp\<lparr>ab_block := b2, ab_data := ?a, head_headspace_bits := 8\<rparr>) =
          Some (bp\<lparr>ab_block := b3, ab_data := ?a, head_headspace_bits := 8\<rparr>)"
        using a by (simp add: wr_def b3_def)
      have run: "asn_push_bits bp d n = Some (int n, bp\<lparr>ab_block := b3, ab_data := ?a, head_headspace_bits := 8 - ?r\<rparr>)"
        using guard False rw(1) wr1 b2' wr3 False2 unfolding asn_push_bits_def
        by (simp add: Let_def m_def [symmetric] del: drop_bit_drop_bit push_bit_and)
      show ?thesis
      proof (rule fin [OF run w [folded pos m(2)]])
        show "8 * nat ?a + (8 - ?r) = head_pos bp - n" unfolding a(3) pos ..
        show "0 \<le> ?a" by (rule a(1))
        show "8 - ?r < 8" using False2 by simp
      qed
    qed
  qed
qed

end
