(* ===== verification/V2xBits.thy ===== *)
theory V2xBits
  imports V2xBufFacts
begin

text \<open>
  The bit buffer as a sequence of bits. \<open>buf\_bits\<close> is what it holds; the operations behind the tail and
  in front of the data refine concatenation (the interface \<open>bit\_queue\<close>), and the reader takes the front
  of what it sees. The lengths in front of a payload and their readers rest on that.
\<close>

section \<open>Fields of bits\<close>

text \<open>The low bits of a word, the highest first.\<close>

definition nbits :: "nat \<Rightarrow> u32 \<Rightarrow> bool list" where
  "nbits n d = map (\<lambda>i. bit d (n - 1 - i)) [0..<n]"

definition span :: "u8 list \<Rightarrow> nat \<Rightarrow> nat \<Rightarrow> bool list" where
  "span blk p q = map (abit blk) [p..<q]"

lemma length_nbits [simp]: "length (nbits n d) = n"
  by (simp add: nbits_def)

lemma length_span [simp]: "length (span blk p q) = q - p"
  by (simp add: span_def)

lemma nbits_0 [simp]: "nbits 0 d = []"
  by (simp add: nbits_def)

lemma nth_nbits: "i < n \<Longrightarrow> nbits n d ! i = bit d (n - 1 - i)"
  by (simp add: nbits_def)

lemma span_append: "p \<le> q \<Longrightarrow> q \<le> r \<Longrightarrow> span blk p r = span blk p q @ span blk q r"
  unfolding span_def map_append [symmetric] by (metis le_Suc_ex upt_add_eq_append)

lemma span_Nil [simp]: "span blk p p = []"
  by (simp add: span_def)

lemma nbits_add: "nbits (m + n) d = nbits m (drop_bit n d) @ nbits n d"
proof (rule nth_equalityI)
  fix i assume "i < length (nbits (m + n) d)"
  then show "nbits (m + n) d ! i = (nbits m (drop_bit n d) @ nbits n d) ! i"
    by (auto simp: nth_append nth_nbits bit_simps intro!: arg_cong [where f = "bit d"])
qed simp

lemma nbits_mask: "nbits n (d AND mask n) = nbits n d"
  by (rule nth_equalityI) (auto simp: nth_nbits bit_simps dest: bit_imp_le_length)

lemma nbits_cong: "(\<And>i. i < n \<Longrightarrow> bit d i = bit e i) \<Longrightarrow> nbits n d = nbits n e"
  by (auto simp: nbits_def)

lemma span_nbits: "bits_at blk p n d \<Longrightarrow> span blk p (p + n) = nbits n d"
  by (rule nth_equalityI) (auto simp: bits_at_def span_def nth_nbits)

lemma span_cong: "(\<And>j. p \<le> j \<Longrightarrow> j < q \<Longrightarrow> abit blk j = abit blk' j) \<Longrightarrow> span blk p q = span blk' p q"
  by (simp add: span_def)

lemma span_before: "written blk p n d blk' \<Longrightarrow> r \<le> p \<Longrightarrow> r \<le> 8 * length blk \<Longrightarrow> span blk' q r = span blk q r"
  by (rule span_cong) (auto simp: written_def)

lemma span_behind: "pushed blk p n d blk' \<Longrightarrow> p + n \<le> q \<Longrightarrow> r \<le> 8 * length blk \<Longrightarrow> span blk' q r = span blk q r"
  by (rule span_cong) (auto simp: pushed_def)

section \<open>The interface\<close>

locale bit_queue =
  fixes ok :: "'b \<Rightarrow> bool" and view :: "'b \<Rightarrow> bool list" and front :: "'b \<Rightarrow> nat" and rear :: "'b \<Rightarrow> nat"
    and append :: "nat \<times> u32 \<Rightarrow> 'b \<Rightarrow> 'b option" and prepend :: "nat \<times> u32 \<Rightarrow> 'b \<Rightarrow> 'b option"
  assumes append_view: "ok b \<Longrightarrow> 0 < n \<Longrightarrow> n \<le> 32 \<Longrightarrow> n \<le> rear b \<Longrightarrow>
      \<exists>b'. append (n, d) b = Some b' \<and> ok b' \<and> view b' = view b @ nbits n d \<and> front b' = front b \<and> rear b' = rear b - n"
    and prepend_view: "ok b \<Longrightarrow> 0 < n \<Longrightarrow> n \<le> 32 \<Longrightarrow> n \<le> front b \<Longrightarrow>
      \<exists>b'. prepend (n, d) b = Some b' \<and> ok b' \<and> view b' = nbits n d @ view b \<and> front b' = front b - n \<and> rear b' = rear b"
begin

abbreviation width :: "nat \<times> u32 \<Rightarrow> bool" where
  "width f \<equiv> 0 < fst f \<and> fst f \<le> 32"

lemma append_all:
  "ok b \<Longrightarrow> list_all width fs \<Longrightarrow> sum_list (map fst fs) \<le> rear b \<Longrightarrow>
     \<exists>b'. put_all append fs b = Some b' \<and> ok b' \<and> view b' = view b @ concat (map (\<lambda>(n, d). nbits n d) fs) \<and>
       front b' = front b \<and> rear b' = rear b - sum_list (map fst fs)"
proof (induction fs arbitrary: b)
  case (Cons f fs)
  obtain n d where f: "f = (n, d)" by (cases f)
  obtain b1 where b1: "append f b = Some b1" "ok b1" "view b1 = view b @ nbits n d" "front b1 = front b" "rear b1 = rear b - n"
    using append_view [of b n d] Cons.prems f by auto
  show ?case using Cons.IH [OF b1(2)] Cons.prems b1 f by auto
qed simp

lemma prepend_all:
  "ok b \<Longrightarrow> list_all width fs \<Longrightarrow> sum_list (map fst fs) \<le> front b \<Longrightarrow>
     \<exists>b'. put_all prepend fs b = Some b' \<and> ok b' \<and> view b' = concat (map (\<lambda>(n, d). nbits n d) (rev fs)) @ view b \<and>
       rear b' = rear b \<and> front b' = front b - sum_list (map fst fs)"
proof (induction fs arbitrary: b)
  case (Cons f fs)
  obtain n d where f: "f = (n, d)" by (cases f)
  obtain b1 where b1: "prepend f b = Some b1" "ok b1" "view b1 = nbits n d @ view b" "rear b1 = rear b" "front b1 = front b - n"
    using prepend_view [of b n d] Cons.prems f by auto
  show ?case using Cons.IH [OF b1(2)] Cons.prems b1 f by auto
qed simp

end

section \<open>The buffer provides it\<close>

definition buf_bits :: "abuf \<Rightarrow> bool list" where
  "buf_bits bp = span (ab_block bp) (head_pos bp) (tail_pos bp)"

definition buf_ok :: "abuf \<Rightarrow> bool" where
  "buf_ok bp \<longleftrightarrow> head_ok bp \<and> tail_ok bp \<and> head_pos bp \<le> tail_pos bp \<and> tail_pos bp \<le> 8 * length (ab_block bp)"

definition tail_room :: "abuf \<Rightarrow> nat" where
  "tail_room bp = 8 * length (ab_block bp) - tail_pos bp"

definition buf_append :: "nat \<times> u32 \<Rightarrow> abuf \<Rightarrow> abuf option" where
  "buf_append f bp = map_option snd (asn_ncat_bits bp (snd f) (fst f))"

definition buf_prepend :: "nat \<times> u32 \<Rightarrow> abuf \<Rightarrow> abuf option" where
  "buf_prepend f bp = map_option snd (asn_push_bits bp (snd f) (fst f))"

lemma head_pos_update [simp]:
  "head_pos (bp\<lparr>ab_block := blk, ab_tail := t, tail_bits_left := tb\<rparr>) = head_pos bp"
  by (simp add: head_pos_def)

lemma tail_pos_update [simp]:
  "tail_pos (bp\<lparr>ab_block := blk, ab_data := a, head_headspace_bits := hs\<rparr>) = tail_pos bp"
  by (simp add: tail_pos_def)

text \<open>What a write behind the tail, or one in front of the data, makes of the sequence.\<close>

lemma buf_append_step:
  assumes ok: "buf_ok bp" and r: "tail_pos bp + n \<le> 8 * length (ab_block bp)" and w: "written (ab_block bp) (tail_pos bp) n d blk"
    and t: "tail_ok (bp\<lparr>ab_block := blk, ab_tail := t, tail_bits_left := tb\<rparr>)"
      "tail_pos (bp\<lparr>ab_block := blk, ab_tail := t, tail_bits_left := tb\<rparr>) = tail_pos bp + n"
  shows "buf_ok (bp\<lparr>ab_block := blk, ab_tail := t, tail_bits_left := tb\<rparr>)"
    and "buf_bits (bp\<lparr>ab_block := blk, ab_tail := t, tail_bits_left := tb\<rparr>) = buf_bits bp @ nbits n d"
proof -
  have o: "head_ok bp" "head_pos bp \<le> tail_pos bp" "tail_pos bp \<le> 8 * length (ab_block bp)"
    using ok by (simp_all add: buf_ok_def)
  have "span blk (head_pos bp) (tail_pos bp + n) = span blk (head_pos bp) (tail_pos bp) @ span blk (tail_pos bp) (tail_pos bp + n)"
    by (rule span_append) (use o in simp_all)
  also have "\<dots> = buf_bits bp @ nbits n d"
    using span_before [OF w order.refl o(3)] span_nbits [OF writtenD [OF w r]] by (simp add: buf_bits_def)
  finally show "buf_bits (bp\<lparr>ab_block := blk, ab_tail := t, tail_bits_left := tb\<rparr>) = buf_bits bp @ nbits n d"
    by (simp add: buf_bits_def t(2))
  show "buf_ok (bp\<lparr>ab_block := blk, ab_tail := t, tail_bits_left := tb\<rparr>)"
    using o r written_length [OF w] t by (simp add: buf_ok_def head_ok_def)
qed

lemma buf_prepend_step:
  assumes ok: "buf_ok bp" and room: "n \<le> head_pos bp" and w: "pushed (ab_block bp) (head_pos bp - n) n d blk"
    and h: "head_ok (bp\<lparr>ab_block := blk, ab_data := a, head_headspace_bits := hs\<rparr>)"
      "head_pos (bp\<lparr>ab_block := blk, ab_data := a, head_headspace_bits := hs\<rparr>) = head_pos bp - n"
  shows "buf_ok (bp\<lparr>ab_block := blk, ab_data := a, head_headspace_bits := hs\<rparr>)"
    and "buf_bits (bp\<lparr>ab_block := blk, ab_data := a, head_headspace_bits := hs\<rparr>) = nbits n d @ buf_bits bp"
proof -
  have o: "head_ok bp" "tail_ok bp" "head_pos bp \<le> tail_pos bp" "tail_pos bp \<le> 8 * length (ab_block bp)"
    using ok by (simp_all add: buf_ok_def)
  have l: "length blk = length (ab_block bp)" using w by (simp add: pushed_def)
  have e: "head_pos bp - n + n = head_pos bp" using room by simp
  have "span blk (head_pos bp - n) (tail_pos bp) = span blk (head_pos bp - n) (head_pos bp) @ span blk (head_pos bp) (tail_pos bp)"
    by (rule span_append) (use o in simp_all)
  also have "span blk (head_pos bp - n) (head_pos bp) = nbits n d"
    using span_nbits [OF pushedD [OF w]] o e by simp
  also have "span blk (head_pos bp) (tail_pos bp) = buf_bits bp"
    unfolding buf_bits_def by (rule span_behind [OF w]) (use o e in simp_all)
  finally show "buf_bits (bp\<lparr>ab_block := blk, ab_data := a, head_headspace_bits := hs\<rparr>) = nbits n d @ buf_bits bp"
    by (simp add: buf_bits_def h(2))
  have "\<not> abit blk j" if "tail_pos bp \<le> j" "j < 8 * length blk" for j
    using w o e that by (auto simp: pushed_def tail_ok_def)
  then have "tail_ok (bp\<lparr>ab_block := blk, ab_data := a, head_headspace_bits := hs\<rparr>)"
    using o(2) by (simp add: tail_ok_def)
  then show "buf_ok (bp\<lparr>ab_block := blk, ab_data := a, head_headspace_bits := hs\<rparr>)"
    using o l h by (simp add: buf_ok_def)
qed

text \<open>A buffer that differs in the tail alone, or in the head alone.\<close>

definition same_head :: "abuf \<Rightarrow> abuf \<Rightarrow> bool" where
  "same_head bp bp' \<longleftrightarrow> ab_data bp' = ab_data bp \<and> head_headspace_bits bp' = head_headspace_bits bp \<and>
     length (ab_block bp') = length (ab_block bp)"

definition same_tail :: "abuf \<Rightarrow> abuf \<Rightarrow> bool" where
  "same_tail bp bp' \<longleftrightarrow> ab_tail bp' = ab_tail bp \<and> tail_bits_left bp' = tail_bits_left bp \<and>
     length (ab_block bp') = length (ab_block bp)"

lemma same_head_simps:
  "same_head bp bp' \<Longrightarrow> head_pos bp' = head_pos bp \<and> length (ab_block bp') = length (ab_block bp)"
  by (simp add: same_head_def head_pos_def)

lemma same_tail_simps:
  "same_tail bp bp' \<Longrightarrow> tail_pos bp' = tail_pos bp \<and> length (ab_block bp') = length (ab_block bp) \<and> tail_room bp' = tail_room bp"
  by (simp add: same_tail_def tail_pos_def tail_room_def)

lemma same_tail_refl: "same_tail bp bp"
  by (simp add: same_tail_def)

lemma same_tail_trans: "same_tail a b \<Longrightarrow> same_tail b c \<Longrightarrow> same_tail a c"
  by (simp add: same_tail_def)

lemma same_head_trans: "same_head a b \<Longrightarrow> same_head b c \<Longrightarrow> same_head a c"
  by (simp add: same_head_def)

lemma buf_append_ok:
  assumes ok: "buf_ok bp" and n: "0 < n" "n \<le> 32" and room: "n \<le> tail_room bp"
  shows "\<exists>bp'. asn_ncat_bits bp d n = Some (0, bp') \<and> buf_ok bp' \<and> buf_bits bp' = buf_bits bp @ nbits n d \<and>
    same_head bp bp' \<and> tail_pos bp' = tail_pos bp + n"
proof -
  have r: "tail_pos bp + n \<le> 8 * length (ab_block bp)" using ok room n by (simp add: tail_room_def buf_ok_def)
  obtain blk t tb where 1: "asn_ncat_bits bp d n = Some (0, bp\<lparr>ab_block := blk, ab_tail := t, tail_bits_left := tb\<rparr>)"
    "written (ab_block bp) (tail_pos bp) n d blk"
    "tail_ok (bp\<lparr>ab_block := blk, ab_tail := t, tail_bits_left := tb\<rparr>)"
    "tail_pos (bp\<lparr>ab_block := blk, ab_tail := t, tail_bits_left := tb\<rparr>) = tail_pos bp + n"
    using ncat_ok [OF _ n r, of d] ok by (auto simp: buf_ok_def)
  show ?thesis using buf_append_step [OF ok r 1(2-4)] 1 written_length [OF 1(2)]
    by (intro exI [of _ "bp\<lparr>ab_block := blk, ab_tail := t, tail_bits_left := tb\<rparr>"]) (simp add: same_head_def)
qed

lemma buf_prepend_ok:
  assumes ok: "buf_ok bp" and n: "0 < n" and room: "n \<le> head_pos bp"
  shows "\<exists>bp'. asn_push_bits bp d n = Some (int n, bp') \<and> buf_ok bp' \<and> buf_bits bp' = nbits n d @ buf_bits bp \<and>
    same_tail bp bp' \<and> head_pos bp' = head_pos bp - n"
proof -
  obtain blk a hs where 1: "asn_push_bits bp d n = Some (int n, bp\<lparr>ab_block := blk, ab_data := a, head_headspace_bits := hs\<rparr>)"
    "pushed (ab_block bp) (head_pos bp - n) n d blk"
    "head_ok (bp\<lparr>ab_block := blk, ab_data := a, head_headspace_bits := hs\<rparr>)"
    "head_pos (bp\<lparr>ab_block := blk, ab_data := a, head_headspace_bits := hs\<rparr>) = head_pos bp - n"
    using push_ok [OF _ n room, of d] ok by (auto simp: buf_ok_def)
  show ?thesis using buf_prepend_step [OF ok room 1(2-4)] 1
    by (intro exI [of _ "bp\<lparr>ab_block := blk, ab_data := a, head_headspace_bits := hs\<rparr>"]) (simp add: same_tail_def pushed_def)
qed

interpretation buffer: bit_queue buf_ok buf_bits head_pos tail_room buf_append buf_prepend
proof
  show "\<exists>b'. buf_append (n, d) b = Some b' \<and> buf_ok b' \<and> buf_bits b' = buf_bits b @ nbits n d \<and>
      head_pos b' = head_pos b \<and> tail_room b' = tail_room b - n"
    if "buf_ok b" "0 < n" "n \<le> 32" "n \<le> tail_room b" for b n d
    using buf_append_ok [OF that, of d] by (auto simp: buf_append_def tail_room_def dest: same_head_simps)
  show "\<exists>b'. buf_prepend (n, d) b = Some b' \<and> buf_ok b' \<and> buf_bits b' = nbits n d @ buf_bits b \<and>
      head_pos b' = head_pos b - n \<and> tail_room b' = tail_room b"
    if "buf_ok b" "0 < n" "n \<le> 32" "n \<le> head_pos b" for b n d
    using buf_prepend_ok [OF that(1,2,4), of d] by (auto simp: buf_prepend_def dest: same_tail_simps)
qed

section \<open>A full buffer\<close>

lemma ncat_rest_step:
  "ncat_rest d n bp =
     (if n \<ge> 8 then do {
        bp \<leftarrow> wr (ab_tail bp) (low8 (drop_bit (n - 8) (d AND push_bit (n - 8) 0xff))) bp;
        ncat_rest d (n - 8) (bp\<lparr>ab_tail := ab_tail bp + 1\<rparr>)
      }
      else if n \<noteq> 0 then do {
        bp \<leftarrow> wr (ab_tail bp) (low8 (push_bit (8 - n) (d AND mask n))) bp;
        Some (bp\<lparr>tail_bits_left := tail_bits_left bp - n\<rparr>)
      }
      else Some bp)"
  by (subst ncat_rest_def, subst ncat_bytes.simps) (simp add: ncat_rest_def split: bind_splits)

lemma ncat_rest_overrun:
  "0 \<le> ab_tail bp \<Longrightarrow> 0 < n \<Longrightarrow> 8 * length (ab_block bp) < 8 * nat (ab_tail bp) + n \<Longrightarrow> ncat_rest d n bp = None"
proof (induction n arbitrary: bp rule: less_induct)
  case (less n)
  show ?case
  proof (cases "n \<ge> 8 \<and> ab_tail bp < ab_size bp")
    case True
    define bp1 where "bp1 = bp\<lparr>ab_block := (ab_block bp)[nat (ab_tail bp) := low8 (drop_bit (n - 8) (d AND push_bit (n - 8) 0xff))],
      ab_tail := ab_tail bp + 1\<rparr>"
    have "n \<noteq> 8" using True less.prems by auto
    then have "ncat_rest d (n - 8) bp1 = None"
      using True less.prems by (intro less.IH) (simp_all add: bp1_def nat_add_distrib)
    then show ?thesis using True less.prems by (subst ncat_rest_step) (simp add: wr_def bp1_def)
  next
    case False
    have "nat (ab_tail bp) \<ge> length (ab_block bp)" using False less.prems by auto
    then have "wr (ab_tail bp) v bp = None" for v using less.prems(1) by (simp add: wr_def)
    then show ?thesis using less.prems(2) by (subst ncat_rest_step) simp
  qed
qed

lemma bytes_for:
  "8 * a + m \<le> 8 * b \<Longrightarrow> (m + 7) div 8 \<le> b - a" "a \<le> b \<Longrightarrow> 8 * b < 8 * a + m \<Longrightarrow> b - a < (m + 7) div 8" for a b m :: nat
proof -
  assume "8 * a + m \<le> 8 * b"
  then have "(m + 7) div 8 \<le> (8 * (b - a) + 7) div 8" by (intro div_le_mono) simp
  then show "(m + 7) div 8 \<le> b - a" by simp
next
  assume "a \<le> b" and "8 * b < 8 * a + m"
  then have "8 * Suc (b - a) \<le> m + 7" by simp
  then show "b - a < (m + 7) div 8" by (simp add: less_eq_Suc_le less_eq_div_iff_mult_less_eq mult.commute)
qed

text \<open>The room is checked one byte too generously.\<close>

lemma append_overrun:
  assumes ok: "buf_ok bp" and n: "0 < n" "n \<le> 32" and over: "8 * length (ab_block bp) < tail_pos bp + n"
  shows "(if tail_pos bp + n \<le> 8 * length (ab_block bp) + 8 \<or> ab_tail bp = ab_size bp then asn_ncat_bits bp d n = None
    else \<exists>bp'. asn_ncat_bits bp d n = Some (- 1, bp'))"
proof -
  let ?t = "nat (ab_tail bp)" and ?tb = "tail_bits_left bp" and ?b = "ab_block bp"
  have o: "0 \<le> ab_tail bp" "1 \<le> ?tb" "?tb \<le> 8" "tail_pos bp = 8 * ?t + (8 - ?tb)" "tail_pos bp \<le> 8 * length ?b"
    using ok unfolding buf_ok_def tail_ok_def by (simp_all add: tail_pos_def [symmetric])
  show ?thesis
  proof (cases "ab_tail bp < ab_size bp")
    case False
    then have "wr (ab_tail bp) v bp = None" "rd ?b (ab_tail bp) = None" for v by (simp_all add: wr_def rd_def)
    moreover have "ab_tail bp = ab_size bp" using False o by linarith
    ultimately show ?thesis using n o(2,3) by (simp add: asn_ncat_bits_def Let_def)
  next
    case True
    then have t: "?t < length ?b" using o(1) by linarith
    have tb: "?tb < n" using over o t by linarith
    define v where "v = ?b ! ?t OR low8 (drop_bit (n - ?tb) (d AND push_bit (n - ?tb) (mask ?tb)))"
    define bp1 where "bp1 = bp\<lparr>ab_block := ?b[?t := v], tail_bits_left := 0\<rparr>"
    define room where "room = abuf_check_put_tailroom bp1 (int (n - ?tb))"
    have run: "asn_ncat_bits bp d n = (if room \<ge> 0
      then do { bp \<leftarrow> ncat_rest d (n - ?tb) (abuf_tail_ready bp1); Some (0, abuf_tail_ready bp) }
      else Some (- 1, abuf_tail_ready bp1))"
    proof -
      have "\<not> n \<le> ?tb" "\<not> (n > 32 \<or> n - ?tb \<ge> 32)" using tb n o(2) by linarith+
      then show ?thesis using n(1) o(1) True by (simp add: asn_ncat_bits_def rd_def wr_def v_def bp1_def room_def Let_def)
    qed
    have room: "room = (if int ((n - ?tb + 7) div 8) > ab_size bp - ab_tail bp then - 1 else int ((n - ?tb + 7) div 8))"
    proof -
      have "(int (n - ?tb) + 7) div 8 = int ((n - ?tb + 7) div 8)" by (simp add: zdiv_int)
      then show ?thesis using tb by (simp add: room_def abuf_check_put_tailroom_def bp1_def abuf_tailroom_def Let_def)
    qed
    show ?thesis
    proof (cases "tail_pos bp + n \<le> 8 * length ?b + 8")
      case le: True
      have "ncat_rest d (n - ?tb) (abuf_tail_ready bp1) = None"
        using True o tb over
        by (intro ncat_rest_overrun) (simp_all add: abuf_tail_ready_def abuf_tailroom_def bp1_def nat_add_distrib)
      moreover have "room \<ge> 0"
      proof -
        have "8 * ?t + (n - ?tb) \<le> 8 * length ?b" using le o tb by linarith
        then have "(n - ?tb + 7) div 8 \<le> length ?b - ?t" by (rule bytes_for(1))
        then show ?thesis unfolding room using t o(1) by simp
      qed
      ultimately show ?thesis using le run by simp
    next
      case gt: False
      then have "8 * length ?b < 8 * ?t + (n - ?tb)" using o tb by linarith
      then have "length ?b - ?t < (n - ?tb + 7) div 8" by (rule bytes_for(2) [OF less_imp_le [OF t]])
      then have "room = - 1" unfolding room using t o(1) by simp
      then show ?thesis using gt run True by simp
    qed
  qed
qed

end
