(* ===== verification/V2xLengths.thy ===== *)
theory V2xLengths
  imports V2xBits
begin

text \<open>
  Reading what the buffer holds: the reader of bit fields, and the two encodings of the length of a
  payload with their readers.
\<close>

section \<open>What a reader sees\<close>

definition sees :: "u8 list \<Rightarrow> nat \<Rightarrow> bool list \<Rightarrow> bool" where
  "sees blk p bs \<longleftrightarrow> p + length bs \<le> 8 * length blk \<and> span blk p (p + length bs) = bs"

lemma sees_append: "sees blk p (xs @ ys) \<longleftrightarrow> sees blk p xs \<and> sees blk (p + length xs) ys"
proof -
  have "span blk p (p + (length xs + length ys)) = span blk p (p + length xs) @ span blk (p + length xs) (p + (length xs + length ys))"
    by (rule span_append) simp_all
  then show ?thesis by (auto simp: sees_def add.assoc)
qed

lemma sees_buf: "buf_ok bp \<Longrightarrow> sees (ab_block bp) (head_pos bp) (buf_bits bp)"
  by (simp add: sees_def buf_bits_def buf_ok_def)

lemma sees_bits_at: "sees blk p (nbits n d) \<Longrightarrow> bits_at blk p n d"
  unfolding bits_at_def
proof (intro allI impI)
  fix i assume s: "sees blk p (nbits n d)" and i: "i < n"
  then have "span blk p (p + n) ! i = nbits n d ! i" by (simp add: sees_def)
  with i show "abit blk (p + i) = bit d (n - 1 - i)" by (simp add: span_def nth_nbits)
qed

lemma sees_get:
  assumes "reader_ok blk cp left" and "0 < n" "n \<le> 32" and s: "sees blk (rpos cp left) (nbits n d)"
    and over: "rpos cp left + n < 8 * length blk \<or> n \<le> left"
  shows "\<exists>cp' left'. get_next_n_bits blk cp n left = Some (d AND mask n, cp', left') \<and> reader_ok blk cp' left' \<and>
    rpos cp' left' = rpos cp left + n"
proof (rule get_ok [OF assms(1-3) _ sees_bits_at [OF s]])
  have l: "1 \<le> left" "left \<le> 8" using assms(1) by (simp_all add: reader_ok_def)
  have b: "rpos cp left + n \<le> 8 * length blk" using s by (simp add: sees_def)
  show "nat cp + (if left < n then (n - left) div 8 + 1 else 0) < length blk"
  proof (cases "left < n")
    case True
    then have "8 * nat cp + 8 + (n - left) < 8 * length blk" using over l by (simp add: rpos_def)
    then show ?thesis using True by simp
  next
    case False
    then show ?thesis using b assms(2) l by (simp add: rpos_def)
  qed
qed

lemma sees_byte:
  assumes "sees blk (8 * t) (nbits 8 d)"
  shows "t < length blk" and "blk ! t = low8 d"
proof -
  show t: "t < length blk" using assms by (simp add: sees_def)
  have b: "bits_at blk (8 * t) 8 d" by (rule sees_bits_at [OF assms])
  have "abit blk (8 * t + (7 - i)) = bit (blk ! t) i" if "i < 8" for i
  proof -
    have "8 * t + (7 - i) = (7 - i) + t * 8" "7 - i < 8" using that by simp_all
    then have "(8 * t + (7 - i)) div 8 = t" "(8 * t + (7 - i)) mod 8 = 7 - i" by simp_all
    then show ?thesis using that by (simp add: abit_def)
  qed
  moreover have "abit blk (8 * t + (7 - i)) = bit d i" if "i < 8" for i
    using b [unfolded bits_at_def, rule_format, of "7 - i"] that by simp
  ultimately show "blk ! t = low8 d" by (intro bit_word_eqI) (simp add: bit_simps)
qed

lemma sees_rd: "sees blk (8 * t) (nbits 8 d) \<Longrightarrow> rd blk (int t) = Some (low8 d)"
  using sees_byte [of blk t d] by (simp add: rd_def)

section \<open>Fields are read back\<close>

fun get_fields :: "u8 list \<Rightarrow> nat list \<Rightarrow> int \<Rightarrow> nat \<Rightarrow> (u32 list \<times> int \<times> nat) option" where
  "get_fields blk [] cp left = Some ([], cp, left)"
| "get_fields blk (n # ns) cp left = do {
     (d, cp, left) \<leftarrow> get_next_n_bits blk cp n left;
     (ds, cp, left) \<leftarrow> get_fields blk ns cp left;
     Some (d # ds, cp, left)
   }"

lemma get_fields_ok:
  "reader_ok blk cp left \<Longrightarrow> list_all (\<lambda>f. 0 < fst f \<and> fst f \<le> 32) fs \<Longrightarrow>
     sees blk (rpos cp left) (concat (map (\<lambda>(n, d). nbits n d) fs)) \<Longrightarrow>
     rpos cp left + sum_list (map fst fs) < 8 * length blk \<Longrightarrow>
     \<exists>cp' left'. get_fields blk (map fst fs) cp left = Some (map (\<lambda>(n, d). d AND mask n) fs, cp', left') \<and>
       rpos cp' left' = rpos cp left + sum_list (map fst fs)"
proof (induction fs arbitrary: cp left)
  case (Cons f fs)
  obtain n d where f: "f = (n, d)" by (cases f)
  have s: "sees blk (rpos cp left) (nbits n d)" "sees blk (rpos cp left + n) (concat (map (\<lambda>(n, d). nbits n d) fs))"
    using Cons.prems(3) by (simp_all add: f sees_append)
  obtain cp' left' where 1: "get_next_n_bits blk cp n left = Some (d AND mask n, cp', left')" "reader_ok blk cp' left'"
    "rpos cp' left' = rpos cp left + n"
    using sees_get [OF Cons.prems(1) _ _ s(1)] Cons.prems(2,4) f by auto
  show ?case using Cons.IH [OF 1(2)] Cons.prems(2,4) s(2) 1 f by (auto simp: add.assoc)
qed simp

lemma buf_ok_alloc: "abuf_alloc sz hr = Some bp \<Longrightarrow> buf_ok bp \<and> head_pos bp = 8 * hr \<and> tail_room bp = 8 * sz - 8 * hr \<and>
    buf_bits bp = [] \<and> length (ab_block bp) = sz \<and> tail_bits_left bp = 8 \<and> ab_tail bp = int hr"
  by (auto simp: abuf_alloc_def buf_ok_def head_ok_def tail_ok_def head_pos_def tail_pos_def tail_room_def buf_bits_def abit_def
    split: if_splits)

lemma head_reader: "head_ok bp \<Longrightarrow> reader_ok (ab_block bp) (ab_data bp) (8 - head_headspace_bits bp)"
  by (auto simp: head_ok_def reader_ok_def)

lemma rpos_head: "head_ok bp \<Longrightarrow> rpos (ab_data bp) (8 - head_headspace_bits bp) = head_pos bp"
  by (simp add: head_ok_def rpos_def head_pos_def)

section \<open>Packed lengths\<close>

lemma low8_of_int: "low8 (of_int k) = of_int k"
  by (rule bit_word_eqI) (simp add: bit_simps bit_word_of_int_iff)

text \<open>The byte written straight in front of aligned data.\<close>

lemma push_byte_ok:
  assumes ok: "buf_ok bp" and hs: "head_headspace_bits bp = 0" and room: "8 \<le> head_pos bp"
  shows "\<exists>bp'. wr (ab_data bp - 1) (low8 d) (bp\<lparr>ab_data := ab_data bp - 1\<rparr>) = Some bp' \<and> buf_ok bp' \<and>
    buf_bits bp' = nbits 8 d @ buf_bits bp \<and> same_tail bp bp' \<and> head_pos bp' = head_pos bp - 8"
proof -
  let ?t = "nat (ab_data bp - 1)" and ?b = "ab_block bp"
  have h: "head_ok bp" using ok by (simp add: buf_ok_def)
  have d: "0 < ab_data bp" "ab_data bp < ab_size bp" using room h hs by (simp_all add: head_pos_def head_ok_def)
  have t: "?t < length ?b" "head_pos bp - 8 = 8 * ?t" using d hs by (simp_all add: head_pos_def nat_diff_distrib)
  have "low8 (d AND mask 8) = low8 d" by (rule bit_word_eqI) (simp add: bit_simps)
  then have w: "pushed ?b (head_pos bp - 8) 8 d (?b[?t := low8 d])"
    using pushed_top [OF t(1), of 8 d] t(2) by simp
  define bp' where "bp' = bp\<lparr>ab_block := ?b[?t := low8 d], ab_data := ab_data bp - 1, head_headspace_bits := 0\<rparr>"
  have "head_ok bp'" "head_pos bp' = head_pos bp - 8" using d hs t(2) by (auto simp: bp'_def head_ok_def head_pos_def)
  then have "buf_ok bp'" "buf_bits bp' = nbits 8 d @ buf_bits bp"
    using buf_prepend_step [OF ok room w] unfolding bp'_def by blast+
  moreover have "wr (ab_data bp - 1) (low8 d) (bp\<lparr>ab_data := ab_data bp - 1\<rparr>) = Some bp'"
    using d hs by (simp add: wr_def bp'_def)
  ultimately show ?thesis using \<open>head_pos bp' = _\<close> by (auto simp: bp'_def same_tail_def)
qed

text \<open>One byte below 128.\<close>

lemma push_short_ok:
  assumes ok: "buf_ok bp" and room: "8 \<le> head_pos bp" and len: "0 < len" "len < 128"
  shows "\<exists>bp'. asn_push_encoded_len bp len = Some (8, bp') \<and> asn_push_CER_encoded_len bp len = Some (8, bp') \<and> buf_ok bp' \<and>
    buf_bits bp' = nbits 8 (of_int len) @ buf_bits bp \<and> same_tail bp bp' \<and> head_pos bp' = head_pos bp - 8"
proof (cases "head_headspace_bits bp = 0")
  case True
  have d: "ab_data bp > 0" using True room by (simp add: head_pos_def)
  show ?thesis using push_byte_ok [OF ok True room, of "of_int len"] True d len
    by (auto simp: asn_push_encoded_len_def asn_push_CER_encoded_len_def low8_of_int)
next
  case False
  then have "head_headspace_bits bp \<noteq> 0" "head_headspace_bits bp \<noteq> 8" using ok by (auto simp: buf_ok_def head_ok_def)
  then show ?thesis using buf_prepend_ok [OF ok _ room, of "of_int len"] len
    by (auto simp: asn_push_encoded_len_def asn_push_CER_encoded_len_def)
qed

text \<open>Two bytes from there on, with the highest bit set and the two behind it clear.\<close>

lemma push_long_ok:
  assumes ok: "buf_ok bp" and room: "16 \<le> head_pos bp" and len: "128 \<le> len" "len < 0x4000"
  shows "\<exists>bp'. asn_push_encoded_len bp len = Some (16, bp') \<and> buf_ok bp' \<and>
    buf_bits bp' = nbits 16 (of_int (len mod 8192) OR 0x8000) @ buf_bits bp \<and> same_tail bp bp' \<and> head_pos bp' = head_pos bp - 16"
proof -
  have m: "nbits 16 ((of_int len OR 0x8000) AND 0xDFFF) = nbits 16 (of_int (len mod 8192) OR 0x8000)"
  proof (rule nbits_cong)
    fix i :: nat assume i: "i < 16"
    have c: "(0xDFFF :: u32) = mask 13 OR push_bit 14 (mask 2)" "(0x8000 :: u32) = 2 ^ 15" "(8192 :: int) = 2 ^ 13"
      by (simp_all add: mask_eq_exp_minus_1)
    have top: "bit (0x8000 :: u32) i \<longleftrightarrow> i = 15" unfolding c(2) bit_exp_iff by auto
    have hi: "\<not> bit len i" if "14 \<le> i"
    proof -
      have "len = take_bit 14 len" using len by (simp add: take_bit_eq_mod)
      then show ?thesis using that by (metis bit_take_bit_iff not_le)
    qed
    show "bit ((of_int len OR 0x8000) AND 0xDFFF :: u32) i = bit (of_int (len mod 8192) OR 0x8000 :: u32) i"
      unfolding c(1,3) take_bit_eq_mod [symmetric] bit_or_iff bit_and_iff top using i hi
      by (auto simp: bit_simps bit_word_of_int_iff top)
  qed
  show ?thesis using buf_prepend_ok [OF ok _ room, of "(of_int len OR 0x8000) AND 0xDFFF"] len
    by (auto simp: asn_push_encoded_len_def m)
qed

text \<open>A byte at the reader's position, aligned or not.\<close>

lemma aligned_reader: "reader_ok blk cp left \<Longrightarrow> left > 7 \<Longrightarrow> left = 8 \<and> rpos cp left = 8 * nat cp \<and> 0 \<le> cp"
  by (simp add: reader_ok_def rpos_def)

lemma aligned_rd:
  "reader_ok blk cp left \<Longrightarrow> left > 7 \<Longrightarrow> sees blk (rpos cp left + 8 * k) (nbits 8 d) \<Longrightarrow> rd blk (cp + int k) = Some (low8 d)"
  using sees_rd [of blk "nat cp + k" d] by (auto dest: aligned_reader simp: distrib_left)

lemma unaligned_over:
  assumes "reader_ok blk cp left" and "\<not> left > 7" and "sees blk (rpos cp left) (nbits 8 d)"
  shows "rpos cp left + 8 < 8 * length blk"
proof -
  have "1 \<le> left" "left \<le> 7" using assms(1,2) by (simp_all add: reader_ok_def)
  then have "(8 * t + (8 - left) + 8) mod 8 \<noteq> 0" for t by presburger
  then have "(rpos cp left + 8) mod 8 \<noteq> 0" unfolding rpos_def .
  moreover have "rpos cp left + 8 \<le> 8 * length blk" using assms(3) by (simp add: sees_def)
  ultimately show ?thesis by (metis le_neq_implies_less mod_mult_self1_is_0)
qed

lemma sees_get8:
  assumes "reader_ok blk cp left" and "\<not> left > 7" and "sees blk (rpos cp left) (nbits 8 d)"
  shows "\<exists>cp' left'. get_next_n_bits blk cp 8 left = Some (d AND mask 8, cp', left') \<and> reader_ok blk cp' left' \<and>
    rpos cp' left' = rpos cp left + 8 \<and> \<not> left' > 7"
proof -
  obtain cp' left' where 1: "get_next_n_bits blk cp 8 left = Some (d AND mask 8, cp', left')" "reader_ok blk cp' left'"
    "rpos cp' left' = rpos cp left + 8"
    using sees_get [OF assms(1) _ _ assms(3)] unaligned_over [OF assms] by auto
  moreover have "8 * t' + (8 - left') = 8 * t + (8 - left) + 8 \<Longrightarrow> 1 \<le> left \<Longrightarrow> \<not> left > 7 \<Longrightarrow> left' \<le> 8 \<Longrightarrow> \<not> left' > 7" for t t'
    by presburger
  then have "\<not> left' > 7" using 1(2,3) assms(1,2) unfolding reader_ok_def rpos_def by blast
  ultimately show ?thesis by blast
qed

lemma bit_numerals: "bit (0x80 :: 8 word) i \<longleftrightarrow> i = 7" "bit (0x40 :: 8 word) i \<longleftrightarrow> i = 6"
  "bit (0x80 :: u32) i \<longleftrightarrow> i = 7" "bit (0x40 :: u32) i \<longleftrightarrow> i = 6" "bit (0x8000 :: u32) i \<longleftrightarrow> i = 15"
proof -
  have p: "(0x80 :: 8 word) = 2 ^ 7" "(0x40 :: 8 word) = 2 ^ 6" "(0x80 :: u32) = 2 ^ 7" "(0x40 :: u32) = 2 ^ 6" "(0x8000 :: u32) = 2 ^ 15"
    by simp_all
  show "bit (0x80 :: 8 word) i \<longleftrightarrow> i = 7" "bit (0x40 :: 8 word) i \<longleftrightarrow> i = 6"
    "bit (0x80 :: u32) i \<longleftrightarrow> i = 7" "bit (0x40 :: u32) i \<longleftrightarrow> i = 6" "bit (0x8000 :: u32) i \<longleftrightarrow> i = 15"
    unfolding p bit_exp_iff by auto
qed

lemma and_bit_eq: "w AND 2 ^ k = 0 \<longleftrightarrow> \<not> bit w k" if "k < LENGTH('a)" for w :: "'a::len word"
  by (rule and_exp_eq_0_iff_not_bit)

lemma and_numeral_eq:
  "w AND 0x80 = 0 \<longleftrightarrow> \<not> bit w 7" "w AND 0x40 = 0 \<longleftrightarrow> \<not> bit w 6" "x AND 0x40 = 0 \<longleftrightarrow> \<not> bit x 6"
  for w :: "8 word" and x :: u32
  using and_bit_eq [of 7 w] and_bit_eq [of 6 w] and_bit_eq [of 6 x] by simp_all

lemma int_high_bits: "0 \<le> m \<Longrightarrow> m < 2 ^ k \<Longrightarrow> k \<le> i \<Longrightarrow> \<not> bit (m :: int) i"
  by (metis bit_take_bit_iff not_le take_bit_int_eq_self)

lemma int_low_bits: "0 \<le> m \<Longrightarrow> m < 2 ^ k \<Longrightarrow> bit (m :: int) i \<Longrightarrow> i < k"
  using int_high_bits [of m k i] by linarith

lemma not_below_bit: "bit w 7 \<Longrightarrow> \<not> (w :: u32) < 0x80"
proof
  assume "bit w 7" and "w < 0x80"
  moreover have "w AND mask 7 = w" using less_mask_eq [of w 7] \<open>w < 0x80\<close> by simp
  then have "bit (w AND mask 7) 7 = bit w 7" by simp
  ultimately show False by (simp add: bit_simps)
qed

lemma parse_short_ok:
  assumes r: "reader_ok blk cp left" and s: "sees blk (rpos cp left) (nbits 8 (of_int len))" and len: "0 \<le> len" "len < 128"
  shows "\<exists>cp' left'. parse_asn_variable_length_enc blk cp left = Some (len, cp', left') \<and> reader_ok blk cp' left' \<and>
    rpos cp' left' = rpos cp left + 8"
proof (cases "left > 7")
  case True
  note a = aligned_reader [OF r True]
  have "\<not> bit len 7" using int_high_bits [of len 7 7] len by simp
  then have "low8 (of_int len) AND 0x80 = 0" by (simp add: and_numeral_eq bit_simps bit_word_of_int_iff)
  moreover have "uint (low8 (of_int len)) = len" using len by (simp add: low8_of_int uint_word_of_int)
  moreover have "rd blk cp = Some (low8 (of_int len))" using aligned_rd [OF r True, where k = 0] s by simp
  ultimately show ?thesis using True a r
    by (auto simp: parse_asn_variable_length_enc_def reader_ok_def rpos_def nat_add_distrib)
next
  case False
  have "of_int len AND mask 8 = (of_int len :: u32)"
    using int_low_bits [of len 8] len by (intro bit_word_eqI) (auto simp: bit_simps bit_word_of_int_iff)
  moreover have "(of_int len :: u32) < 0x80" "uint (of_int len :: u32) = len"
    using len by (simp_all add: word_less_def uint_word_of_int)
  ultimately show ?thesis using sees_get8 [OF r False s] False by (auto simp: parse_asn_variable_length_enc_def)
qed

lemma parse_long_ok:
  assumes r: "reader_ok blk cp left" and s: "sees blk (rpos cp left) (nbits 16 (of_int m OR 0x8000))" and m: "0 \<le> m" "m < 8192"
  shows "\<exists>cp' left'. parse_asn_variable_length_enc blk cp left = Some (m, cp', left') \<and> reader_ok blk cp' left' \<and>
    rpos cp' left' = rpos cp left + 16"
proof -
  define d :: u32 where "d = of_int m OR 0x8000"
  have hi: "\<not> bit m i" if "13 \<le> i" for i using int_high_bits [of m 13 i] m that by simp
  have lo: "i < 13" if "bit m i" for i using int_low_bits [of m 13 i] m that by simp
  have s1: "sees blk (rpos cp left) (nbits 8 (drop_bit 8 d))" and s2: "sees blk (rpos cp left + 8) (nbits 8 d)"
    using s nbits_add [of 8 8 d] by (simp_all add: sees_append d_def)
  have bd: "bit d i \<longleftrightarrow> i < 32 \<and> (bit m i \<or> i = 15)" for i
    unfolding d_def bit_or_iff bit_word_of_int_iff bit_numerals by auto
  show ?thesis
  proof (cases "left > 7")
    case True
    note a = aligned_reader [OF r True]
    have b1: "rd blk cp = Some (low8 (drop_bit 8 d))" using aligned_rd [OF r True, where k = 0] s1 by simp
    have b2: "rd blk (cp + 1) = Some (low8 d)"
      using aligned_rd [OF r True, where k = 1] s2 by simp
    have f: "low8 (drop_bit 8 d) AND 0x80 \<noteq> 0" "low8 (drop_bit 8 d) AND 0x40 = 0"
      using hi by (simp_all add: and_numeral_eq bit_simps bd)
    have "int (256 * unat (low8 (drop_bit 8 d)) + unat (low8 d)) mod 0x8000 = take_bit 15 (uint d)"
    proof -
      have "int (256 * unat (low8 (drop_bit 8 d)) + unat (low8 d)) = push_bit 8 (uint (low8 (drop_bit 8 d))) + uint (low8 d)"
        by (simp add: push_bit_eq_mult)
      also have "\<dots> = push_bit 8 (uint (low8 (drop_bit 8 d))) OR uint (low8 d)"
        by (rule disjunctive_add) (auto simp: bit_simps dest: bit_imp_le_length)
      also have "take_bit 15 \<dots> = take_bit 15 (uint d)"
        by (rule bit_eqI) (auto simp: bit_simps bd)
      finally show ?thesis by (simp add: take_bit_eq_mod)
    qed
    also have "\<dots> = m"
      by (rule bit_eqI) (use hi in \<open>auto simp: bit_simps bd dest: lo\<close>)
    finally show ?thesis using True a r b1 b2 f
      by (auto simp: parse_asn_variable_length_enc_def reader_ok_def rpos_def nat_add_distrib)
  next
    case False
    obtain cp1 l1 where 1: "get_next_n_bits blk cp 8 left = Some (drop_bit 8 d AND mask 8, cp1, l1)" "reader_ok blk cp1 l1"
      "rpos cp1 l1 = rpos cp left + 8" "\<not> l1 > 7"
      using sees_get8 [OF r False s1] by blast
    obtain cp2 l2 where 2: "get_next_n_bits blk cp1 8 l1 = Some (d AND mask 8, cp2, l2)" "reader_ok blk cp2 l2"
      "rpos cp2 l2 = rpos cp1 l1 + 8"
      using sees_get8 [OF 1(2,4), of d] s2 1(3) by auto
    have f: "\<not> drop_bit 8 d AND mask 8 < 0x80" "(drop_bit 8 d AND mask 8) AND 0x40 = 0"
    proof -
      have "bit (drop_bit 8 d AND mask 8) 7" by (simp add: bit_simps bd)
      then show "\<not> drop_bit 8 d AND mask 8 < 0x80"
        by (rule not_below_bit)
      show "(drop_bit 8 d AND mask 8) AND 0x40 = 0" using hi by (simp add: and_numeral_eq bit_simps bd)
    qed
    have "uint (push_bit 8 ((drop_bit 8 d AND mask 8) AND 0x7f) OR (d AND mask 8)) = m"
    proof -
      have c: "(0x7f :: u32) = mask 7" by (simp add: mask_eq_exp_minus_1)
      show ?thesis unfolding c by (rule bit_eqI) (use hi in \<open>auto simp: bit_simps bd dest: lo\<close>)
    qed
    then show ?thesis using False 1 2 f by (simp add: parse_asn_variable_length_enc_def)
  qed
qed

lemma length_read_back:
  assumes ok: "buf_ok bp" and room: "16 \<le> head_pos bp" and len: "0 < len" "len < 0x4000"
  shows "\<exists>r bp' cp left. asn_push_encoded_len bp len = Some (r, bp') \<and>
    parse_asn_variable_length_enc (ab_block bp') (ab_data bp') (8 - head_headspace_bits bp') = Some (len mod 8192, cp, left) \<and>
    rpos cp left = head_pos bp"
proof -
  have read: "reader_ok (ab_block b) (ab_data b) (8 - head_headspace_bits b)"
    "sees (ab_block b) (rpos (ab_data b) (8 - head_headspace_bits b)) xs" if "buf_ok b" "buf_bits b = xs @ ys" for b xs ys
    using sees_buf [OF that(1)] that head_reader rpos_head by (simp_all add: buf_ok_def sees_append)
  show ?thesis
  proof (cases "len < 128")
    case True
    obtain b where b: "asn_push_encoded_len bp len = Some (8, b)" "buf_ok b" "buf_bits b = nbits 8 (of_int len) @ buf_bits bp"
      "head_pos b = head_pos bp - 8"
      using push_short_ok [OF ok _ len(1) True] room by auto
    show ?thesis using parse_short_ok [OF read [OF b(2,3)]] b True len room rpos_head [of b]
      by (fastforce simp: buf_ok_def)
  next
    case False
    obtain b where b: "asn_push_encoded_len bp len = Some (16, b)" "buf_ok b"
      "buf_bits b = nbits 16 (of_int (len mod 8192) OR 0x8000) @ buf_bits bp" "head_pos b = head_pos bp - 16"
      using push_long_ok [OF ok room _ len(2)] False by auto
    show ?thesis using parse_long_ok [OF read [OF b(2,3)]] b room rpos_head [of b]
      by (fastforce simp: buf_ok_def)
  qed
qed

section \<open>Lengths of the security header\<close>

lemma aligned_pos: "reader_ok blk cp left \<Longrightarrow> rpos cp left = 8 * t \<Longrightarrow> left = 8 \<and> cp = int t"
proof -
  assume r: "reader_ok blk cp left" and p: "rpos cp left = 8 * t"
  have "8 * n + (8 - left) = 8 * t \<Longrightarrow> 1 \<le> left \<Longrightarrow> left \<le> 8 \<Longrightarrow> left = 8 \<and> n = t" for n by presburger
  with r p show ?thesis unfolding reader_ok_def rpos_def by (metis int_nat_eq)
qed

lemma aligned_get:
  assumes "0 \<le> cp" and "sees blk (8 * nat cp) (nbits 8 d)"
  shows "get_next_n_bits blk cp 8 8 = Some (d AND mask 8, cp + 1, 8)"
proof -
  have r: "reader_ok blk cp 8" "rpos cp 8 = 8 * nat cp" using assms(1) by (simp_all add: reader_ok_def rpos_def)
  obtain cp' left' where 1: "get_next_n_bits blk cp 8 8 = Some (d AND mask 8, cp', left')" "reader_ok blk cp' left'"
    "rpos cp' left' = 8 * (nat cp + 1)"
    using sees_get [OF r(1), of 8 d] assms(2) r(2) by auto
  show ?thesis using aligned_pos [OF 1(2,3)] 1(1) assms(1) by simp
qed

lemma cer_octets_ok:
  "k \<le> K \<Longrightarrow> 0 < K \<Longrightarrow> K \<le> 4 \<Longrightarrow> 0 \<le> cp \<Longrightarrow> sees blk (8 * nat cp) (nbits (8 * k) d) \<Longrightarrow>
     acc = (if k = K then - 1 else ucast (drop_bit (8 * k) (d AND mask (8 * K)))) \<Longrightarrow>
     cer_octets blk k acc cp 8 = Some (ucast (d AND mask (8 * K)), cp + int k, 8)"
proof (induction k arbitrary: cp acc)
  case (Suc k)
  define b where "b = drop_bit (8 * k) d AND mask 8"
  have split: "nbits (8 * Suc k) d = nbits 8 (drop_bit (8 * k) d) @ nbits (8 * k) d"
    using nbits_add [of 8 "8 * k" d] by (simp add: add.commute)
  have s: "sees blk (8 * nat cp) (nbits 8 (drop_bit (8 * k) d))" "sees blk (8 * nat (cp + 1)) (nbits (8 * k) d)"
    using Suc.prems(4,5) unfolding split sees_append by (simp_all add: nat_add_distrib add.commute)
  have g: "get_next_n_bits blk cp 8 8 = Some (b, cp + 1, 8)" unfolding b_def by (rule aligned_get [OF Suc.prems(4) s(1)])
  have "acc = - 1 \<longleftrightarrow> Suc k = K"
  proof -
    have "ucast w \<noteq> (- 1 :: u64)" for w :: u32
    proof
      assume "ucast w = (- 1 :: u64)"
      then have "bit (ucast w :: u64) 63" by simp
      then show False by (auto simp: bit_simps dest: bit_imp_le_length)
    qed
    then show ?thesis using Suc.prems(6) by auto
  qed
  moreover have "(if Suc k = K then ucast b else push_bit 8 acc OR ucast b) = ucast (drop_bit (8 * k) (d AND mask (8 * K)))"
    using Suc.prems(1,3,6) by (intro bit_word_eqI) (auto simp: b_def bit_simps dest: bit_imp_le_length)
  ultimately have acc: "(if acc = - 1 then ucast b else push_bit 8 acc OR ucast b) = ucast (drop_bit (8 * k) (d AND mask (8 * K)))"
    by simp
  have "cer_octets blk (Suc k) acc cp 8 = cer_octets blk k (ucast (drop_bit (8 * k) (d AND mask (8 * K)))) (cp + 1) 8"
    unfolding acc [symmetric] using g by simp
  also have "\<dots> = Some (ucast (d AND mask (8 * K)), cp + 1 + int k, 8)"
    by (rule Suc.IH) (use Suc.prems s(2) in auto)
  finally show ?case by simp
qed simp

text \<open>The long form, in front of aligned data: the octets, how many they are and a set bit.\<close>

definition cer_count :: "int \<Rightarrow> nat" where
  "cer_count len = (if len < 0x100 then 1 else if len < 0x10000 then 2 else if len < 0x1000000 then 3 else 4)"

lemma push_cer_ok:
  assumes ok: "buf_ok bp" and room: "40 \<le> head_pos bp" and len: "128 \<le> len"
  shows "\<exists>bp'. asn_push_CER_encoded_len bp len = Some (0, bp') \<and> buf_ok bp' \<and>
    buf_bits bp' = nbits 1 1 @ nbits 7 (of_nat (cer_count len)) @ nbits (8 * cer_count len) (of_int len) @ buf_bits bp \<and>
    same_tail bp bp' \<and> head_pos bp' = head_pos bp - (8 * cer_count len + 8)"
proof -
  let ?k = "cer_count len"
  have k: "0 < 8 * ?k" "8 * ?k \<le> 32" by (auto simp: cer_count_def)
  obtain b1 where 1: "asn_push_bits bp (of_int len) (8 * ?k) = Some (int (8 * ?k), b1)" "buf_ok b1"
    "buf_bits b1 = nbits (8 * ?k) (of_int len) @ buf_bits bp" "same_tail bp b1" "head_pos b1 = head_pos bp - 8 * ?k"
    using buf_prepend_ok [OF ok k(1), of "of_int len"] room k(2) by auto
  have r: "7 \<le> head_pos b1" "1 \<le> head_pos b1 - 7" using 1(5) room k(2) by linarith+
  obtain b2 where 2: "asn_push_bits b1 (of_nat ?k) 7 = Some (7, b2)" "buf_ok b2"
    "buf_bits b2 = nbits 7 (of_nat ?k) @ buf_bits b1" "same_tail b1 b2" "head_pos b2 = head_pos b1 - 7"
    using buf_prepend_ok [OF 1(2) _ r(1), of "of_nat ?k"] by auto
  obtain b3 where 3: "asn_push_bits b2 1 1 = Some (1, b3)" "buf_ok b3"
    "buf_bits b3 = nbits 1 1 @ buf_bits b2" "same_tail b2 b3" "head_pos b3 = head_pos b2 - 1"
    using buf_prepend_ok [OF 2(2) _ r(2) [folded 2(5)], of 1] by auto
  have "asn_push_CER_encoded_len bp len = Some (0, b3)"
    using len 1(1) 2(1) 3(1) by (simp add: asn_push_CER_encoded_len_def cer_count_def [symmetric])
  moreover have "same_tail bp b3" using same_tail_trans 1(4) 2(4) 3(4) by blast
  ultimately show ?thesis using 1(3,5) 2(3,5) 3(2,3,5) k(2) room by auto
qed

lemma parse_cer_long:
  assumes cp: "0 \<le> cp" and K: "0 < K" "K \<le> 4"
    and s: "sees blk (8 * nat cp) (nbits 1 1 @ nbits 7 (of_nat K) @ nbits (8 * K) d)"
  shows "parse_asn_CER_len_enc blk cp 8 = Some (ucast (d AND mask (8 * K)), cp + 1 + int K, 8)"
proof -
  define e :: u32 where "e = 0x80 OR of_nat K"
  have hiK: "\<not> bit K i" if "3 \<le> i" for i
  proof -
    have "K = take_bit 3 K" using K by (simp add: take_bit_nat_eq_self)
    then show ?thesis using that by (metis bit_take_bit_iff not_le)
  qed
  have loK: "i < 7" if "bit K i" for i using hiK [of i] that by linarith
  have bK: "bit (of_nat K :: u32) i \<longleftrightarrow> i < 32 \<and> bit K i" for i by (simp add: bit_simps)
  have be: "bit e i \<longleftrightarrow> i < 32 \<and> (i = 7 \<or> bit K i)" for i
    unfolding e_def bit_or_iff bit_numerals bK by auto
  have e1: "nbits 1 1 = nbits 1 (drop_bit 7 e)" by (rule nbits_cong) (use hiK in \<open>auto simp: bit_simps be\<close>)
  have e7: "nbits 7 (of_nat K) = nbits 7 e" by (rule nbits_cong) (auto simp: be bK)
  have s1: "sees blk (8 * nat cp) (nbits 8 e)" and s7: "sees blk (8 * nat cp + 1) (nbits 7 e)"
    and sK: "sees blk (8 * nat (cp + 1)) (nbits (8 * K) d)"
    using s cp nbits_add [of 1 7 e] unfolding e1 e7 by (simp_all add: sees_append nat_add_distrib add.commute)
  have r: "rd blk cp = Some (low8 e)" using sees_rd [OF s1] cp by simp
  have top: "low8 e AND 0x80 \<noteq> 0" by (simp add: and_numeral_eq bit_simps be)
  have r7: "reader_ok blk cp 7" "rpos cp 7 = 8 * nat cp + 1" using cp by (simp_all add: reader_ok_def rpos_def)
  obtain cp' left' where g: "get_next_n_bits blk cp 7 7 = Some (e AND mask 7, cp', left')" "reader_ok blk cp' left'"
    "rpos cp' left' = 8 * (nat cp + 1)"
    using sees_get [OF r7(1), of 7 e] s7 r7(2) by auto
  have p: "left' = 8" "cp' = cp + 1" using aligned_pos [OF g(2,3)] cp by simp_all
  have "e AND mask 7 = of_nat K"
    using loK by (intro bit_word_eqI) (auto simp: bit_and_iff be bK bit_mask_iff dest: loK)
  then have "unat (e AND mask 7) = K" using K by (simp add: unat_of_nat)
  with g(1) r top p cer_octets_ok [OF order.refl K _ sK refl] cp show ?thesis
    by (simp add: parse_asn_CER_len_enc_def)
qed

text \<open>Any length of 32 bits is read back.\<close>

lemma cer_mask: "128 \<le> len \<Longrightarrow> len < 2 ^ 32 \<Longrightarrow> of_int len AND mask (8 * cer_count len) = (of_int len :: u32)"
proof -
  assume l: "128 \<le> len" "len < 2 ^ 32"
  then have "len < 2 ^ (8 * cer_count len)" by (simp add: cer_count_def)
  then have lo: "bit len i \<Longrightarrow> i < 8 * cer_count len" for i using int_low_bits [of len "8 * cer_count len" i] l by simp
  show ?thesis by (rule bit_word_eqI) (auto simp: bit_simps bit_word_of_int_iff dest: lo)
qed

lemma cer_read_back:
  assumes ok: "buf_ok bp" and hs: "head_headspace_bits bp = 0" and room: "40 \<le> head_pos bp" and len: "0 < len" "len < 2 ^ 32"
  shows "\<exists>r bp'. asn_push_CER_encoded_len bp len = Some (r, bp') \<and>
    parse_asn_CER_len_enc (ab_block bp') (ab_data bp') 8 = Some (of_int len, ab_data bp, 8)"
proof -
  have d: "0 \<le> ab_data bp" "head_pos bp = 8 * nat (ab_data bp)" using ok hs by (simp_all add: buf_ok_def head_ok_def head_pos_def)
  have pos: "head_headspace_bits b = 0 \<and> ab_data b = ab_data bp - int k" if "buf_ok b" "head_pos b = head_pos bp - 8 * k" "8 * k \<le> head_pos bp" for b k
  proof -
    have "8 * nat (ab_data b) + head_headspace_bits b = 8 * (nat (ab_data bp) - k)" using that(2) d(2) by (simp add: head_pos_def diff_mult_distrib2)
    moreover have "8 * x + h = 8 * y \<Longrightarrow> h < 8 \<Longrightarrow> h = 0 \<and> x = y" for x h y :: nat by presburger
    ultimately show ?thesis using that d by (auto simp: buf_ok_def head_ok_def)
  qed
  show ?thesis
  proof (cases "len < 128")
    case True
    obtain b where b: "asn_push_CER_encoded_len bp len = Some (8, b)" "buf_ok b" "buf_bits b = nbits 8 (of_int len) @ buf_bits bp"
      "head_pos b = head_pos bp - 8 * 1"
      using push_short_ok [OF ok _ len(1) True] room by auto
    have p: "head_headspace_bits b = 0" "ab_data b = ab_data bp - 1" "1 \<le> ab_data bp" using pos [OF b(2,4)] room d by simp_all
    have "rd (ab_block b) (ab_data b) = Some (of_int len)"
      using sees_rd [of "ab_block b" "nat (ab_data b)" "of_int len"] sees_buf [OF b(2)] p
      by (simp add: b(3) sees_append head_pos_def low8_of_int)
    moreover have "of_int len AND 0x80 = (0 :: 8 word)"
      using int_high_bits [of len 7 7] len True by (simp add: and_numeral_eq bit_word_of_int_iff)
    moreover have "ucast (of_int len :: u8) = (of_int len :: u64)"
      using int_low_bits [of len 8] len True by (intro bit_word_eqI) (auto simp: bit_simps bit_word_of_int_iff)
    ultimately show ?thesis using b(1) p by (auto simp: parse_asn_CER_len_enc_def)
  next
    case False
    then have l: "128 \<le> len" by simp
    let ?k = "cer_count len"
    have k: "0 < ?k" "?k \<le> 4" by (auto simp: cer_count_def)
    obtain b where b: "asn_push_CER_encoded_len bp len = Some (0, b)" "buf_ok b"
      "buf_bits b = nbits 1 1 @ nbits 7 (of_nat ?k) @ nbits (8 * ?k) (of_int len) @ buf_bits bp"
      "head_pos b = head_pos bp - 8 * (?k + 1)"
      using push_cer_ok [OF ok room l] by (auto simp: algebra_simps)
    have p: "head_headspace_bits b = 0" "ab_data b = ab_data bp - 1 - int ?k" using pos [OF b(2,4)] room k by simp_all
    have "0 \<le> ab_data b" using b(2) by (simp add: buf_ok_def head_ok_def)
    then have "parse_asn_CER_len_enc (ab_block b) (ab_data b) 8 = Some (ucast (of_int len AND mask (8 * ?k) :: u32), ab_data b + 1 + int ?k, 8)"
      by (rule parse_cer_long [OF _ k]) (use sees_buf [OF b(2)] p in \<open>simp add: b(3) sees_append head_pos_def\<close>)
    moreover have "ucast (of_int len :: u32) = (of_int len :: u64)"
      using int_low_bits [of len 32] len by (intro bit_word_eqI) (auto simp: bit_simps bit_word_of_int_iff)
    ultimately show ?thesis using b(1) p cer_mask [OF l len(2)] by auto
  qed
qed

end
