(* ===== verification/V2xCodec.thy ===== *)
theory V2xCodec
  imports V2xBuf
begin

text \<open>
  \<open>rits/src/qCoder/src\<close>: the messages that the codec fills in, the basic safety message of
  \<open>j2735.c\<close> and the security header of \<open>ieee1609.2.c\<close>. Signed fields are 32-bit words; their offsets
  wrap as the compilers' do. The optional second part of a safety message is an argument: what stands for
  its functions is not modelled. Small allocations succeed, and traces are left out.
\<close>

section \<open>Messages\<close>

record bsm =
  timestamp_ms :: u64
  MsgCount :: u32
  bsm_id :: u32
  secMark_ms :: u32
  Latitude :: u32
  Longitude :: u32
  Elevation :: u32
  SemiMajorAxisAccuracy :: u32
  SemiMinorAxisAccuracy :: u32
  SemiMajorAxisOrientation :: u32
  TransmissionState :: u32
  Speed :: u32
  Heading_degrees :: u32
  SteeringWheelAngle :: u32
  AccelLon_cm_per_sec_squared :: u32
  AccelLat_cm_per_sec_squared :: u32
  AccelVert_two_centi_gs :: u32
  AccelYaw_centi_degrees_per_sec :: u32
  brakes_word :: u16
  VehicleWidth_cm :: u32
  VehicleLength_cm :: u32
  has_partII :: bool
  has_regional_extensions :: bool

text \<open>What \<open>calloc\<close> gives.\<close>

definition bsm0 :: bsm where
  "bsm0 = \<lparr>timestamp_ms = 0, MsgCount = 0, bsm_id = 0, secMark_ms = 0, Latitude = 0, Longitude = 0, Elevation = 0,
     SemiMajorAxisAccuracy = 0, SemiMinorAxisAccuracy = 0, SemiMajorAxisOrientation = 0, TransmissionState = 0,
     Speed = 0, Heading_degrees = 0, SteeringWheelAngle = 0, AccelLon_cm_per_sec_squared = 0,
     AccelLat_cm_per_sec_squared = 0, AccelVert_two_centi_gs = 0, AccelYaw_centi_degrees_per_sec = 0,
     brakes_word = 0, VehicleWidth_cm = 0, VehicleLength_cm = 0, has_partII = False, has_regional_extensions = False\<rparr>"

record ieee1609_2_data =
  protocolVersion :: u8
  tagclass :: u32
  sec_content :: u32

abbreviation signedData :: u32 where "signedData \<equiv> 1"
abbreviation encryptedData :: u32 where "encryptedData \<equiv> 2"
abbreviation unsecuredData :: u32 where "unsecuredData \<equiv> 0"

record wsmp_data =
  wsmp_version :: u32
  n_header :: u8
  src_port :: u16
  dst_port :: u16
  inc_rate_ext :: bool
  inc_chan_ext :: bool
  inc_pwr_ext :: bool
  inc_load_ext :: bool
  weid_qty :: u8
  wsmp_rate :: u8
  wsmp_chan :: u8
  wsmp_pwr :: u8
  tpid :: u8
  wsmp_psid :: u32
  chan_load :: "u8 list"
  chan_load_len :: u8

record btp_data =
  btp_type_A :: bool
  s_port :: u16
  d_port :: u16
  dp_info :: u16

record msg_contents =
  sae_stack :: bool
  mc_abuf :: abuf
  payload_len :: int
  l3_payload :: int
  l3_payload_len :: int
  wsmp :: wsmp_data
  btp :: btp_data
  j2735_msg :: bsm
  j2735_msg_id :: u16
  ieee1609_2 :: ieee1609_2_data

section \<open>Words of the buffer\<close>

text \<open>\<open>*p32 = htonl(tmp)\<close> at a place that \<open>abuf\_put\<close> gives, and a byte likewise.\<close>

definition put32 :: "u32 \<Rightarrow> abuf \<Rightarrow> abuf option" where
  "put32 w bp = (case abuf_put bp 4 of (None, _) \<Rightarrow> None | (Some p, bp) \<Rightarrow> wr_all p (rev (le32 w)) bp)"

definition put8 :: "u8 \<Rightarrow> abuf \<Rightarrow> abuf option" where
  "put8 b bp = (case abuf_put bp 1 of (None, _) \<Rightarrow> None | (Some p, bp) \<Rightarrow> wr p b bp)"

definition get32 :: "u8 list \<Rightarrow> int \<Rightarrow> u32 option" where
  "get32 blk p = do {
     a \<leftarrow> rd blk p;
     b \<leftarrow> rd blk (p + 1);
     c \<leftarrow> rd blk (p + 2);
     d \<leftarrow> rd blk (p + 3);
     Some (le_word [d, c, b, a])
   }"

definition get16 :: "u8 list \<Rightarrow> int \<Rightarrow> u16 option" where
  "get16 blk p = do { a \<leftarrow> rd blk p; b \<leftarrow> rd blk (p + 1); Some (le_word [b, a]) }"

section \<open>The core of a safety message\<close>

abbreviation LATITUDE_OFFSET :: u32 where "LATITUDE_OFFSET \<equiv> - 900000000"
abbreviation LONGITUDE_OFFSET :: u32 where "LONGITUDE_OFFSET \<equiv> - 1799999999"
abbreviation ELEVATION_OFFSET :: u32 where "ELEVATION_OFFSET \<equiv> - 4096"
abbreviation SWA_OFFSET :: u32 where "SWA_OFFSET \<equiv> - 126"
abbreviation ACCEL_LON_OFFSET :: u32 where "ACCEL_LON_OFFSET \<equiv> - 2000"
abbreviation ACCEL_LAT_OFFSET :: u32 where "ACCEL_LAT_OFFSET \<equiv> - 2000"
abbreviation ACCEL_VERT_OFFSET :: u32 where "ACCEL_VERT_OFFSET \<equiv> - 127"
abbreviation ACCEL_YAW_OFFSET :: u32 where "ACCEL_YAW_OFFSET \<equiv> - 32767"
abbreviation J2735_MSGID_BASIC_SAFETY :: u16 where "J2735_MSGID_BASIC_SAFETY \<equiv> 20"
abbreviation MIN_BSM_CORE_OCTETS :: int where "MIN_BSM_CORE_OCTETS \<equiv> 31"

text \<open>The nine words, and the byte with the rest of the length.\<close>

definition bsm_words :: "bsm \<Rightarrow> u32 list" where
  "bsm_words B =
    (let lat = Latitude B - LATITUDE_OFFSET; lon = Longitude B - LONGITUDE_OFFSET; ele = Elevation B - ELEVATION_OFFSET;
         swa = SteeringWheelAngle B - SWA_OFFSET; alon = AccelLon_cm_per_sec_squared B - ACCEL_LON_OFFSET;
         alat = AccelLat_cm_per_sec_squared B - ACCEL_LAT_OFFSET; vert = AccelVert_two_centi_gs B - ACCEL_VERT_OFFSET;
         yaw = AccelYaw_centi_degrees_per_sec B - ACCEL_YAW_OFFSET in
     [(if has_partII B then 0x40000000 else 0) OR push_bit 22 (MsgCount B) OR drop_bit 10 (bsm_id B),
      push_bit 22 (bsm_id B) OR push_bit 6 (secMark_ms B) OR drop_bit 25 lat,
      push_bit 7 lat OR drop_bit 25 lon,
      push_bit 7 lon OR drop_bit 9 ele,
      push_bit 23 ele OR push_bit 15 (SemiMajorAxisAccuracy B) OR push_bit 7 (SemiMinorAxisAccuracy B) OR
        drop_bit 9 (SemiMajorAxisOrientation B),
      push_bit 23 (SemiMajorAxisOrientation B) OR push_bit 20 (TransmissionState B) OR push_bit 7 (Speed B) OR
        drop_bit 8 (Heading_degrees B),
      push_bit 24 (Heading_degrees B) OR push_bit 16 swa OR push_bit 4 alon OR drop_bit 8 alat,
      push_bit 24 alat OR push_bit 16 vert OR yaw,
      push_bit 16 (ucast (brakes_word B)) OR push_bit 7 (VehicleWidth_cm B) OR drop_bit 5 (VehicleLength_cm B)])"

fun put_words :: "u32 list \<Rightarrow> abuf \<Rightarrow> abuf option" where
  "put_words [] bp = Some bp"
| "put_words (w # ws) bp = do { bp \<leftarrow> put32 w bp; put_words ws bp }"

definition encode_as_bsm :: "(bsm \<Rightarrow> abuf \<Rightarrow> abuf option) \<Rightarrow> bsm \<Rightarrow> abuf \<Rightarrow> abuf option" where
  "encode_as_bsm partII B bp = do {
     bp \<leftarrow> put_words (bsm_words B) bp;
     bp \<leftarrow> put8 (ucast (push_bit 3 (VehicleLength_cm B))) bp;
     let bp = bp\<lparr>ab_tail := ab_tail bp - 1, tail_bits_left := 3\<rparr>;
     bp \<leftarrow> (if has_partII B then partII B bp else Some bp);
     (_, bp) \<leftarrow> asn_push_len bp;
     (_, bp) \<leftarrow> asn_push_bits bp (ucast J2735_MSGID_BASIC_SAFETY) 16;
     Some bp
   }"

definition encode_as_j2735 :: "(bsm \<Rightarrow> abuf \<Rightarrow> abuf option) \<Rightarrow> msg_contents \<Rightarrow> (int \<times> msg_contents) option" where
  "encode_as_j2735 partII mc =
     (if j2735_msg_id mc = J2735_MSGID_BASIC_SAFETY
      then do { bp \<leftarrow> encode_as_bsm partII (j2735_msg mc) (mc_abuf mc); Some (0, mc\<lparr>mc_abuf := bp\<rparr>) }
      else Some (0, mc))"

definition calc_timestamp_from_secmark :: "u64 \<Rightarrow> u32 \<Rightarrow> u64" where
  "calc_timestamp_from_secmark now secmark =
     (let min = now div 60000; rem = now mod 60000 in
      if rem \<ge> ucast secmark then min * 60000 + ucast secmark else (min - 1) * 60000 + ucast secmark)"

text \<open>The result and the message; what the second part does, given where it starts, is an argument. The trace of a message
  that is too short, which follows a pointer that was never set, is left out as all traces are.\<close>

definition decode_as_bsm ::
  "(u8 list \<Rightarrow> int \<Rightarrow> int \<Rightarrow> bsm \<Rightarrow> (int \<times> bsm) option) \<Rightarrow> u64 \<Rightarrow> u8 list \<Rightarrow> int \<Rightarrow> int \<Rightarrow> bsm \<Rightarrow> (int \<times> bsm) option" where
  "decode_as_bsm partII now blk p len B =
     (if len < MIN_BSM_CORE_OCTETS then Some (- 1, B)
      else do {
        w0 \<leftarrow> get32 blk p;
        if w0 AND 0x80000000 \<noteq> 0 then Some (0, B)
        else do {
          w1 \<leftarrow> get32 blk (p + 4);
          w2 \<leftarrow> get32 blk (p + 8);
          w3 \<leftarrow> get32 blk (p + 12);
          w4 \<leftarrow> get32 blk (p + 16);
          w5 \<leftarrow> get32 blk (p + 20);
          w6 \<leftarrow> get32 blk (p + 24);
          w7 \<leftarrow> get32 blk (p + 28);
          w8 \<leftarrow> get32 blk (p + 32);
          last \<leftarrow> (if p + 36 \<le> p + len - 1 then rd blk (p + 36) else Some 0);
          let secmark = drop_bit 6 (w1 AND 0x003fffc0);
          let B = B\<lparr>
            has_partII := (w0 AND 0x40000000 \<noteq> 0),
            has_regional_extensions := (w0 AND 0x20000000 \<noteq> 0),
            MsgCount := drop_bit 22 (w0 AND 0x1fc00000),
            bsm_id := push_bit 10 (w0 AND 0x003fffff) OR drop_bit 22 (w1 AND 0xffc00000),
            secMark_ms := secmark,
            timestamp_ms := calc_timestamp_from_secmark now secmark,
            Latitude := (push_bit 25 (w1 AND 0x3f) OR drop_bit 7 (w2 AND 0xffffff80)) + LATITUDE_OFFSET,
            Longitude := (push_bit 25 (w2 AND 0x7f) OR drop_bit 7 (w3 AND 0xffffff80)) + LONGITUDE_OFFSET,
            Elevation := (push_bit 9 (w3 AND 0x7f) OR drop_bit 23 (w4 AND 0xff800000)) + ELEVATION_OFFSET,
            SemiMajorAxisAccuracy := drop_bit 15 (w4 AND 0x007f8000),
            SemiMinorAxisAccuracy := drop_bit 7 (w4 AND 0x7f80),
            SemiMajorAxisOrientation := push_bit 9 (w4 AND 0x7f) OR drop_bit 23 (w5 AND 0xff800000),
            TransmissionState := drop_bit 20 (w5 AND 0x00700000),
            Speed := drop_bit 7 (w5 AND 0x000fff80),
            Heading_degrees := push_bit 8 (w5 AND 0x7f) OR drop_bit 24 (w6 AND 0xff000000),
            SteeringWheelAngle := drop_bit 16 (w6 AND 0x00ff0000) + SWA_OFFSET,
            AccelLon_cm_per_sec_squared := drop_bit 4 (w6 AND 0x0000fff0) + ACCEL_LON_OFFSET,
            AccelLat_cm_per_sec_squared := (push_bit 8 (w6 AND 0xf) OR drop_bit 24 (w7 AND 0xff000000)) + ACCEL_LAT_OFFSET,
            AccelVert_two_centi_gs := drop_bit 16 (w7 AND 0x00ff0000) + ACCEL_VERT_OFFSET,
            AccelYaw_centi_degrees_per_sec := (w7 AND 0x0000ffff) + ACCEL_YAW_OFFSET,
            brakes_word := ucast (drop_bit 16 w8),
            VehicleWidth_cm := drop_bit 7 (w8 AND 0x0001ff80),
            VehicleLength_cm := push_bit 5 (w8 AND 0x7f) OR drop_bit 3 (ucast last AND 0xf8)\<rparr>;
          if has_partII B then partII blk (p + 36) (p + len - 1) B else Some (0, B)
        }
      })"

text \<open>Only a basic safety message is decoded; the length of a fragmented one is - 1.\<close>

definition decode_as_j2735 ::
  "(u8 list \<Rightarrow> int \<Rightarrow> int \<Rightarrow> bsm \<Rightarrow> (int \<times> bsm) option) \<Rightarrow> u64 \<Rightarrow> msg_contents \<Rightarrow> (u16 \<times> msg_contents) option" where
  "decode_as_j2735 partII now mc =
     (let bp = mc_abuf mc in
      if ab_tail bp - ab_data bp > 4 then do {
        msg_id \<leftarrow> get16 (ab_block bp) (ab_data bp);
        let bp = snd (abuf_pull bp 2);
        let mc = mc\<lparr>mc_abuf := bp, j2735_msg_id := msg_id\<rparr>;
        if msg_id = J2735_MSGID_BASIC_SAFETY then do {
          (msg_len, cp, _) \<leftarrow> parse_asn_variable_length_enc (ab_block bp) (ab_data bp) 8;
          (_, B) \<leftarrow> decode_as_bsm partII now (ab_block bp) cp msg_len bsm0;
          Some (msg_id, mc\<lparr>mc_abuf := bp\<lparr>ab_data := cp\<rparr>, payload_len := msg_len, j2735_msg := B\<rparr>)
        }
        else Some (msg_id, mc)
      }
      else Some (0, mc))"

section \<open>The security header\<close>

definition ieee1609_2_encode_unsecured :: "msg_contents \<Rightarrow> (int \<times> msg_contents) option" where
  "ieee1609_2_encode_unsecured mc =
     (let ie = ieee1609_2 mc in
      if sec_content ie = signedData \<or> sec_content ie = encryptedData then Some (1, mc)
      else do {
        (_, bp) \<leftarrow> asn_push_ieee1609_2_len (mc_abuf mc);
        (_, bp) \<leftarrow> asn_push_bits bp (sec_content ie) 6;
        (_, bp) \<leftarrow> asn_push_bits bp (tagclass ie) 2;
        (_, bp) \<leftarrow> asn_push_bits bp (ucast (protocolVersion ie)) 8;
        Some (0, mc\<lparr>mc_abuf := bp\<rparr>)
      })"

text \<open>The length is cut to the \<open>int\<close> it is kept in.\<close>

definition ieee1609_2_decode_unsecured :: "msg_contents \<Rightarrow> (int \<times> msg_contents) option" where
  "ieee1609_2_decode_unsecured mc =
     (case abuf_pull (mc_abuf mc) 1 of
        (None, _) \<Rightarrow> None
      | (Some p, bp) \<Rightarrow> do {
          v \<leftarrow> rd (ab_block bp) p;
          (tc, cp, left) \<leftarrow> get_next_n_bits (ab_block bp) (ab_data bp) 2 8;
          (co, cp, left) \<leftarrow> get_next_n_bits (ab_block bp) cp 6 left;
          (len, cp, _) \<leftarrow> parse_asn_CER_len_enc (ab_block bp) cp left;
          Some (0, mc\<lparr>mc_abuf := bp\<lparr>ab_data := cp\<rparr>, payload_len := sint (ucast len :: u32),
            ieee1609_2 := \<lparr>protocolVersion = v, tagclass = tc, sec_content = co\<rparr>\<rparr>)
        })"

end
