(* ===== verification/V2xWsm.thy ===== *)
theory V2xWsm
  imports V2xCodec
begin

text \<open>
  The headers around a message in \<open>rits/src/qCoder/src\<close>: the WSMP header of \<open>wsmp.c\<close>, the transport
  header of \<open>btp.c\<close>, and the calls of \<open>v2x\_codec.c\<close> that go through all layers. What stands for the
  generated coders of the ETSI messages and for the second part of a safety message are arguments;
  \<open>savari_workaround\<close>, a global that one setter writes, is one too. A message has all its parts: what
  \<open>calloc\<close> would add on decoding is there from the start. \<open>None\<close> as in the buffer.
\<close>

section \<open>The service identifier\<close>

abbreviation MAX_PSID :: u32 where "MAX_PSID \<equiv> 0x1020407f"

definition WSMP_PSID_FIELD_SIZE :: "u8 \<Rightarrow> nat" where
  "WSMP_PSID_FIELD_SIZE v =
     (if v AND 0xe0 = 0xe0 then 4 else if v AND 0xc0 = 0xc0 then 3 else if v AND 0x80 = 0x80 then 2 else 1)"

definition wsmp_decode_psid :: "u8 list \<Rightarrow> int \<Rightarrow> u32 option" where
  "wsmp_decode_psid blk p = do {
     b0 \<leftarrow> rd blk p;
     let n = WSMP_PSID_FIELD_SIZE b0;
     if n = 1 then Some (ucast b0)
     else do {
       b1 \<leftarrow> rd32 blk (p + 1);
       if n = 2 then Some (push_bit 8 (ucast b0) + b1 - 0x7f80)
       else do {
         b2 \<leftarrow> rd32 blk (p + 2);
         if n = 3 then Some (push_bit 16 (ucast b0) + push_bit 8 b1 + b2 - 0xbfbf80)
         else do {
           b3 \<leftarrow> rd32 blk (p + 3);
           Some (push_bit 24 (ucast b0) + push_bit 16 b1 + push_bit 8 b2 + b3 - 0xdfdfbf80)
         }
       }
     }
   }"

text \<open>The value is compared as a signed integer.\<close>

definition WSM_PSID_PCODED_LEN :: "u32 \<Rightarrow> int" where
  "WSM_PSID_PCODED_LEN psid_v =
     (if sint psid_v > sint MAX_PSID then - 1
      else if sint psid_v \<ge> 0x204080 then 4
      else if sint psid_v \<ge> 0x4080 then 3
      else if sint psid_v \<ge> 0x80 then 2
      else 1)"

definition wsmp_add_psid :: "int \<Rightarrow> u32 \<Rightarrow> abuf \<Rightarrow> abuf option" where
  "wsmp_add_psid cp psid_v bp =
     (if sint psid_v > sint MAX_PSID then Some bp
      else if sint psid_v \<ge> 0x204080 then wr_all cp (rev (le_bytes 4 (psid_v + 0xdfdfbf80))) bp
      else if sint psid_v \<ge> 0x4080 then wr_all cp (rev (le_bytes 3 (psid_v + 0xbfbf80))) bp
      else if sint psid_v \<ge> 0x80 then wr_all cp (rev (le_bytes 2 (psid_v + 0x7f80))) bp
      else wr cp (ucast psid_v) bp)"

definition abuf_add_PSID :: "abuf \<Rightarrow> u32 \<Rightarrow> abuf option" where
  "abuf_add_PSID abp psid =
     (case abuf_put abp (WSM_PSID_PCODED_LEN psid) of
        (None, abp) \<Rightarrow> Some abp
      | (Some cp, abp) \<Rightarrow> wsmp_add_psid cp psid abp)"

section \<open>Writing the header\<close>

abbreviation WAVE_ELEM_ID_PWR :: u8 where "WAVE_ELEM_ID_PWR \<equiv> 4"
abbreviation WAVE_ELEM_ID_CHAN :: u8 where "WAVE_ELEM_ID_CHAN \<equiv> 15"
abbreviation WAVE_ELEM_ID_RATE :: u8 where "WAVE_ELEM_ID_RATE \<equiv> 16"
abbreviation WAVE_ELEM_ID_LOAD :: u8 where "WAVE_ELEM_ID_LOAD \<equiv> 23"
abbreviation WAVE_ELEM_ID_DATA :: u8 where "WAVE_ELEM_ID_DATA \<equiv> 128"
abbreviation WAVE_ELEM_SAFETY_FLAG :: u8 where "WAVE_ELEM_SAFETY_FLAG \<equiv> 129"
abbreviation TPID_ITS_PORTS_NOEXT :: u8 where "TPID_ITS_PORTS_NOEXT \<equiv> 2"
abbreviation TPID_ITS_PORTS_EXT :: u8 where "TPID_ITS_PORTS_EXT \<equiv> 3"
abbreviation TPID_LPP_EXT :: u8 where "TPID_LPP_EXT \<equiv> 5"

text \<open>\<open>asn\_ncat\_bits(bp, v, 8)\<close>, its result not looked at.\<close>

definition ncat8 :: "u32 \<Rightarrow> abuf \<Rightarrow> abuf option" where
  "ncat8 v bp = map_option snd (asn_ncat_bits bp v 8)"

definition ncat_elem :: "bool \<Rightarrow> u8 \<Rightarrow> u8 \<Rightarrow> abuf \<Rightarrow> abuf option" where
  "ncat_elem inc elem v bp =
     (if inc then do { bp \<leftarrow> ncat8 (ucast elem) bp; bp \<leftarrow> ncat8 1 bp; ncat8 (ucast v) bp } else Some bp)"

definition wsm_elements :: "wsmp_data \<Rightarrow> abuf \<Rightarrow> abuf option" where
  "wsm_elements w bp =
     (if weid_qty w = 0 then Some bp
      else do {
        bp \<leftarrow> ncat8 (ucast (weid_qty w)) bp;
        bp \<leftarrow> ncat_elem (inc_rate_ext w) WAVE_ELEM_ID_RATE (wsmp_rate w) bp;
        bp \<leftarrow> ncat_elem (inc_pwr_ext w) WAVE_ELEM_ID_PWR (wsmp_pwr w) bp;
        bp \<leftarrow> ncat_elem (inc_chan_ext w) WAVE_ELEM_ID_CHAN (wsmp_chan w) bp;
        if inc_load_ext w then do {
          bp \<leftarrow> ncat8 (ucast WAVE_ELEM_ID_LOAD) bp;
          (_, bp) \<leftarrow> asn_put_encoded_len bp (uint (chan_load_len w));
          (_, bp) \<leftarrow> asn_ncat bp (chan_load w) (8 * unat (chan_load_len w));
          Some bp
        }
        else Some bp
      })"

definition count_elements :: "wsmp_data \<Rightarrow> wsmp_data" where
  "count_elements w =
     (let q = of_bool (inc_rate_ext w) + of_bool (inc_chan_ext w) + of_bool (inc_pwr_ext w) + of_bool (inc_load_ext w) in
      w\<lparr>weid_qty := q, n_header := (if q \<noteq> 0 then n_header w OR 8 else n_header w)\<rparr>)"

text \<open>The result, the header's data, its buffer and the payload with the header in front.\<close>

definition encode_wsm2016 :: "wsmp_data \<Rightarrow> abuf \<Rightarrow> abuf \<Rightarrow> (int \<times> wsmp_data \<times> abuf \<times> abuf) option" where
  "encode_wsm2016 w abp wsm_payload = do {
     let w = count_elements w;
     abp \<leftarrow> ncat8 (ucast (n_header w)) abp;
     abp \<leftarrow> wsm_elements w abp;
     abp \<leftarrow> ncat8 (ucast (tpid w)) abp;
     let w = (if odd (unat (tpid w)) then w\<lparr>tpid := tpid w AND 0xfe\<rparr> else w);
     abp \<leftarrow> (if tpid w < TPID_ITS_PORTS_NOEXT then abuf_add_PSID abp (wsmp_psid w)
             else do { abp \<leftarrow> ncat8 (htons32 (ucast (src_port w))) abp; ncat8 (htons32 (ucast (dst_port w))) abp });
     if tpid w \<ge> TPID_ITS_PORTS_NOEXT \<and> tpid w > TPID_ITS_PORTS_EXT then Some (- 2, w, abp, wsm_payload)
     else do {
       let abp = abuf_trim abp;
       (_, wsm_payload) \<leftarrow> asn_push_len (abuf_trim wsm_payload);
       wsm_payload \<leftarrow> abuf_merge_second abp wsm_payload;
       Some (abuf_byte_len abp, w, abp, wsm_payload)
     }
   }"

text \<open>The buffer of the header is taken anew.\<close>

definition wsmp_encode :: "msg_contents \<Rightarrow> (int \<times> msg_contents) option" where
  "wsmp_encode mc = do {
     ab \<leftarrow> abuf_alloc 2000 20;
     (r, w, _, bp) \<leftarrow> encode_wsm2016 (wsmp mc) ab (mc_abuf mc);
     Some (r, mc\<lparr>wsmp := w, mc_abuf := bp\<rparr>)
   }"

section \<open>Reading the header\<close>

text \<open>The byte, or the two in network order, that \<open>abuf\_pull\<close> gives; a null pointer is not checked for.\<close>

definition pull8 :: "abuf \<Rightarrow> (u8 \<times> abuf) option" where
  "pull8 bp = (case abuf_pull bp 1 of (None, _) \<Rightarrow> None | (Some p, bp) \<Rightarrow> do { b \<leftarrow> rd (ab_block bp) p; Some (b, bp) })"

definition pull16 :: "abuf \<Rightarrow> (u16 \<times> abuf) option" where
  "pull16 bp = (case abuf_pull bp 2 of (None, _) \<Rightarrow> None | (Some p, bp) \<Rightarrow> do { w \<leftarrow> get16 (ab_block bp) p; Some (w, bp) })"

text \<open>The pointer to the channel load is kept as the bytes that are there at that time.\<close>

fun wave_elements :: "nat \<Rightarrow> abuf \<Rightarrow> wsmp_data \<Rightarrow> (abuf \<times> wsmp_data) option" where
  "wave_elements 0 bp w = Some (bp, w)"
| "wave_elements (Suc q) bp w = do {
     let e = ab_data bp;
     weid \<leftarrow> rd (ab_block bp) e;
     if weid = WAVE_ELEM_ID_RATE \<or> weid = WAVE_ELEM_ID_PWR \<or> weid = WAVE_ELEM_ID_CHAN then do {
       len \<leftarrow> rd (ab_block bp) (e + 1);
       v \<leftarrow> rd (ab_block bp) (e + 2);
       wave_elements q (snd (abuf_pull bp (2 + unat len)))
         (if weid = WAVE_ELEM_ID_RATE then w\<lparr>wsmp_rate := v\<rparr>
          else if weid = WAVE_ELEM_ID_PWR then w\<lparr>wsmp_pwr := v\<rparr> else w\<lparr>wsmp_chan := v\<rparr>)
     }
     else if weid = WAVE_ELEM_ID_LOAD then do {
       (n, cp, _) \<leftarrow> parse_asn_variable_length_enc (ab_block bp) (e + 1) 8;
       len \<leftarrow> rd (ab_block bp) (e + 1);
       wave_elements q (snd (abuf_pull (bp\<lparr>ab_data := cp\<rparr>) (2 + unat len)))
         (w\<lparr>chan_load_len := of_int n, chan_load := drop (nat cp) (ab_block bp)\<rparr>)
     }
     else if weid = WAVE_ELEM_ID_DATA \<or> weid = WAVE_ELEM_SAFETY_FLAG then Some (bp, w)
     else do {
       (_, cp, _) \<leftarrow> parse_asn_variable_length_enc (ab_block bp) (e + 1) 8;
       wave_elements q (snd (abuf_pull (bp\<lparr>ab_data := cp\<rparr>) (unat (chan_load_len w)))) w
     }
   }"

text \<open>It always returns 0.\<close>

definition wsmp_decode_wave_element_extension :: "abuf \<Rightarrow> wsmp_data \<Rightarrow> nat \<Rightarrow> (abuf \<times> wsmp_data) option" where
  "wsmp_decode_wave_element_extension bp w qty_WEIDs_expected =
     (if qty_WEIDs_expected = 0 then do {
        (n, cp, _) \<leftarrow> parse_asn_variable_length_enc (ab_block bp) (ab_data bp) 8;
        wave_elements (nat n) (bp\<lparr>ab_data := cp\<rparr>) w
      }
      else wave_elements qty_WEIDs_expected bp w)"

text \<open>The identifier and the buffer behind it.\<close>

definition pull_psid :: "abuf \<Rightarrow> (u32 \<times> abuf) option" where
  "pull_psid bp = do {
     psid \<leftarrow> wsmp_decode_psid (ab_block bp) (ab_data bp);
     b \<leftarrow> rd (ab_block bp) (ab_data bp);
     Some (psid, snd (abuf_pull bp (WSMP_PSID_FIELD_SIZE b)))
   }"

definition wsmp_decode_legacy :: "msg_contents \<Rightarrow> (int \<times> msg_contents) option" where
  "wsmp_decode_legacy mc = do {
     (psid, bp) \<leftarrow> pull_psid (mc_abuf mc);
     (bp, w) \<leftarrow> wsmp_decode_wave_element_extension bp ((wsmp mc)\<lparr>wsmp_psid := psid\<rparr>) 4;
     let mc = mc\<lparr>mc_abuf := bp, wsmp := w\<rparr>;
     next_weid \<leftarrow> rd (ab_block bp) (ab_data bp);
     if next_weid = WAVE_ELEM_ID_DATA \<or> next_weid = WAVE_ELEM_SAFETY_FLAG then do {
       len \<leftarrow> get16 (ab_block bp) (ab_data bp + 1);
       let bp = snd (abuf_pull bp 3);
       let bp = (if next_weid = WAVE_ELEM_SAFETY_FLAG then snd (abuf_pull bp 1) else bp);
       Some (0, mc\<lparr>mc_abuf := bp, payload_len := uint len\<rparr>)
     }
     else Some (- 1, mc)
   }"

text \<open>From the transport identifier on.\<close>

definition wsmp_decode_t_header :: "bool \<Rightarrow> msg_contents \<Rightarrow> (int \<times> msg_contents) option" where
  "wsmp_decode_t_header savari_workaround mc = do {
     next_weid \<leftarrow> rd (ab_block (mc_abuf mc)) (ab_data (mc_abuf mc));
     (t, bp) \<leftarrow> pull8 (mc_abuf mc);
     let w = (wsmp mc)\<lparr>tpid := t\<rparr>;
     let mc = mc\<lparr>mc_abuf := bp, wsmp := w\<rparr>;
     if t > TPID_LPP_EXT then Some (- 1, mc)
     else do {
       (bp, w) \<leftarrow> (if t \<ge> TPID_ITS_PORTS_NOEXT then do {
           (sp, bp) \<leftarrow> pull16 bp;
           (dp, bp) \<leftarrow> pull16 bp;
           Some (bp, w\<lparr>src_port := sp, dst_port := dp\<rparr>)
         }
         else do { (psid, bp) \<leftarrow> pull_psid bp; Some (bp, w\<lparr>wsmp_psid := psid\<rparr>) });
       (len, cp) \<leftarrow> (if savari_workaround
         then do { (n, cp, _) \<leftarrow> get_next_n_bits (ab_block bp) (ab_data bp) 8 8; Some (sint n, cp) }
         else do { (n, cp, _) \<leftarrow> parse_asn_variable_length_enc (ab_block bp) (ab_data bp) 8; Some (n, cp) });
       let bp = bp\<lparr>ab_data := cp\<rparr>;
       (bp, w) \<leftarrow> (if odd (unat t) then wsmp_decode_wave_element_extension bp w 0 else Some (bp, w));
       let bp = (if next_weid = WAVE_ELEM_SAFETY_FLAG then snd (abuf_pull bp 1) else bp);
       Some (0, mc\<lparr>mc_abuf := bp, wsmp := w, payload_len := len\<rparr>)
     }
   }"

definition wsmp_decode_header :: "bool \<Rightarrow> msg_contents \<Rightarrow> (int \<times> msg_contents) option" where
  "wsmp_decode_header savari_workaround mc = do {
     (ver_octet, bp) \<leftarrow> pull8 (mc_abuf mc);
     let ver = ver_octet AND 7;
     let w = (wsmp mc)\<lparr>wsmp_version := ucast ver\<rparr>;
     if ver = 1 \<or> ver = 2 then wsmp_decode_legacy (mc\<lparr>mc_abuf := bp, wsmp := w\<rparr>)
     else if ver = 3 then do {
       let w = w\<lparr>n_header := ver_octet\<rparr>;
       if drop_bit 4 ver_octet \<noteq> 0 then Some (- 1, mc\<lparr>mc_abuf := bp, wsmp := w\<rparr>)
       else do {
         (bp, w) \<leftarrow> (if bit ver_octet 3 then wsmp_decode_wave_element_extension bp w 0 else Some (bp, w));
         wsmp_decode_t_header savari_workaround (mc\<lparr>mc_abuf := bp, wsmp := w\<rparr>)
       }
     }
     else Some (- 1, mc\<lparr>mc_abuf := bp, wsmp := w\<rparr>)
   }"

definition wsmp_decode :: "bool \<Rightarrow> msg_contents \<Rightarrow> (int \<times> msg_contents) option" where
  "wsmp_decode savari_workaround mc = do {
     (r, mc) \<leftarrow> wsmp_decode_header savari_workaround mc;
     if r < 0 then Some (- 3, mc)
     else Some (0, mc\<lparr>l3_payload := ab_data (mc_abuf mc), l3_payload_len := payload_len mc\<rparr>)
   }"

section \<open>The transport header\<close>

definition btp_encode :: "msg_contents \<Rightarrow> (int \<times> msg_contents) option" where
  "btp_encode mc =
     (let bp = mc_abuf mc; h = btp mc in
      if 0 \<le> ab_data bp \<and> ab_data bp < 4 then Some (- 1, mc)
      else case abuf_push bp 4 of
        (None, _) \<Rightarrow> None
      | (Some p, bp) \<Rightarrow> do {
          bp \<leftarrow> wr_all p (rev (le16 (d_port h)) @ rev (le16 (if btp_type_A h then s_port h else dp_info h))) bp;
          Some (0, mc\<lparr>mc_abuf := bp\<rparr>)
        })"

definition btp_decode :: "msg_contents \<Rightarrow> (int \<times> msg_contents) option" where
  "btp_decode mc =
     (case abuf_pull (mc_abuf mc) 4 of
        (None, _) \<Rightarrow> None
      | (Some p, bp) \<Rightarrow> do {
          x \<leftarrow> get16 (ab_block bp) p;
          y \<leftarrow> get16 (ab_block bp) (p + 2);
          let h = (btp mc)\<lparr>d_port := x\<rparr>;
          Some (0, mc\<lparr>mc_abuf := bp, btp := (if btp_type_A h then h\<lparr>s_port := y\<rparr> else h\<lparr>dp_info := y\<rparr>)\<rparr>)
        })"

section \<open>All layers\<close>

definition decode_msg ::
  "(u8 list \<Rightarrow> int \<Rightarrow> int \<Rightarrow> bsm \<Rightarrow> (int \<times> bsm) option) \<Rightarrow> (msg_contents \<Rightarrow> (int \<times> msg_contents) option) \<Rightarrow>
     bool \<Rightarrow> u64 \<Rightarrow> msg_contents \<Rightarrow> (int \<times> msg_contents) option" where
  "decode_msg partII decode_as_etsi savari_workaround now mc =
     (if sae_stack mc then do {
        (r, mc) \<leftarrow> wsmp_decode savari_workaround mc;
        if r < 0 then Some (r, mc)
        else do {
          (r, mc) \<leftarrow> ieee1609_2_decode_unsecured mc;
          if r < 0 then Some (r, mc)
          else if sec_content (ieee1609_2 mc) \<noteq> unsecuredData then Some (1, mc)
          else do { (_, mc) \<leftarrow> decode_as_j2735 partII now mc; Some (0, mc) }
        }
      }
      else do {
        (r, mc) \<leftarrow> btp_decode mc;
        if r < 0 then Some (r, mc) else decode_as_etsi mc
      })"

definition decode_msg_continue ::
  "(u8 list \<Rightarrow> int \<Rightarrow> int \<Rightarrow> bsm \<Rightarrow> (int \<times> bsm) option) \<Rightarrow> u64 \<Rightarrow> msg_contents \<Rightarrow> (int \<times> msg_contents) option" where
  "decode_msg_continue partII now mc =
     (if sae_stack mc then do { (_, mc) \<leftarrow> decode_as_j2735 partII now mc; Some (0, mc) } else Some (0, mc))"

definition encode_msg ::
  "(bsm \<Rightarrow> abuf \<Rightarrow> abuf option) \<Rightarrow> (msg_contents \<Rightarrow> (int \<times> msg_contents) option) \<Rightarrow> msg_contents \<Rightarrow>
     (int \<times> msg_contents) option" where
  "encode_msg partII encode_as_etsi mc =
     (if sae_stack mc then do {
        (r, mc) \<leftarrow> encode_as_j2735 partII (mc\<lparr>j2735_msg_id := J2735_MSGID_BASIC_SAFETY\<rparr>);
        if r < 0 then Some (r, mc)
        else do {
          (r, mc) \<leftarrow> ieee1609_2_encode_unsecured mc;
          if r < 0 \<or> r = 1 then Some (r, mc)
          else do {
            (r, mc) \<leftarrow> wsmp_encode mc;
            if r < 0 then Some (r, mc) else Some (abuf_byte_len (mc_abuf mc), mc)
          }
        }
      }
      else do {
        (r, mc) \<leftarrow> encode_as_etsi mc;
        if r < 0 then Some (r, mc)
        else do {
          (r, mc) \<leftarrow> btp_encode mc;
          if r < 0 then Some (r, mc) else Some (abuf_byte_len (mc_abuf mc), mc)
        }
      })"

definition encode_msg_continue :: "msg_contents \<Rightarrow> (int \<times> msg_contents) option" where
  "encode_msg_continue mc =
     (if sae_stack mc then do {
        (r, mc) \<leftarrow> wsmp_encode mc;
        if r < 0 then Some (r, mc) else Some (abuf_byte_len (mc_abuf mc), mc)
      }
      else Some (abuf_byte_len (mc_abuf mc), mc))"

end
