(* ===== verification/V2xEncode.thy ===== *)
theory V2xEncode
  imports V2xLengths V2xWsm
begin

text \<open>
  What the layers of the V2X codec put into the buffer: each leaves a buffer that is ready for more and
  holds the bits it held before with those of the layer in front of them or behind them.
\<close>

section \<open>Whole bytes\<close>

lemma rev_le_bytes_Suc: "rev (le_bytes (Suc n) w) = ucast (drop_bit (8 * n) w) # rev (le_bytes n w)"
  by (simp add: le_bytes_def)

lemma wr_all_ok:
  "0 \<le> p \<Longrightarrow> nat p + n \<le> length (ab_block bp) \<Longrightarrow>
     \<exists>blk. wr_all p (rev (le_bytes n w)) bp = Some (bp\<lparr>ab_block := blk\<rparr>) \<and> written (ab_block bp) (8 * nat p) (8 * n) w blk"
proof (induction n arbitrary: p bp)
  case 0
  show ?case by (simp add: le_bytes_def) (rule exI [of _ "ab_block bp"], simp add: written_0)
next
  case (Suc n)
  let ?t = "nat p" and ?b = "ab_block bp"
  define blk1 where "blk1 = ?b[?t := low8 (drop_bit (8 * n) w)]"
  have t: "?t < length ?b" using Suc.prems by simp
  have w1: "written ?b (8 * ?t) 8 (drop_bit (8 * n) w) blk1"
  proof -
    have "low8 (drop_bit 0 (x AND push_bit 0 0xff)) = low8 x" for x :: u32
      unfolding mask_8 by (rule bit_word_eqI) (simp add: bit_simps)
    then show ?thesis using written_full [OF t, where k = 0 and d = "drop_bit (8 * n) w"] by (simp add: blk1_def)
  qed
  have 1: "wr p (low8 (drop_bit (8 * n) w)) bp = Some (bp\<lparr>ab_block := blk1\<rparr>)" using t Suc.prems by (simp add: wr_def blk1_def)
  have "nat (p + 1) + n \<le> length (ab_block (bp\<lparr>ab_block := blk1\<rparr>))" using Suc.prems by (simp add: blk1_def nat_add_distrib)
  then obtain blk where 2: "wr_all (p + 1) (rev (le_bytes n w)) (bp\<lparr>ab_block := blk1\<rparr>) = Some (bp\<lparr>ab_block := blk\<rparr>)"
    "written blk1 (8 * nat (p + 1)) (8 * n) w blk"
    using Suc.IH [of "p + 1" "bp\<lparr>ab_block := blk1\<rparr>"] Suc.prems by auto
  have "8 * nat (p + 1) = 8 * ?t + 8" using Suc.prems by (simp add: nat_add_distrib)
  then have "written ?b (8 * ?t) (8 + 8 * n) w blk" using written_trans [OF w1, of blk] 2(2) by simp
  with 1 2(1) show ?case by (auto simp: rev_le_bytes_Suc)
qed

lemma put_bytes_ok:
  assumes ok: "buf_ok bp" and left: "tail_bits_left bp = 8" and room: "8 * n \<le> tail_room bp"
  shows "\<exists>bp'. abuf_put bp (int n) = (Some (ab_tail bp), bp\<lparr>ab_tail := ab_tail bp + int n\<rparr>) \<and>
    wr_all (ab_tail bp) (rev (le_bytes n w)) (bp\<lparr>ab_tail := ab_tail bp + int n\<rparr>) = Some bp' \<and>
    buf_ok bp' \<and> buf_bits bp' = buf_bits bp @ nbits (8 * n) w \<and> same_head bp bp' \<and> tail_bits_left bp' = 8 \<and>
    ab_tail bp' = ab_tail bp + int n \<and> tail_room bp' = tail_room bp - 8 * n"
proof -
  let ?t = "ab_tail bp" and ?b = "ab_block bp"
  have t: "0 \<le> ?t" "tail_pos bp = 8 * nat ?t" using ok left by (simp_all add: buf_ok_def tail_ok_def tail_pos_def)
  have r: "nat ?t + n \<le> length ?b" using room t(2) ok unfolding tail_room_def buf_ok_def by linarith
  obtain blk where w: "wr_all ?t (rev (le_bytes n w)) (bp\<lparr>ab_tail := ?t + int n\<rparr>) = Some (bp\<lparr>ab_tail := ?t + int n, ab_block := blk\<rparr>)"
    "written ?b (8 * nat ?t) (8 * n) w blk"
    using wr_all_ok [OF t(1), of n "bp\<lparr>ab_tail := ?t + int n\<rparr>" w] r by auto
  define bp' where "bp' = bp\<lparr>ab_block := blk, ab_tail := ?t + int n, tail_bits_left := 8\<rparr>"
  have e: "bp\<lparr>ab_tail := ?t + int n, ab_block := blk\<rparr> = bp'" using left by (simp add: bp'_def)
  have p: "tail_pos bp' = tail_pos bp + 8 * n" using t left by (simp add: bp'_def tail_pos_def nat_add_distrib)
  have l: "length blk = length ?b" by (rule written_length [OF w(2)])
  have "\<not> abit blk j" if "tail_pos bp + 8 * n \<le> j" "j < 8 * length blk" for j
    by (rule written_clean [OF w(2) _ that [unfolded t(2)]]) (use ok t(2) in \<open>simp add: buf_ok_def tail_ok_def\<close>)
  then have "tail_ok bp'" using t(1) p by (simp add: tail_ok_def) (simp add: bp'_def)
  then have 1: "buf_ok bp'" "buf_bits bp' = buf_bits bp @ nbits (8 * n) w"
    using buf_append_step [OF ok _ w(2) [folded t(2)], where t = "?t + int n" and tb = 8] p r t(2) unfolding bp'_def by simp_all
  have "abuf_put bp (int n) = (Some ?t, bp\<lparr>ab_tail := ?t + int n\<rparr>)" using r t(1) by (simp add: abuf_put_def)
  moreover have "tail_room bp' = tail_room bp - 8 * n" using p l by (simp add: tail_room_def) (simp add: bp'_def)
  ultimately show ?thesis using 1 w(1) l unfolding e by (intro exI [of _ bp']) (simp add: bp'_def same_head_def)
qed

lemma put32_ok:
  assumes "buf_ok bp" and "tail_bits_left bp = 8" and "32 \<le> tail_room bp"
  shows "\<exists>bp'. put32 w bp = Some bp' \<and> buf_ok bp' \<and> buf_bits bp' = buf_bits bp @ nbits 32 w \<and> same_head bp bp' \<and>
    tail_bits_left bp' = 8 \<and> ab_tail bp' = ab_tail bp + 4 \<and> tail_room bp' = tail_room bp - 32"
  using put_bytes_ok [OF assms(1,2), of 4 w] assms(3) by (auto simp: put32_def)

lemma put8_ok:
  assumes "buf_ok bp" and "tail_bits_left bp = 8" and "8 \<le> tail_room bp"
  shows "\<exists>bp'. put8 (ucast w) bp = Some bp' \<and> buf_ok bp' \<and> buf_bits bp' = buf_bits bp @ nbits 8 w \<and> same_head bp bp' \<and>
    tail_bits_left bp' = 8 \<and> ab_tail bp' = ab_tail bp + 1 \<and> tail_room bp' = tail_room bp - 8"
  using put_bytes_ok [OF assms(1,2), of 1 w] assms(3) by (auto simp: put8_def le_bytes_def split: bind_splits)

lemma put_words_ok:
  "buf_ok bp \<Longrightarrow> tail_bits_left bp = 8 \<Longrightarrow> 32 * length ws \<le> tail_room bp \<Longrightarrow>
     \<exists>bp'. put_words ws bp = Some bp' \<and> buf_ok bp' \<and> buf_bits bp' = buf_bits bp @ concat (map (nbits 32) ws) \<and> same_head bp bp' \<and>
       tail_bits_left bp' = 8 \<and> ab_tail bp' = ab_tail bp + 4 * int (length ws) \<and> tail_room bp' = tail_room bp - 32 * length ws"
proof (induction ws arbitrary: bp)
  case Nil
  then show ?case by (simp add: same_head_def)
next
  case (Cons w ws)
  obtain b where b: "put32 w bp = Some b" "buf_ok b" "buf_bits b = buf_bits bp @ nbits 32 w" "same_head bp b"
    "tail_bits_left b = 8" "ab_tail b = ab_tail bp + 4" "tail_room b = tail_room bp - 32"
    using put32_ok [OF Cons.prems(1,2)] Cons.prems(3) by auto
  have r: "32 * length ws \<le> tail_room b" using Cons.prems(3) b(7) by (simp add: le_diff_conv2)
  obtain b' where b': "put_words ws b = Some b'" "buf_ok b'" "buf_bits b' = buf_bits b @ concat (map (nbits 32) ws)" "same_head b b'"
    "tail_bits_left b' = 8" "ab_tail b' = ab_tail b + 4 * int (length ws)" "tail_room b' = tail_room b - 32 * length ws"
    using Cons.IH [OF b(2,5) r] by blast
  have "same_head bp b'" by (rule same_head_trans [OF b(4) b'(4)])
  with b b' show ?case by auto
qed

text \<open>The tail set back into its last byte, where the bits given up are zero.\<close>

lemma untail_ok:
  assumes ok: "buf_ok bp" and left: "tail_bits_left bp = 8" and bits: "buf_bits bp = xs @ ys"
    and k: "length ys = k" "0 < k" "k < 8" and zero: "True \<notin> set ys"
  defines "bp' \<equiv> bp\<lparr>ab_tail := ab_tail bp - 1, tail_bits_left := k\<rparr>"
  shows "buf_ok bp'" and "buf_bits bp' = xs" and "same_head bp bp'"
proof -
  have o: "head_pos bp \<le> tail_pos bp" "tail_pos bp \<le> 8 * length (ab_block bp)" "0 \<le> ab_tail bp"
    and clean: "\<And>j. tail_pos bp \<le> j \<Longrightarrow> j < 8 * length (ab_block bp) \<Longrightarrow> \<not> abit (ab_block bp) j"
    using ok by (simp_all add: buf_ok_def tail_ok_def)
  have len: "length (buf_bits bp) = tail_pos bp - head_pos bp" by (simp add: buf_bits_def)
  then have kk: "length xs + k = tail_pos bp - head_pos bp" using bits k by simp
  then have pos: "0 < ab_tail bp" using left k by (simp add: tail_pos_def)
  have p: "tail_pos bp' + k = tail_pos bp" using pos left k by (simp add: bp'_def tail_pos_def nat_diff_distrib)
  then have p': "tail_pos bp' = head_pos bp + length xs" "head_pos bp \<le> tail_pos bp'" using kk k by linarith+
  have split: "span (ab_block bp) (head_pos bp) (tail_pos bp) =
      span (ab_block bp) (head_pos bp) (tail_pos bp') @ span (ab_block bp) (tail_pos bp') (tail_pos bp)"
    by (rule span_append) (use p p' in simp_all)
  then have v: "span (ab_block bp) (head_pos bp) (tail_pos bp') = xs" "span (ab_block bp) (tail_pos bp') (tail_pos bp) = ys"
    using bits p p' by (simp_all add: buf_bits_def)
  have "\<not> abit (ab_block bp) j" if j: "tail_pos bp' \<le> j" "j < 8 * length (ab_block bp)" for j
  proof (cases "j < tail_pos bp")
    case True
    then have "abit (ab_block bp) j \<in> set (span (ab_block bp) (tail_pos bp') (tail_pos bp))" using j by (simp add: span_def)
    then show ?thesis using zero v(2) by auto
  qed (use clean j in auto)
  then have "tail_ok bp'" using k pos by (simp add: tail_ok_def) (simp add: bp'_def)
  moreover have "head_ok bp'" "head_pos bp' = head_pos bp" using ok by (simp_all add: bp'_def head_ok_def head_pos_def buf_ok_def)
  ultimately show "buf_ok bp'" using p p' o by (simp add: buf_ok_def) (simp add: bp'_def)
  show "buf_bits bp' = xs" using v(1) \<open>head_pos bp' = head_pos bp\<close> by (simp add: buf_bits_def) (simp add: bp'_def)
  show "same_head bp bp'" by (simp add: bp'_def same_head_def)
qed

end
