(* ===== verification/V2xLayers.thy ===== *)
theory V2xLayers
  imports V2xEncode
begin

text \<open>
  A safety message through all layers of the V2X codec, on the way out: the bits that each layer leaves
  in the buffer. The service identifier, the copy of one buffer in front of another, the core of the
  message, and the headers.
\<close>

section \<open>Lengths in front\<close>

lemma buf_bits_len: "buf_ok bp \<Longrightarrow> abuf_bits_len bp = int (length (buf_bits bp))"
  by (auto simp: buf_ok_def head_ok_def tail_ok_def abuf_bits_len_def buf_bits_def head_pos_def tail_pos_def of_nat_diff)

definition bytes_of_bits :: "nat \<Rightarrow> int" where
  "bytes_of_bits n = int ((n + 7) div 8)"

lemma bits_to_bytes_nat: "bits_to_bytes (int n) = bytes_of_bits n"
proof -
  have "(n + 7) div 8 = n div 8 + (if n mod 8 \<noteq> 0 then 1 else 0)" by presburger
  moreover have "int n mod 8 \<noteq> 0 \<longleftrightarrow> n mod 8 \<noteq> 0" by presburger
  ultimately show ?thesis by (simp add: bits_to_bytes_def bytes_of_bits_def zdiv_int)
qed

text \<open>A payload shorter than 128 bytes gets one byte, in both encodings.\<close>

lemma push_len_ok:
  assumes ok: "buf_ok bp" and room: "8 \<le> head_pos bp" and len: "0 < length (buf_bits bp)" "length (buf_bits bp) \<le> 1016"
  shows "\<exists>bp'. asn_push_len bp = Some (8, bp') \<and> asn_push_ieee1609_2_len bp = Some (8, bp') \<and> buf_ok bp' \<and>
    buf_bits bp' = nbits 8 (of_int (bytes_of_bits (length (buf_bits bp)))) @ buf_bits bp \<and> same_tail bp bp' \<and>
    head_pos bp' = head_pos bp - 8"
proof -
  have "0 < bytes_of_bits (length (buf_bits bp))" "bytes_of_bits (length (buf_bits bp)) < 128"
    using len(2) div_le_mono [of 8 "length (buf_bits bp) + 7" 8] len(1) unfolding bytes_of_bits_def by simp_all
  from push_short_ok [OF ok room this] show ?thesis
    by (simp add: asn_push_len_def asn_push_ieee1609_2_len_def buf_bits_len [OF ok] bits_to_bytes_nat)
qed

section \<open>One buffer in front of another\<close>

definition byte_bits :: "u8 list \<Rightarrow> bool list" where
  "byte_bits bs = concat (map (\<lambda>b. nbits 8 (ucast b)) bs)"

lemma length_byte_bits [simp]: "length (byte_bits bs) = 8 * length bs"
  by (induction bs) (simp_all add: byte_bits_def)

lemma push_back_ok:
  "buf_ok bp \<Longrightarrow> 8 * length bs \<le> head_pos bp \<Longrightarrow>
     \<exists>bp'. push_back bs bp = Some bp' \<and> buf_ok bp' \<and> buf_bits bp' = byte_bits (rev bs) @ buf_bits bp \<and> same_tail bp bp' \<and>
       head_pos bp' = head_pos bp - 8 * length bs"
proof (induction bs arbitrary: bp)
  case Nil
  then show ?case by (simp add: byte_bits_def same_tail_refl)
next
  case (Cons b bs)
  obtain b1 where 1: "asn_push_bits bp (ucast b) 8 = Some (8, b1)" "buf_ok b1" "buf_bits b1 = nbits 8 (ucast b) @ buf_bits bp"
    "same_tail bp b1" "head_pos b1 = head_pos bp - 8"
    using buf_prepend_ok [OF Cons.prems(1), of 8 "ucast b"] Cons.prems(2) by auto
  have r: "8 * length bs \<le> head_pos b1" using Cons.prems(2) 1(5) by simp
  obtain b2 where 2: "push_back bs b1 = Some b2" "buf_ok b2" "buf_bits b2 = byte_bits (rev bs) @ buf_bits b1"
    "same_tail b1 b2" "head_pos b2 = head_pos b1 - 8 * length bs"
    using Cons.IH [OF 1(2) r] by blast
  have "same_tail bp b2" by (rule same_tail_trans [OF 1(4) 2(4)])
  with 1 2 show ?case by (auto simp: byte_bits_def)
qed

lemma span_bytes: "a \<le> b \<Longrightarrow> b \<le> length blk \<Longrightarrow> span blk (8 * a) (8 * b) = byte_bits (take (b - a) (drop a blk))"
proof (induction b)
  case 0
  then show ?case by (simp add: byte_bits_def)
next
  case (Suc b)
  show ?case
  proof (cases "a = Suc b")
    case False
    then have ab: "a \<le> b" "b < length blk" using Suc.prems by simp_all
    have "span blk (8 * b) (8 * Suc b) = nbits 8 (ucast (blk ! b))"
    proof (rule nth_equalityI)
      fix i assume i: "i < length (span blk (8 * b) (8 * Suc b))"
      then have "(8 * b + i) div 8 = b" "(8 * b + i) mod 8 = i" by auto
      with i show "span blk (8 * b) (8 * Suc b) ! i = nbits 8 (ucast (blk ! b)) ! i"
        by (auto simp: span_def nth_nbits abit_def bit_simps dest: bit_imp_le_length)
    qed simp
    moreover have "span blk (8 * a) (8 * Suc b) = span blk (8 * a) (8 * b) @ span blk (8 * b) (8 * Suc b)"
      by (rule span_append) (use ab in simp_all)
    moreover have "take (Suc b - a) (drop a blk) = take (b - a) (drop a blk) @ [blk ! b]"
      using ab by (simp add: Suc_diff_le take_Suc_conv_app_nth)
    ultimately show ?thesis using Suc.IH ab by (simp add: byte_bits_def del: mult_Suc_right)
  qed (simp add: byte_bits_def)
qed

text \<open>The first buffer holds whole bytes and is trimmed; its bits come in front.\<close>

lemma merge_ok:
  assumes f: "buf_ok f" "head_headspace_bits f = 0" "tail_bits_left f = 8"
    and c: "buf_ok c" "length (buf_bits f) \<le> head_pos c"
  shows "\<exists>c'. abuf_merge_second (abuf_trim f) c = Some c' \<and> buf_ok c' \<and> buf_bits c' = buf_bits f @ buf_bits c \<and> same_tail c c' \<and>
    head_pos c' = head_pos c - length (buf_bits f)"
proof -
  define a b where "a = nat (ab_data f)" and "b = nat (ab_tail f)"
  have d: "0 \<le> ab_data f" "0 \<le> ab_tail f" "head_pos f = 8 * a" "tail_pos f = 8 * b" "a \<le> b" "b \<le> length (ab_block f)"
    using f by (auto simp: buf_ok_def head_ok_def tail_ok_def head_pos_def tail_pos_def a_def b_def)
  have t: "abuf_trim f = f\<lparr>ab_tail := ab_tail f - 1, tail_bits_left := 0\<rparr>" using f by (simp add: abuf_trim_def Let_def)
  have bits: "buf_bits f = byte_bits (take (b - a) (drop a (ab_block f)))"
    unfolding buf_bits_def d(3,4) by (rule span_bytes [OF d(5,6)])
  show ?thesis
  proof (cases "a = b")
    case True
    then have "ab_tail f - 1 < ab_data f" using d(1,2) by (simp add: a_def b_def)
    then show ?thesis using True c(1) bits unfolding t by (simp add: abuf_merge_second_def byte_bits_def same_tail_refl)
  next
    case False
    have e: "\<not> ab_tail f - 1 < ab_data f" "0 \<le> ab_data f" "ab_tail f - 1 < ab_size f"
      "nat (ab_tail f - 1 - ab_data f) + 1 = b - a"
      using False d unfolding a_def b_def by linarith+
    have l: "8 * length (rev (take (b - a) (drop a (ab_block f)))) \<le> head_pos c" using c(2) d unfolding bits by simp
    show ?thesis using push_back_ok [OF c(1) l] e d(6) unfolding t
      by (simp add: abuf_merge_second_def bits a_def [symmetric])
  qed
qed

section \<open>The service identifier\<close>

text \<open>How many bytes it takes, the first value of that size, and the prefix of its code.\<close>

definition psid_size :: "u32 \<Rightarrow> nat" where
  "psid_size p = nat (WSM_PSID_PCODED_LEN p)"

definition psid_low :: "u32 \<Rightarrow> u32" where
  "psid_low p = (if psid_size p = 4 then 0x204080 else if psid_size p = 3 then 0x4080 else if psid_size p = 2 then 0x80 else 0)"

definition psid_prefix :: "u32 \<Rightarrow> u32" where
  "psid_prefix p = (if psid_size p = 4 then push_bit 29 (mask 3) else if psid_size p = 3 then push_bit 22 (mask 2)
    else if psid_size p = 2 then 0x8000 else 0)"

definition psid_code :: "u32 \<Rightarrow> u32" where
  "psid_code p = psid_prefix p OR (p - psid_low p)"

definition psid_ok :: "u32 \<Rightarrow> bool" where
  "psid_ok p \<longleftrightarrow> p \<le> MAX_PSID"

lemma psid_sint: "psid_ok p \<Longrightarrow> sint p = uint p"
  unfolding sint_uint psid_ok_def word_le_def
  by (rule signed_take_bit_int_eq_self, rule order_trans [OF _ uint_ge_0]) simp_all

lemma sint_nonneg: "0 \<le> sint w \<Longrightarrow> sint w = uint (w :: u32)"
proof -
  assume s: "0 \<le> sint w"
  then have b: "\<not> bit w 31" by (simp add: sint_uint bit_uint_iff)
  then have "sint w = take_bit 31 (uint w)" by (simp add: sint_uint bit_uint_iff signed_take_bit_eq_if_positive)
  also have "\<dots> = uint w"
  proof (rule bit_eqI)
    fix i
    show "bit (take_bit 31 (uint w)) i = bit (uint w) i" using b by (cases "i = 31") (auto simp: bit_simps dest: bit_imp_le_length)
  qed
  finally show ?thesis .
qed

lemma psid_sizes:
  assumes "psid_ok p"
  obtains "psid_size p = 1" "uint p < 0x80" | "psid_size p = 2" "0x80 \<le> uint p" "uint p < 0x4080"
  | "psid_size p = 3" "0x4080 \<le> uint p" "uint p < 0x204080" | "psid_size p = 4" "0x204080 \<le> uint p" "uint p \<le> 0x1020407f"
proof -
  have "uint p \<le> 0x1020407f" using assms by (simp add: psid_ok_def word_le_def)
  then consider "uint p < 0x80" | "0x80 \<le> uint p" "uint p < 0x4080" | "0x4080 \<le> uint p" "uint p < 0x204080"
    | "0x204080 \<le> uint p" "uint p \<le> 0x1020407f" by linarith
  then show ?thesis using that by cases (simp_all add: psid_size_def WSM_PSID_PCODED_LEN_def psid_sint [OF assms])
qed

lemma psid_rest: "psid_ok p \<Longrightarrow> p - psid_low p < 2 ^ (7 * psid_size p)"
proof (erule psid_sizes)
  show ?thesis if "psid_size p = 1" "uint p < 0x80"
    using that by (simp add: psid_low_def word_less_def)
  show ?thesis if "psid_size p = 2" "0x80 \<le> uint p" "uint p < 0x4080"
    using that by (simp add: psid_low_def word_less_def uint_sub_if')
  show ?thesis if "psid_size p = 3" "0x4080 \<le> uint p" "uint p < 0x204080"
    using that by (simp add: psid_low_def word_less_def uint_sub_if')
  show ?thesis if "psid_size p = 4" "0x204080 \<le> uint p" "uint p \<le> 0x1020407f"
    using that by (simp add: psid_low_def word_less_def uint_sub_if')
qed

lemma less_bits: "w < 2 ^ k \<Longrightarrow> bit (w :: u32) i \<Longrightarrow> i < k"
  by (metis bit_take_bit_iff less_mask_eq take_bit_eq_mask)

lemma psid_prefix_bit: "bit (psid_prefix p) i \<longleftrightarrow> (psid_size p = 4 \<and> 29 \<le> i \<and> i < 32) \<or>
    (psid_size p = 3 \<and> 22 \<le> i \<and> i < 24) \<or> (psid_size p = 2 \<and> i = 15)"
  by (auto simp: psid_prefix_def bit_push_bit_iff bit_mask_iff bit_numerals simp del: bit_numeral_word_iff)

lemma psid_prefix_above: "psid_ok p \<Longrightarrow> bit (psid_prefix p) i \<Longrightarrow> \<not> i < 7 * psid_size p"
  by (auto simp: psid_prefix_bit)

lemma psid_code_bits: "psid_ok p \<Longrightarrow> bit (psid_code p) i \<longleftrightarrow>
   (if i < 7 * psid_size p then bit (p - psid_low p) i else bit (psid_prefix p) i)"
proof -
  assume ok: "psid_ok p"
  note psid_prefix_above [OF ok, of i]
  then show ?thesis using less_bits [OF psid_rest [OF ok], of i] by (auto simp: psid_code_def bit_or_iff)
qed

lemma psid_code_add: "psid_ok p \<Longrightarrow> psid_code p = psid_prefix p + (p - psid_low p)"
proof -
  assume ok: "psid_ok p"
  have "psid_prefix p + (p - psid_low p) = psid_prefix p OR (p - psid_low p)"
    using less_bits [OF psid_rest [OF ok]] psid_prefix_above [OF ok] by (intro disjunctive_add) blast
  then show ?thesis by (simp add: psid_code_def)
qed

lemma psid_prefix_value: "psid_ok p \<Longrightarrow>
    psid_code p = p + (if psid_size p = 4 then 0xdfdfbf80 else if psid_size p = 3 then 0xbfbf80
      else if psid_size p = 2 then 0x7f80 else 0)"
  by (simp add: psid_code_add) (auto simp: psid_prefix_def psid_low_def mask_eq_exp_minus_1)

text \<open>The identifier appended.\<close>

lemma add_PSID_ok:
  assumes ok: "buf_ok bp" and left: "tail_bits_left bp = 8" and room: "32 \<le> tail_room bp" and p: "psid_ok p"
  shows "\<exists>bp'. abuf_add_PSID bp p = Some bp' \<and> buf_ok bp' \<and> buf_bits bp' = buf_bits bp @ nbits (8 * psid_size p) (psid_code p) \<and>
    same_head bp bp' \<and> tail_bits_left bp' = 8 \<and> ab_tail bp' = ab_tail bp + int (psid_size p)"
proof -
  have n: "8 * psid_size p \<le> tail_room bp" "WSM_PSID_PCODED_LEN p = int (psid_size p)"
    using room by (rule_tac psid_sizes [OF p]; simp add: psid_size_def)+
  obtain bp' where 1: "abuf_put bp (int (psid_size p)) = (Some (ab_tail bp), bp\<lparr>ab_tail := ab_tail bp + int (psid_size p)\<rparr>)"
    "wr_all (ab_tail bp) (rev (le_bytes (psid_size p) (psid_code p))) (bp\<lparr>ab_tail := ab_tail bp + int (psid_size p)\<rparr>) = Some bp'"
    "buf_ok bp'" "buf_bits bp' = buf_bits bp @ nbits (8 * psid_size p) (psid_code p)" "same_head bp bp'" "tail_bits_left bp' = 8"
    "ab_tail bp' = ab_tail bp + int (psid_size p)"
    using put_bytes_ok [OF ok left n(1)] by blast
  have "wsmp_add_psid (ab_tail bp) p b = wr_all (ab_tail bp) (rev (le_bytes (psid_size p) (psid_code p))) b" for b
    using psid_sint [OF p]
    by (rule_tac psid_sizes [OF p])
      (simp_all add: wsmp_add_psid_def psid_prefix_value [OF p] le_bytes_def split: bind_splits)
  with 1 show ?thesis by (simp add: abuf_add_PSID_def n(2))
qed

section \<open>The layers\<close>

lemma ncat8_ok:
  assumes ok: "buf_ok bp" and left: "tail_bits_left bp = 8" and room: "8 \<le> tail_room bp"
  shows "\<exists>bp'. ncat8 v bp = Some bp' \<and> buf_ok bp' \<and> buf_bits bp' = buf_bits bp @ nbits 8 v \<and> same_head bp bp' \<and>
    tail_bits_left bp' = 8 \<and> tail_room bp' = tail_room bp - 8"
proof -
  obtain bp' where 1: "asn_ncat_bits bp v 8 = Some (0, bp')" "buf_ok bp'" "buf_bits bp' = buf_bits bp @ nbits 8 v"
    "same_head bp bp'" "tail_pos bp' = tail_pos bp + 8"
    using buf_append_ok [OF ok _ _ room, of v] by auto
  have "8 * t + (8 - l) = 8 * t' + 8 \<Longrightarrow> 1 \<le> l \<Longrightarrow> l \<le> 8 \<Longrightarrow> l = 8" for t t' l :: nat by presburger
  then have "tail_bits_left bp' = 8" using 1(2,5) left by (simp add: tail_pos_def buf_ok_def tail_ok_def)
  with 1 show ?thesis by (auto simp: ncat8_def tail_room_def dest: same_head_simps)
qed

text \<open>The WSMP header without elements, for a payload that ends inside a byte.\<close>

definition plain_wsm :: "wsmp_data \<Rightarrow> bool" where
  "plain_wsm w \<longleftrightarrow> \<not> inc_rate_ext w \<and> \<not> inc_chan_ext w \<and> \<not> inc_pwr_ext w \<and> \<not> inc_load_ext w \<and> tpid w = 0 \<and>
     n_header w = 3 \<and> psid_ok (wsmp_psid w)"

definition wsm_bits :: "wsmp_data \<Rightarrow> bool list" where
  "wsm_bits w = nbits 8 3 @ nbits 8 0 @ nbits (8 * psid_size (wsmp_psid w)) (psid_code (wsmp_psid w))"

lemma psid_size_le: "psid_ok p \<Longrightarrow> 1 \<le> psid_size p \<and> psid_size p \<le> 4"
  by (erule psid_sizes) simp_all

lemma encode_wsm_ok:
  assumes w: "plain_wsm w" and c: "buf_ok c" "tail_bits_left c \<noteq> 8"
    and len: "0 < length (buf_bits c)" "length (buf_bits c) \<le> 1016" and room: "56 \<le> head_pos c"
  shows "\<exists>r w' f c'. encode_wsm2016 w (the (abuf_alloc 2000 20)) c = Some (r, w', f, c') \<and> 0 \<le> r \<and> buf_ok c' \<and>
    buf_bits c' = wsm_bits w @ nbits 8 (of_int (bytes_of_bits (length (buf_bits c)))) @ buf_bits c \<and> same_tail c c' \<and>
    head_pos c' = head_pos c - 8 - length (wsm_bits w)"
proof -
  let ?a = "the (abuf_alloc 2000 20)" and ?p = "wsmp_psid w"
  have p: "psid_ok ?p" and none: "count_elements w = w\<lparr>weid_qty := 0\<rparr>" "wsm_elements (w\<lparr>weid_qty := 0\<rparr>) = Some"
    using w by (auto simp: plain_wsm_def count_elements_def wsm_elements_def)
  have a: "buf_ok ?a" "tail_bits_left ?a = 8" "tail_room ?a = 15840" "buf_bits ?a = []" "head_headspace_bits ?a = 0"
    using buf_ok_alloc [of 2000 20 ?a] by (simp_all add: abuf_alloc_def)
  obtain b1 where b1: "ncat8 3 ?a = Some b1" "buf_ok b1" "buf_bits b1 = nbits 8 3" "same_head ?a b1" "tail_bits_left b1 = 8"
    "tail_room b1 = 15832"
    using ncat8_ok [OF a(1,2), of 3] a by auto
  obtain b2 where b2: "ncat8 0 b1 = Some b2" "buf_ok b2" "buf_bits b2 = nbits 8 3 @ nbits 8 0" "same_head b1 b2" "tail_bits_left b2 = 8"
    "tail_room b2 = 15824"
    using ncat8_ok [OF b1(2,5), of 0] b1 by auto
  obtain b3 where b3: "abuf_add_PSID b2 ?p = Some b3" "buf_ok b3" "buf_bits b3 = wsm_bits w" "same_head b2 b3" "tail_bits_left b3 = 8"
    using add_PSID_ok [OF b2(2,5) _ p] b2(3,6) by (auto simp: wsm_bits_def)
  have hs: "head_headspace_bits b3 = 0" using a(5) b1(4) b2(4) b3(4) by (simp add: same_head_def)
  have trim: "abuf_trim c = c" using c by (auto simp: abuf_trim_def buf_ok_def head_ok_def)
  obtain c1 where c1: "asn_push_len c = Some (8, c1)" "buf_ok c1"
    "buf_bits c1 = nbits 8 (of_int (bytes_of_bits (length (buf_bits c)))) @ buf_bits c" "same_tail c c1" "head_pos c1 = head_pos c - 8"
    using push_len_ok [OF c(1) _ len] room by auto
  have l3: "length (buf_bits b3) \<le> head_pos c1" using c1(5) room psid_size_le [OF p] unfolding b3(3) wsm_bits_def length_append length_nbits by linarith
  obtain c2 where c2: "abuf_merge_second (abuf_trim b3) c1 = Some c2" "buf_ok c2" "buf_bits c2 = buf_bits b3 @ buf_bits c1"
    "same_tail c1 c2" "head_pos c2 = head_pos c1 - length (buf_bits b3)"
    using merge_ok [OF b3(2) hs b3(5) c1(2) l3] by blast
  have pos: "0 \<le> abuf_byte_len (abuf_trim b3)"
  proof -
    have "head_pos b3 \<le> tail_pos b3" "0 \<le> ab_data b3" "0 \<le> ab_tail b3" using b3(2) by (simp_all add: buf_ok_def head_ok_def tail_ok_def)
    then show ?thesis using hs b3(5) by (simp add: abuf_trim_def abuf_byte_len_def head_pos_def tail_pos_def)
  qed
  have run: "encode_wsm2016 w ?a c = Some (abuf_byte_len (abuf_trim b3), w\<lparr>weid_qty := 0\<rparr>, abuf_trim b3, c2)"
    using w b1(1) b2(1) b3(1) c1(1) c2(1)
    by (simp add: encode_wsm2016_def none plain_wsm_def trim Let_def)
  show ?thesis using run pos c1 c2 b3(3)
    by (intro exI [of _ "abuf_byte_len (abuf_trim b3)"] exI [of _ "w\<lparr>weid_qty := 0\<rparr>"] exI [of _ "abuf_trim b3"] exI [of _ c2])
      (auto intro: same_tail_trans)
qed

text \<open>The core of a safety message.\<close>

definition core_bits :: "bsm \<Rightarrow> bool list" where
  "core_bits B = concat (map (nbits 32) (bsm_words B)) @ nbits 5 (VehicleLength_cm B)"

lemma length_bsm_words [simp]: "length (bsm_words B) = 9"
  by (simp add: bsm_words_def Let_def)

lemma length_core_bits [simp]: "length (core_bits B) = 293"
  by (simp add: core_bits_def bsm_words_def Let_def)

lemma last_byte: "nbits 8 (push_bit 3 w) = nbits 5 w @ [False, False, False]"
proof -
  have "nbits 5 (drop_bit 3 (push_bit 3 w)) = nbits 5 w" by (rule nbits_cong) (auto simp: bit_simps)
  moreover have "nbits 3 (push_bit 3 w) = [False, False, False]" by (simp add: nbits_def upt_rec bit_simps)
  ultimately show ?thesis using nbits_add [of 5 3 "push_bit 3 w"] by simp
qed

lemma encode_bsm_ok:
  assumes ok: "buf_ok bp" "tail_bits_left bp = 8" "buf_bits bp = []" and room: "296 \<le> tail_room bp" "24 \<le> head_pos bp"
    and B: "\<not> has_partII B"
  shows "\<exists>bp'. encode_as_bsm partII B bp = Some bp' \<and> buf_ok bp' \<and> tail_bits_left bp' = 3 \<and>
    buf_bits bp' = nbits 16 20 @ nbits 8 37 @ core_bits B \<and> head_pos bp' = head_pos bp - 24"
proof -
  obtain b1 where b1: "put_words (bsm_words B) bp = Some b1" "buf_ok b1" "buf_bits b1 = concat (map (nbits 32) (bsm_words B))"
    "same_head bp b1" "tail_bits_left b1 = 8" "tail_room b1 = tail_room bp - 288"
    using put_words_ok [OF ok(1,2), of "bsm_words B"] room ok(3) by auto
  have r: "8 \<le> tail_room b1" using b1(6) room(1) by linarith
  obtain b2 where b2: "put8 (ucast (push_bit 3 (VehicleLength_cm B))) b1 = Some b2" "buf_ok b2"
    "buf_bits b2 = core_bits B @ [False, False, False]" "same_head b1 b2" "tail_bits_left b2 = 8"
    using put8_ok [OF b1(2,5) r, of "push_bit 3 (VehicleLength_cm B)"] b1(3) by (auto simp: core_bits_def last_byte)
  define b3 where "b3 = b2\<lparr>ab_tail := ab_tail b2 - 1, tail_bits_left := 3\<rparr>"
  have b3: "buf_ok b3" "buf_bits b3 = core_bits B" "same_head b2 b3"
    unfolding b3_def by (rule untail_ok [OF b2(2,5,3)]; simp)+
  have h3: "head_pos b3 = head_pos bp" using b1(4) b2(4) b3(3) same_head_simps by metis
  have len: "bytes_of_bits 293 = 37" by (simp add: bytes_of_bits_def)
  obtain b4 where b4: "asn_push_len b3 = Some (8, b4)" "buf_ok b4" "buf_bits b4 = nbits 8 37 @ core_bits B" "same_tail b3 b4"
    "head_pos b4 = head_pos bp - 8"
    using push_len_ok [OF b3(1)] room b3(2) h3 len by auto
  have r5: "16 \<le> head_pos b4" using b4(5) room(2) by linarith
  obtain b5 where b5: "asn_push_bits b4 20 16 = Some (16, b5)" "buf_ok b5" "buf_bits b5 = nbits 16 20 @ nbits 8 37 @ core_bits B"
    "same_tail b4 b5" "head_pos b5 = head_pos bp - 24"
    using buf_prepend_ok [OF b4(2) _ r5, of 20] b4(3,5) by auto
  have "encode_as_bsm partII B bp = Some b5"
    using b1(1) b2(1) b4(1) b5(1) B by (simp add: encode_as_bsm_def b3_def [symmetric])
  moreover have "tail_bits_left b5 = 3" using b4(4) b5(4) by (simp add: same_tail_def b3_def)
  ultimately show ?thesis using b5 by auto
qed

text \<open>The security header of an unsecured message.\<close>

lemma encode_security_ok:
  assumes "buf_ok (mc_abuf mc)" and "24 \<le> head_pos (mc_abuf mc)"
    and "0 < length (buf_bits (mc_abuf mc))" "length (buf_bits (mc_abuf mc)) \<le> 1016" and "sec_content (ieee1609_2 mc) = 0"
  shows "\<exists>bp'. ieee1609_2_encode_unsecured mc = Some (0, mc\<lparr>mc_abuf := bp'\<rparr>) \<and> buf_ok bp' \<and> same_tail (mc_abuf mc) bp' \<and>
    buf_bits bp' = nbits 8 (ucast (protocolVersion (ieee1609_2 mc))) @ nbits 2 (tagclass (ieee1609_2 mc)) @ nbits 6 0 @
      nbits 8 (of_int (bytes_of_bits (length (buf_bits (mc_abuf mc))))) @ buf_bits (mc_abuf mc) \<and>
    head_pos bp' = head_pos (mc_abuf mc) - 24"
proof -
  let ?c = "mc_abuf mc" and ?l = "nbits 8 (of_int (bytes_of_bits (length (buf_bits (mc_abuf mc)))))"
  obtain b1 where b1: "asn_push_ieee1609_2_len ?c = Some (8, b1)" "buf_ok b1" "buf_bits b1 = ?l @ buf_bits ?c" "same_tail ?c b1"
    "head_pos b1 = head_pos ?c - 8"
    using push_len_ok [OF assms(1) _ assms(3,4)] assms(2) by auto
  have r: "6 \<le> head_pos b1" "2 \<le> head_pos (mc_abuf mc) - 14" "8 \<le> head_pos (mc_abuf mc) - 16" using b1(5) assms(2) by linarith+
  obtain b2 where b2: "asn_push_bits b1 0 6 = Some (6, b2)" "buf_ok b2" "buf_bits b2 = nbits 6 0 @ buf_bits b1" "same_tail b1 b2"
    "head_pos b2 = head_pos ?c - 14"
    using buf_prepend_ok [OF b1(2) _ r(1), of 0] b1(5) by auto
  obtain b3 where b3: "asn_push_bits b2 (tagclass (ieee1609_2 mc)) 2 = Some (2, b3)" "buf_ok b3"
    "buf_bits b3 = nbits 2 (tagclass (ieee1609_2 mc)) @ buf_bits b2" "same_tail b2 b3" "head_pos b3 = head_pos ?c - 16"
    using buf_prepend_ok [OF b2(2) _ r(2) [folded b2(5)], of "tagclass (ieee1609_2 mc)"] b2(5) by auto
  obtain b4 where b4: "asn_push_bits b3 (ucast (protocolVersion (ieee1609_2 mc))) 8 = Some (8, b4)" "buf_ok b4"
    "buf_bits b4 = nbits 8 (ucast (protocolVersion (ieee1609_2 mc))) @ buf_bits b3" "same_tail b3 b4" "head_pos b4 = head_pos ?c - 24"
    using buf_prepend_ok [OF b3(2) _ r(3) [folded b3(5)], of "ucast (protocolVersion (ieee1609_2 mc))"] b3(5) by auto
  have "ieee1609_2_encode_unsecured mc = Some (0, mc\<lparr>mc_abuf := b4\<rparr>)"
    using b1(1) b2(1) b3(1) b4(1) assms(5) by (simp add: ieee1609_2_encode_unsecured_def)
  moreover have "same_tail ?c b4" using b1(4) b2(4) b3(4) b4(4) same_tail_trans by blast
  ultimately show ?thesis using b1(3) b2(3) b3(3) b4 by auto
qed

end
