(* ===== verification/V2xRead.thy ===== *)
theory V2xRead
  imports V2xLayers
begin

text \<open>
  A safety message through all layers of the V2X codec, on the way in: what each reader returns where the
  bits that its writer leaves come next, and that the fields of a message survive their packing.
\<close>

section \<open>Aligned reading\<close>

definition sees_at :: "u8 list \<Rightarrow> int \<Rightarrow> bool list \<Rightarrow> bool" where
  "sees_at blk p bs \<longleftrightarrow> 0 \<le> p \<and> sees blk (8 * nat p) bs"

lemma at_append: "sees_at blk p (xs @ ys) \<Longrightarrow> length xs = 8 * n \<Longrightarrow> sees_at blk p xs \<and> sees_at blk (p + int n) ys"
  by (simp add: sees_at_def sees_append nat_add_distrib distrib_left)

lemma at_byte:
  assumes "sees_at blk p (nbits 8 d @ r)"
  shows "rd blk p = Some (low8 d)" and "sees_at blk (p + 1) r"
  using at_append [OF assms, of 1] sees_rd [of blk "nat p" d] by (auto simp: sees_at_def)

lemma low8_take: "nbits 8 (ucast (low8 d)) = nbits 8 d"
  by (rule nbits_cong) (auto simp: bit_simps dest: bit_imp_le_length)

lemma at_split: "sees_at blk p (nbits (8 + k) d @ r) \<Longrightarrow> sees_at blk p (nbits 8 (drop_bit k d) @ nbits k d @ r)"
  by (simp add: nbits_add)

lemma at_16:
  assumes "sees_at blk p (nbits 16 d @ r)"
  shows "get16 blk p = Some (ucast d)" and "sees_at blk (p + 2) r"
proof -
  have 0: "sees_at blk p (nbits 8 (drop_bit 8 d) @ nbits 8 d @ r)" using at_split [of blk p 8 d r] assms by simp
  note a = at_byte [OF 0]
  note b = at_byte [OF a(2)]
  have "le_word [low8 d, low8 (drop_bit 8 d)] = (ucast d :: u16)"
    by (rule bit_word_eqI) (auto simp: bit_simps dest: bit_imp_le_length)
  then show "get16 blk p = Some (ucast d)" using a(1) b(1) by (simp add: get16_def)
  show "sees_at blk (p + 2) r" using b(2) by (simp add: add.assoc)
qed

lemma at_32:
  assumes "sees_at blk p (nbits 32 d @ r)"
  shows "get32 blk p = Some d" and "sees_at blk (p + 4) r"
proof -
  have 0: "sees_at blk p (nbits 8 (drop_bit 24 d) @ nbits 24 d @ r)" using at_split [of blk p 24 d r] assms by simp
  note a = at_byte [OF 0]
  have 1: "sees_at blk (p + 1) (nbits 8 (drop_bit 16 d) @ nbits 16 d @ r)" using at_split [of blk "p + 1" 16 d r] a(2) by simp
  note b = at_byte [OF 1]
  have 2: "sees_at blk (p + 2) (nbits 8 (drop_bit 8 d) @ nbits 8 d @ r)"
    using at_split [of blk "p + 2" 8 d r] b(2) by (simp add: add.assoc)
  note c = at_byte [OF 2]
  have 3: "sees_at blk (p + 3) (nbits 8 d @ r)" using c(2) by (simp add: add.assoc)
  note e = at_byte [OF 3]
  have "le_word [low8 d, low8 (drop_bit 8 d), low8 (drop_bit 16 d), low8 (drop_bit 24 d)] = d"
  proof -
    have "[low8 d, low8 (drop_bit 8 d), low8 (drop_bit 16 d), low8 (drop_bit 24 d)] = le32 d"
      by (simp add: le_bytes_def upt_rec)
    then show ?thesis by simp
  qed
  then show "get32 blk p = Some d" using a(1) b(1) c(1) e(1) by (simp add: get32_def add.assoc)
  show "sees_at blk (p + 4) r" using e(2) by (simp add: add.assoc)
qed

lemma at_reader: "sees_at blk p bs \<Longrightarrow> reader_ok blk p 8 \<and> rpos p 8 = 8 * nat p"
  by (simp add: sees_at_def reader_ok_def rpos_def)

lemma at_length:
  assumes "sees_at blk p (nbits 8 (of_int len) @ r)" and "0 \<le> len" "len < 128"
  shows "parse_asn_variable_length_enc blk p 8 = Some (len, p + 1, 8)"
    and "get_next_n_bits blk p 8 8 = Some (of_int len, p + 1, 8)"
    and "parse_asn_CER_len_enc blk p 8 = Some (of_int len, p + 1, 8)"
proof -
  note a = at_reader [OF assms(1)]
  have s: "sees blk (rpos p 8) (nbits 8 (of_int len))" "0 \<le> p"
    using assms(1) a by (simp_all add: sees_at_def sees_append)
  obtain cp left where 1: "parse_asn_variable_length_enc blk p 8 = Some (len, cp, left)" "reader_ok blk cp left"
    "rpos cp left = 8 * (nat p + 1)"
    using parse_short_ok [OF _ s(1) assms(2,3)] a by auto
  show "parse_asn_variable_length_enc blk p 8 = Some (len, p + 1, 8)"
    using 1(1) aligned_pos [OF 1(2,3)] s(2) by simp
  have m: "of_int len AND mask 8 = (of_int len :: u32)"
    using int_low_bits [of len 8] assms(2,3) by (intro bit_word_eqI) (auto simp: bit_simps bit_word_of_int_iff)
  show "get_next_n_bits blk p 8 8 = Some (of_int len, p + 1, 8)"
    using aligned_get [OF s(2), of blk "of_int len"] s(1) a m by simp
  have "of_int len AND 0x80 = (0 :: 8 word)"
    using int_high_bits [of len 7 7] assms(2,3) by (simp add: and_numeral_eq bit_word_of_int_iff)
  moreover have "ucast (of_int len :: u8) = (of_int len :: u64)"
    using int_low_bits [of len 8] assms(2,3) by (intro bit_word_eqI) (auto simp: bit_simps bit_word_of_int_iff)
  ultimately show "parse_asn_CER_len_enc blk p 8 = Some (of_int len, p + 1, 8)"
    using at_byte(1) [OF assms(1)] by (simp add: parse_asn_CER_len_enc_def low8_of_int)
qed

lemma at_words:
  assumes "sees_at blk p (concat (map (nbits 32) ws) @ r)"
  shows "(\<forall>i < length ws. get32 blk (p + 4 * int i) = Some (ws ! i)) \<and> sees_at blk (p + 4 * int (length ws)) r"
  using assms
proof (induction ws arbitrary: p)
  case (Cons w ws)
  have 0: "sees_at blk p (nbits 32 w @ concat (map (nbits 32) ws) @ r)" using Cons.prems by simp
  note a = at_32 [OF 0]
  note IH = Cons.IH [OF a(2)]
  have "get32 blk (p + 4 * int i) = Some ((w # ws) ! i)" if "i < length (w # ws)" for i
    using that IH a(1) by (cases i) (auto simp: algebra_simps)
  then show ?case using IH by (simp add: algebra_simps)
qed simp

section \<open>The service identifier\<close>

lemma contains_mask: "(b AND m = m) \<longleftrightarrow> (\<forall>i. bit m i \<longrightarrow> bit b i)" for b m :: "8 word"
  by (metis bit_and_iff bit_word_eqI)

lemma field_size: "WSMP_PSID_FIELD_SIZE b =
   (if bit b 7 \<and> bit b 6 \<and> bit b 5 then 4 else if bit b 7 \<and> bit b 6 then 3 else if bit b 7 then 2 else 1)"
proof -
  have c: "(0xe0 :: 8 word) = push_bit 5 (mask 3)" "(0xc0 :: 8 word) = push_bit 6 (mask 2)"
    by (simp_all add: mask_eq_exp_minus_1)
  have e: "bit (0xe0 :: 8 word) i \<longleftrightarrow> i = 7 \<or> i = 6 \<or> i = 5" for i
  proof -
    have "5 \<le> i \<and> possible_bit TYPE(8 word) i \<and> (possible_bit TYPE(8 word) (i - 5) \<and> i - 5 < 3) \<longleftrightarrow> i = 7 \<or> i = 6 \<or> i = 5"
      by (simp add: possible_bit_word) arith
    then show ?thesis unfolding c(1) bit_push_bit_iff bit_mask_iff by simp
  qed
  have f: "bit (0xc0 :: 8 word) i \<longleftrightarrow> i = 7 \<or> i = 6" for i
  proof -
    have "6 \<le> i \<and> possible_bit TYPE(8 word) i \<and> (possible_bit TYPE(8 word) (i - 6) \<and> i - 6 < 2) \<longleftrightarrow> i = 7 \<or> i = 6"
      by (simp add: possible_bit_word) arith
    then show ?thesis unfolding c(2) bit_push_bit_iff bit_mask_iff by simp
  qed
  show ?thesis unfolding WSMP_PSID_FIELD_SIZE_def contains_mask e f bit_numerals(1) by auto
qed

lemma at_bytes:
  "sees_at blk p (nbits (8 * n) d @ r) \<Longrightarrow> j < n \<Longrightarrow> rd blk (p + int j) = Some (low8 (drop_bit (8 * (n - 1 - j)) d))"
proof (induction n arbitrary: p j)
  case (Suc n)
  have "sees_at blk p (nbits 8 (drop_bit (8 * n) d) @ nbits (8 * n) d @ r)"
    using at_split [of blk p "8 * n" d r] Suc.prems(1) by simp
  note a = at_byte [OF this]
  show ?case
  proof (cases j)
    case (Suc i)
    then show ?thesis using Suc.IH [OF a(2), of i] Suc.prems(2) by (simp add: add.assoc)
  qed (use a(1) in simp)
qed simp

text \<open>What the decoder adds up is what the bytes stand for.\<close>

lemma add_low: "(\<And>i. bit a i \<Longrightarrow> k \<le> i) \<Longrightarrow> (\<And>i. bit b i \<Longrightarrow> i < k) \<Longrightarrow> a + b = a OR (b :: u32)"
  by (rule disjunctive_add) (meson not_le)

lemma bytes_sum:
  fixes d :: u32
  defines "b i \<equiv> ucast (low8 (drop_bit i d)) :: u32"
  shows "push_bit 8 (b 8) + b 0 = d AND mask 16"
    and "push_bit 16 (b 16) + push_bit 8 (b 8) + b 0 = d AND mask 24"
    and "push_bit 24 (b 24) + push_bit 16 (b 16) + push_bit 8 (b 8) + b 0 = d"
proof -
  have bb: "bit (b j) i \<longleftrightarrow> i < 8 \<and> bit d (j + i)" for i j
    by (auto simp: b_def bit_simps dest: bit_imp_le_length)
  have s2: "push_bit 8 (b 8) + b 0 = push_bit 8 (b 8) OR b 0" by (rule add_low [where k = 8]) (auto simp: bit_simps bb)
  then show 2: "push_bit 8 (b 8) + b 0 = d AND mask 16"
    by (simp, intro bit_word_eqI) (auto simp: bit_simps bb)
  have s3: "push_bit 16 (b 16) + (d AND mask 16) = push_bit 16 (b 16) OR (d AND mask 16)"
    by (rule add_low [where k = 16]) (auto simp: bit_simps bb)
  then show 3: "push_bit 16 (b 16) + push_bit 8 (b 8) + b 0 = d AND mask 24"
    unfolding add.assoc 2 s3 by (intro bit_word_eqI) (auto simp: bit_simps bb)
  have s4: "push_bit 24 (b 24) + (d AND mask 24) = push_bit 24 (b 24) OR (d AND mask 24)"
    by (rule add_low [where k = 24]) (auto simp: bit_simps bb)
  have "push_bit 24 (b 24) + push_bit 16 (b 16) + push_bit 8 (b 8) + b 0 = push_bit 24 (b 24) + (d AND mask 24)"
    unfolding 3 [symmetric] by (simp add: add.assoc)
  also have "\<dots> = d" unfolding s4 by (intro bit_word_eqI) (auto simp: bit_simps bb)
  finally show "push_bit 24 (b 24) + push_bit 16 (b 16) + push_bit 8 (b 8) + b 0 = d" .
qed

lemma psid_code_small: "psid_ok p \<Longrightarrow> psid_code p AND mask (8 * psid_size p) = psid_code p"
proof -
  assume ok: "psid_ok p"
  have "bit (psid_code p) i \<Longrightarrow> i < 8 * psid_size p" for i
    using psid_size_le [OF ok] less_bits [OF psid_rest [OF ok], of i]
    by (auto simp: psid_code_bits [OF ok] psid_prefix_bit split: if_splits)
  then show ?thesis by (intro bit_word_eqI) (auto simp: bit_simps)
qed

lemma at_psid:
  assumes s: "sees_at blk p (nbits (8 * psid_size v) (psid_code v) @ r)" and ok: "psid_ok v"
  shows "wsmp_decode_psid blk p = Some v"
    and "\<exists>b. rd blk p = Some b \<and> WSMP_PSID_FIELD_SIZE b = psid_size v"
    and "sees_at blk (p + int (psid_size v)) r"
proof -
  let ?d = "psid_code v" and ?n = "psid_size v"
  show "sees_at blk (p + int ?n) r" using at_append [OF s, of ?n] by simp
  have "8 * ?n = 8 + (8 * ?n - 8)" using psid_size_le [OF ok] by simp
  then have 0: "sees_at blk p (nbits 8 (drop_bit (8 * ?n - 8) ?d) @ nbits (8 * ?n - 8) ?d @ r)"
    using at_split [of blk p "8 * ?n - 8" ?d r] s by simp
  note a = at_byte [OF 0]
  have fs: "WSMP_PSID_FIELD_SIZE (low8 (drop_bit (8 * ?n - 8) ?d)) = ?n"
    using ok by (rule psid_sizes)
      (auto simp: field_size bit_simps psid_code_bits [OF ok] psid_prefix_bit dest: less_bits [OF psid_rest [OF ok]])
  then show "\<exists>b. rd blk p = Some b \<and> WSMP_PSID_FIELD_SIZE b = ?n" using a(1) by blast
  note byte = at_bytes [OF s]
  note v = psid_code_small [OF ok] psid_prefix_value [OF ok]
  show "wsmp_decode_psid blk p = Some v"
  proof (rule psid_sizes [OF ok])
    assume n: "?n = 1"
    have "ucast (low8 ?d) = ?d" using n by (intro bit_word_eqI) (auto simp: bit_simps psid_code_bits [OF ok] psid_prefix_bit)
    then show ?thesis using byte [of 0] fs v(2) n by (simp add: wsmp_decode_psid_def)
  next
    assume n: "?n = 2"
    show ?thesis using byte [of 0] byte [of 1] fs n bytes_sum(1) [of ?d] v by (simp add: wsmp_decode_psid_def rd32_def)
  next
    assume n: "?n = 3"
    show ?thesis using byte [of 0] byte [of 1] byte [of 2] fs n bytes_sum(2) [of ?d] v by (simp add: wsmp_decode_psid_def rd32_def)
  next
    assume n: "?n = 4"
    show ?thesis using byte [of 0] byte [of 1] byte [of 2] byte [of 3] fs n bytes_sum(3) [of ?d] v
      by (simp add: wsmp_decode_psid_def rd32_def)
  qed
qed

section \<open>The fields of a safety message\<close>

text \<open>The ranges of the standard, as the packing needs them: a field that is too wide spills into its
  neighbour. The lowest bit of the brake word is not used.\<close>

definition bsm_ok :: "bsm \<Rightarrow> bool" where
  "bsm_ok B \<longleftrightarrow> \<not> has_partII B \<and> MsgCount B < 2 ^ 7 \<and> secMark_ms B < 2 ^ 16 \<and>
     Latitude B - LATITUDE_OFFSET < 2 ^ 31 \<and> Elevation B - ELEVATION_OFFSET < 2 ^ 16 \<and>
     SemiMajorAxisAccuracy B < 2 ^ 8 \<and> SemiMinorAxisAccuracy B < 2 ^ 8 \<and> SemiMajorAxisOrientation B < 2 ^ 16 \<and>
     TransmissionState B < 2 ^ 3 \<and> Speed B < 2 ^ 13 \<and> Heading_degrees B < 2 ^ 15 \<and>
     SteeringWheelAngle B - SWA_OFFSET < 2 ^ 8 \<and> AccelLon_cm_per_sec_squared B - ACCEL_LON_OFFSET < 2 ^ 12 \<and>
     AccelLat_cm_per_sec_squared B - ACCEL_LAT_OFFSET < 2 ^ 12 \<and> AccelVert_two_centi_gs B - ACCEL_VERT_OFFSET < 2 ^ 8 \<and>
     AccelYaw_centi_degrees_per_sec B - ACCEL_YAW_OFFSET < 2 ^ 16 \<and> \<not> bit (brakes_word B) 0 \<and>
     VehicleWidth_cm B < 2 ^ 10 \<and> VehicleLength_cm B < 2 ^ 12"

text \<open>What the receiver has: the second part and extensions absent, a timestamp of its own, and the brake
  word with the highest bit of the width in its unused place.\<close>

definition received :: "u64 \<Rightarrow> bsm \<Rightarrow> bsm" where
  "received now B = B\<lparr>timestamp_ms := calc_timestamp_from_secmark now (secMark_ms B), has_partII := False,
     has_regional_extensions := False, brakes_word := brakes_word B OR ucast (drop_bit 9 (VehicleWidth_cm B))\<rparr>"

lemma field_masks:
  "(0x1fc00000 :: u32) = push_bit 22 (mask 7)" "(0x003fffff :: u32) = mask 22" "(0xffc00000 :: u32) = push_bit 22 (mask 10)"
  "(0x003fffc0 :: u32) = push_bit 6 (mask 16)" "(0x3f :: u32) = mask 6" "(0xffffff80 :: u32) = push_bit 7 (mask 25)"
  "(0x7f :: u32) = mask 7" "(0xff800000 :: u32) = push_bit 23 (mask 9)" "(0x007f8000 :: u32) = push_bit 15 (mask 8)"
  "(0x7f80 :: u32) = push_bit 7 (mask 8)" "(0x00700000 :: u32) = push_bit 20 (mask 3)" "(0x000fff80 :: u32) = push_bit 7 (mask 13)"
  "(0xff000000 :: u32) = push_bit 24 (mask 8)" "(0x00ff0000 :: u32) = push_bit 16 (mask 8)" "(0x0000fff0 :: u32) = push_bit 4 (mask 12)"
  "(0xf :: u32) = mask 4" "(0x0000ffff :: u32) = mask 16" "(0x0001ff80 :: u32) = push_bit 7 (mask 10)" "(0xf8 :: u32) = push_bit 3 (mask 5)"
  by (simp_all add: mask_eq_exp_minus_1)

lemma bit_mask_push: "bit (x AND push_bit k (mask n)) i \<longleftrightarrow> bit (x :: u32) i \<and> k \<le> i \<and> i < k + n" if "k + n \<le> 32"
  using that by (auto simp: bit_simps dest: bit_imp_le_length)

text \<open>A field of \<open>n\<close> bits at place \<open>k\<close> of a word, with nothing of its neighbours in that place.\<close>

lemma field_whole:
  assumes "k + n \<le> 32" and "f < 2 ^ n"
    and "\<And>i. i < n \<Longrightarrow> bit w (k + i) \<longleftrightarrow> bit f i"
  shows "drop_bit k (w AND push_bit k (mask n)) = (f :: u32)"
  using assms(3) less_bits [OF assms(2)] assms(1)
  by (intro bit_word_eqI) (auto simp: bit_drop_bit_eq bit_mask_push simp del: drop_bit_and)

text \<open>A field whose high part ends a word and whose low part of \<open>k\<close> bits starts the next.\<close>

lemma field_split:
  assumes "h + k = n" and "m + k = 32" and "n \<le> 32" and "f < 2 ^ n \<or> n = 32"
    and "\<And>i. i < h \<Longrightarrow> bit u i \<longleftrightarrow> bit f (k + i)" and "\<And>i. i < k \<Longrightarrow> bit w (m + i) \<longleftrightarrow> bit f i"
  shows "push_bit k (u AND mask h) OR drop_bit m (w AND push_bit m (mask k)) = (f :: u32)"
proof (rule bit_word_eqI)
  fix i assume i: "i < LENGTH(32)"
  have hi: "bit f i \<Longrightarrow> i < n" using assms(4) i less_bits [of f n i] by auto
  show "bit (push_bit k (u AND mask h) OR drop_bit m (w AND push_bit m (mask k))) i \<longleftrightarrow> bit f i"
  proof (cases "i < k")
    case True
    then show ?thesis using assms(1-3) assms(6) [OF True] i by (auto simp: bit_or_iff bit_push_bit_iff bit_drop_bit_eq bit_mask_push simp del: drop_bit_and push_bit_and)
  next
    case False
    then obtain j where j: "i = k + j" by (metis le_add_diff_inverse not_less)
    show ?thesis using assms(1-3) assms(5) [of j] hi i False
      by (cases "j < h") (auto simp: j bit_or_iff bit_push_bit_iff bit_drop_bit_eq bit_mask_push bit_and_iff bit_mask_iff simp del: drop_bit_and push_bit_and)
  qed
qed

text \<open>The fields back from the words.\<close>

lemma fields_1:
  fixes lat lon id :: u32
  assumes "MC < 2 ^ 7" "SM < 2 ^ 16" "lat < 2 ^ 31"
  defines "w0 \<equiv> push_bit 22 MC OR drop_bit 10 id" and "w1 \<equiv> push_bit 22 id OR push_bit 6 SM OR drop_bit 25 lat"
    and "w2 \<equiv> push_bit 7 lat OR drop_bit 25 lon"
  shows "\<not> bit w0 31" "\<not> bit w0 30" "\<not> bit w0 29" "drop_bit 22 (w0 AND 0x1fc00000) = MC"
    "push_bit 10 (w0 AND 0x003fffff) OR drop_bit 22 (w1 AND 0xffc00000) = id"
    "drop_bit 6 (w1 AND 0x003fffc0) = SM"
    "push_bit 25 (w1 AND 0x3f) OR drop_bit 7 (w2 AND 0xffffff80) = lat"
proof -
  note b = less_bits [OF assms(1)] less_bits [OF assms(2)] less_bits [OF assms(3)]
  show "\<not> bit w0 31" "\<not> bit w0 30" "\<not> bit w0 29" by (auto simp: w0_def bit_simps dest: b bit_imp_le_length)
  show "drop_bit 22 (w0 AND 0x1fc00000) = MC" unfolding field_masks
    by (rule field_whole [OF _ assms(1)]) (auto simp: w0_def bit_simps dest: b bit_imp_le_length)
  show "drop_bit 6 (w1 AND 0x003fffc0) = SM" unfolding field_masks
    by (rule field_whole [OF _ assms(2)]) (auto simp: w1_def bit_simps dest: b bit_imp_le_length)
  show "push_bit 10 (w0 AND 0x003fffff) OR drop_bit 22 (w1 AND 0xffc00000) = id" unfolding field_masks
    by (rule field_split [where n = 32]) (auto simp: w0_def w1_def bit_simps dest: b bit_imp_le_length)
  show "push_bit 25 (w1 AND 0x3f) OR drop_bit 7 (w2 AND 0xffffff80) = lat" unfolding field_masks
    by (rule field_split [where n = 31]) (use assms(3) in \<open>auto simp: w1_def w2_def bit_simps dest: b bit_imp_le_length\<close>)
qed

lemma fields_2:
  fixes lat lon ele smaj smin ori trn sp hd swa :: u32
  assumes "ele < 2 ^ 16" "smaj < 2 ^ 8" "smin < 2 ^ 8" "ori < 2 ^ 16" "trn < 2 ^ 3" "sp < 2 ^ 13" "hd < 2 ^ 15"
  defines "w2 \<equiv> push_bit 7 lat OR drop_bit 25 lon" and "w3 \<equiv> push_bit 7 lon OR drop_bit 9 ele"
    and "w4 \<equiv> push_bit 23 ele OR push_bit 15 smaj OR push_bit 7 smin OR drop_bit 9 ori"
    and "w5 \<equiv> push_bit 23 ori OR push_bit 20 trn OR push_bit 7 sp OR drop_bit 8 hd"
    and "w6 \<equiv> push_bit 24 hd OR swa"
  shows "push_bit 25 (w2 AND 0x7f) OR drop_bit 7 (w3 AND 0xffffff80) = lon"
    "push_bit 9 (w3 AND 0x7f) OR drop_bit 23 (w4 AND 0xff800000) = ele"
    "drop_bit 15 (w4 AND 0x007f8000) = smaj" "drop_bit 7 (w4 AND 0x7f80) = smin"
    "push_bit 9 (w4 AND 0x7f) OR drop_bit 23 (w5 AND 0xff800000) = ori"
    "drop_bit 20 (w5 AND 0x00700000) = trn" "drop_bit 7 (w5 AND 0x000fff80) = sp"
    "swa < 2 ^ 24 \<Longrightarrow> push_bit 8 (w5 AND 0x7f) OR drop_bit 24 (w6 AND 0xff000000) = hd"
proof -
  note b = less_bits [OF assms(1)] less_bits [OF assms(2)] less_bits [OF assms(3)] less_bits [OF assms(4)] less_bits [OF assms(5)]
    less_bits [OF assms(6)] less_bits [OF assms(7)] bit_imp_le_length
  show "push_bit 25 (w2 AND 0x7f) OR drop_bit 7 (w3 AND 0xffffff80) = lon" unfolding field_masks
    by (rule field_split [where n = 32]) (auto simp: w2_def w3_def bit_simps dest: b)
  show "push_bit 9 (w3 AND 0x7f) OR drop_bit 23 (w4 AND 0xff800000) = ele" unfolding field_masks
    by (rule field_split [where n = 16]) (use assms(1) in \<open>auto simp: w3_def w4_def bit_simps dest: b\<close>)
  show "drop_bit 15 (w4 AND 0x007f8000) = smaj" unfolding field_masks
    by (rule field_whole [OF _ assms(2)]) (auto simp: w4_def bit_simps dest: b)
  show "drop_bit 7 (w4 AND 0x7f80) = smin" unfolding field_masks
    by (rule field_whole [OF _ assms(3)]) (auto simp: w4_def bit_simps dest: b)
  show "push_bit 9 (w4 AND 0x7f) OR drop_bit 23 (w5 AND 0xff800000) = ori" unfolding field_masks
    by (rule field_split [where n = 16]) (use assms(4) in \<open>auto simp: w4_def w5_def bit_simps dest: b\<close>)
  show "drop_bit 20 (w5 AND 0x00700000) = trn" unfolding field_masks
    by (rule field_whole [OF _ assms(5)]) (auto simp: w5_def bit_simps dest: b)
  show "drop_bit 7 (w5 AND 0x000fff80) = sp" unfolding field_masks
    by (rule field_whole [OF _ assms(6)]) (auto simp: w5_def bit_simps dest: b)
  assume s: "swa < 2 ^ 24"
  show "push_bit 8 (w5 AND 0x7f) OR drop_bit 24 (w6 AND 0xff000000) = hd" unfolding field_masks
    by (rule field_split [where n = 15])
      (use assms(7) in \<open>auto simp: w5_def w6_def bit_simps dest: b less_bits [OF s]\<close>)
qed

lemma fields_3:
  fixes hd swa alon alat vert yaw width len :: u32
  assumes "swa < 2 ^ 8" "alon < 2 ^ 12" "alat < 2 ^ 12" "vert < 2 ^ 8" "yaw < 2 ^ 16" "width < 2 ^ 10" "len < 2 ^ 12" "\<not> bit (brk :: u16) 0"
  defines "w6 \<equiv> push_bit 24 hd OR push_bit 16 swa OR push_bit 4 alon OR drop_bit 8 alat"
    and "w7 \<equiv> push_bit 24 alat OR push_bit 16 vert OR yaw"
    and "w8 \<equiv> push_bit 16 (ucast brk) OR push_bit 7 width OR drop_bit 5 len"
  shows "push_bit 16 swa OR push_bit 4 alon OR drop_bit 8 alat < 2 ^ 24"
    "drop_bit 16 (w6 AND 0x00ff0000) = swa" "drop_bit 4 (w6 AND 0x0000fff0) = alon"
    "push_bit 8 (w6 AND 0xf) OR drop_bit 24 (w7 AND 0xff000000) = alat"
    "drop_bit 16 (w7 AND 0x00ff0000) = vert" "w7 AND 0x0000ffff = yaw"
    "ucast (drop_bit 16 w8) = brk OR ucast (drop_bit 9 width)"
    "drop_bit 7 (w8 AND 0x0001ff80) = width"
    "push_bit 5 (w8 AND 0x7f) OR drop_bit 3 (ucast (low8 (push_bit 3 len)) AND 0xf8) = len"
proof -
  note b = less_bits [OF assms(1)] less_bits [OF assms(2)] less_bits [OF assms(3)] less_bits [OF assms(4)] less_bits [OF assms(5)]
    less_bits [OF assms(6)] less_bits [OF assms(7)] bit_imp_le_length
  have "(push_bit 16 swa OR push_bit 4 alon OR drop_bit 8 alat) AND mask 24 = push_bit 16 swa OR push_bit 4 alon OR drop_bit 8 alat"
    by (rule bit_word_eqI) (auto simp: bit_simps dest: b)
  then show "push_bit 16 swa OR push_bit 4 alon OR drop_bit 8 alat < 2 ^ 24"
    using and_mask_less_size [of 24 "push_bit 16 swa OR push_bit 4 alon OR drop_bit 8 alat"] by (simp add: word_size)
  show "drop_bit 16 (w6 AND 0x00ff0000) = swa" unfolding field_masks
    by (rule field_whole [OF _ assms(1)]) (auto simp: w6_def bit_simps dest: b)
  show "drop_bit 4 (w6 AND 0x0000fff0) = alon" unfolding field_masks
    by (rule field_whole [OF _ assms(2)]) (auto simp: w6_def bit_simps dest: b)
  show "push_bit 8 (w6 AND 0xf) OR drop_bit 24 (w7 AND 0xff000000) = alat" unfolding field_masks
    by (rule field_split [where n = 12]) (use assms(3) in \<open>auto simp: w6_def w7_def bit_simps dest: b\<close>)
  show "drop_bit 16 (w7 AND 0x00ff0000) = vert" unfolding field_masks
    by (rule field_whole [OF _ assms(4)]) (auto simp: w7_def bit_simps dest: b)
  show "w7 AND 0x0000ffff = yaw" unfolding field_masks
    by (rule bit_word_eqI) (auto simp: w7_def bit_simps dest: b)
  show "ucast (drop_bit 16 w8) = brk OR ucast (drop_bit 9 width)"
    by (rule bit_word_eqI) (auto simp: w8_def bit_simps dest: b)
  show "drop_bit 7 (w8 AND 0x0001ff80) = width" unfolding field_masks
  proof (rule field_whole [OF _ assms(6)])
    fix i :: nat assume i: "i < 10"
    have "\<not> (16 \<le> 7 + i \<and> bit brk (7 + i - 16))" using i assms(8) by (cases "i = 9") auto
    then show "bit w8 (7 + i) = bit width i" using i by (auto simp: w8_def bit_simps dest: b)
  qed simp
  show "push_bit 5 (w8 AND 0x7f) OR drop_bit 3 (ucast (low8 (push_bit 3 len)) AND 0xf8) = len" unfolding field_masks
  proof (rule bit_word_eqI)
    fix i :: nat assume i: "i < LENGTH(32)"
    let ?v = "push_bit 5 (w8 AND mask 7) OR drop_bit 3 (ucast (low8 (push_bit 3 len)) AND push_bit 3 (mask 5))"
    show "bit ?v i \<longleftrightarrow> bit len i"
    proof (cases "i < 5")
      case False
      then obtain j where j: "i = 5 + j" by (metis le_add_diff_inverse not_less)
      show ?thesis using i by (cases "j < 7") (auto simp: j w8_def bit_simps dest: b)
    qed (auto simp: w8_def bit_simps dest: b)
  qed
qed

end
