(* ===== verification/V2xRoundtrip.thy ===== *)
theory V2xRoundtrip
  imports V2xRead
begin

text \<open>
  The two directions of the V2X codec together: the bits of a whole message, that \<open>encode\_msg\<close> leaves
  exactly these, and what \<open>decode\_msg\<close> makes of them.
\<close>

section \<open>The core\<close>

lemma at_last:
  assumes "sees_at blk p (nbits 5 d @ r)"
  shows "\<exists>b. rd blk p = Some b \<and> ucast b AND (0xf8 :: u32) = ucast (low8 (push_bit 3 d)) AND 0xf8"
proof -
  let ?t = "nat p"
  have s: "0 \<le> p" "sees blk (8 * ?t) (nbits 5 d)" using assms by (simp_all add: sees_at_def sees_append)
  then have t: "?t < length blk" by (simp add: sees_def)
  have bit_d: "bit (blk ! ?t) (7 - i) = bit d (4 - i)" if "i < 5" for i
  proof -
    have "abit blk (8 * ?t + i) = bit d (4 - i)"
      using sees_bits_at [OF s(2)] that by (auto simp: bits_at_def)
    moreover have "(8 * ?t + i) div 8 = ?t" "(8 * ?t + i) mod 8 = i" using that by auto
    ultimately show ?thesis by (simp add: abit_def)
  qed
  have "ucast (blk ! ?t) AND (0xf8 :: u32) = ucast (low8 (push_bit 3 d)) AND 0xf8"
    unfolding field_masks(19)
  proof (rule bit_word_eqI)
    fix i assume "i < LENGTH(32)"
    show "bit (ucast (blk ! ?t) AND push_bit 3 (mask 5) :: u32) i = bit (ucast (low8 (push_bit 3 d)) AND push_bit 3 (mask 5) :: u32) i"
    proof (cases "3 \<le> i \<and> i < 8")
      case True
      then show ?thesis using bit_d [of "7 - i"] by (auto simp: bit_simps)
    qed (auto simp: bit_simps)
  qed
  moreover have "rd blk p = Some (blk ! ?t)" using t s(1) by (simp add: rd_def)
  ultimately show ?thesis by blast
qed

lemma decode_bsm_ok:
  assumes s: "sees_at blk p (core_bits B @ r)" and B: "bsm_ok B"
  shows "decode_as_bsm partII now blk p 37 bsm0 = Some (0, received now B)"
proof -
  define lat lon ele where l: "lat = Latitude B - LATITUDE_OFFSET" "lon = Longitude B - LONGITUDE_OFFSET" "ele = Elevation B - ELEVATION_OFFSET"
  define swa alon alat vert yaw where a: "swa = SteeringWheelAngle B - SWA_OFFSET" "alon = AccelLon_cm_per_sec_squared B - ACCEL_LON_OFFSET"
    "alat = AccelLat_cm_per_sec_squared B - ACCEL_LAT_OFFSET" "vert = AccelVert_two_centi_gs B - ACCEL_VERT_OFFSET"
    "yaw = AccelYaw_centi_degrees_per_sec B - ACCEL_YAW_OFFSET"
  have ok: "\<not> has_partII B" "MsgCount B < 2 ^ 7" "secMark_ms B < 2 ^ 16" "lat < 2 ^ 31" "ele < 2 ^ 16"
    "SemiMajorAxisAccuracy B < 2 ^ 8" "SemiMinorAxisAccuracy B < 2 ^ 8" "SemiMajorAxisOrientation B < 2 ^ 16"
    "TransmissionState B < 2 ^ 3" "Speed B < 2 ^ 13" "Heading_degrees B < 2 ^ 15"
    "swa < 2 ^ 8" "alon < 2 ^ 12" "alat < 2 ^ 12" "vert < 2 ^ 8" "yaw < 2 ^ 16" "VehicleWidth_cm B < 2 ^ 10" "VehicleLength_cm B < 2 ^ 12"
    "\<not> bit (brakes_word B) 0"
    using B unfolding bsm_ok_def l a by blast+
  define ws where "ws = bsm_words B"
  have ws: "ws = [push_bit 22 (MsgCount B) OR drop_bit 10 (bsm_id B),
      push_bit 22 (bsm_id B) OR push_bit 6 (secMark_ms B) OR drop_bit 25 lat,
      push_bit 7 lat OR drop_bit 25 lon, push_bit 7 lon OR drop_bit 9 ele,
      push_bit 23 ele OR push_bit 15 (SemiMajorAxisAccuracy B) OR push_bit 7 (SemiMinorAxisAccuracy B) OR drop_bit 9 (SemiMajorAxisOrientation B),
      push_bit 23 (SemiMajorAxisOrientation B) OR push_bit 20 (TransmissionState B) OR push_bit 7 (Speed B) OR drop_bit 8 (Heading_degrees B),
      push_bit 24 (Heading_degrees B) OR push_bit 16 swa OR push_bit 4 alon OR drop_bit 8 alat,
      push_bit 24 alat OR push_bit 16 vert OR yaw,
      push_bit 16 (ucast (brakes_word B)) OR push_bit 7 (VehicleWidth_cm B) OR drop_bit 5 (VehicleLength_cm B)]"
    unfolding ws_def bsm_words_def Let_def l a using ok(1) by simp
  have s1: "sees_at blk p (concat (map (nbits 32) ws) @ nbits 5 (VehicleLength_cm B) @ r)" using s by (simp add: core_bits_def ws_def)
  have w: "get32 blk (p + 4 * int i) = Some (ws ! i)" if "i < 9" for i using at_words [OF s1] that by (simp add: ws_def)
  have "sees_at blk (p + 36) (nbits 5 (VehicleLength_cm B) @ r)" using at_words [OF s1] by (simp add: ws_def)
  from at_last [OF this] obtain b where b: "rd blk (p + 36) = Some b"
    "ucast b AND (0xf8 :: u32) = ucast (low8 (push_bit 3 (VehicleLength_cm B))) AND 0xf8" by blast
  obtain w0 w1 w2 w3 w4 w5 w6 w7 w8 where ws': "ws = [w0, w1, w2, w3, w4, w5, w6, w7, w8]" using ws by blast
  have g: "get32 blk p = Some w0" "get32 blk (p + 4) = Some w1" "get32 blk (p + 8) = Some w2" "get32 blk (p + 12) = Some w3"
    "get32 blk (p + 16) = Some w4" "get32 blk (p + 20) = Some w5" "get32 blk (p + 24) = Some w6" "get32 blk (p + 28) = Some w7"
    "get32 blk (p + 32) = Some w8"
    using w [of 0] w [of 1] w [of 2] w [of 3] w [of 4] w [of 5] w [of 6] w [of 7] w [of 8] by (simp_all add: ws')
  note n = ws [unfolded ws', simplified list.inject simp_thms]
  note f1 = fields_1 [OF ok(2-4)]
  note f2 = fields_2 [OF ok(5-11)]
  note f3 = fields_3 [OF ok(12-19)]
  have 1: "\<not> bit w0 31" "\<not> bit w0 30" "\<not> bit w0 29" "drop_bit 22 (w0 AND 0x1fc00000) = MsgCount B"
    "push_bit 10 (w0 AND 0x003fffff) OR drop_bit 22 (w1 AND 0xffc00000) = bsm_id B"
    "drop_bit 6 (w1 AND 0x003fffc0) = secMark_ms B" "push_bit 25 (w1 AND 0x3f) OR drop_bit 7 (w2 AND 0xffffff80) = lat"
    using n by (simp_all only: f1 not_False_eq_True)
  have 2: "push_bit 25 (w2 AND 0x7f) OR drop_bit 7 (w3 AND 0xffffff80) = lon"
    "push_bit 9 (w3 AND 0x7f) OR drop_bit 23 (w4 AND 0xff800000) = ele"
    "drop_bit 15 (w4 AND 0x007f8000) = SemiMajorAxisAccuracy B" "drop_bit 7 (w4 AND 0x7f80) = SemiMinorAxisAccuracy B"
    "push_bit 9 (w4 AND 0x7f) OR drop_bit 23 (w5 AND 0xff800000) = SemiMajorAxisOrientation B"
    "drop_bit 20 (w5 AND 0x00700000) = TransmissionState B" "drop_bit 7 (w5 AND 0x000fff80) = Speed B"
    "push_bit 8 (w5 AND 0x7f) OR drop_bit 24 (w6 AND 0xff000000) = Heading_degrees B"
    using n f3(1) by (simp_all only: f2)
  have 3: "drop_bit 16 (w6 AND 0x00ff0000) = swa" "drop_bit 4 (w6 AND 0x0000fff0) = alon"
    "push_bit 8 (w6 AND 0xf) OR drop_bit 24 (w7 AND 0xff000000) = alat"
    "drop_bit 16 (w7 AND 0x00ff0000) = vert" "w7 AND 0x0000ffff = yaw"
    "ucast (drop_bit 16 w8) = brakes_word B OR ucast (drop_bit 9 (VehicleWidth_cm B))"
    "drop_bit 7 (w8 AND 0x0001ff80) = VehicleWidth_cm B"
    "push_bit 5 (w8 AND 0x7f) OR drop_bit 3 (ucast b AND 0xf8) = VehicleLength_cm B"
    using n by (simp_all only: f3 b(2))
  have top: "w0 AND 0x80000000 = 0" "w0 AND 0x40000000 = 0" "w0 AND 0x20000000 = 0"
    using and_bit_eq [of 31 w0] and_bit_eq [of 30 w0] and_bit_eq [of 29 w0] 1(1-3) by simp_all
  have orig: "lat + LATITUDE_OFFSET = Latitude B" "lon + LONGITUDE_OFFSET = Longitude B" "ele + ELEVATION_OFFSET = Elevation B"
    "swa + SWA_OFFSET = SteeringWheelAngle B" "alon + ACCEL_LON_OFFSET = AccelLon_cm_per_sec_squared B"
    "alat + ACCEL_LAT_OFFSET = AccelLat_cm_per_sec_squared B" "vert + ACCEL_VERT_OFFSET = AccelVert_two_centi_gs B"
    "yaw + ACCEL_YAW_OFFSET = AccelYaw_centi_degrees_per_sec B"
    by (simp_all add: l a)
  have len: "\<not> (37 :: int) < MIN_BSM_CORE_OCTETS" "p + 36 \<le> p + 37 - 1" by simp_all
  show ?thesis unfolding decode_as_bsm_def if_not_P [OF len(1)] if_P [OF len(2)] g b(1) Let_def bind.bind_lunit top simp_thms if_False
      1 2 3 orig
    by (simp add: received_def bsm0_def ok(1))
qed

section \<open>All layers\<close>

text \<open>The header, its length, the security header with its length, and the message with its own.\<close>

definition message_bits :: "msg_contents \<Rightarrow> bool list" where
  "message_bits mc = wsm_bits (wsmp mc) @ nbits 8 43 @ nbits 8 (ucast (protocolVersion (ieee1609_2 mc))) @
     nbits 2 (tagclass (ieee1609_2 mc)) @ nbits 6 0 @ nbits 8 40 @ nbits 16 20 @ nbits 8 37 @ core_bits (j2735_msg mc)"

text \<open>A safety message to be sent in the clear, and a buffer to put it into.\<close>

definition sendable :: "msg_contents \<Rightarrow> bool" where
  "sendable mc \<longleftrightarrow> sae_stack mc \<and> plain_wsm (wsmp mc) \<and> sec_content (ieee1609_2 mc) = unsecuredData \<and> bsm_ok (j2735_msg mc)"

definition empty_buf :: "abuf \<Rightarrow> bool" where
  "empty_buf bp \<longleftrightarrow> buf_ok bp \<and> tail_bits_left bp = 8 \<and> buf_bits bp = [] \<and> head_headspace_bits bp = 0 \<and>
     296 \<le> tail_room bp \<and> 104 \<le> head_pos bp"

lemma aligned_head: "buf_ok b \<Longrightarrow> 8 dvd head_pos b \<Longrightarrow> head_headspace_bits b = 0"
proof -
  have "8 dvd 8 * x + h \<Longrightarrow> h < 8 \<Longrightarrow> h = 0" for x h :: nat by presburger
  then show "buf_ok b \<Longrightarrow> 8 dvd head_pos b \<Longrightarrow> head_headspace_bits b = 0" by (auto simp: buf_ok_def head_ok_def head_pos_def)
qed

lemma encode_msg_ok:
  assumes mc: "sendable mc" and buf: "empty_buf (mc_abuf mc)"
  shows "\<exists>mc'. encode_msg partII etsi mc = Some (46 + int (psid_size (wsmp_psid (wsmp mc))), mc') \<and> buf_ok (mc_abuf mc') \<and>
    buf_bits (mc_abuf mc') = message_bits mc \<and> head_headspace_bits (mc_abuf mc') = 0 \<and> tail_bits_left (mc_abuf mc') = 3"
proof -
  let ?c = "mc_abuf mc" and ?B = "j2735_msg mc" and ?w = "wsmp mc" and ?n = "psid_size (wsmp_psid (wsmp mc))"
  have m: "sae_stack mc" "plain_wsm ?w" "sec_content (ieee1609_2 mc) = 0" "\<not> has_partII ?B"
    using mc by (simp_all add: sendable_def bsm_ok_def)
  have c: "buf_ok ?c" "tail_bits_left ?c = 8" "buf_bits ?c = []" "head_headspace_bits ?c = 0" "296 \<le> tail_room ?c" "104 \<le> head_pos ?c"
    using buf by (simp_all add: empty_buf_def)
  have n: "1 \<le> ?n" "?n \<le> 4" using m(2) psid_size_le by (auto simp: plain_wsm_def)
  obtain b1 where b1: "encode_as_bsm partII ?B ?c = Some b1" "buf_ok b1" "tail_bits_left b1 = 3"
    "buf_bits b1 = nbits 16 20 @ nbits 8 37 @ core_bits ?B" "head_pos b1 = head_pos ?c - 24"
    using encode_bsm_ok [OF c(1-3,5) _ m(4)] c(6) by auto
  define mc1 where "mc1 = mc\<lparr>j2735_msg_id := J2735_MSGID_BASIC_SAFETY, mc_abuf := b1\<rparr>"
  have r1: "encode_as_j2735 partII (mc\<lparr>j2735_msg_id := J2735_MSGID_BASIC_SAFETY\<rparr>) = Some (0, mc1)"
    using b1(1) by (simp add: encode_as_j2735_def mc1_def)
  have 1: "mc_abuf mc1 = b1" "ieee1609_2 mc1 = ieee1609_2 mc" "wsmp mc1 = ?w" by (simp_all add: mc1_def)
  have L: "length (buf_bits b1) = 317" "bytes_of_bits 317 = 40" "bytes_of_bits 341 = 43"
    by (simp_all add: b1(4) bytes_of_bits_def)
  have room1: "24 \<le> head_pos (mc_abuf mc1)" unfolding 1 using b1(5) c(6) by linarith
  obtain b2 where b2: "ieee1609_2_encode_unsecured mc1 = Some (0, mc1\<lparr>mc_abuf := b2\<rparr>)" "buf_ok b2" "same_tail b1 b2"
    "buf_bits b2 = nbits 8 (ucast (protocolVersion (ieee1609_2 mc))) @ nbits 2 (tagclass (ieee1609_2 mc)) @ nbits 6 0 @
      nbits 8 40 @ buf_bits b1" "head_pos b2 = head_pos b1 - 24"
    using encode_security_ok [of mc1] b1(2) room1 m(3) L unfolding 1 by auto
  have L2: "length (buf_bits b2) = 341" using b2(4) L(1) by simp
  have t2: "tail_bits_left b2 \<noteq> 8" using b2(3) b1(3) by (simp add: same_tail_def)
  have room2: "56 \<le> head_pos b2" using b2(5) b1(5) c(6) by linarith
  obtain r w' f b3 where b3: "encode_wsm2016 ?w (the (abuf_alloc 2000 20)) b2 = Some (r, w', f, b3)" "0 \<le> r" "buf_ok b3"
    "buf_bits b3 = wsm_bits ?w @ nbits 8 43 @ buf_bits b2" "same_tail b2 b3" "head_pos b3 = head_pos b2 - 8 - length (wsm_bits ?w)"
    using encode_wsm_ok [OF m(2) b2(2) t2 _ _ room2] L L2 by auto
  define mc' where "mc' = mc1\<lparr>wsmp := w', mc_abuf := b3\<rparr>"
  have alloc: "abuf_alloc 2000 20 = Some (the (abuf_alloc 2000 20))" by (simp add: abuf_alloc_def)
  have r3: "wsmp_encode (mc1\<lparr>mc_abuf := b2\<rparr>) = Some (r, mc')"
    unfolding wsmp_encode_def by (subst alloc) (simp add: 1 b3(1) mc'_def)
  have left: "tail_bits_left b3 = 3" using b3(5) b2(3) b1(3) by (simp add: same_tail_def)
  have wl: "length (wsm_bits ?w) = 8 * (2 + ?n)" by (simp add: wsm_bits_def)
  have "8 dvd head_pos ?c" using c(4) by (simp add: head_pos_def)
  moreover have "head_pos b3 = head_pos ?c - 8 * (9 + ?n)" using b3(6) b2(5) b1(5) wl by simp
  ultimately have hs: "head_headspace_bits b3 = 0" by (intro aligned_head [OF b3(3)]) (simp add: dvd_diff_nat)
  have "length (buf_bits b3) = 365 + 8 * ?n" using b3(4) wl L2 by simp
  then have "tail_pos b3 - head_pos b3 = 365 + 8 * ?n" by (simp add: buf_bits_def)
  then have "ab_tail b3 - ab_data b3 = 45 + int ?n"
    using b3(3) hs left by (auto simp: buf_ok_def head_ok_def tail_ok_def head_pos_def tail_pos_def)
  then have len: "abuf_byte_len b3 = 46 + int ?n" using left by (simp add: abuf_byte_len_def)
  have "encode_msg partII etsi mc = Some (46 + int ?n, mc')"
    using m(1) b3(2) unfolding encode_msg_def if_P [OF m(1)] r1 by (simp add: b2(1) r3) (simp add: mc'_def len)
  then show ?thesis using b3(3,4) b2(4) b1(4) hs left by (auto simp: mc'_def message_bits_def)
qed

lemma at_2_6:
  assumes s: "sees_at blk p (nbits 2 a @ nbits 6 b @ r)"
  shows "get_next_n_bits blk p 2 8 = Some (a AND mask 2, p, 6)" and "get_next_n_bits blk p 6 6 = Some (b AND mask 6, p + 1, 8)"
    and "sees_at blk (p + 1) r"
proof -
  have p0: "0 \<le> p" and ab: "sees blk (8 * nat p) (nbits 2 a)" "sees blk (8 * nat p + 2) (nbits 6 b)"
    using s by (simp_all add: sees_at_def sees_append)
  have r8: "reader_ok blk p 8" "rpos p 8 = 8 * nat p" and r6: "reader_ok blk p 6" "rpos p 6 = 8 * nat p + 2"
    using p0 by (simp_all add: reader_ok_def rpos_def)
  obtain cp left where 1: "get_next_n_bits blk p 2 8 = Some (a AND mask 2, cp, left)" "reader_ok blk cp left" "rpos cp left = 8 * nat p + 2"
    using sees_get [OF r8(1), of 2 a] ab(1) r8(2) by auto
  have "8 * t + (8 - l) = 8 * u + 2 \<Longrightarrow> 1 \<le> l \<Longrightarrow> l \<le> 8 \<Longrightarrow> l = 6 \<and> t = u" for t u l :: nat by presburger
  then have "left = 6" "nat cp = nat p" using 1(2,3) unfolding reader_ok_def rpos_def by blast+
  then show "get_next_n_bits blk p 2 8 = Some (a AND mask 2, p, 6)" using 1(1,2) p0 by (simp add: reader_ok_def)
  obtain cp left where 2: "get_next_n_bits blk p 6 6 = Some (b AND mask 6, cp, left)" "reader_ok blk cp left" "rpos cp left = 8 * (nat p + 1)"
    using sees_get [OF r6(1), of 6 b] ab(2) r6(2) by auto
  show "get_next_n_bits blk p 6 6 = Some (b AND mask 6, p + 1, 8)" using 2(1) aligned_pos [OF 2(2,3)] p0 by simp
  show "sees_at blk (p + 1) r" using at_append [of blk p "nbits 2 a @ nbits 6 b" r 1] s by simp
qed

lemma pull8_ok: "rd (ab_block bp) (ab_data bp) = Some b \<Longrightarrow> ab_data bp + 1 \<le> ab_tail bp \<Longrightarrow>
    pull8 bp = Some (b, bp\<lparr>ab_data := ab_data bp + 1\<rparr>)"
  by (simp add: pull8_def abuf_pull_def)

text \<open>The WSMP layer.\<close>

lemma wsmp_decode_ok:
  assumes s: "sees_at (ab_block (mc_abuf rc)) (ab_data (mc_abuf rc)) (wsm_bits w @ nbits 8 43 @ r)" and w: "plain_wsm w"
    and tail: "ab_data (mc_abuf rc) + 2 \<le> ab_tail (mc_abuf rc)"
  defines "D \<equiv> ab_data (mc_abuf rc) + 3 + int (psid_size (wsmp_psid w))"
  shows "wsmp_decode savari rc = Some (0, rc\<lparr>mc_abuf := (mc_abuf rc)\<lparr>ab_data := D\<rparr>, payload_len := 43, l3_payload := D, l3_payload_len := 43,
      wsmp := (wsmp rc)\<lparr>wsmp_version := 3, n_header := 3, tpid := 0, wsmp_psid := wsmp_psid w\<rparr>\<rparr>)"
    and "sees_at (ab_block (mc_abuf rc)) D r"
proof -
  let ?b = "ab_block (mc_abuf rc)" and ?p = "ab_data (mc_abuf rc)" and ?v = "wsmp_psid w"
  have v: "psid_ok ?v" using w by (simp add: plain_wsm_def)
  have 0: "sees_at ?b ?p (nbits 8 3 @ nbits 8 0 @ nbits (8 * psid_size ?v) (psid_code ?v) @ nbits 8 43 @ r)"
    using s by (simp add: wsm_bits_def)
  note a = at_byte [OF 0]
  note b = at_byte [OF a(2)]
  have 2: "sees_at ?b (?p + 2) (nbits (8 * psid_size ?v) (psid_code ?v) @ nbits 8 43 @ r)" using b(2) by (simp add: add.assoc)
  note c = at_psid [OF 2 v]
  obtain x where x: "rd ?b (?p + 2) = Some x" "WSMP_PSID_FIELD_SIZE x = psid_size ?v" using c(2) by blast
  have 3: "sees_at ?b (?p + 2 + int (psid_size ?v)) (nbits 8 (of_int 43) @ r)" using c(3) by simp
  note e = at_length [OF 3]
  have pp: "pull_psid (mc_abuf rc\<lparr>ab_data := ?p + 2\<rparr>) = Some (?v, mc_abuf rc\<lparr>ab_data := ?p + 2 + int (psid_size ?v)\<rparr>)"
    by (simp add: pull_psid_def c(1) x abuf_pull_def)
  have t: "wsmp_decode_t_header savari (rc\<lparr>mc_abuf := mc_abuf rc\<lparr>ab_data := ?p + 1\<rparr>, wsmp := W\<rparr>) =
      Some (0, rc\<lparr>mc_abuf := (mc_abuf rc)\<lparr>ab_data := D\<rparr>, wsmp := W\<lparr>tpid := 0, wsmp_psid := ?v\<rparr>, payload_len := 43\<rparr>)" for W
    using b(1) tail pp e
    by (simp add: wsmp_decode_t_header_def pull8_ok D_def Let_def add.assoc)
  have "wsmp_decode_header savari rc = Some (0, rc\<lparr>mc_abuf := (mc_abuf rc)\<lparr>ab_data := D\<rparr>,
      wsmp := (wsmp rc)\<lparr>wsmp_version := 3, n_header := 3, tpid := 0, wsmp_psid := ?v\<rparr>, payload_len := 43\<rparr>)"
    using a(1) tail by (simp add: wsmp_decode_header_def pull8_ok t Let_def)
  then show "wsmp_decode savari rc = Some (0, rc\<lparr>mc_abuf := (mc_abuf rc)\<lparr>ab_data := D\<rparr>, payload_len := 43, l3_payload := D, l3_payload_len := 43,
      wsmp := (wsmp rc)\<lparr>wsmp_version := 3, n_header := 3, tpid := 0, wsmp_psid := ?v\<rparr>\<rparr>)"
    by (simp add: wsmp_decode_def)
  show "sees_at ?b D r" using at_byte(2) [OF 3] by (simp add: D_def algebra_simps)
qed

text \<open>The security header and the message.\<close>

lemma security_decode_ok:
  assumes s: "sees_at (ab_block (mc_abuf rc)) (ab_data (mc_abuf rc)) (nbits 8 (ucast v) @ nbits 2 tc @ nbits 6 0 @ nbits 8 40 @ r)"
    and tail: "ab_data (mc_abuf rc) + 1 \<le> ab_tail (mc_abuf rc)"
  shows "ieee1609_2_decode_unsecured rc = Some (0, rc\<lparr>mc_abuf := (mc_abuf rc)\<lparr>ab_data := ab_data (mc_abuf rc) + 3\<rparr>, payload_len := 40,
      ieee1609_2 := \<lparr>protocolVersion = v, tagclass = tc AND mask 2, sec_content = 0\<rparr>\<rparr>)"
    and "sees_at (ab_block (mc_abuf rc)) (ab_data (mc_abuf rc) + 3) r"
proof -
  note a = at_byte [OF s]
  note b = at_2_6 [OF a(2)]
  have 3: "sees_at (ab_block (mc_abuf rc)) (ab_data (mc_abuf rc) + 2) (nbits 8 (of_int 40) @ r)" using b(3) by (simp add: add.assoc)
  note c = at_length [OF 3]
  have v: "low8 (ucast v) = v" by (rule bit_word_eqI) (auto simp: bit_simps dest: bit_imp_le_length)
  show "ieee1609_2_decode_unsecured rc = Some (0, rc\<lparr>mc_abuf := (mc_abuf rc)\<lparr>ab_data := ab_data (mc_abuf rc) + 3\<rparr>, payload_len := 40,
      ieee1609_2 := \<lparr>protocolVersion = v, tagclass = tc AND mask 2, sec_content = 0\<rparr>\<rparr>)"
    using a(1) b(1,2) c(3) tail v by (simp add: ieee1609_2_decode_unsecured_def abuf_pull_def add.assoc)
  show "sees_at (ab_block (mc_abuf rc)) (ab_data (mc_abuf rc) + 3) r" using at_byte(2) [OF 3] by (simp add: add.assoc)
qed

lemma j2735_decode_ok:
  assumes s: "sees_at (ab_block (mc_abuf rc)) (ab_data (mc_abuf rc)) (nbits 16 20 @ nbits 8 37 @ core_bits B @ r)"
    and tail: "ab_data (mc_abuf rc) + 4 < ab_tail (mc_abuf rc)" and B: "bsm_ok B"
  shows "decode_as_j2735 partII now rc = Some (20, rc\<lparr>mc_abuf := (mc_abuf rc)\<lparr>ab_data := ab_data (mc_abuf rc) + 3\<rparr>, payload_len := 37,
      j2735_msg := received now B, j2735_msg_id := 20\<rparr>)"
proof -
  note a = at_16 [OF s]
  have 3: "sees_at (ab_block (mc_abuf rc)) (ab_data (mc_abuf rc) + 2) (nbits 8 (of_int 37) @ core_bits B @ r)" using a(2) by simp
  note c = at_length [OF 3]
  have 4: "sees_at (ab_block (mc_abuf rc)) (ab_data (mc_abuf rc) + 3) (core_bits B @ r)" using at_byte(2) [OF 3] by (simp add: add.assoc)
  show ?thesis using a(1) c(1) tail decode_bsm_ok [OF 4 B, of partII now]
    by (simp add: decode_as_j2735_def abuf_pull_def add.assoc Let_def)
qed

text \<open>What is sent is received, by any receiver.\<close>

lemma decode_msg_ok:
  assumes mc: "sendable mc" and rc: "sae_stack rc" and b: "buf_ok (mc_abuf rc)" "buf_bits (mc_abuf rc) = message_bits mc"
    "head_headspace_bits (mc_abuf rc) = 0" "tail_bits_left (mc_abuf rc) = 3"
  shows "\<exists>rc'. decode_msg partII etsi savari now rc = Some (0, rc') \<and> j2735_msg rc' = received now (j2735_msg mc) \<and>
    wsmp_psid (wsmp rc') = wsmp_psid (wsmp mc) \<and> protocolVersion (ieee1609_2 rc') = protocolVersion (ieee1609_2 mc) \<and>
    tagclass (ieee1609_2 rc') = tagclass (ieee1609_2 mc) AND mask 2 \<and> sec_content (ieee1609_2 rc') = unsecuredData"
proof -
  let ?a = "mc_abuf rc" and ?n = "psid_size (wsmp_psid (wsmp mc))" and ?ie = "ieee1609_2 mc"
  have w: "plain_wsm (wsmp mc)" and B: "bsm_ok (j2735_msg mc)" using mc by (simp_all add: sendable_def)
  have n: "1 \<le> ?n" using w psid_size_le by (auto simp: plain_wsm_def)
  have "length (buf_bits ?a) = 365 + 8 * ?n" by (simp add: b(2) message_bits_def wsm_bits_def)
  then have "tail_pos ?a - head_pos ?a = 365 + 8 * ?n" by (simp add: buf_bits_def)
  then have tail: "ab_tail ?a = ab_data ?a + 45 + int ?n"
    using b(1,3,4) by (auto simp: buf_ok_def head_ok_def tail_ok_def head_pos_def tail_pos_def)
  have "0 \<le> ab_data ?a" "head_pos ?a = 8 * nat (ab_data ?a)" using b(1,3) by (simp_all add: buf_ok_def head_ok_def head_pos_def)
  then have s: "sees_at (ab_block ?a) (ab_data ?a) (wsm_bits (wsmp mc) @ nbits 8 43 @ nbits 8 (ucast (protocolVersion ?ie)) @
      nbits 2 (tagclass ?ie) @ nbits 6 0 @ nbits 8 40 @ nbits 16 20 @ nbits 8 37 @ core_bits (j2735_msg mc) @ [])"
    using sees_buf [OF b(1)] by (simp add: sees_at_def b(2) message_bits_def)
  define D where "D = ab_data ?a + 3 + int ?n"
  define r1 where "r1 = rc\<lparr>mc_abuf := ?a\<lparr>ab_data := D\<rparr>, payload_len := 43, l3_payload := D, l3_payload_len := 43,
      wsmp := (wsmp rc)\<lparr>wsmp_version := 3, n_header := 3, tpid := 0, wsmp_psid := wsmp_psid (wsmp mc)\<rparr>\<rparr>"
  have d1: "wsmp_decode savari rc = Some (0, r1)" and s1: "sees_at (ab_block (mc_abuf r1)) (ab_data (mc_abuf r1))
      (nbits 8 (ucast (protocolVersion ?ie)) @ nbits 2 (tagclass ?ie) @ nbits 6 0 @ nbits 8 40 @ nbits 16 20 @ nbits 8 37 @ core_bits (j2735_msg mc) @ [])"
    using wsmp_decode_ok [OF s w] tail by (simp_all add: r1_def D_def)
  have a1: "ab_tail (mc_abuf r1) = ab_data (mc_abuf r1) + 42" by (simp add: r1_def D_def tail)
  define r2 where "r2 = r1\<lparr>mc_abuf := (mc_abuf r1)\<lparr>ab_data := ab_data (mc_abuf r1) + 3\<rparr>, payload_len := 40,
      ieee1609_2 := \<lparr>protocolVersion = protocolVersion ?ie, tagclass = tagclass ?ie AND mask 2, sec_content = 0\<rparr>\<rparr>"
  have d2: "ieee1609_2_decode_unsecured r1 = Some (0, r2)" and s2: "sees_at (ab_block (mc_abuf r2)) (ab_data (mc_abuf r2))
      (nbits 16 20 @ nbits 8 37 @ core_bits (j2735_msg mc) @ [])"
    using security_decode_ok [OF s1] a1 by (simp_all add: r2_def)
  have a2: "ab_data (mc_abuf r2) + 4 < ab_tail (mc_abuf r2)" using a1 by (simp add: r2_def)
  note d3 = j2735_decode_ok [OF s2 a2 B]
  have "sec_content (ieee1609_2 r2) = 0" by (simp add: r2_def)
  then show ?thesis using rc d1 d2 d3 [of partII now] by (simp add: decode_msg_def) (simp add: r2_def r1_def)
qed

section \<open>A message to test with\<close>

definition demo_bsm :: bsm where
  "demo_bsm = bsm0\<lparr>MsgCount := 5, bsm_id := 0xCAFE0001, secMark_ms := 12345, Latitude := 374000000, Longitude := - 1220000000,
     Elevation := 120, Speed := 1000, Heading_degrees := 28000, VehicleWidth_cm := 180, VehicleLength_cm := 480\<rparr>"

definition demo_msg :: msg_contents where
  "demo_msg = \<lparr>sae_stack = True, mc_abuf = the (abuf_alloc 512 100), payload_len = 0, l3_payload = 0, l3_payload_len = 0,
     wsmp = \<lparr>wsmp_version = 3, n_header = 3, src_port = 0, dst_port = 0, inc_rate_ext = False, inc_chan_ext = False,
       inc_pwr_ext = False, inc_load_ext = False, weid_qty = 0, wsmp_rate = 0, wsmp_chan = 0, wsmp_pwr = 0, tpid = 0, wsmp_psid = 32,
       chan_load = [], chan_load_len = 0\<rparr>,
     btp = \<lparr>btp_type_A = False, s_port = 0, d_port = 2001, dp_info = 0\<rparr>, j2735_msg = demo_bsm, j2735_msg_id = 0,
     ieee1609_2 = \<lparr>protocolVersion = 3, tagclass = 2, sec_content = 0\<rparr>\<rparr>"

lemma demo_ok: "sendable demo_msg" "empty_buf (mc_abuf demo_msg)"
proof -
  show "sendable demo_msg"
    by (simp add: sendable_def demo_msg_def plain_wsm_def psid_ok_def bsm_ok_def demo_bsm_def bsm0_def)
  show "empty_buf (mc_abuf demo_msg)"
    using buf_ok_alloc [of 512 100 "the (abuf_alloc 512 100)"] by (simp add: empty_buf_def demo_msg_def abuf_alloc_def)
qed

end
