(* ===== verification/AtTok.thy ===== *)
theory AtTok
  imports Interfaces
begin

text \<open>
  \<open>services/ril/reference-ril/at_tok.c\<close> and \<open>misc.c\<close>: taking apart the lines that a modem answers. A
  cursor is the rest of the line it points to, \<open>None\<close> when it is null; the terminators that \<open>strsep\<close>
  writes into the line lie before the cursor, so a token and the rest of the line are independent.
\<close>

section \<open>The C library\<close>

text \<open>\<open>isspace\<close> in the C locale, \<open>strchr\<close>, \<open>strsep\<close> with one delimiter, and \<open>strtol\<close> and \<open>strtoul\<close> on
  64-bit \<open>long\<close>, whose second result says whether any digit was read.\<close>

definition isspace :: "u8 \<Rightarrow> bool" where
  "isspace c \<longleftrightarrow> c = 0x20 \<or> 0x09 \<le> c \<and> c \<le> 0x0D"

definition strchr :: "u8 \<Rightarrow> u8 list \<Rightarrow> u8 list option" where
  "strchr c s = (case dropWhile (\<lambda>x. x \<noteq> c) s of [] \<Rightarrow> None | r \<Rightarrow> Some r)"

definition strsep :: "u8 \<Rightarrow> cstr \<Rightarrow> cstr \<times> cstr" where
  "strsep c p =
     (case p of
        None \<Rightarrow> (None, None)
      | Some s \<Rightarrow> (Some (takeWhile (\<lambda>x. x \<noteq> c) s),
          case dropWhile (\<lambda>x. x \<noteq> c) s of [] \<Rightarrow> None | x # r \<Rightarrow> Some r))"

lemma dropWhile_until: "c \<notin> set s \<Longrightarrow> dropWhile (\<lambda>x. x \<noteq> c) (s @ r) = dropWhile (\<lambda>x. x \<noteq> c) r"
  and takeWhile_until: "c \<notin> set s \<Longrightarrow> takeWhile (\<lambda>x. x \<noteq> c) (s @ r) = s @ takeWhile (\<lambda>x. x \<noteq> c) r"
  by (induction s) auto

definition digit_value :: "u8 \<Rightarrow> nat option" where
  "digit_value c =
     (if 0x30 \<le> c \<and> c \<le> 0x39 then Some (unat c - 48)
      else if 0x61 \<le> c \<and> c \<le> 0x7A then Some (unat c - 87)
      else if 0x41 \<le> c \<and> c \<le> 0x5A then Some (unat c - 55)
      else None)"

fun number_digits :: "nat \<Rightarrow> u8 list \<Rightarrow> nat list" where
  "number_digits base [] = []"
| "number_digits base (c # s) =
     (case digit_value c of
        None \<Rightarrow> []
      | Some d \<Rightarrow> if d < base then d # number_digits base s else [])"

definition value_of :: "nat \<Rightarrow> nat list \<Rightarrow> nat" where
  "value_of base ds = foldl (\<lambda>a d. a * base + d) 0 ds"

definition skip_0x :: "nat \<Rightarrow> u8 list \<Rightarrow> u8 list" where
  "skip_0x base s =
     (if base = 16 \<and> (take 2 s = [0x30, 0x78] \<or> take 2 s = [0x30, 0x58]) \<and> number_digits base (drop 2 s) \<noteq> []
      then drop 2 s else s)"

definition read_number :: "nat \<Rightarrow> u8 list \<Rightarrow> bool \<times> nat list" where
  "read_number base s =
     (let s = dropWhile isspace s;
          neg = (s \<noteq> [] \<and> hd s = 0x2D);
          s = (if s \<noteq> [] \<and> (hd s = 0x2D \<or> hd s = 0x2B) then tl s else s) in
      (neg, number_digits base (skip_0x base s)))"

definition strtol :: "u8 list \<Rightarrow> nat \<Rightarrow> int \<times> bool" where
  "strtol s base =
     (let (neg, ds) = read_number base s; v = int (value_of base ds) in
      (if neg then max (- (2 ^ 63)) (- v) else min (2 ^ 63 - 1) v, ds \<noteq> []))"

definition strtoul :: "u8 list \<Rightarrow> nat \<Rightarrow> int \<times> bool" where
  "strtoul s base =
     (let (neg, ds) = read_number base s; v = int (value_of base ds) in
      (if v > 2 ^ 64 - 1 then 2 ^ 64 - 1 else if neg then (- v) mod 2 ^ 64 else v, ds \<noteq> []))"

section \<open>Tokens\<close>

definition at_tok_start :: "cstr \<Rightarrow> int \<times> cstr" where
  "at_tok_start p =
     (case p of
        None \<Rightarrow> (- 1, None)
      | Some s \<Rightarrow> (case strchr 0x3A s of None \<Rightarrow> (- 1, None) | Some r \<Rightarrow> (0, Some (tl r))))"

definition skipWhiteSpace :: "cstr \<Rightarrow> cstr" where
  "skipWhiteSpace p = map_option (dropWhile isspace) p"

definition skipNextComma :: "cstr \<Rightarrow> cstr" where
  "skipNextComma p = map_option (\<lambda>s. case dropWhile (\<lambda>x. x \<noteq> 0x2C) s of [] \<Rightarrow> [] | x # r \<Rightarrow> r) p"

definition nextTok :: "cstr \<Rightarrow> cstr \<times> cstr" where
  "nextTok p =
     (case skipWhiteSpace p of
        None \<Rightarrow> (None, None)
      | Some s \<Rightarrow>
          if s \<noteq> [] \<and> hd s = 0x22 then
            let (tok, p) = strsep 0x22 (Some (tl s)) in (tok, skipNextComma p)
          else strsep 0x2C (Some s))"

text \<open>The return code, what is stored through \<open>p_out\<close> (if anything), and the cursor.\<close>

definition at_tok_nextint_base :: "cstr \<Rightarrow> nat \<Rightarrow> bool \<Rightarrow> int \<times> u32 option \<times> cstr" where
  "at_tok_nextint_base p base uns =
     (if p = None then (- 1, None, None)
      else case nextTok p of
        (None, p) \<Rightarrow> (- 1, None, p)
      | (Some tok, p) \<Rightarrow>
          let (l, any) = (if uns then strtoul tok base else strtol tok base) in
          (if any then 0 else - 1, Some (word_of_int l), p))"

definition at_tok_nextint :: "cstr \<Rightarrow> int \<times> u32 option \<times> cstr" where
  "at_tok_nextint p = at_tok_nextint_base p 10 False"

definition at_tok_nexthexint :: "cstr \<Rightarrow> int \<times> u32 option \<times> cstr" where
  "at_tok_nexthexint p = at_tok_nextint_base p 16 True"

definition at_tok_nextbool :: "cstr \<Rightarrow> int \<times> u8 option \<times> cstr" where
  "at_tok_nextbool p =
     (case at_tok_nextint p of
        (ret, out, p) \<Rightarrow>
          if ret < 0 then (- 1, None, p)
          else case out of
            None \<Rightarrow> (ret, None, p)
          | Some result \<Rightarrow>
              if \<not> (result = 0 \<or> result = 1) then (- 1, None, p)
              else (ret, Some (ucast result), p))"

definition at_tok_nextstr :: "cstr \<Rightarrow> int \<times> cstr option \<times> cstr" where
  "at_tok_nextstr p =
     (if p = None then (- 1, None, None)
      else let (tok, p) = nextTok p in (0, Some tok, p))"

definition at_tok_hasmore :: "cstr \<Rightarrow> bool" where
  "at_tok_hasmore p \<longleftrightarrow> \<not> (p = None \<or> p = Some [])"

text \<open>\<open>misc.c\<close>\<close>

fun strStartsWith :: "u8 list \<Rightarrow> u8 list \<Rightarrow> bool" where
  "strStartsWith (c # line) (x # prefix) = (c = x \<and> strStartsWith line prefix)"
| "strStartsWith line prefix = (prefix = [])"

end
