(* ===== verification/AtTokFacts.thy ===== *)
theory AtTokFacts
  imports AtTok
begin

text \<open>
  What the tokenizer makes of a line that is written as a prefix, a colon and fields with commas
  between them: the fields, in order, and then the end. The contract between the reader of one field
  and the loop over a line is the locale \<open>field_reader\<close>.
\<close>

section \<open>Lines of fields\<close>

text \<open>Reading fields of given kinds one after the other, and writing them with commas between them.\<close>

fun at_fields :: "('k \<Rightarrow> cstr \<Rightarrow> ('x \<times> cstr) option) \<Rightarrow> 'k list \<Rightarrow> cstr \<Rightarrow> ('x list \<times> cstr) option" where
  "at_fields get [] p = Some ([], p)"
| "at_fields get (k # ks) p = do {
     (x, p) \<leftarrow> get k p;
     (xs, p) \<leftarrow> at_fields get ks p;
     Some (x # xs, p)
   }"

fun at_render :: "('x \<Rightarrow> u8 list) \<Rightarrow> 'x list \<Rightarrow> u8 list" where
  "at_render render [] = []"
| "at_render render [x] = render x"
| "at_render render (x # y # xs) = render x @ 0x2C # at_render render (y # xs)"

lemma at_fields_Cons:
  "get k p = Some (x, p') \<Longrightarrow> at_fields get ks p' = Some (xs, p'') \<Longrightarrow> at_fields get (k # ks) p = Some (x # xs, p'')"
  by simp

text \<open>A field stands before a comma or at the end of the line.\<close>

locale field_reader =
  fixes get :: "'k \<Rightarrow> cstr \<Rightarrow> ('x \<times> cstr) option" and kind :: "'x \<Rightarrow> 'k"
    and render :: "'x \<Rightarrow> u8 list" and valid :: "'x \<Rightarrow> bool"
  assumes get_before: "valid x \<Longrightarrow> get (kind x) (Some (render x @ 0x2C # r)) = Some (x, Some r)"
    and get_last: "valid x \<Longrightarrow> \<exists>p. get (kind x) (Some (render x)) = Some (x, p) \<and> \<not> at_tok_hasmore p"
begin

lemma at_render_read:
  "list_all valid xs \<Longrightarrow> xs \<noteq> [] \<Longrightarrow>
     \<exists>p. at_fields get (map kind xs) (Some (at_render render xs)) = Some (xs, p) \<and> \<not> at_tok_hasmore p"
proof (induction xs rule: induct_list012)
  case 1
  then show ?case by simp
next
  case (2 x)
  then show ?case using get_last [of x] by auto
next
  case (3 x y xs)
  then obtain p where a: "at_fields get (kind y # map kind xs) (Some (at_render render (y # xs))) = Some (y # xs, p)"
    and p: "\<not> at_tok_hasmore p" by auto
  have b: "get (kind x) (Some (at_render render (x # y # xs))) = Some (x, Some (at_render render (y # xs)))"
    using get_before [of x "at_render render (y # xs)"] 3 by simp
  from at_fields_Cons [of get, OF b a] p show ?case by (simp only: list.map) blast
qed

end

section \<open>Digits\<close>

function digits :: "nat \<Rightarrow> nat \<Rightarrow> nat list" where
  "digits base n = (if base < 2 \<or> n < base then [n] else digits base (n div base) @ [n mod base])"
  by pat_completeness auto
termination by (relation "measure snd") (auto intro: div_less_dividend)

declare digits.simps [simp del]

definition digit_char :: "nat \<Rightarrow> u8" where
  "digit_char d = (if d < 10 then of_nat (48 + d) else of_nat (87 + d))"

lemma digits_value: "2 \<le> base \<Longrightarrow> value_of base (digits base n) = n"
proof (induction base n rule: digits.induct)
  case (1 base n)
  then show ?case by (subst digits.simps) (auto simp: value_of_def)
qed

lemma digits_below: "2 \<le> base \<Longrightarrow> list_all (\<lambda>d. d < base) (digits base n)"
proof (induction base n rule: digits.induct)
  case (1 base n)
  then show ?case by (subst digits.simps) auto
qed

lemma digits_not_Nil [simp]: "digits base n \<noteq> []"
  by (subst digits.simps) simp

lemma digits_hd_pos: "2 \<le> base \<Longrightarrow> 0 < n \<Longrightarrow> hd (digits base n) \<noteq> 0"
proof (induction base n rule: digits.induct)
  case (1 base n)
  show ?case
  proof (cases "n < base")
    case True
    then show ?thesis using 1 by (subst digits.simps) simp
  next
    case False
    then have "0 < n div base" using 1 by (simp add: div_greater_zero_iff)
    then show ?thesis using 1 False by (subst digits.simps) simp
  qed
qed

text \<open>What the tokenizer asks about a character of a number.\<close>

lemma digit_char_facts:
  assumes "d < 16"
  shows "digit_value (digit_char d) = Some d" "\<not> isspace (digit_char d)"
    "digit_char d \<noteq> 0x2C" "digit_char d \<noteq> 0x22" "digit_char d \<noteq> 0x2D" "digit_char d \<noteq> 0x2B"
    "digit_char d \<noteq> 0x78" "digit_char d \<noteq> 0x58"
proof -
  have "list_all (\<lambda>d. digit_value (digit_char d) = Some d \<and> \<not> isspace (digit_char d) \<and>
      digit_char d \<notin> {0x2C, 0x22, 0x2D, 0x2B, 0x78, 0x58}) [0..<16]"
    by code_simp
  moreover have "d \<in> set [0..<16]" using assms by simp
  ultimately show "digit_value (digit_char d) = Some d" "\<not> isspace (digit_char d)"
    "digit_char d \<noteq> 0x2C" "digit_char d \<noteq> 0x22" "digit_char d \<noteq> 0x2D" "digit_char d \<noteq> 0x2B"
    "digit_char d \<noteq> 0x78" "digit_char d \<noteq> 0x58"
    unfolding list_all_iff by blast+
qed

section \<open>Numbers\<close>

definition show_digits :: "nat \<Rightarrow> nat \<Rightarrow> u8 list" where
  "show_digits base n = map digit_char (digits base n)"

definition show_int :: "u32 \<Rightarrow> u8 list" where
  "show_int w =
     (if sint w < 0 then 0x2D # show_digits 10 (nat (- sint w)) else show_digits 10 (nat (sint w)))"

definition show_hex :: "u32 \<Rightarrow> u8 list" where
  "show_hex w = show_digits 16 (unat w)"

lemma number_digits_chars:
  "base \<le> 16 \<Longrightarrow> list_all (\<lambda>d. d < base) ds \<Longrightarrow> number_digits base (map digit_char ds) = ds"
  by (induction ds) (auto simp: digit_char_facts)

lemma show_digits_chars:
  assumes "2 \<le> base" "base \<le> 16" "c \<in> set (show_digits base n)"
  shows "\<not> isspace c" "c \<notin> {0x2C, 0x22, 0x2D, 0x2B, 0x78, 0x58}"
  using assms digits_below [of base n] by (auto simp: show_digits_def list_all_iff digit_char_facts)

lemma show_digits_not_Nil [simp]: "show_digits base n \<noteq> []"
  by (simp add: show_digits_def)

lemma show_digits_hd:
  assumes "2 \<le> base" "base \<le> 16"
  shows "\<not> isspace (hd (show_digits base n))" "hd (show_digits base n) \<noteq> 0x2D" "hd (show_digits base n) \<noteq> 0x2B"
  using show_digits_chars [OF assms hd_in_set, of n] by auto

lemma skip_0x_show_digits: "2 \<le> base \<Longrightarrow> base \<le> 16 \<Longrightarrow> skip_0x base (show_digits base n) = show_digits base n"
  using show_digits_chars(2) [of base _ n] unfolding skip_0x_def
  by (metis (no_types, lifting) in_set_takeD insertCI list.set_intros(1) list.set_intros(2))

lemma read_number_show_digits:
  assumes "2 \<le> base" "base \<le> 16"
  shows "read_number base (show_digits base n) = (False, digits base n)"
    and "read_number base (0x2D # show_digits base n) = (True, digits base n)"
proof -
  have "dropWhile isspace (show_digits base n) = show_digits base n"
    using show_digits_hd(1) [OF assms, of n] by (cases "show_digits base n") auto
  moreover have "number_digits base (show_digits base n) = digits base n"
    using assms digits_below by (simp add: show_digits_def number_digits_chars)
  moreover have "\<not> isspace 0x2D" by (simp add: isspace_def)
  ultimately show "read_number base (show_digits base n) = (False, digits base n)"
    and "read_number base (0x2D # show_digits base n) = (True, digits base n)"
    using show_digits_hd [OF assms, of n] skip_0x_show_digits [OF assms, of n] by (simp_all add: read_number_def)
qed

lemma strtol_show_int: "strtol (show_int w) 10 = (sint w, True)"
proof -
  have b: "- (2 ^ 31) \<le> sint w" "sint w < 2 ^ 31"
    using sint_ge [of w] sint_lt [of w] by simp_all
  show ?thesis
  proof (cases "sint w < 0")
    case True
    then show ?thesis using b
      by (simp add: strtol_def show_int_def read_number_show_digits digits_value)
  next
    case False
    then show ?thesis using b
      by (simp add: strtol_def show_int_def read_number_show_digits digits_value)
  qed
qed

lemma strtoul_show_hex: "strtoul (show_hex w) 16 = (uint w, True)"
proof -
  have "unat w < 4294967296" using unsigned_less [of w, where 'a = nat] by simp
  then show ?thesis
    by (simp add: Let_def strtoul_def show_hex_def read_number_show_digits digits_value)
qed

section \<open>One field\<close>

definition plain :: "u8 list \<Rightarrow> bool" where
  "plain s \<longleftrightarrow> 0x2C \<notin> set s \<and> (s \<noteq> [] \<longrightarrow> \<not> isspace (hd s) \<and> hd s \<noteq> 0x22)"

abbreviation spaces :: "nat \<Rightarrow> u8 list" where
  "spaces n \<equiv> replicate n 0x20"

lemma isspace_codes [simp]: "isspace 0x20" "\<not> isspace 0x2C" "\<not> isspace 0x22" "\<not> isspace 0x2D"
  by (simp_all add: isspace_def)

lemma skip_spaces [simp]: "dropWhile isspace (spaces n @ s) = dropWhile isspace s"
  by (induction n) auto

lemma strsep_before: "c \<notin> set s \<Longrightarrow> strsep c (Some (s @ c # r)) = (Some s, Some r)"
  by (simp add: strsep_def dropWhile_until takeWhile_until)

lemma strsep_last: "c \<notin> set s \<Longrightarrow> strsep c (Some s) = (Some s, None)"
proof -
  assume "c \<notin> set s"
  then have "dropWhile (\<lambda>x. x \<noteq> c) s = []" "takeWhile (\<lambda>x. x \<noteq> c) s = s"
    by (auto simp: dropWhile_eq_Nil_conv takeWhile_eq_all_conv)
  then show ?thesis by (simp add: strsep_def del: dropWhile_eq_Nil_conv takeWhile_eq_all_conv)
qed

lemma nextTok_plain:
  assumes "plain s"
  shows "nextTok (Some (spaces n @ s @ 0x2C # r)) = (Some s, Some r)"
    and "nextTok (Some (spaces n @ s)) = (Some s, None)"
proof -
  have "dropWhile isspace (s @ 0x2C # r) = s @ 0x2C # r" "dropWhile isspace s = s"
    using assms by (cases s; simp add: plain_def)+
  moreover have "0x2C \<notin> set s" and "s \<noteq> [] \<Longrightarrow> hd s \<noteq> 0x22" using assms by (auto simp: plain_def)
  ultimately show "nextTok (Some (spaces n @ s @ 0x2C # r)) = (Some s, Some r)"
    and "nextTok (Some (spaces n @ s)) = (Some s, None)"
    by (cases s; simp add: nextTok_def skipWhiteSpace_def strsep_last strsep_before [of _ "_ # _", simplified]
      strsep_before [of _ "[]", simplified])+
qed

lemma nextTok_quoted:
  assumes "0x22 \<notin> set s"
  shows "nextTok (Some (spaces n @ 0x22 # s @ 0x22 # 0x2C # r)) = (Some s, Some r)"
    and "nextTok (Some (spaces n @ 0x22 # s @ [0x22])) = (Some s, Some [])"
  using assms by (simp_all add: nextTok_def skipWhiteSpace_def strsep_before skipNextComma_def)

datatype at_field = AtInt u32 | AtHex u32 | AtBool bool | AtStr "u8 list"

datatype at_kind = KInt | KHex | KBool | KStr

fun kind_of :: "at_field \<Rightarrow> at_kind" where
  "kind_of (AtInt w) = KInt"
| "kind_of (AtHex w) = KHex"
| "kind_of (AtBool b) = KBool"
| "kind_of (AtStr s) = KStr"

text \<open>How a client reads one field: the call for its kind, which has to return 0.\<close>

fun read_field :: "at_kind \<Rightarrow> cstr \<Rightarrow> (at_field \<times> cstr) option" where
  "read_field KInt p = (case at_tok_nextint p of (ret, out, p) \<Rightarrow>
     if ret < 0 then None else map_option (\<lambda>w. (AtInt w, p)) out)"
| "read_field KHex p = (case at_tok_nexthexint p of (ret, out, p) \<Rightarrow>
     if ret < 0 then None else map_option (\<lambda>w. (AtHex w, p)) out)"
| "read_field KBool p = (case at_tok_nextbool p of (ret, out, p) \<Rightarrow>
     if ret < 0 then None else map_option (\<lambda>c. (AtBool (c \<noteq> 0), p)) out)"
| "read_field KStr p = (case at_tok_nextstr p of (ret, out, p) \<Rightarrow>
     if ret < 0 then None else map_option (\<lambda>s. (AtStr s, p)) (Option.bind out (\<lambda>s. s)))"

text \<open>How a modem writes it: after any number of spaces, a string in quotes or not as \<open>q\<close> says.\<close>

fun show_field :: "(u8 list \<Rightarrow> bool) \<Rightarrow> at_field \<Rightarrow> u8 list" where
  "show_field q (AtInt w) = show_int w"
| "show_field q (AtHex w) = show_hex w"
| "show_field q (AtBool b) = [if b then 0x31 else 0x30]"
| "show_field q (AtStr s) = (if q s then 0x22 # s @ [0x22] else s)"

fun field_ok :: "(u8 list \<Rightarrow> bool) \<Rightarrow> at_field \<Rightarrow> bool" where
  "field_ok q (AtStr s) \<longleftrightarrow> 0 \<notin> set s \<and> (if q s then 0x22 \<notin> set s else plain s)"
| "field_ok q f \<longleftrightarrow> True"

definition render_field :: "nat \<Rightarrow> (u8 list \<Rightarrow> bool) \<Rightarrow> at_field \<Rightarrow> u8 list" where
  "render_field n q f = spaces n @ show_field q f"

lemma plain_digits: "2 \<le> base \<Longrightarrow> base \<le> 16 \<Longrightarrow> plain (show_digits base n)"
  "2 \<le> base \<Longrightarrow> base \<le> 16 \<Longrightarrow> plain (0x2D # show_digits base n)"
  using show_digits_chars [of base _ n] show_digits_chars [of base "hd (show_digits base n)" n]
  by (auto simp: plain_def)

lemma plain_numbers: "plain (show_int w)" "plain (show_hex w)" "plain [0x30]" "plain [0x31]"
  by (simp_all add: show_int_def show_hex_def plain_digits) (simp_all add: plain_def isspace_def)

lemma strtol_bool: "strtol [0x30] 10 = (0, True)" "strtol [0x31] 10 = (1, True)"
  by code_simp+

text \<open>A token that the tokenizer finds is read by each call as the number or string it stands for.\<close>

lemma read_field_token:
  assumes "nextTok p = (Some (show_field (\<lambda>s. False) f), p')" "p \<noteq> None"
  shows "read_field (kind_of f) p = Some (f, p')"
  using assms by (cases f)
    (simp_all add: at_tok_nextint_def at_tok_nexthexint_def at_tok_nextbool_def at_tok_nextstr_def
      at_tok_nextint_base_def strtol_show_int strtoul_show_hex strtol_bool split: if_splits)

lemma show_field_token:
  assumes "field_ok q f"
  shows "nextTok (Some (render_field n q f @ 0x2C # r)) = (Some (show_field (\<lambda>s. False) f), Some r)"
    and "\<exists>p. nextTok (Some (render_field n q f)) = (Some (show_field (\<lambda>s. False) f), p) \<and> \<not> at_tok_hasmore p"
  using assms by (cases f; auto simp: render_field_def at_tok_hasmore_def nextTok_quoted plain_numbers
      nextTok_plain nextTok_plain [of "[_]", simplified])+

interpretation fields: field_reader read_field kind_of "render_field n q" "field_ok q" for n q
proof
  fix f r
  assume "field_ok q f"
  then show "read_field (kind_of f) (Some (render_field n q f @ 0x2C # r)) = Some (f, Some r)"
    by (intro read_field_token show_field_token) simp_all
next
  fix f
  assume "field_ok q f"
  from show_field_token(2) [OF this, of n] show "\<exists>p. read_field (kind_of f) (Some (render_field n q f)) = Some (f, p) \<and>
      \<not> at_tok_hasmore p"
    using read_field_token by blast
qed

end
