(* ===== verification/AtChannel.thy ===== *)
theory AtChannel
  imports AtTok
begin

text \<open>
  \<open>services/ril/reference-ril/atchannel.c\<close>: the AT channel of the reference vendor library. A reader
  thread cuts what the modem sends into lines and sorts them into the response of the pending command
  and unsolicited ones; command threads send a command and wait for its response. Each critical section
  of \<open>s_commandmutex\<close> is one operation. \<open>None\<close> is an access outside the buffer or through a null
  pointer, or a thread that still waits when the listed events are used up. Small allocations succeed.
\<close>

section \<open>State\<close>

abbreviation MAX_AT_RESPONSE :: nat where "MAX_AT_RESPONSE \<equiv> 8192"

abbreviation (input) "AT_ERROR_GENERIC \<equiv> - 1 :: int"
abbreviation (input) "AT_ERROR_COMMAND_PENDING \<equiv> - 2 :: int"
abbreviation (input) "AT_ERROR_CHANNEL_CLOSED \<equiv> - 3 :: int"
abbreviation (input) "AT_ERROR_TIMEOUT \<equiv> - 4 :: int"
abbreviation (input) "AT_ERROR_INVALID_THREAD \<equiv> - 5 :: int"
abbreviation (input) "AT_ERROR_INVALID_RESPONSE \<equiv> - 6 :: int"

datatype ATCommandType = NO_RESULT | NUMERIC | SINGLELINE | MULTILINE

record ATResponse =
  success :: int
  finalResponse :: cstr
  p_intermediates :: "u8 list list"

text \<open>What the channel does that others see: bytes written, calls of the handler of unsolicited lines
  and of the callbacks, the descriptor closed.\<close>

datatype at_event = AtSent "u8 list" | Unsolicited "u8 list" cstr | OnTimeout | OnReaderClosed | FdClosed int

text \<open>The outcomes of \<open>write\<close>: bytes written, \<open>EINTR\<close>, another error.\<close>

datatype at_write = Wrote nat | WriteIntr | WriteErr

text \<open>The file's static variables; a callback is a flag that says whether it is set.\<close>

record atchannel =
  s_fd :: int
  s_unsolHandler :: bool
  s_type :: ATCommandType
  s_responsePrefix :: cstr
  s_smsPDU :: cstr
  sp_response :: "ATResponse option"
  s_onTimeout :: bool
  s_onReaderClosed :: bool
  s_readerClosed :: int
  at_writes :: "at_write list"
  at_trace :: "at_event list"

definition at_log :: "at_event \<Rightarrow> atchannel \<Rightarrow> atchannel" where
  "at_log e ch = ch\<lparr>at_trace := at_trace ch @ [e]\<rparr>"

section \<open>Lines\<close>

text \<open>The input buffer \<open>s_ATBuffer\<close> of \<open>MAX_AT_RESPONSE + 1\<close> bytes and the index of \<open>s_ATBufferCur\<close>. The
  outcomes of \<open>read\<close>: bytes (what a call has no room for stays for the next one), the end of the
  stream, \<open>EINTR\<close>, another error; after the last one it blocks.\<close>

record at_buffer =
  s_ATBuffer :: "u8 list"
  s_ATBufferCur :: nat

datatype at_read = Got "u8 list" | GotEof | GotIntr | GotErr

datatype line_result = Line "u8 list" | NoLine | Blocked

definition empty_buffer :: at_buffer where
  "empty_buffer = \<lparr>s_ATBuffer = replicate (MAX_AT_RESPONSE + 1) 0, s_ATBufferCur = 0\<rparr>"

definition cstr_at :: "u8 list \<Rightarrow> nat \<Rightarrow> cstr" where
  "cstr_at buf i = (if 0 \<in> set (drop i buf) then Some (takeWhile (\<lambda>c. c \<noteq> 0) (drop i buf)) else None)"

definition newline :: "u8 \<Rightarrow> bool" where
  "newline c \<longleftrightarrow> c = 0x0D \<or> c = 0x0A"

definition skip_newlines :: "u8 list \<Rightarrow> nat \<Rightarrow> nat" where
  "skip_newlines buf i = i + length (takeWhile newline (drop i buf))"

definition findNextEOL :: "u8 list \<Rightarrow> nat option" where
  "findNextEOL s =
     (if s = [0x3E, 0x20] then Some 2
      else let k = length (takeWhile (\<lambda>c. \<not> newline c) s) in if k = length s then None else Some k)"

definition end_line :: "u8 list \<Rightarrow> nat \<Rightarrow> u8 list \<Rightarrow> nat \<Rightarrow> line_result \<times> at_buffer" where
  "end_line buf i s k = (Line (take k s), \<lparr>s_ATBuffer = buf[i + k := 0], s_ATBufferCur = i + k + 1\<rparr>)"

fun read_size :: "at_read \<Rightarrow> nat" where
  "read_size (Got bs) = Suc (length bs)"
| "read_size _ = 1"

definition reads_size :: "at_read list \<Rightarrow> nat" where
  "reads_size reads = sum_list (map read_size reads)"

lemma reads_size_simps [simp]: "reads_size [] = 0" "reads_size (r # reads) = read_size r + reads_size reads"
  by (simp_all add: reads_size_def)

definition ditch_full :: "u8 list \<Rightarrow> nat \<Rightarrow> nat \<Rightarrow> u8 list \<times> nat \<times> nat" where
  "ditch_full buf i p = (if MAX_AT_RESPONSE - p = 0 then (buf[0 := 0], 0, 0) else (buf, i, p))"

text \<open>The loop of \<open>readline\<close> that reads until there is a line, from the index \<open>p\<close> of \<open>p_read\<close> on.\<close>

function read_more :: "u8 list \<Rightarrow> nat \<Rightarrow> nat \<Rightarrow> at_read list \<Rightarrow> (line_result \<times> at_buffer \<times> at_read list) option" where
  "read_more buf i p reads =
     (let (buf, i, p) = ditch_full buf i p; b = \<lparr>s_ATBuffer = buf, s_ATBufferCur = i\<rparr> in
      case reads of
        [] \<Rightarrow> Some (Blocked, b, [])
      | GotIntr # reads \<Rightarrow> read_more buf i p reads
      | GotEof # reads \<Rightarrow> Some (NoLine, b, reads)
      | GotErr # reads \<Rightarrow> Some (NoLine, b, reads)
      | Got xs # reads \<Rightarrow>
          let got = take (MAX_AT_RESPONSE - p) xs; count = length got;
              reads = (if length xs \<le> MAX_AT_RESPONSE - p then reads else Got (drop count xs) # reads) in
          if got = [] then Some (NoLine, b, reads)
          else
            let buf = (overwrite buf p got)[p + count := 0]; i = skip_newlines buf i in
            case cstr_at buf i of
              None \<Rightarrow> None
            | Some s \<Rightarrow>
                (case findNextEOL s of
                   None \<Rightarrow> read_more buf i (p + count) reads
                 | Some k \<Rightarrow> (case end_line buf i s k of (l, b) \<Rightarrow> Some (l, b, reads))))"
  by pat_completeness auto
termination
  by (relation "measure (\<lambda>(buf, i, p, reads). reads_size reads)") (auto split: if_splits)

declare read_more.simps [simp del]

definition readline :: "at_buffer \<Rightarrow> at_read list \<Rightarrow> (line_result \<times> at_buffer \<times> at_read list) option" where
  "readline b reads =
     (let buf = s_ATBuffer b; i = s_ATBufferCur b in
      if i \<ge> length buf then None
      else if buf ! i = 0 then read_more (buf[0 := 0]) 0 0 reads
      else
        let i = skip_newlines buf i in
        case cstr_at buf i of
          None \<Rightarrow> None
        | Some s \<Rightarrow>
            (case findNextEOL s of
               None \<Rightarrow> read_more (overwrite buf 0 (s @ [0])) 0 (length s) reads
             | Some k \<Rightarrow> (case end_line buf i s k of (l, b) \<Rightarrow> Some (l, b, reads))))"

section \<open>Kinds of lines\<close>

definition s_finalResponsesError :: "string list" where
  "s_finalResponsesError =
     [''ERROR'', ''+CMS ERROR:'', ''+CME ERROR:'', ''NO CARRIER'', ''NO ANSWER'', ''NO DIALTONE'']"

definition s_finalResponsesSuccess :: "string list" where
  "s_finalResponsesSuccess = [''OK'', ''CONNECT'']"

definition s_smsUnsoliciteds :: "string list" where
  "s_smsUnsoliciteds = [''+CMT:'', ''+CDS:'', ''+CBM:'']"

text \<open>A literal of the source as bytes.\<close>

definition lit :: "string \<Rightarrow> u8 list" where
  "lit s = map of_char s"

definition isFinalResponseError :: "u8 list \<Rightarrow> bool" where
  "isFinalResponseError line \<longleftrightarrow> list_ex (\<lambda>x. strStartsWith line (lit x)) s_finalResponsesError"

definition isFinalResponseSuccess :: "u8 list \<Rightarrow> bool" where
  "isFinalResponseSuccess line \<longleftrightarrow> list_ex (\<lambda>x. strStartsWith line (lit x)) s_finalResponsesSuccess"

definition isFinalResponse :: "u8 list \<Rightarrow> bool" where
  "isFinalResponse line \<longleftrightarrow> isFinalResponseSuccess line \<or> isFinalResponseError line"

definition isSMSUnsolicited :: "u8 list \<Rightarrow> bool" where
  "isSMSUnsolicited line \<longleftrightarrow> list_ex (\<lambda>x. strStartsWith line (lit x)) s_smsUnsoliciteds"

definition isdigit :: "u8 list \<Rightarrow> bool" where
  "isdigit line \<longleftrightarrow> line \<noteq> [] \<and> 0x30 \<le> hd line \<and> hd line \<le> 0x39"

section \<open>Writing\<close>

fun at_write_all :: "at_write list \<Rightarrow> u8 list \<Rightarrow> (int \<times> u8 list \<times> at_write list) option" where
  "at_write_all ws [] = Some (0, [], ws)"
| "at_write_all [] (b # bs) = None"
| "at_write_all (WriteIntr # ws) (b # bs) = at_write_all ws (b # bs)"
| "at_write_all (WriteErr # ws) (b # bs) = Some (AT_ERROR_GENERIC, [], ws)"
| "at_write_all (Wrote n # ws) (b # bs) = do {
     (ret, out, ws) \<leftarrow> at_write_all ws (drop n (b # bs));
     Some (ret, take n (b # bs) @ out, ws)
   }"

text \<open>The string and then one byte more: the body that \<open>writeline\<close> and \<open>writeCtrlZ\<close> share.\<close>

definition write_with :: "u8 \<Rightarrow> u8 list \<Rightarrow> atchannel \<Rightarrow> (int \<times> atchannel) option" where
  "write_with c s ch =
     (if s_fd ch < 0 \<or> s_readerClosed ch > 0 then Some (AT_ERROR_CHANNEL_CLOSED, ch)
      else do {
        (ret, out, ws) \<leftarrow> at_write_all (at_writes ch) s;
        let ch = at_log (AtSent out) (ch\<lparr>at_writes := ws\<rparr>);
        if ret < 0 then Some (AT_ERROR_GENERIC, ch)
        else do {
          (ret, out, ws) \<leftarrow> at_write_all (at_writes ch) [c];
          let ch = at_log (AtSent out) (ch\<lparr>at_writes := ws\<rparr>);
          if ret < 0 then Some (AT_ERROR_GENERIC, ch) else Some (0, ch)
        }
      })"

definition writeline :: "u8 list \<Rightarrow> atchannel \<Rightarrow> (int \<times> atchannel) option" where
  "writeline = write_with 0x0D"

definition writeCtrlZ :: "u8 list \<Rightarrow> atchannel \<Rightarrow> (int \<times> atchannel) option" where
  "writeCtrlZ = write_with 0x1A"

section \<open>The reader\<close>

definition handleUnsolicited :: "u8 list \<Rightarrow> atchannel \<Rightarrow> atchannel" where
  "handleUnsolicited line ch = (if s_unsolHandler ch then at_log (Unsolicited line None) ch else ch)"

definition addIntermediate :: "u8 list \<Rightarrow> ATResponse \<Rightarrow> ATResponse" where
  "addIntermediate line r = r\<lparr>p_intermediates := line # p_intermediates r\<rparr>"

definition handleFinalResponse :: "u8 list \<Rightarrow> ATResponse \<Rightarrow> ATResponse" where
  "handleFinalResponse line r = r\<lparr>finalResponse := Some line\<rparr>"

text \<open>Whether a line belongs to the response of a command of the type, which the switch decides; the
  prefix may not be null where it is used.\<close>

definition accepts :: "ATCommandType \<Rightarrow> cstr \<Rightarrow> ATResponse \<Rightarrow> u8 list \<Rightarrow> bool option" where
  "accepts type prefix r line =
     (case type of
        NO_RESULT \<Rightarrow> Some False
      | NUMERIC \<Rightarrow> Some (p_intermediates r = [] \<and> isdigit line)
      | SINGLELINE \<Rightarrow>
          if p_intermediates r = [] then map_option (strStartsWith line) prefix else Some False
      | MULTILINE \<Rightarrow> map_option (strStartsWith line) prefix)"

definition processLine :: "u8 list \<Rightarrow> atchannel \<Rightarrow> atchannel option" where
  "processLine line ch =
     (case sp_response ch of
        None \<Rightarrow> Some (handleUnsolicited line ch)
      | Some r \<Rightarrow>
          if isFinalResponseSuccess line then
            Some (ch\<lparr>sp_response := Some (handleFinalResponse line (r\<lparr>success := 1\<rparr>))\<rparr>)
          else if isFinalResponseError line then
            Some (ch\<lparr>sp_response := Some (handleFinalResponse line (r\<lparr>success := 0\<rparr>))\<rparr>)
          else if s_smsPDU ch \<noteq> None \<and> line = [0x3E, 0x20] then do {
            (ret, ch) \<leftarrow> writeCtrlZ (the (s_smsPDU ch)) ch;
            Some (ch\<lparr>s_smsPDU := None\<rparr>)
          }
          else do {
            yes \<leftarrow> accepts (s_type ch) (s_responsePrefix ch) r line;
            Some (if yes then ch\<lparr>sp_response := Some (addIntermediate line r)\<rparr> else handleUnsolicited line ch)
          })"

definition onReaderClosed :: "atchannel \<Rightarrow> atchannel" where
  "onReaderClosed ch =
     (if s_onReaderClosed ch \<and> s_readerClosed ch = 0
      then at_log OnReaderClosed (ch\<lparr>s_readerClosed := 1\<rparr>) else ch)"

text \<open>One round of \<open>readerLoop\<close>; it says whether the loop goes on.\<close>

datatype reader_status = Running | Waiting | Ended

definition reader_round ::
  "atchannel \<Rightarrow> at_buffer \<Rightarrow> at_read list \<Rightarrow> (reader_status \<times> atchannel \<times> at_buffer \<times> at_read list) option" where
  "reader_round ch b reads = do {
     (l, b, reads) \<leftarrow> readline b reads;
     case l of
       Blocked \<Rightarrow> Some (Waiting, ch, b, reads)
     | NoLine \<Rightarrow> Some (Ended, onReaderClosed ch, b, reads)
     | Line line \<Rightarrow>
         if isSMSUnsolicited line then do {
           (l, b, reads) \<leftarrow> readline b reads;
           case l of
             Blocked \<Rightarrow> Some (Waiting, ch, b, reads)
           | NoLine \<Rightarrow> Some (Ended, onReaderClosed ch, b, reads)
           | Line line2 \<Rightarrow>
               Some (Running, if s_unsolHandler ch then at_log (Unsolicited line (Some line2)) ch else ch, b, reads)
         }
         else do { ch \<leftarrow> processLine line ch; Some (Running, ch, b, reads) }
   }"

section \<open>Commands\<close>

definition at_response_new :: ATResponse where
  "at_response_new = \<lparr>success = 0, finalResponse = None, p_intermediates = []\<rparr>"

definition clearPendingCommand :: "atchannel \<Rightarrow> atchannel" where
  "clearPendingCommand ch = ch\<lparr>sp_response := None, s_responsePrefix := None, s_smsPDU := None\<rparr>"

fun reverse_onto :: "'a list \<Rightarrow> 'a list \<Rightarrow> 'a list" where
  "reverse_onto [] acc = acc"
| "reverse_onto (x # xs) acc = reverse_onto xs (x # acc)"

definition reverseIntermediates :: "ATResponse \<Rightarrow> ATResponse" where
  "reverseIntermediates r = r\<lparr>p_intermediates := reverse_onto (p_intermediates r) []\<rparr>"

definition at_open :: "int \<Rightarrow> bool \<Rightarrow> atchannel \<Rightarrow> atchannel" where
  "at_open fd h ch = ch\<lparr>s_fd := fd, s_unsolHandler := h, s_readerClosed := 0, s_responsePrefix := None,
     s_smsPDU := None, sp_response := None\<rparr>"

definition at_close :: "atchannel \<Rightarrow> atchannel" where
  "at_close ch =
     (let ch = (if s_fd ch \<ge> 0 then at_log (FdClosed (s_fd ch)) ch else ch) in ch\<lparr>s_fd := - 1, s_readerClosed := 1\<rparr>)"

definition at_set_on_timeout :: "bool \<Rightarrow> atchannel \<Rightarrow> atchannel" where
  "at_set_on_timeout h ch = ch\<lparr>s_onTimeout := h\<rparr>"

definition at_set_on_reader_closed :: "bool \<Rightarrow> atchannel \<Rightarrow> atchannel" where
  "at_set_on_reader_closed h ch = ch\<lparr>s_onReaderClosed := h\<rparr>"

text \<open>\<open>at_send_command_full_nolock\<close> up to its loop: 0 when the thread goes on to wait.\<close>

definition send_start ::
  "u8 list \<Rightarrow> ATCommandType \<Rightarrow> cstr \<Rightarrow> cstr \<Rightarrow> atchannel \<Rightarrow> (int \<times> atchannel) option" where
  "send_start command type prefix pdu ch =
     (if sp_response ch \<noteq> None then Some (AT_ERROR_COMMAND_PENDING, clearPendingCommand ch)
      else do {
        (err, ch) \<leftarrow> writeline command ch;
        if err < 0 then Some (err, clearPendingCommand ch)
        else Some (0, ch\<lparr>s_type := type, s_responsePrefix := prefix, s_smsPDU := pdu,
          sp_response := Some at_response_new\<rparr>)
      })"

text \<open>The condition of the loop, and what follows it; \<open>want\<close> says whether the caller takes the response.\<close>

definition keep_waiting :: "atchannel \<Rightarrow> bool option" where
  "keep_waiting ch = map_option (\<lambda>r. finalResponse r = None \<and> s_readerClosed ch = 0) (sp_response ch)"

definition send_end :: "bool \<Rightarrow> atchannel \<Rightarrow> (int \<times> ATResponse option \<times> atchannel) option" where
  "send_end want ch = do {
     r \<leftarrow> sp_response ch;
     let out = (if want then Some (reverseIntermediates r) else None);
     let ch = ch\<lparr>sp_response := None\<rparr>;
     Some (if s_readerClosed ch > 0 then AT_ERROR_CHANNEL_CLOSED else 0, out, clearPendingCommand ch)
   }"

text \<open>What may happen while the thread waits and has released the mutex: a line is processed, the stream
  ends, the channel is closed, the thread wakes up, or its time is over.\<close>

datatype at_wait = GotLine "u8 list" | StreamEnds | ChannelClosed | WakeUp | TimeOver

fun wait_loop ::
  "bool \<Rightarrow> bool \<Rightarrow> at_wait list \<Rightarrow> atchannel \<Rightarrow> (int \<times> ATResponse option \<times> atchannel \<times> at_wait list) option" where
  "wait_loop timed want [] ch = None"
| "wait_loop timed want (GotLine l # es) ch = do { ch \<leftarrow> processLine l ch; wait_loop timed want es ch }"
| "wait_loop timed want (StreamEnds # es) ch = wait_loop timed want es (onReaderClosed ch)"
| "wait_loop timed want (ChannelClosed # es) ch = wait_loop timed want es (at_close ch)"
| "wait_loop timed want (WakeUp # es) ch = do {
     again \<leftarrow> keep_waiting ch;
     if again then wait_loop timed want es ch
     else do { (err, out, ch) \<leftarrow> send_end want ch; Some (err, out, ch, es) }
   }"
| "wait_loop timed want (TimeOver # es) ch =
     (if timed then Some (AT_ERROR_TIMEOUT, None, clearPendingCommand ch, es)
      else wait_loop timed want es ch)"

definition at_send_command_full_nolock ::
  "u8 list \<Rightarrow> ATCommandType \<Rightarrow> cstr \<Rightarrow> cstr \<Rightarrow> nat \<Rightarrow> bool \<Rightarrow> at_wait list \<Rightarrow> atchannel \<Rightarrow>
     (int \<times> ATResponse option \<times> atchannel \<times> at_wait list) option" where
  "at_send_command_full_nolock command type prefix pdu timeoutMsec want es ch = do {
     (err, ch) \<leftarrow> send_start command type prefix pdu ch;
     if err < 0 then Some (err, None, ch, es)
     else do {
       again \<leftarrow> keep_waiting ch;
       if again then wait_loop (timeoutMsec \<noteq> 0) want es ch
       else do { (err, out, ch) \<leftarrow> send_end want ch; Some (err, out, ch, es) }
     }
   }"

definition at_send_command_full ::
  "bool \<Rightarrow> u8 list \<Rightarrow> ATCommandType \<Rightarrow> cstr \<Rightarrow> cstr \<Rightarrow> nat \<Rightarrow> bool \<Rightarrow> at_wait list \<Rightarrow> atchannel \<Rightarrow>
     (int \<times> ATResponse option \<times> atchannel \<times> at_wait list) option" where
  "at_send_command_full on_reader command type prefix pdu timeoutMsec want es ch =
     (if on_reader then Some (AT_ERROR_INVALID_THREAD, None, ch, es)
      else do {
        (err, out, ch, es) \<leftarrow> at_send_command_full_nolock command type prefix pdu timeoutMsec want es ch;
        Some (err, out, if err = AT_ERROR_TIMEOUT \<and> s_onTimeout ch then at_log OnTimeout ch else ch, es)
      })"

definition at_send_command :: "bool \<Rightarrow> u8 list \<Rightarrow> bool \<Rightarrow> at_wait list \<Rightarrow> atchannel \<Rightarrow>
     (int \<times> ATResponse option \<times> atchannel \<times> at_wait list) option" where
  "at_send_command on_reader command want es ch =
     at_send_command_full on_reader command NO_RESULT None None 0 want es ch"

text \<open>The check that three of the calls make: a successful command has an intermediate response.\<close>

definition need_intermediate ::
  "(int \<times> ATResponse option \<times> 'c) option \<Rightarrow> (int \<times> ATResponse option \<times> 'c) option" where
  "need_intermediate m = do {
     (err, out, ch) \<leftarrow> m;
     case out of
       None \<Rightarrow> Some (err, out, ch)
     | Some r \<Rightarrow>
         if err = 0 \<and> success r > 0 \<and> p_intermediates r = [] then Some (AT_ERROR_INVALID_RESPONSE, None, ch)
         else Some (err, out, ch)
   }"

definition at_send_command_singleline :: "bool \<Rightarrow> u8 list \<Rightarrow> cstr \<Rightarrow> bool \<Rightarrow> at_wait list \<Rightarrow> atchannel \<Rightarrow>
     (int \<times> ATResponse option \<times> atchannel \<times> at_wait list) option" where
  "at_send_command_singleline on_reader command prefix want es ch =
     need_intermediate (at_send_command_full on_reader command SINGLELINE prefix None 0 want es ch)"

definition at_send_command_numeric :: "bool \<Rightarrow> u8 list \<Rightarrow> bool \<Rightarrow> at_wait list \<Rightarrow> atchannel \<Rightarrow>
     (int \<times> ATResponse option \<times> atchannel \<times> at_wait list) option" where
  "at_send_command_numeric on_reader command want es ch =
     need_intermediate (at_send_command_full on_reader command NUMERIC None None 0 want es ch)"

definition at_send_command_sms :: "bool \<Rightarrow> u8 list \<Rightarrow> cstr \<Rightarrow> cstr \<Rightarrow> bool \<Rightarrow> at_wait list \<Rightarrow> atchannel \<Rightarrow>
     (int \<times> ATResponse option \<times> atchannel \<times> at_wait list) option" where
  "at_send_command_sms on_reader command pdu prefix want es ch =
     need_intermediate (at_send_command_full on_reader command SINGLELINE prefix pdu 0 want es ch)"

definition at_send_command_multiline :: "bool \<Rightarrow> u8 list \<Rightarrow> cstr \<Rightarrow> bool \<Rightarrow> at_wait list \<Rightarrow> atchannel \<Rightarrow>
     (int \<times> ATResponse option \<times> atchannel \<times> at_wait list) option" where
  "at_send_command_multiline on_reader command prefix want es ch =
     at_send_command_full on_reader command MULTILINE prefix None 0 want es ch"

abbreviation (input) HANDSHAKE_RETRY_COUNT :: nat where "HANDSHAKE_RETRY_COUNT \<equiv> 8"
abbreviation HANDSHAKE_TIMEOUT_MSEC :: nat where "HANDSHAKE_TIMEOUT_MSEC \<equiv> 250"

fun handshake_tries :: "nat \<Rightarrow> int \<Rightarrow> at_wait list \<Rightarrow> atchannel \<Rightarrow> (int \<times> atchannel \<times> at_wait list) option" where
  "handshake_tries 0 err es ch = Some (err, ch, es)"
| "handshake_tries (Suc n) err es ch = do {
     (err, out, ch, es) \<leftarrow>
       at_send_command_full_nolock (lit ''ATE0Q0V1'') NO_RESULT None None HANDSHAKE_TIMEOUT_MSEC False es ch;
     if err = 0 then Some (err, ch, es) else handshake_tries n err es ch
   }"

definition at_handshake :: "bool \<Rightarrow> at_wait list \<Rightarrow> atchannel \<Rightarrow> (int \<times> atchannel \<times> at_wait list) option" where
  "at_handshake on_reader es ch =
     (if on_reader then Some (AT_ERROR_INVALID_THREAD, ch, es) else handshake_tries HANDSHAKE_RETRY_COUNT 0 es ch)"

abbreviation (input) "CME_ERROR_NON_CME \<equiv> - 1 :: int"
abbreviation (input) "CME_SUCCESS \<equiv> 0 :: int"

definition at_get_cme_error :: "ATResponse \<Rightarrow> int" where
  "at_get_cme_error r =
     (if success r > 0 then CME_SUCCESS
      else case finalResponse r of
        None \<Rightarrow> CME_ERROR_NON_CME
      | Some line \<Rightarrow>
          if \<not> strStartsWith line (lit ''+CME ERROR:'') then CME_ERROR_NON_CME
          else
            let (err, p) = at_tok_start (Some line) in
            if err < 0 then CME_ERROR_NON_CME
            else
              case at_tok_nextint p of
                (err, Some ret, p) \<Rightarrow> if err < 0 then CME_ERROR_NON_CME else sint ret
              | (err, None, p) \<Rightarrow> CME_ERROR_NON_CME)"

section \<open>Several threads\<close>

text \<open>Command threads that share the channel: each is idle or waits in the loop, with or without a time
  limit. An action is what one of them, the reader or the environment does under the mutex.\<close>

datatype at_thread = Idle | Waits bool bool

datatype at_action =
    Send nat "u8 list" ATCommandType cstr cstr nat bool
  | Wake nat
  | TimesOut nat
  | Reader at_wait

record at_system =
  at_chan :: atchannel
  at_threads :: "nat \<Rightarrow> at_thread"
  at_results :: "(nat \<times> int \<times> ATResponse option) list"

definition finish :: "nat \<Rightarrow> int \<Rightarrow> ATResponse option \<Rightarrow> atchannel \<Rightarrow> at_system \<Rightarrow> at_system" where
  "finish i err out ch S = S\<lparr>at_chan := ch, at_threads := (at_threads S)(i := Idle),
     at_results := at_results S @ [(i, err, out)]\<rparr>"

definition check_wait :: "nat \<Rightarrow> bool \<Rightarrow> at_system \<Rightarrow> at_system option" where
  "check_wait i want S = do {
     again \<leftarrow> keep_waiting (at_chan S);
     if again then Some S
     else do { (err, out, ch) \<leftarrow> send_end want (at_chan S); Some (finish i err out ch S) }
   }"

fun at_act :: "at_action \<Rightarrow> at_system \<Rightarrow> at_system option" where
  "at_act (Send i command type prefix pdu timeoutMsec want) S =
     (case at_threads S i of
        Waits timed w \<Rightarrow> Some S
      | Idle \<Rightarrow> do {
          (err, ch) \<leftarrow> send_start command type prefix pdu (at_chan S);
          if err < 0 then Some (finish i err None ch S)
          else check_wait i want (S\<lparr>at_chan := ch, at_threads := (at_threads S)(i := Waits (timeoutMsec \<noteq> 0) want)\<rparr>)
        })"
| "at_act (Wake i) S = (case at_threads S i of Idle \<Rightarrow> Some S | Waits timed want \<Rightarrow> check_wait i want S)"
| "at_act (TimesOut i) S =
     (case at_threads S i of
        Waits True want \<Rightarrow> Some (finish i AT_ERROR_TIMEOUT None (clearPendingCommand (at_chan S)) S)
      | t \<Rightarrow> Some S)"
| "at_act (Reader e) S =
     (case e of
        GotLine l \<Rightarrow> map_option (\<lambda>ch. S\<lparr>at_chan := ch\<rparr>) (processLine l (at_chan S))
      | StreamEnds \<Rightarrow> Some (S\<lparr>at_chan := onReaderClosed (at_chan S)\<rparr>)
      | ChannelClosed \<Rightarrow> Some (S\<lparr>at_chan := at_close (at_chan S)\<rparr>)
      | t \<Rightarrow> Some S)"

fun at_run :: "at_action list \<Rightarrow> at_system \<Rightarrow> at_system option" where
  "at_run [] S = Some S"
| "at_run (a # as) S = do { S \<leftarrow> at_act a S; at_run as S }"

end
