(* ===== verification/VendorState.thy ===== *)
theory VendorState
  imports AtTokFacts AtChannel RilResponse
begin

text \<open>
  \<open>services/ril/reference-ril/reference-ril.c\<close>, the vendor library that answers the daemon's requests with AT
  commands: its state, how it sends a command, the radio and the modem's technology. The build is the shared
  library without TI's commands. Handlers that the reader thread calls while a command waits run as soon as
  the wait is over, for the waiting thread does nothing in between. \<open>None\<close> is undefined behaviour, or a
  command that still waits when the listed events are used up.
\<close>

section \<open>State\<close>

text \<open>Integers of the modem as they are stored; \<open>currentTech\<close> is the number of a bit of the others.\<close>

record ModemInfo =
  supportedTechs :: u32
  currentTech :: u32
  isMultimode :: u32
  preferredNetworkMode :: u32
  subscription_source :: u32

abbreviation (input) MDM_GSM :: u32 where "MDM_GSM \<equiv> 1"
abbreviation (input) MDM_WCDMA :: u32 where "MDM_WCDMA \<equiv> 2"
abbreviation (input) MDM_CDMA :: u32 where "MDM_CDMA \<equiv> 4"
abbreviation (input) MDM_EVDO :: u32 where "MDM_EVDO \<equiv> 8"
abbreviation (input) MDM_LTE :: u32 where "MDM_LTE \<equiv> 16"

datatype SIM_Status = SIM_ABSENT | SIM_NOT_READY | SIM_READY | SIM_PIN | SIM_PUK | SIM_NETWORK_PERSONALIZATION
  | RUIM_ABSENT | RUIM_NOT_READY | RUIM_READY | RUIM_PIN | RUIM_PUK | RUIM_NETWORK_PERSONALIZATION

text \<open>What the library does that the daemon sees: a request completed, an unsolicited response, a callback
  asked for.\<close>

datatype vcallback = SendCallStateChanged | OnDataCallListChanged | PollSIMState | InitializeCallback

datatype vevent = VComplete nat RIL_Errno rresp nat | VUnsol int rresp nat | VTimed vcallback

text \<open>The file's static variables, the channel, what happens during the next waits, and how many events of
  the channel the handlers have seen.\<close>

record vendor =
  sState :: RIL_RadioState
  s_closed :: int
  sMdmInfo :: ModemInfo
  s_ims_registered :: u32
  s_ims_format :: u32
  s_ims_cause_retry :: u32
  s_ims_cause_perm_failure :: u32
  s_ims_gsm_retry :: u32
  s_ims_gsm_fail :: u32
  s_cell_info_rate_ms :: u32
  s_mcc :: u32
  s_mnc :: u32
  s_lac :: u32
  s_cid :: u32
  v_chan :: atchannel
  v_waits :: "at_wait list"
  v_seen :: nat
  v_trace :: "vevent list"

text \<open>System properties (an empty value is an undefined one), the clock, and the QMI device: absent, or the outcomes
  of writing and reading it and of the command that brings up its interface.\<close>

record venv =
  property :: "u8 list \<Rightarrow> u8 list"
  ril_nano_time :: u64
  dev_qmi :: "(at_write list \<times> at_read list \<times> int) option"

definition vlog :: "vevent \<Rightarrow> vendor \<Rightarrow> vendor" where
  "vlog e S = S\<lparr>v_trace := v_trace S @ [e]\<rparr>"

definition complete :: "nat \<Rightarrow> RIL_Errno \<Rightarrow> rresp \<Rightarrow> nat \<Rightarrow> vendor \<Rightarrow> vendor" where
  "complete t e r len = vlog (VComplete t e r len)"

definition unsolicited_event :: "int \<Rightarrow> rresp \<Rightarrow> nat \<Rightarrow> vendor \<Rightarrow> vendor" where
  "unsolicited_event n r len = vlog (VUnsol n r len)"

definition ok_void :: "nat \<Rightarrow> vendor \<Rightarrow> vendor" where
  "ok_void t = complete t RIL_E_SUCCESS RNull 0"

definition fail_void :: "nat \<Rightarrow> vendor \<Rightarrow> vendor" where
  "fail_void t = complete t RIL_E_GENERIC_FAILURE RNull 0"

section \<open>Taking lines apart\<close>

text \<open>The tokenizer where the caller only goes on without an error; \<open>None\<close> is the jump to its error label. A
  token that is returned without an error is never null.\<close>

definition tok_start :: "u8 list \<Rightarrow> cstr option" where
  "tok_start line = (case at_tok_start (Some line) of (err, p) \<Rightarrow> if err < 0 then None else Some p)"

definition tok_int :: "cstr \<Rightarrow> (u32 \<times> cstr) option" where
  "tok_int p =
     (case at_tok_nextint p of (err, Some v, p) \<Rightarrow> if err < 0 then None else Some (v, p) | _ \<Rightarrow> None)"

definition tok_hex :: "cstr \<Rightarrow> (u32 \<times> cstr) option" where
  "tok_hex p =
     (case at_tok_nexthexint p of (err, Some v, p) \<Rightarrow> if err < 0 then None else Some (v, p) | _ \<Rightarrow> None)"

definition tok_bool :: "cstr \<Rightarrow> (u8 \<times> cstr) option" where
  "tok_bool p =
     (case at_tok_nextbool p of (err, Some v, p) \<Rightarrow> if err < 0 then None else Some (v, p) | _ \<Rightarrow> None)"

definition tok_str :: "cstr \<Rightarrow> (u8 list \<times> cstr) option" where
  "tok_str p =
     (case at_tok_nextstr p of (err, Some (Some s), p) \<Rightarrow> if err < 0 then None else Some (s, p) | _ \<Rightarrow> None)"

lemma at_tok_nextstr_not_null: "at_tok_nextstr p = (err, out, p') \<Longrightarrow> err < 0 \<or> (\<exists>s. out = Some (Some s))"
  by (cases p) (auto simp: at_tok_nextstr_def nextTok_def skipWhiteSpace_def strsep_def Let_def split: if_splits prod.splits)

definition cursor_size :: "cstr \<Rightarrow> nat" where
  "cursor_size p = (case p of None \<Rightarrow> 0 | Some s \<Rightarrow> Suc (length s))"

lemma cursor_size_strsep: "strsep c (Some s) = (tok, p) \<Longrightarrow> cursor_size p < cursor_size (Some s)"
  using length_dropWhile_le [of "\<lambda>x. x \<noteq> c" s]
  by (auto simp: strsep_def cursor_size_def split: list.splits)

lemma cursor_size_comma: "cursor_size (skipNextComma p) \<le> cursor_size p"
  using length_dropWhile_le [of "\<lambda>x. x \<noteq> 0x2C" "the p"]
  by (cases p) (auto simp: skipNextComma_def cursor_size_def split: list.splits)

lemma tok_int_shorter:
  assumes "tok_int p = Some (v, p')"
  shows "cursor_size p' < cursor_size p"
proof -
  obtain s where s: "p = Some s" using assms by (cases p) (auto simp: tok_int_def at_tok_nextint_def at_tok_nextint_base_def)
  let ?s = "dropWhile isspace s"
  have "length ?s \<le> length s" by (rule length_dropWhile_le)
  moreover have "snd (nextTok p) = p'"
    using assms by (auto simp: tok_int_def at_tok_nextint_def at_tok_nextint_base_def Let_def split: prod.splits option.splits if_splits)
  moreover obtain tok q where "strsep 0x22 (Some (tl ?s)) = (tok, q)" by fastforce
  moreover obtain tok' q' where "strsep 0x2C (Some ?s) = (tok', q')" by fastforce
  ultimately show ?thesis
    using cursor_size_strsep [of "0x22" "tl ?s" tok q] cursor_size_strsep [of "0x2C" ?s tok' q'] cursor_size_comma [of q]
    by (cases ?s) (auto simp: s nextTok_def skipWhiteSpace_def cursor_size_def split: if_splits)
qed

section \<open>The radio\<close>

abbreviation (input) RIL_UNSOL_RESPONSE_CALL_STATE_CHANGED :: int where "RIL_UNSOL_RESPONSE_CALL_STATE_CHANGED \<equiv> 1001"
abbreviation (input) RIL_UNSOL_RESPONSE_VOICE_NETWORK_STATE_CHANGED :: int where
  "RIL_UNSOL_RESPONSE_VOICE_NETWORK_STATE_CHANGED \<equiv> 1002"

text \<open>\<open>setRadioState\<close> up to the calls that follow the change to a radio that is on.\<close>

definition set_state :: "RIL_RadioState \<Rightarrow> vendor \<Rightarrow> vendor" where
  "set_state newState S =
     (let new = (if s_closed S > 0 then RADIO_STATE_UNAVAILABLE else newState); S' = S\<lparr>sState := new\<rparr> in
      if new \<noteq> sState S
      then unsolicited_event 1019 RNull 0 (unsolicited_event 1000 RNull 0 S')
      else S')"

text \<open>\<open>1 << n\<close>, which is undefined for other shifts.\<close>

definition tech_bit :: "u32 \<Rightarrow> u32 option" where
  "tech_bit n = (if n < 32 then Some (push_bit (unat n) 1) else None)"

definition techFromModemType :: "u32 \<Rightarrow> int option" where
  "techFromModemType mdmtype = do {
     b \<leftarrow> tech_bit mdmtype;
     Some (if b = MDM_CDMA then 6 else if b = MDM_EVDO then 8 else if b = MDM_GSM then 1
       else if b = MDM_WCDMA then 11 else if b = MDM_LTE then 14 else - 1)
   }"

definition setRadioTechnology :: "u32 \<Rightarrow> vendor \<Rightarrow> vendor option" where
  "setRadioTechnology newtech S =
     (let oldtech = currentTech (sMdmInfo S) in
      if newtech = oldtech then Some S
      else do {
        let S = S\<lparr>sMdmInfo := (sMdmInfo S)\<lparr>currentTech := newtech\<rparr>\<rparr>;
        a \<leftarrow> techFromModemType newtech;
        b \<leftarrow> techFromModemType oldtech;
        Some (if a \<noteq> b \<and> a > 0 then unsolicited_event 1035 (RInts [word_of_int a]) 4 S else S)
      })"

text \<open>The result code, the current technology if it could be read, and the preferred one.\<close>

definition parse_technology_response :: "u8 list \<Rightarrow> int \<times> u32 option \<times> u32 option" where
  "parse_technology_response response =
     (case at_tok_start (Some response) of (err, p) \<Rightarrow>
        if err \<noteq> 0 \<or> \<not> at_tok_hasmore p then (- 1, None, None)
        else case tok_int p of
          None \<Rightarrow> (- 1, None, None)
        | Some (ct, p) \<Rightarrow>
            (case tok_hex p of None \<Rightarrow> (1, Some ct, None) | Some (pt, p) \<Rightarrow> (0, Some ct, Some pt)))"

section \<open>Unsolicited lines\<close>

text \<open>On the reader thread. The handlers only change the state of the radio to one in which it is not on.\<close>

definition onUnsolicited :: "u8 list \<Rightarrow> cstr \<Rightarrow> vendor \<Rightarrow> vendor option" where
  "onUnsolicited s sms S =
     (if sState S = RADIO_STATE_UNAVAILABLE then Some S
      else if strStartsWith s (lit ''%CTZV:'') then
        let (err, p) = at_tok_start (Some s) in
        (case tok_str p of
           None \<Rightarrow> Some S
         | Some (response, p) \<Rightarrow> Some (unsolicited_event 1008 (RString response) (length response) S))
      else if list_ex (\<lambda>x. strStartsWith s (lit x)) [''+CRING:'', ''RING'', ''NO CARRIER'', ''+CCWA''] then
        Some (unsolicited_event RIL_UNSOL_RESPONSE_CALL_STATE_CHANGED RNull 0 S)
      else if strStartsWith s (lit ''+CREG:'') \<or> strStartsWith s (lit ''+CGREG:'') then
        Some (unsolicited_event RIL_UNSOL_RESPONSE_VOICE_NETWORK_STATE_CHANGED RNull 0 S)
      else if strStartsWith s (lit ''+CMT:'') then
        map_option (\<lambda>pdu. unsolicited_event 1003 (RString pdu) (length pdu) S) sms
      else if strStartsWith s (lit ''+CDS:'') then
        map_option (\<lambda>pdu. unsolicited_event 1004 (RString pdu) (length pdu) S) sms
      else if strStartsWith s (lit ''+CGEV:'') then Some (vlog (VTimed OnDataCallListChanged) S)
      else if strStartsWith s (lit ''+CTEC: '') then
        (case parse_technology_response s of
           (res, None, pref) \<Rightarrow> Some S
         | (res, Some tech, pref) \<Rightarrow> do {
             b \<leftarrow> tech_bit tech;
             if b \<noteq> MDM_GSM \<and> b \<noteq> MDM_CDMA \<and> b \<noteq> MDM_WCDMA \<and> b \<noteq> MDM_LTE then Some S
             else setRadioTechnology tech S
           })
      else if strStartsWith s (lit ''+CCSS: '') then
        Some (case Option.bind (tok_start s) tok_int of
            None \<Rightarrow> S
          | Some (source, p) \<Rightarrow> unsolicited_event 1031 (RInts [source]) 4
              (S\<lparr>sMdmInfo := (sMdmInfo S)\<lparr>subscription_source := source\<rparr>\<rparr>))
      else if strStartsWith s (lit ''+WSOS: '') then
        Some (case Option.bind (tok_start s) tok_bool of
            None \<Rightarrow> S
          | Some (state, p) \<Rightarrow> unsolicited_event (if state \<noteq> 0 then 1024 else 1033) RNull 0 S)
      else if strStartsWith s (lit ''+WPRL: '') then
        Some (case Option.bind (tok_start s) tok_int of
            None \<Rightarrow> S
          | Some (version, p) \<Rightarrow> unsolicited_event 1032 (RInts [version]) 4 S)
      else if strStartsWith s (lit ''+CFUN: 0'') then Some (set_state RADIO_STATE_OFF S)
      else Some S)"

definition onATReaderClosed :: "vendor \<Rightarrow> vendor" where
  "onATReaderClosed S = set_state RADIO_STATE_UNAVAILABLE (S\<lparr>v_chan := at_close (v_chan S), s_closed := 1\<rparr>)"

text \<open>\<open>onATTimeout\<close> has the same body.\<close>

fun handle_event :: "at_event \<Rightarrow> vendor \<Rightarrow> vendor option" where
  "handle_event (Unsolicited line pdu) S = onUnsolicited line pdu S"
| "handle_event OnReaderClosed S = Some (onATReaderClosed S)"
| "handle_event OnTimeout S = Some (onATReaderClosed S)"
| "handle_event (AtSent bs) S = Some S"
| "handle_event (FdClosed fd) S = Some S"

fun handle_events :: "at_event list \<Rightarrow> vendor \<Rightarrow> vendor option" where
  "handle_events [] S = Some S"
| "handle_events (e # es) S = do { S \<leftarrow> handle_event e S; handle_events es S }"

section \<open>Commands\<close>

definition after_wait :: "atchannel \<Rightarrow> at_wait list \<Rightarrow> vendor \<Rightarrow> vendor option" where
  "after_wait ch es S = do {
     S \<leftarrow> handle_events (drop (v_seen S) (at_trace ch)) (S\<lparr>v_chan := ch, v_waits := es\<rparr>);
     Some (S\<lparr>v_seen := length (at_trace (v_chan S))\<rparr>)
   }"

definition with_channel ::
  "(at_wait list \<Rightarrow> atchannel \<Rightarrow> (int \<times> ATResponse option \<times> atchannel \<times> at_wait list) option) \<Rightarrow>
     vendor \<Rightarrow> (int \<times> ATResponse option \<times> vendor) option" where
  "with_channel f S = do {
     (err, out, ch, es) \<leftarrow> f (v_waits S) (v_chan S);
     S \<leftarrow> after_wait ch es S;
     Some (err, out, S)
   }"

definition send_command :: "u8 list \<Rightarrow> bool \<Rightarrow> vendor \<Rightarrow> (int \<times> ATResponse option \<times> vendor) option" where
  "send_command cmd want = with_channel (at_send_command False cmd want)"

definition send_singleline :: "u8 list \<Rightarrow> string \<Rightarrow> bool \<Rightarrow> vendor \<Rightarrow> (int \<times> ATResponse option \<times> vendor) option" where
  "send_singleline cmd prefix want = with_channel (at_send_command_singleline False cmd (Some (lit prefix)) want)"

definition send_numeric :: "u8 list \<Rightarrow> vendor \<Rightarrow> (int \<times> ATResponse option \<times> vendor) option" where
  "send_numeric cmd = with_channel (at_send_command_numeric False cmd True)"

definition send_sms :: "u8 list \<Rightarrow> u8 list \<Rightarrow> string \<Rightarrow> vendor \<Rightarrow> (int \<times> ATResponse option \<times> vendor) option" where
  "send_sms cmd pdu prefix = with_channel (at_send_command_sms False cmd (Some pdu) (Some (lit prefix)) True)"

definition send_multiline :: "u8 list \<Rightarrow> string \<Rightarrow> vendor \<Rightarrow> (int \<times> ATResponse option \<times> vendor) option" where
  "send_multiline cmd prefix = with_channel (at_send_command_multiline False cmd (Some (lit prefix)) True)"

text \<open>A command whose result nobody looks at.\<close>

definition just_send :: "string \<Rightarrow> vendor \<Rightarrow> vendor option" where
  "just_send cmd S = do { (err, out, S) \<leftarrow> send_command (lit cmd) False S; Some S }"

fun just_send_all :: "string list \<Rightarrow> vendor \<Rightarrow> vendor option" where
  "just_send_all [] S = Some S"
| "just_send_all (c # cs) S = do { S \<leftarrow> just_send c S; just_send_all cs S }"

text \<open>The usual test of a result, and the first line of the response, through pointers that may be null.\<close>

definition failed :: "int \<Rightarrow> ATResponse option \<Rightarrow> bool option" where
  "failed err out = (if err < 0 then Some True else do { r \<leftarrow> out; Some (success r = 0) })"

definition first_answer :: "ATResponse option \<Rightarrow> u8 list option" where
  "first_answer out = do { r \<leftarrow> out; case p_intermediates r of [] \<Rightarrow> None | l # ls \<Rightarrow> Some l }"

end
