(* ===== verification/VendorRequests.thy ===== *)
theory VendorRequests
  imports VendorState
begin

text \<open>
  The requests of \<open>reference-ril.c\<close>: what is sent to the modem for each, what is made of the answer, and how the
  request is completed. Printed numbers are those that the tokenizer's counterparts print. \<open>None\<close> is
  undefined behaviour, such as an array written past its end or a null response followed.
\<close>

section \<open>The SIM card\<close>

fun sim_status_val :: "SIM_Status \<Rightarrow> nat" where
  "sim_status_val SIM_ABSENT = 0" | "sim_status_val SIM_NOT_READY = 1" | "sim_status_val SIM_READY = 2"
| "sim_status_val SIM_PIN = 3" | "sim_status_val SIM_PUK = 4" | "sim_status_val SIM_NETWORK_PERSONALIZATION = 5"
| "sim_status_val RUIM_ABSENT = 6" | "sim_status_val RUIM_NOT_READY = 7" | "sim_status_val RUIM_READY = 8"
| "sim_status_val RUIM_PIN = 9" | "sim_status_val RUIM_PUK = 10" | "sim_status_val RUIM_NETWORK_PERSONALIZATION = 11"

definition cpin_status :: "u8 list \<Rightarrow> SIM_Status" where
  "cpin_status line =
     (case Option.bind (tok_start line) tok_str of
        None \<Rightarrow> SIM_NOT_READY
      | Some (cpinResult, p) \<Rightarrow>
          if cpinResult = lit ''SIM PIN'' then SIM_PIN
          else if cpinResult = lit ''SIM PUK'' then SIM_PUK
          else if cpinResult = lit ''PH-NET PIN'' then SIM_NETWORK_PERSONALIZATION
          else if cpinResult \<noteq> lit ''READY'' then SIM_ABSENT
          else SIM_READY)"

abbreviation (input) CME_SIM_NOT_INSERTED :: int where "CME_SIM_NOT_INSERTED \<equiv> 10"

definition getSIMStatus :: "vendor \<Rightarrow> (SIM_Status \<times> vendor) option" where
  "getSIMStatus S =
     (if sState S = RADIO_STATE_OFF \<or> sState S = RADIO_STATE_UNAVAILABLE then Some (SIM_NOT_READY, S)
      else do {
        (err, out, S) \<leftarrow> send_singleline (lit ''AT+CPIN?'') ''+CPIN:'' True S;
        if err \<noteq> 0 then Some (SIM_NOT_READY, S)
        else do {
          r \<leftarrow> out;
          if at_get_cme_error r = CME_SUCCESS then do { line \<leftarrow> first_answer out; Some (cpin_status line, S) }
          else if at_get_cme_error r = CME_SIM_NOT_INSERTED then Some (SIM_ABSENT, S)
          else Some (SIM_NOT_READY, S)
        }
      })"

definition app_status :: "u32 \<Rightarrow> u32 \<Rightarrow> u32 \<Rightarrow> u32 \<Rightarrow> RIL_AppStatus" where
  "app_status type st perso pin = \<lparr>app_type = type, app_state = st, perso_substate = perso, aid_ptr = None,
     app_label_ptr = None, pin1_replaced = 0, pin1 = pin, pin2 = 0\<rparr>"

text \<open>Types unknown, SIM and RUIM; states unknown, detected, ready, PIN, PUK and network personalization.\<close>

definition app_status_array :: "RIL_AppStatus list" where
  "app_status_array = concat (map (\<lambda>type.
     [app_status 0 0 0 0, app_status type 1 0 0, app_status type 5 2 0, app_status type 2 0 1, app_status type 3 0 4,
      app_status type 4 3 1]) [1, 3])"

abbreviation (input) RIL_CARD_MAX_APPS :: nat where "RIL_CARD_MAX_APPS \<equiv> 8"

definition card_status :: "SIM_Status \<Rightarrow> RIL_CardStatus_v6" where
  "card_status sim_status =
     (let absent = (sim_status = SIM_ABSENT); unknown = replicate RIL_CARD_MAX_APPS (app_status_array ! 0);
          n = sim_status_val sim_status in
      \<lparr>card_state = (if absent then 0 else 1), universal_pin_state = 0,
       gsm_umts_subscription_app_index = (if absent then 8 else 0),
       cdma_subscription_app_index = (if absent then 8 else 1),
       num_applications = (if absent then 0 else 2),
       applications = (if absent then unknown else unknown[0 := app_status_array ! n, 1 := app_status_array ! (n + 6)]),
       ims_subscription_app_index = 8\<rparr>)"

definition getCardStatus :: "vendor \<Rightarrow> (RIL_CardStatus_v6 \<times> vendor) option" where
  "getCardStatus S = do { (st, S) \<leftarrow> getSIMStatus S; Some (card_status st, S) }"

definition requestGetSimStatus :: "nat \<Rightarrow> vendor \<Rightarrow> vendor option" where
  "requestGetSimStatus t S = do { (card, S) \<leftarrow> getCardStatus S; Some (complete t RIL_E_SUCCESS (RCardV6 card) 408 S) }"

section \<open>Radio power\<close>

definition onSIMReady :: "vendor \<Rightarrow> vendor option" where
  "onSIMReady S = do {
     (err, out, S) \<leftarrow> send_singleline (lit ''AT+CSMS=1'') ''+CSMS:'' False S;
     just_send ''AT+CNMI=1,2,2,1,1'' S
   }"

definition pollSIMState :: "vendor \<Rightarrow> vendor option" where
  "pollSIMState S =
     (if sState S \<noteq> RADIO_STATE_SIM_NOT_READY then Some S
      else do {
        (st, S) \<leftarrow> getSIMStatus S;
        if st = SIM_NOT_READY then Some (vlog (VTimed PollSIMState) S)
        else if st = SIM_READY then do { S \<leftarrow> onSIMReady S; Some (unsolicited_event 1019 RNull 0 S) }
        else Some (unsolicited_event 1019 RNull 0 S)
      })"

definition onRadioPowerOn :: "vendor \<Rightarrow> vendor option" where
  "onRadioPowerOn S = pollSIMState S"

definition setRadioState :: "RIL_RadioState \<Rightarrow> vendor \<Rightarrow> vendor option" where
  "setRadioState newState S =
     (let S' = set_state newState S in
      if sState S' \<noteq> sState S \<and> sState S' = RADIO_STATE_ON then onRadioPowerOn S' else Some S')"

text \<open>1 for on, 0 for off, -1 for an error.\<close>

definition isRadioOn :: "vendor \<Rightarrow> (int \<times> vendor) option" where
  "isRadioOn S = do {
     (err, out, S) \<leftarrow> send_singleline (lit ''AT+CFUN?'') ''+CFUN:'' True S;
     bad \<leftarrow> failed err out;
     if bad then Some (- 1, S)
     else do {
       line \<leftarrow> first_answer out;
       Some (case Option.bind (tok_start line) tok_bool of None \<Rightarrow> - 1 | Some (ret, p) \<Rightarrow> sint ret, S)
     }
   }"

text \<open>The first integer of the data.\<close>

fun data_int :: "rdata \<Rightarrow> u32 option" where
  "data_int (DInts (x # xs)) = Some x"
| "data_int d = None"

definition requestRadioPower :: "rdata \<Rightarrow> nat \<Rightarrow> vendor \<Rightarrow> vendor option" where
  "requestRadioPower d t S = do {
     onOff \<leftarrow> data_int d;
     if onOff = 0 \<and> sState S \<noteq> RADIO_STATE_OFF then do {
       (err, out, S) \<leftarrow> send_command (lit ''AT+CFUN=0'') True S;
       bad \<leftarrow> failed err out;
       if bad then Some (fail_void t S)
       else do { S \<leftarrow> setRadioState RADIO_STATE_OFF S; Some (ok_void t S) }
     }
     else if sint onOff > 0 \<and> sState S = RADIO_STATE_OFF then do {
       (err, out, S) \<leftarrow> send_command (lit ''AT+CFUN=1'') True S;
       bad \<leftarrow> failed err out;
       (on, S) \<leftarrow> (if bad then isRadioOn S else Some (1, S));
       if on \<noteq> 1 then Some (fail_void t S)
       else do { S \<leftarrow> setRadioState RADIO_STATE_ON S; Some (ok_void t S) }
     }
     else Some (ok_void t S)
   }"

definition requestShutdown :: "nat \<Rightarrow> vendor \<Rightarrow> vendor option" where
  "requestShutdown t S = do {
     S \<leftarrow> (if sState S \<noteq> RADIO_STATE_OFF then do {
             (err, out, S) \<leftarrow> send_command (lit ''AT+CFUN=0'') True S;
             setRadioState RADIO_STATE_UNAVAILABLE S
           } else Some S);
     Some (ok_void t S)
   }"

section \<open>Calls\<close>

text \<open>A structure is filled as far as the line is understood, also where the result is an error.\<close>

definition callFromCLCCLine :: "u8 list \<Rightarrow> RIL_Call \<Rightarrow> int \<times> RIL_Call" where
  "callFromCLCCLine line c =
     (case tok_start line of None \<Rightarrow> (- 1, c) | Some p \<Rightarrow>
        (case at_tok_nextint p of (err, out, p) \<Rightarrow>
           let c = (case out of None \<Rightarrow> c | Some v \<Rightarrow> c\<lparr>call_index := v\<rparr>) in
           if err < 0 then (- 1, c) else
           case tok_bool p of None \<Rightarrow> (- 1, c) | Some (mt, p) \<Rightarrow>
             let c = c\<lparr>isMT := ucast mt\<rparr> in
             case tok_int p of None \<Rightarrow> (- 1, c) | Some (st, p) \<Rightarrow>
               if \<not> st \<le> 5 then (- 1, c)
               else
                 let c = c\<lparr>call_state := st\<rparr> in
                 case tok_int p of None \<Rightarrow> (- 1, c) | Some (mode, p) \<Rightarrow>
                   let c = c\<lparr>isVoice := (if mode = 0 then 1 else 0)\<rparr> in
                   case tok_bool p of None \<Rightarrow> (- 1, c) | Some (mpty, p) \<Rightarrow>
                     let c = c\<lparr>isMpty := ucast mpty\<rparr> in
                     if \<not> at_tok_hasmore p then (0, c\<lparr>call_uusInfo := None\<rparr>)
                     else case tok_str p of None \<Rightarrow> (0, c) | Some (num, p) \<Rightarrow>
                       let c = c\<lparr>call_number := (if num = [] \<or> hd num \<notin> set (lit ''+0123456789'') then None else Some num)\<rparr> in
                       (case at_tok_nextint p of (err, out, p) \<Rightarrow>
                          let c = (case out of None \<Rightarrow> c | Some v \<Rightarrow> c\<lparr>call_toa := v\<rparr>) in
                          if err < 0 then (- 1, c) else (0, c\<lparr>call_uusInfo := None\<rparr>))))"

definition zero_call :: RIL_Call where
  "zero_call = \<lparr>call_state = 0, call_index = 0, call_toa = 0, isMpty = 0, isMT = 0, als = 0, isVoice = 0,
     isVoicePrivacy = 0, call_number = None, numberPresentation = 0, call_name = None, namePresentation = 0,
     call_uusInfo = None\<rparr>"

text \<open>The calls that are understood; the next line goes into the structure that was not.\<close>

fun parse_calls :: "u8 list list \<Rightarrow> RIL_Call \<Rightarrow> RIL_Call list" where
  "parse_calls [] c = []"
| "parse_calls (line # ls) c =
     (case callFromCLCCLine line c of
        (err, c) \<Rightarrow> if err \<noteq> 0 then parse_calls ls c else c # parse_calls ls zero_call)"

definition requestGetCurrentCalls :: "nat \<Rightarrow> vendor \<Rightarrow> vendor option" where
  "requestGetCurrentCalls t S = do {
     (err, out, S) \<leftarrow> send_multiline (lit ''AT+CLCC'') ''+CLCC:'' S;
     bad \<leftarrow> (if err \<noteq> 0 then Some True else failed err out);
     if bad then Some (fail_void t S)
     else do {
       r \<leftarrow> out;
       let calls = parse_calls (p_intermediates r) zero_call;
       let S = complete t RIL_E_SUCCESS (RCalls calls) (length calls * 8) S;
       Some (if list_ex (\<lambda>c. call_state c \<noteq> 0 \<and> call_state c \<noteq> 1) calls then vlog (VTimed SendCallStateChanged) S else S)
     }
   }"

definition sendCallStateChanged :: "vendor \<Rightarrow> vendor" where
  "sendCallStateChanged = unsolicited_event RIL_UNSOL_RESPONSE_CALL_STATE_CHANGED RNull 0"

text \<open>Requests that end in success whatever the modem says.\<close>

definition send_and_succeed :: "u8 list \<Rightarrow> nat \<Rightarrow> vendor \<Rightarrow> vendor option" where
  "send_and_succeed cmd t S = do { (err, out, S) \<leftarrow> send_command cmd False S; Some (ok_void t S) }"

definition requestDial :: "rdata \<Rightarrow> nat \<Rightarrow> vendor \<Rightarrow> vendor option" where
  "requestDial d t S =
     (case d of
        DDial p \<Rightarrow> do {
          address \<leftarrow> dial_address p;
          let clir = (if dial_clir p = 1 then lit ''I'' else if dial_clir p = 2 then lit ''i'' else []);
          send_and_succeed (lit ''ATD'' @ address @ clir @ lit '';'') t S
        }
      | _ \<Rightarrow> None)"

definition requestHangup :: "rdata \<Rightarrow> nat \<Rightarrow> vendor \<Rightarrow> vendor option" where
  "requestHangup d t S = do { line \<leftarrow> data_int d; send_and_succeed (lit ''AT+CHLD=1'' @ show_int line) t S }"

definition requestSeparateConnection :: "rdata \<Rightarrow> nat \<Rightarrow> vendor \<Rightarrow> vendor option" where
  "requestSeparateConnection d t S = do {
     party \<leftarrow> data_int d;
     if sint party > 0 \<and> sint party < 10 then send_and_succeed (lit ''AT+CHLD=2'' @ show_int party) t S
     else Some (fail_void t S)
   }"

definition requestDtmf :: "rdata \<Rightarrow> nat \<Rightarrow> vendor \<Rightarrow> vendor option" where
  "requestDtmf d t S =
     (case d of DString (Some s) \<Rightarrow> send_and_succeed (lit ''AT+VTS='' @ take 1 s) t S | _ \<Rightarrow> None)"

end
