(* ===== verification/VendorNetwork.thy ===== *)
theory VendorNetwork
  imports VendorRequests
begin

text \<open>
  More requests of \<open>reference-ril.c\<close>: data calls, the network, short messages and the SIM card's files. A string
  printed with \<open>%s\<close> may not be null. \<open>None\<close> is again undefined behaviour or a wait without end.
\<close>

text \<open>The test of the calls that compare with zero.\<close>

definition refused :: "int \<Rightarrow> ATResponse option \<Rightarrow> bool option" where
  "refused err out = (if err \<noteq> 0 then Some True else failed err out)"

text \<open>An entry of an array of pointers.\<close>

definition entry :: "'a list \<Rightarrow> nat \<Rightarrow> 'a option" where
  "entry xs i = (if i < length xs then Some (xs ! i) else None)"

section \<open>Data calls\<close>

abbreviation (input) RIL_UNSOL_DATA_CALL_LIST_CHANGED :: int where "RIL_UNSOL_DATA_CALL_LIST_CHANGED \<equiv> 1010"

text \<open>A null token stands for the unsolicited report.\<close>

definition answer_list :: "nat option \<Rightarrow> RIL_Errno \<Rightarrow> rresp \<Rightarrow> nat \<Rightarrow> vendor \<Rightarrow> vendor" where
  "answer_list t e r len =
     (case t of None \<Rightarrow> unsolicited_event RIL_UNSOL_DATA_CALL_LIST_CHANGED r len | Some t \<Rightarrow> complete t e r len)"

definition new_data_call :: "u32 \<Rightarrow> u32 \<Rightarrow> RIL_Data_Call_Response_v11" where
  "new_data_call n act = \<lparr>dc_status = - 1, suggestedRetryTime = - 1, dc_cid = n, dc_active = act, dc_type = Some [],
     ifname = Some [], addresses = Some [], dnses = Some [], gateways = Some [], pcscf = Some [], mtu = 0\<rparr>"

fun cgact_lines :: "u8 list list \<Rightarrow> RIL_Data_Call_Response_v11 list option" where
  "cgact_lines [] = Some []"
| "cgact_lines (line # ls) = do {
     p \<leftarrow> tok_start line;
     (n, p) \<leftarrow> tok_int p;
     (act, p) \<leftarrow> tok_int p;
     calls \<leftarrow> cgact_lines ls;
     Some (new_data_call n act # calls)
   }"

abbreviation (input) dnslist_sz :: nat where "dnslist_sz \<equiv> 128"

definition strlcat_dns :: "u8 list \<Rightarrow> u8 list \<Rightarrow> u8 list" where
  "strlcat_dns d s = take (dnslist_sz - 1) (d @ s)"

fun emulator_dns :: "venv \<Rightarrow> nat list \<Rightarrow> u8 list \<Rightarrow> u8 list \<Rightarrow> u8 list" where
  "emulator_dns E [] separator dnslist = dnslist"
| "emulator_dns E (nn # ns) separator dnslist =
     (let propValue = property E (lit ''net.eth0.dns'' @ show_digits 10 nn) in
      if propValue = [] then emulator_dns E ns separator dnslist
      else emulator_dns E ns [0x20] (strlcat_dns (strlcat_dns dnslist separator) propValue))"

definition with_dns :: "venv \<Rightarrow> RIL_Data_Call_Response_v11 \<Rightarrow> RIL_Data_Call_Response_v11" where
  "with_dns E c =
     (if property E (lit ''ro.kernel.qemu'') \<noteq> []
      then c\<lparr>dnses := Some (emulator_dns E [1, 2, 3, 4] [] []), gateways := Some (lit ''10.0.2.2''), mtu := 1500\<rparr>
      else c\<lparr>dnses := Some (lit ''8.8.8.8 8.8.4.4''), gateways := Some []\<rparr>)"

text \<open>A line describes the first call with its id, if there is one.\<close>

definition cgdcont_line ::
  "venv \<Rightarrow> u8 list \<Rightarrow> RIL_Data_Call_Response_v11 list \<Rightarrow> RIL_Data_Call_Response_v11 list option" where
  "cgdcont_line E line calls = do {
     p \<leftarrow> tok_start line;
     (n, p) \<leftarrow> tok_int p;
     let i = length (takeWhile (\<lambda>c. dc_cid c \<noteq> n) calls);
     if i \<ge> length calls then Some calls
     else do {
       (type, p) \<leftarrow> tok_str p;
       (apn, p) \<leftarrow> tok_str p;
       (address, p) \<leftarrow> tok_str p;
       Some (calls[i := with_dns E ((calls ! i)\<lparr>dc_status := 0, dc_type := Some type, ifname := Some (lit ''eth0''),
         addresses := Some address\<rparr>)])
     }
   }"

fun cgdcont_lines ::
  "venv \<Rightarrow> u8 list list \<Rightarrow> RIL_Data_Call_Response_v11 list \<Rightarrow> RIL_Data_Call_Response_v11 list option" where
  "cgdcont_lines E [] calls = Some calls"
| "cgdcont_lines E (line # ls) calls = do { calls \<leftarrow> cgdcont_line E line calls; cgdcont_lines E ls calls }"

definition requestOrSendDataCallList :: "venv \<Rightarrow> nat option \<Rightarrow> vendor \<Rightarrow> vendor option" where
  "requestOrSendDataCallList E t S = do {
     let err_end = answer_list t RIL_E_GENERIC_FAILURE RNull 0;
     (err, out, S) \<leftarrow> send_multiline (lit ''AT+CGACT?'') ''+CGACT:'' S;
     bad \<leftarrow> refused err out;
     if bad then Some (err_end S)
     else do {
       r \<leftarrow> out;
       case cgact_lines (p_intermediates r) of
         None \<Rightarrow> Some (err_end S)
       | Some calls \<Rightarrow> do {
           (err, out, S) \<leftarrow> send_multiline (lit ''AT+CGDCONT?'') ''+CGDCONT:'' S;
           bad \<leftarrow> refused err out;
           if bad then Some (err_end S)
           else do {
             r \<leftarrow> out;
             case cgdcont_lines E (p_intermediates r) calls of
               None \<Rightarrow> Some (err_end S)
             | Some calls \<Rightarrow> Some (answer_list t RIL_E_SUCCESS (RDataCallV11 calls) (length calls * 72) S)
           }
         }
     }
   }"

definition onDataCallListChanged :: "venv \<Rightarrow> vendor \<Rightarrow> vendor option" where
  "onDataCallListChanged E = requestOrSendDataCallList E None"

definition requestDataCallList :: "venv \<Rightarrow> nat \<Rightarrow> vendor \<Rightarrow> vendor option" where
  "requestDataCallList E t = requestOrSendDataCallList E (Some t)"

text \<open>Reading the QMI device until the interface is up, with so many tries left.\<close>

fun qmi_wait :: "nat \<Rightarrow> at_read list \<Rightarrow> bool option" where
  "qmi_wait 0 rs = Some False"
| "qmi_wait (Suc retry) [] = None"
| "qmi_wait (Suc retry) (GotIntr # rs) = qmi_wait (Suc retry) rs"
| "qmi_wait (Suc retry) (GotErr # rs) = Some False"
| "qmi_wait (Suc retry) (GotEof # rs) = qmi_wait retry rs"
| "qmi_wait (Suc retry) (Got bs # rs) =
     (let status = takeWhile (\<lambda>b. b \<noteq> 0) (take 31 bs) in
      if strStartsWith status (lit ''STATE=up'') \<or> status = lit ''online'' then Some True
      else qmi_wait retry (if length bs \<le> 31 then rs else Got (drop 31 bs) # rs))"

definition requestSetupDataCall :: "venv \<Rightarrow> rdata \<Rightarrow> nat \<Rightarrow> nat \<Rightarrow> vendor \<Rightarrow> vendor option" where
  "requestSetupDataCall E d datalen t S =
     (case d of
        DStrings (Some ss) \<Rightarrow> do {
          apn \<leftarrow> entry ss 2;
          apn \<leftarrow> apn;
          case dev_qmi E of
            Some (ws, rs, qmistatus) \<Rightarrow> do {
              (ret, bs, ws) \<leftarrow> at_write_all ws (lit ''up:'' @ apn);
              if ret < 0 then Some (fail_void t S)
              else do {
                up \<leftarrow> qmi_wait 10 rs;
                if \<not> up \<or> qmistatus < 0 then Some (fail_void t S) else requestOrSendDataCallList E (Some t) S
              }
            }
          | None \<Rightarrow> do {
              pdp_type \<leftarrow> (if datalen > 48 then entry ss 6 else Some (Some (lit ''IP'')));
              pdp_type \<leftarrow> pdp_type;
              (err, out, S) \<leftarrow> send_command
                (lit ''AT+CGDCONT=1,'' @ [0x22] @ pdp_type @ [0x22, 0x2C, 0x22] @ apn @ [0x22] @ lit '',,0,0'') False S;
              S \<leftarrow> just_send_all [''AT+CGQREQ=1'', ''AT+CGQMIN=1'', ''AT+CGEREP=1,0'', ''AT+CGACT=1,0''] S;
              (err, out, S) \<leftarrow> send_command (lit ''ATD*99***1#'') True S;
              bad \<leftarrow> failed err out;
              if bad then Some (fail_void t S) else requestOrSendDataCallList E (Some t) S
            }
        }
      | _ \<Rightarrow> None)"

section \<open>The network\<close>

definition requestQueryNetworkSelectionMode :: "nat \<Rightarrow> vendor \<Rightarrow> vendor option" where
  "requestQueryNetworkSelectionMode t S = do {
     (err, out, S) \<leftarrow> send_singleline (lit ''AT+COPS?'') ''+COPS:'' True S;
     bad \<leftarrow> failed err out;
     if bad then Some (fail_void t S)
     else do {
       line \<leftarrow> first_answer out;
       Some (case Option.bind (tok_start line) tok_int of
           None \<Rightarrow> fail_void t S
         | Some (response, p) \<Rightarrow> complete t RIL_E_SUCCESS (RInts [response]) 4 S)
     }
   }"

fun tok_ints :: "nat \<Rightarrow> cstr \<Rightarrow> u32 list option" where
  "tok_ints 0 p = Some []"
| "tok_ints (Suc n) p = do { (v, p) \<leftarrow> tok_int p; vs \<leftarrow> tok_ints n p; Some (v # vs) }"

text \<open>The 12 integers of version 6 of the structure.\<close>

definition requestSignalStrength :: "nat \<Rightarrow> vendor \<Rightarrow> vendor option" where
  "requestSignalStrength t S = do {
     (err, out, S) \<leftarrow> send_singleline (lit ''AT+CSQ'') ''+CSQ:'' True S;
     bad \<leftarrow> failed err out;
     if bad then Some (fail_void t (fail_void t S))
     else do {
       line \<leftarrow> first_answer out;
       Some (case Option.bind (tok_start line) (tok_ints 12) of
           None \<Rightarrow> fail_void t S
         | Some response \<Rightarrow> complete t RIL_E_SUCCESS (RInts response) 48 S)
     }
   }"

text \<open>What \<open>parseRegistrationState\<close> stores in its array, one integer more than there are commas; the inner
  \<open>None\<close> is its error. Without \<open>lac\<close> and \<open>cid\<close> it writes past the array's end.\<close>

definition registration_values :: "u8 list \<Rightarrow> u32 list option option" where
  "registration_values str =
     (case tok_start str of
        None \<Rightarrow> Some None
      | Some p \<Rightarrow> do {
          line \<leftarrow> p;
          let commas = length (filter (\<lambda>c. c = 0x2C) line);
          if commas = 0 then (case tok_int p of None \<Rightarrow> Some None | Some v \<Rightarrow> None)
          else if commas = 1 then
            (case Option.bind (tok_int p) (\<lambda>(skip, p). tok_int p) of None \<Rightarrow> Some None | Some v \<Rightarrow> None)
          else if commas = 2 then Some (do {
            (a, p) \<leftarrow> tok_int p; (b, p) \<leftarrow> tok_hex p; (c, p) \<leftarrow> tok_hex p; Some [a, b, c]
          })
          else if commas = 3 then Some (do {
            (skip, p) \<leftarrow> tok_int p; (a, p) \<leftarrow> tok_int p; (b, p) \<leftarrow> tok_hex p; (c, p) \<leftarrow> tok_hex p; Some [a, b, c, 0]
          })
          else if commas = 4 then Some (do {
            (skip, p) \<leftarrow> tok_int p; (a, p) \<leftarrow> tok_int p; (b, p) \<leftarrow> tok_hex p; (c, p) \<leftarrow> tok_hex p; (e, p) \<leftarrow> tok_hex p;
            Some [a, b, c, e, 0]
          })
          else Some None
        })"

text \<open>The type, the number of items and the array.\<close>

definition parseRegistrationState :: "u8 list \<Rightarrow> vendor \<Rightarrow> ((int \<times> nat \<times> u32 list) option \<times> vendor) option" where
  "parseRegistrationState str S = do {
     v \<leftarrow> registration_values str;
     case v of
       None \<Rightarrow> Some (None, S)
     | Some resp \<Rightarrow> do {
         let S = S\<lparr>s_lac := resp ! 1, s_cid := resp ! 2\<rparr>;
         type \<leftarrow> techFromModemType (currentTech (sMdmInfo S));
         Some (Some (type, length resp, resp), S)
       }
   }"

abbreviation (input) REG_STATE_LEN :: nat where "REG_STATE_LEN \<equiv> 15"
abbreviation (input) REG_DATA_STATE_LEN :: nat where "REG_DATA_STATE_LEN \<equiv> 6"

text \<open>The strings of the answer to the voice request (20) or the data request (21).\<close>

definition registration_strings :: "nat \<Rightarrow> int \<Rightarrow> nat \<Rightarrow> u32 list \<Rightarrow> cstr list" where
  "registration_strings request type items registration =
     (let none = replicate (if request = 20 then REG_STATE_LEN else REG_DATA_STATE_LEN) None;
          stat = Some (show_int (registration ! 0)) in
      if is3gpp2 type then
        (if request = 20 then
           [stat, None, None] @ map (\<lambda>s. Some (lit s)) [''8'', ''1'', ''123'', ''222'', ''0'', ''4'', ''65535'', ''0'', ''1'', ''0'', ''0'', ''0'']
         else none[0 := stat, 3 := Some (lit ''8'')])
      else
        (let rs = none[0 := stat, 1 := Some (show_hex (registration ! 1)), 2 := Some (show_hex (registration ! 2))] in
         if items > 3 then rs[3 := Some (show_int (registration ! 3))] else rs))"

text \<open>The request, from the line of the answer on.\<close>

definition answer_registration :: "nat \<Rightarrow> nat \<Rightarrow> u8 list \<Rightarrow> vendor \<Rightarrow> vendor option" where
  "answer_registration request t line S = do {
     (v, S) \<leftarrow> parseRegistrationState line S;
     Some (case v of
         None \<Rightarrow> fail_void t S
       | Some (type, items, registration) \<Rightarrow>
           let ss = registration_strings request type items registration in
           complete t RIL_E_SUCCESS (RStrings ss) (8 * length ss) S)
   }"

definition requestRegistrationState :: "nat \<Rightarrow> nat \<Rightarrow> vendor \<Rightarrow> vendor option" where
  "requestRegistrationState request t S = do {
     (err, out, S) \<leftarrow> (if request = 20 then send_singleline (lit ''AT+CREG?'') ''+CREG:'' True S
                       else send_singleline (lit ''AT+CGREG?'') ''+CGREG:'' True S);
     if err \<noteq> 0 then Some (fail_void t S)
     else do { line \<leftarrow> first_answer out; answer_registration request t line S }
   }"

text \<open>A conversion \<open>%3d\<close> of \<open>sscanf\<close>.\<close>

definition scan_3d :: "u8 list \<Rightarrow> (u32 \<times> u8 list) option" where
  "scan_3d s =
     (let s = dropWhile isspace s; sign = (s \<noteq> [] \<and> (hd s = 0x2D \<or> hd s = 0x2B)); k = (if sign then 1 else 0);
          ds = number_digits 10 (drop k (take 3 s)); v = of_nat (value_of 10 ds) in
      if ds = [] then None
      else Some (if sign \<and> hd s = 0x2D then - v else v, drop (k + length ds) s))"

definition scan_mccmnc :: "u8 list \<Rightarrow> vendor \<Rightarrow> vendor" where
  "scan_mccmnc s S =
     (case scan_3d s of
        None \<Rightarrow> S
      | Some (a, r) \<Rightarrow>
          let S = S\<lparr>s_mcc := a\<rparr> in (case scan_3d r of None \<Rightarrow> S | Some (b, r) \<Rightarrow> S\<lparr>s_mnc := b\<rparr>))"

text \<open>One line of the answer: the pointer stored for it and the state; the inner \<open>None\<close> is an error.\<close>

definition operator_line :: "u8 list \<Rightarrow> vendor \<Rightarrow> (cstr \<times> vendor) option" where
  "operator_line line S = do {
     p \<leftarrow> tok_start line;
     (skip, p) \<leftarrow> tok_int p;
     if \<not> at_tok_hasmore p then Some (None, S)
     else do {
       (skip, p) \<leftarrow> tok_int p;
       if \<not> at_tok_hasmore p then Some (None, S)
       else do {
         (s, p) \<leftarrow> tok_str p;
         Some (Some s, if length s = 6 then scan_mccmnc s S else S)
       }
     }
   }"

text \<open>The loop over the lines from the one with number \<open>length acc\<close>, which stores into an array of three.\<close>

fun operator_lines :: "u8 list list \<Rightarrow> cstr list \<Rightarrow> vendor \<Rightarrow> (cstr list option \<times> vendor) option" where
  "operator_lines [] acc S = Some (Some acc, S)"
| "operator_lines (line # ls) acc S =
     (case operator_line line S of
        None \<Rightarrow> Some (None, S)
      | Some (s, S) \<Rightarrow> if length acc \<ge> 3 then None else operator_lines ls (acc @ [s]) S)"

definition requestOperator :: "nat \<Rightarrow> vendor \<Rightarrow> vendor option" where
  "requestOperator t S = do {
     (err, out, S) \<leftarrow> send_multiline (lit ''AT+COPS=3,0;+COPS?;+COPS=3,1;+COPS?;+COPS=3,2;+COPS?'') ''+COPS:'' S;
     if err \<noteq> 0 then Some (fail_void t S)
     else do {
       r \<leftarrow> out;
       (response, S) \<leftarrow> operator_lines (p_intermediates r) [] S;
       Some (case response of
           None \<Rightarrow> fail_void t S
         | Some ss \<Rightarrow> if length ss \<noteq> 3 then fail_void t S else complete t RIL_E_SUCCESS (RStrings ss) 24 S)
     }
   }"

section \<open>Short messages\<close>

abbreviation (input) RIL_E_SMS_SEND_FAIL_RETRY :: RIL_Errno where "RIL_E_SMS_SEND_FAIL_RETRY \<equiv> 10"

definition complete_sms :: "nat \<Rightarrow> RIL_Errno \<Rightarrow> u32 \<Rightarrow> vendor \<Rightarrow> vendor" where
  "complete_sms t e messageRef = complete t e (RSms messageRef None 0) 24"

definition requestSendSMS :: "rdata \<Rightarrow> nat \<Rightarrow> vendor \<Rightarrow> vendor option" where
  "requestSendSMS d t S =
     (if s_ims_gsm_fail S \<noteq> 0 then Some (complete_sms t RIL_E_GENERIC_FAILURE (- 2) S)
      else if s_ims_gsm_retry S \<noteq> 0 then Some (complete_sms t RIL_E_SMS_SEND_FAIL_RETRY (- 1) S)
      else case d of
        DStrings (Some (smsc # Some pdu # ss)) \<Rightarrow> do {
          let tpLayerLength = length pdu div 2;
          let smsc = (case smsc of None \<Rightarrow> lit ''00'' | Some s \<Rightarrow> s);
          (err, out, S) \<leftarrow> send_sms (lit ''AT+CMGS='' @ show_int (of_nat tpLayerLength)) (smsc @ pdu) ''+CMGS:'' S;
          bad \<leftarrow> refused err out;
          Some (if bad then complete_sms t RIL_E_GENERIC_FAILURE (- 2) S else complete_sms t RIL_E_SUCCESS 1 S)
        }
      | _ \<Rightarrow> None)"

text \<open>Completed with a structure of which only \<open>messageRef\<close> is set, whose string the daemon follows.\<close>

definition requestCdmaSendSMS :: "nat \<Rightarrow> vendor \<Rightarrow> vendor option" where
  "requestCdmaSendSMS t S = None"

definition requestImsSendSMS :: "rdata \<Rightarrow> nat \<Rightarrow> vendor \<Rightarrow> vendor option" where
  "requestImsSendSMS d t S =
     (if s_ims_cause_perm_failure S \<noteq> 0 then Some (complete_sms t RIL_E_GENERIC_FAILURE (- 2) S)
      else case d of
        DImsGsm retry messageRef ss \<Rightarrow>
          if s_ims_cause_retry S \<noteq> 0 \<and> retry = 0 then Some (complete_sms t RIL_E_SMS_SEND_FAIL_RETRY (- 1) S)
          else requestSendSMS (DStrings ss) t S
      | DImsCdma retry messageRef rcsm \<Rightarrow>
          if s_ims_cause_retry S \<noteq> 0 \<and> retry = 0 then Some (complete_sms t RIL_E_SMS_SEND_FAIL_RETRY (- 1) S)
          else requestCdmaSendSMS t S
      | _ \<Rightarrow> None)"

definition requestWriteSmsToSim :: "rdata \<Rightarrow> nat \<Rightarrow> vendor \<Rightarrow> vendor option" where
  "requestWriteSmsToSim d t S =
     (case d of
        DSmsWrite args \<Rightarrow> do {
          pdu \<leftarrow> sms_pdu args;
          (err, out, S) \<leftarrow> send_sms
            (lit ''AT+CMGW='' @ show_int (of_nat (length pdu div 2)) @ [0x2C] @ show_int (sms_status args)) pdu ''+CMGW:'' S;
          bad \<leftarrow> refused err out;
          Some (if bad then fail_void t S else ok_void t S)
        }
      | _ \<Rightarrow> None)"

text \<open>A command that is completed by its result.\<close>

definition send_and_check :: "u8 list \<Rightarrow> nat \<Rightarrow> vendor \<Rightarrow> vendor option" where
  "send_and_check cmd t S = do {
     (err, out, S) \<leftarrow> send_command cmd True S;
     bad \<leftarrow> failed err out;
     Some (if bad then fail_void t S else ok_void t S)
   }"

definition requestDeleteSmsOnSim :: "rdata \<Rightarrow> nat \<Rightarrow> vendor \<Rightarrow> vendor option" where
  "requestDeleteSmsOnSim d t S = do { n \<leftarrow> data_int d; send_and_check (lit ''AT+CMGD='' @ show_int n) t S }"

text \<open>There is no return before the error label.\<close>

definition requestSMSAcknowledge :: "rdata \<Rightarrow> nat \<Rightarrow> vendor \<Rightarrow> vendor option" where
  "requestSMSAcknowledge d t S = do {
     ackSuccess \<leftarrow> data_int d;
     S \<leftarrow> (if ackSuccess = 1 then do { S \<leftarrow> just_send ''AT+CNMA=1'' S; Some (ok_void t S) }
           else if ackSuccess = 0 then do { S \<leftarrow> just_send ''AT+CNMA=2'' S; Some (ok_void t S) }
           else Some S);
     Some (fail_void t S)
   }"

section \<open>The SIM card's files and its PIN\<close>

definition requestSIM_IO :: "rdata \<Rightarrow> nat \<Rightarrow> vendor \<Rightarrow> vendor option" where
  "requestSIM_IO d t S =
     (case d of
        DSimIO a \<Rightarrow> do {
          let cmd = lit ''AT+CRSM='' @ show_int (io_command a) @ [0x2C] @ show_int (io_fileid a) @ [0x2C] @
            show_int (io_p1 a) @ [0x2C] @ show_int (io_p2 a) @ [0x2C] @ show_int (io_p3 a) @
            (case io_data a of None \<Rightarrow> [] | Some s \<Rightarrow> 0x2C # s);
          (err, out, S) \<leftarrow> send_singleline cmd ''+CRSM:'' True S;
          bad \<leftarrow> failed err out;
          if bad then Some (fail_void t S)
          else do {
            line \<leftarrow> first_answer out;
            let sr = do {
              p \<leftarrow> tok_start line;
              (sw1, p) \<leftarrow> tok_int p;
              (sw2, p) \<leftarrow> tok_int p;
              if at_tok_hasmore p then do { (s, p) \<leftarrow> tok_str p; Some (RSimIO sw1 sw2 (Some s)) }
              else Some (RSimIO sw1 sw2 None)
            };
            Some (case sr of None \<Rightarrow> fail_void t S | Some sr \<Rightarrow> complete t RIL_E_SUCCESS sr 16 S)
          }
        }
      | _ \<Rightarrow> None)"

abbreviation (input) RIL_E_PASSWORD_INCORRECT :: RIL_Errno where "RIL_E_PASSWORD_INCORRECT \<equiv> 3"

definition requestEnterSimPin :: "rdata \<Rightarrow> nat \<Rightarrow> nat \<Rightarrow> vendor \<Rightarrow> vendor option" where
  "requestEnterSimPin d datalen t S =
     (if datalen \<noteq> 8 \<and> datalen \<noteq> 16 then Some (complete t RIL_E_PASSWORD_INCORRECT RNull 0 S)
      else case d of
        DStrings (Some ss) \<Rightarrow> do {
          a \<leftarrow> entry ss 0;
          a \<leftarrow> a;
          cmd \<leftarrow> (if datalen = 8 then Some (lit ''AT+CPIN='' @ a)
                 else do { b \<leftarrow> entry ss 1; b \<leftarrow> b; Some (lit ''AT+CPIN='' @ a @ [0x2C] @ b) });
          (err, out, S) \<leftarrow> send_singleline cmd ''+CPIN:'' True S;
          bad \<leftarrow> failed err out;
          Some (if bad then complete t RIL_E_PASSWORD_INCORRECT RNull 0 S else ok_void t S)
        }
      | _ \<Rightarrow> None)"

text \<open>The requests that are answered with the first line of a numeric command's response.\<close>

definition numeric_request :: "string \<Rightarrow> nat \<Rightarrow> vendor \<Rightarrow> vendor option" where
  "numeric_request cmd t S = do {
     (err, out, S) \<leftarrow> send_numeric (lit cmd) S;
     bad \<leftarrow> failed err out;
     if bad then Some (fail_void t S)
     else do { line \<leftarrow> first_answer out; Some (complete t RIL_E_SUCCESS (RString line) 8 S) }
   }"

end
