(* ===== verification/VendorRil.thy ===== *)
theory VendorRil
  imports VendorNetwork
begin

text \<open>
  \<open>reference-ril.c\<close>: the modem's technology and preferred modes, the requests for CDMA modems and those that are
  answered from variables, \<open>onRequest\<close> that chooses among all of them, the initialization of the modem, and the
  steps of the library as the daemon and the modem drive it. \<open>None\<close> is undefined behaviour or a wait without end.
\<close>

section \<open>Technologies and preferred modes\<close>

definition net2modem :: "u32 list" where
  "net2modem = [3, 1, 2, 3, 12, 4, 8, 15, 28, 19, 31, 16]"

definition net2pmask :: "u32 list" where
  "net2pmask = [0x201, 1, 2, 3, 12, 4, 8, 15, 28, 19, 31, 16]"

definition networkModePossible :: "ModemInfo \<Rightarrow> nat \<Rightarrow> bool option" where
  "networkModePossible mdm nm = do { m \<leftarrow> entry net2modem nm; Some (m AND supportedTechs mdm = m) }"

text \<open>The result code, the current technology and the preferred mode where they could be read.\<close>

definition query_ctec :: "vendor \<Rightarrow> ((int \<times> u32 option \<times> u32 option) \<times> vendor) option" where
  "query_ctec S = do {
     (err, out, S) \<leftarrow> send_singleline (lit ''AT+CTEC?'') ''+CTEC:'' True S;
     bad \<leftarrow> refused err out;
     if bad then Some ((- 1, None, None), S)
     else do { line \<leftarrow> first_answer out; Some (parse_technology_response line, S) }
   }"

definition strstr :: "u8 list \<Rightarrow> u8 list \<Rightarrow> bool" where
  "strstr s x \<longleftrightarrow> list_ex (\<lambda>i. strStartsWith (drop i s) x) [0..<Suc (length s)]"

definition set_preferred :: "u32 \<Rightarrow> vendor \<Rightarrow> vendor" where
  "set_preferred v S = S\<lparr>sMdmInfo := (sMdmInfo S)\<lparr>preferredNetworkMode := v\<rparr>\<rparr>"

definition requestSetPreferredNetworkType :: "rdata \<Rightarrow> nat \<Rightarrow> vendor \<Rightarrow> vendor option" where
  "requestSetPreferredNetworkType d t S = do {
     val \<leftarrow> data_int d;
     preferred \<leftarrow> entry net2pmask (unat val);
     possible \<leftarrow> networkModePossible (sMdmInfo S) (unat val);
     if \<not> possible then Some (complete t 13 RNull 0 S)
     else do {
       ((res, cur, pref), S) \<leftarrow> query_ctec S;
       if res < 0 then Some (fail_void t S)
       else if preferredNetworkMode (sMdmInfo S) = preferred then Some (ok_void t S)
       else do {
         cur \<leftarrow> cur;
         (err, out, S) \<leftarrow> send_singleline
           (lit ''AT+CTEC='' @ show_int cur @ [0x2C, 0x22] @ show_hex preferred @ [0x22]) ''+CTEC:'' True S;
         bad \<leftarrow> refused err out;
         if bad then Some (fail_void t S)
         else do {
           let S = set_preferred val S;
           line \<leftarrow> first_answer out;
           S \<leftarrow> (if strstr line (lit ''DONE'') then Some S
                 else case parse_technology_response line of
                   (res, None, pref) \<Rightarrow> Some S
                 | (res, Some tech, pref) \<Rightarrow> setRadioTechnology tech S);
           Some (ok_void t S)
         }
       }
     }
   }"

definition requestGetPreferredNetworkType :: "nat \<Rightarrow> vendor \<Rightarrow> vendor option" where
  "requestGetPreferredNetworkType t S = do {
     ((res, cur, pref), S) \<leftarrow> query_ctec S;
     if res \<noteq> 0 then Some (fail_void t S)
     else do {
       preferred \<leftarrow> pref;
       let i = length (takeWhile (\<lambda>m. m \<noteq> preferred) net2pmask);
       Some (if i < length net2pmask then complete t RIL_E_SUCCESS (RInts [of_nat i]) 4 S else fail_void t S)
     }
   }"

text \<open>The loop of \<open>query_supported_techs\<close>.\<close>

function techs_of :: "cstr \<Rightarrow> u32 \<Rightarrow> u32 option" where
  "techs_of p techs =
     (case tok_int p of
        None \<Rightarrow> Some techs
      | Some (val, p) \<Rightarrow> do { b \<leftarrow> tech_bit val; techs_of p (techs OR b) })"
  by pat_completeness auto
termination
  by (relation "measure (\<lambda>(p, techs). cursor_size p)") (auto dest: tok_int_shorter)

declare techs_of.simps [simp del]

text \<open>On an error the response is freed, which was not set when the command could not be sent.\<close>

definition query_supported_techs :: "vendor \<Rightarrow> (u32 option \<times> vendor) option" where
  "query_supported_techs S = do {
     (err, out, S) \<leftarrow> send_singleline (lit ''AT+CTEC=?'') ''+CTEC:'' True S;
     bad \<leftarrow> refused err out;
     if bad then (if out = None \<and> err \<noteq> AT_ERROR_INVALID_RESPONSE then None else Some (None, S))
     else do {
       line \<leftarrow> first_answer out;
       case tok_start line of
         None \<Rightarrow> Some (None, S)
       | Some p \<Rightarrow>
           if \<not> at_tok_hasmore p then Some (None, S)
           else do { techs \<leftarrow> techs_of p 0; Some (Some techs, S) }
     }
   }"

definition is_multimode_modem :: "vendor \<Rightarrow> (bool \<times> vendor) option" where
  "is_multimode_modem S = do {
     ((res, cur, pref), S) \<leftarrow> query_ctec S;
     if res \<noteq> 0 then Some (False, S)
     else do {
       tech \<leftarrow> cur;
       preferred \<leftarrow> pref;
       let S = S\<lparr>sMdmInfo := (sMdmInfo S)\<lparr>currentTech := tech, preferredNetworkMode := preferred\<rparr>\<rparr>;
       (techs, S) \<leftarrow> query_supported_techs S;
       Some (case techs of
           None \<Rightarrow> (False, S)
         | Some techs \<Rightarrow> (True, S\<lparr>sMdmInfo := (sMdmInfo S)\<lparr>supportedTechs := techs\<rparr>\<rparr>))
     }
   }"

definition set_modem :: "u32 \<Rightarrow> u32 \<Rightarrow> vendor \<Rightarrow> vendor" where
  "set_modem techs cur S = S\<lparr>sMdmInfo := (sMdmInfo S)\<lparr>supportedTechs := techs, currentTech := cur\<rparr>\<rparr>"

definition probeForModemMode :: "vendor \<Rightarrow> vendor option" where
  "probeForModemMode S = do {
     (multi, S) \<leftarrow> is_multimode_modem S;
     if multi then Some S
     else do {
       let S = S\<lparr>sMdmInfo := (sMdmInfo S)\<lparr>isMultimode := 0\<rparr>\<rparr>;
       (err, out, S) \<leftarrow> send_singleline (lit ''AT+WNAM'') ''+WNAM:'' True S;
       bad \<leftarrow> refused err out;
       Some (if \<not> bad then set_modem (MDM_CDMA OR MDM_EVDO) MDM_CDMA S
         else set_modem (MDM_GSM OR MDM_WCDMA OR MDM_LTE) MDM_GSM S)
     }
   }"

section \<open>Requests for CDMA modems\<close>

definition requestCdmaBaseBandVersion :: "nat \<Rightarrow> vendor \<Rightarrow> vendor" where
  "requestCdmaBaseBandVersion t = complete t RIL_E_SUCCESS (RString (lit ''1.0.0.0'')) 8"

definition requestCdmaDeviceIdentity :: "nat \<Rightarrow> vendor \<Rightarrow> vendor option" where
  "requestCdmaDeviceIdentity t S = do {
     (err, out, S) \<leftarrow> send_numeric (lit ''AT+CGSN'') S;
     bad \<leftarrow> failed err out;
     if bad then Some (fail_void t S)
     else do {
       line \<leftarrow> first_answer out;
       Some (complete t RIL_E_SUCCESS
         (RStrings [Some (lit ''----''), Some (lit ''----''), Some (lit ''77777777''), Some line]) 32 S)
     }
   }"

text \<open>Whatever is stored for the integer is reported, also when the token is not a number.\<close>

definition requestCdmaGetSubscriptionSource :: "nat \<Rightarrow> vendor \<Rightarrow> vendor option" where
  "requestCdmaGetSubscriptionSource t S = do {
     (err, out, S) \<leftarrow> send_singleline (lit ''AT+CCSS?'') ''+CCSS:'' True S;
     bad \<leftarrow> failed err out;
     if bad then Some (fail_void t S)
     else do {
       line \<leftarrow> first_answer out;
       case tok_start line of
         None \<Rightarrow> Some (fail_void t S)
       | Some p \<Rightarrow> (case at_tok_nextint p of (err, stored, p) \<Rightarrow> do {
           response \<leftarrow> stored;
           Some (complete t RIL_E_SUCCESS (RInts [response]) 4 S)
         })
     }
   }"

definition requestCdmaSetSubscriptionSource :: "rdata \<Rightarrow> nat \<Rightarrow> nat \<Rightarrow> vendor \<Rightarrow> vendor option" where
  "requestCdmaSetSubscriptionSource d datalen t S =
     (if d = DNull \<or> datalen = 0 then Some (fail_void t S)
      else do {
        ss \<leftarrow> data_int d;
        (err, out, S) \<leftarrow> send_command (lit ''AT+CCSS='' @ show_int ss) True S;
        bad \<leftarrow> failed err out;
        Some (if bad then fail_void t S else unsolicited_event 1031 (RInts [ss]) 4 (ok_void t S))
      })"

definition requestCdmaSubscription :: "nat \<Rightarrow> vendor \<Rightarrow> vendor" where
  "requestCdmaSubscription t = complete t RIL_E_SUCCESS
     (RStrings (map (\<lambda>s. Some (lit s)) [''8587777777'', ''1'', ''1'', ''8587777777'', ''1''])) 40"

definition requestCdmaGetRoamingPreference :: "nat \<Rightarrow> vendor \<Rightarrow> vendor option" where
  "requestCdmaGetRoamingPreference t S = do {
     (err, out, S) \<leftarrow> send_singleline (lit ''AT+WRMP?'') ''+WRMP:'' True S;
     bad \<leftarrow> failed err out;
     if bad then Some (fail_void t S)
     else do {
       line \<leftarrow> first_answer out;
       Some (case Option.bind (tok_start line) tok_int of
           None \<Rightarrow> fail_void t S
         | Some (roaming_pref, p) \<Rightarrow> complete t RIL_E_SUCCESS (RInts [roaming_pref]) 4 S)
     }
   }"

definition requestCdmaSetRoamingPreference :: "rdata \<Rightarrow> nat \<Rightarrow> vendor \<Rightarrow> vendor option" where
  "requestCdmaSetRoamingPreference d t S = do {
     pref \<leftarrow> data_int d;
     send_and_check (lit ''AT+WRMP='' @ show_int pref) t S
   }"

definition requestExitEmergencyMode :: "nat \<Rightarrow> vendor \<Rightarrow> vendor option" where
  "requestExitEmergencyMode = send_and_check (lit ''AT+WSOS=0'')"

definition requestCdma :: "nat \<Rightarrow> rdata \<Rightarrow> nat \<Rightarrow> nat \<Rightarrow> vendor \<Rightarrow> vendor option" where
  "requestCdma request d datalen t S =
     (if request = 51 then Some (requestCdmaBaseBandVersion t S)
      else if request = 98 then requestCdmaDeviceIdentity t S
      else if request = 95 then Some (requestCdmaSubscription t S)
      else if request = 77 then requestCdmaSetSubscriptionSource d datalen t S
      else if request = 104 then requestCdmaGetSubscriptionSource t S
      else if request = 79 then requestCdmaGetRoamingPreference t S
      else if request = 78 then requestCdmaSetRoamingPreference d t S
      else requestExitEmergencyMode t S)"

section \<open>Answers from variables\<close>

definition requestGetCellInfoList :: "venv \<Rightarrow> nat \<Rightarrow> vendor \<Rightarrow> vendor" where
  "requestGetCellInfoList E t S = complete t RIL_E_SUCCESS
     (RCellsV6 [\<lparr>cellInfoType = 1, registered = 1, timeStampType = 2, timeStamp = ril_nano_time E - 1000,
        CellInfo = Cell_gsm (s_mcc S) (s_mnc S) (s_lac S) (s_cid S) 10 0\<rparr>]) 72 S"

definition requestSetCellInfoListRate :: "rdata \<Rightarrow> nat \<Rightarrow> nat \<Rightarrow> vendor \<Rightarrow> vendor option" where
  "requestSetCellInfoListRate d datalen t S =
     (if datalen \<noteq> 4 then None else do { v \<leftarrow> data_int d; Some (ok_void t (S\<lparr>s_cell_info_rate_ms := v\<rparr>)) })"

text \<open>A type of -1; nothing else of the structure is set.\<close>

definition requestGetHardwareConfig :: "nat \<Rightarrow> vendor \<Rightarrow> vendor" where
  "requestGetHardwareConfig t = complete t RIL_E_SUCCESS (RHardware [HardwareOther]) 136"

definition requestImsRegistrationState :: "nat \<Rightarrow> vendor \<Rightarrow> vendor" where
  "requestImsRegistrationState t S =
     (if s_ims_format S \<noteq> - 1 then complete t RIL_E_SUCCESS (RInts [s_ims_registered S, s_ims_format S]) 8 S
      else fail_void t S)"

definition requestVoiceRadioTech :: "nat \<Rightarrow> vendor \<Rightarrow> vendor option" where
  "requestVoiceRadioTech t S = do {
     tech \<leftarrow> techFromModemType (currentTech (sMdmInfo S));
     Some (if tech < 0 then fail_void t S else complete t RIL_E_SUCCESS (RInts [word_of_int tech]) 4 S)
   }"

text \<open>The data as the response, which is what the OEM hooks echo.\<close>

definition echo :: "rdata \<Rightarrow> rresp option" where
  "echo d =
     (case d of
        DNull \<Rightarrow> Some RNull
      | DRaw None \<Rightarrow> Some RNull
      | DRaw (Some bs) \<Rightarrow> Some (RRaw bs)
      | DStrings None \<Rightarrow> Some RNull
      | DStrings (Some ss) \<Rightarrow> Some (RStrings ss)
      | _ \<Rightarrow> None)"

definition requestOemHook :: "rdata \<Rightarrow> nat \<Rightarrow> nat \<Rightarrow> vendor \<Rightarrow> vendor option" where
  "requestOemHook d datalen t S = do { r \<leftarrow> echo d; Some (complete t RIL_E_SUCCESS r datalen S) }"

definition requestSendUSSD :: "nat \<Rightarrow> vendor \<Rightarrow> vendor" where
  "requestSendUSSD t = complete t RIL_E_REQUEST_NOT_SUPPORTED RNull 0"

section \<open>All requests\<close>

text \<open>The call control commands that only depend on the number.\<close>

definition call_command :: "nat \<Rightarrow> string option" where
  "call_command request =
     (if request = 13 then Some ''AT+CHLD=0''
      else if request = 14 then Some ''AT+CHLD=1''
      else if request = 15 then Some ''AT+CHLD=2''
      else if request = 40 then Some ''ATA''
      else if request = 16 then Some ''AT+CHLD=3''
      else if request = 17 then Some ''ATH''
      else None)"

definition cdma_requests :: "nat list" where
  "cdma_requests = [51, 98, 95, 77, 104, 79, 78, 99]"

text \<open>The switch of \<open>onRequest\<close>.\<close>

definition request_switch :: "venv \<Rightarrow> nat \<Rightarrow> rdata \<Rightarrow> nat \<Rightarrow> nat \<Rightarrow> vendor \<Rightarrow> vendor option" where
  "request_switch E request d datalen t S =
     (if request = 1 then requestGetSimStatus t S
      else if request = 9 then requestGetCurrentCalls t S
      else if request = 10 then requestDial d t S
      else if request = 12 then requestHangup d t S
      else if call_command request \<noteq> None then send_and_succeed (lit (the (call_command request))) t S
      else if request = 52 then requestSeparateConnection d t S
      else if request = 19 then requestSignalStrength t S
      else if request = 20 \<or> request = 21 then requestRegistrationState request t S
      else if request = 22 then requestOperator t S
      else if request = 23 then requestRadioPower d t S
      else if request = 24 then requestDtmf d t S
      else if request = 25 \<or> request = 26 then requestSendSMS d t S
      else if request = 87 then requestCdmaSendSMS t S
      else if request = 113 then requestImsSendSMS d t S
      else if request = 27 then requestSetupDataCall E d datalen t S
      else if request = 37 then requestSMSAcknowledge d t S
      else if request = 11 then numeric_request ''AT+CIMI'' t S
      else if request = 38 then numeric_request ''AT+CGSN'' t S
      else if request = 28 then requestSIM_IO d t S
      else if request = 29 then Some (requestSendUSSD t S)
      else if request = 30 then numeric_request ''AT+CUSD=2'' t S
      else if request = 46 then just_send ''AT+COPS=0'' S
      else if request = 57 then requestDataCallList E t S
      else if request = 45 then requestQueryNetworkSelectionMode t S
      else if request = 59 \<or> request = 60 then requestOemHook d datalen t S
      else if request = 63 then requestWriteSmsToSim d t S
      else if request = 64 then requestDeleteSmsOnSim d t S
      else if 2 \<le> request \<and> request \<le> 7 then requestEnterSimPin d datalen t S
      else if request = 112 then Some (requestImsRegistrationState t S)
      else if request = 108 then requestVoiceRadioTech t S
      else if request = 73 then requestSetPreferredNetworkType d t S
      else if request = 74 then requestGetPreferredNetworkType t S
      else if request = 109 then Some (requestGetCellInfoList E t S)
      else if request = 110 then requestSetCellInfoListRate d datalen t S
      else if request = 124 then Some (requestGetHardwareConfig t S)
      else if request = 129 then requestShutdown t S
      else if request \<in> set cdma_requests then do {
        b \<leftarrow> tech_bit (currentTech (sMdmInfo S));
        if b = MDM_CDMA then requestCdma request d datalen t S
        else Some (complete t RIL_E_REQUEST_NOT_SUPPORTED RNull 0 S)
      }
      else Some (complete t RIL_E_REQUEST_NOT_SUPPORTED RNull 0 S))"

definition onRequest :: "venv \<Rightarrow> nat \<Rightarrow> rdata \<Rightarrow> nat \<Rightarrow> nat \<Rightarrow> vendor \<Rightarrow> vendor option" where
  "onRequest E request d datalen t S =
     (if sState S = RADIO_STATE_UNAVAILABLE \<and> request \<noteq> 1
      then Some (complete t RIL_E_RADIO_NOT_AVAILABLE RNull 0 S)
      else if sState S = RADIO_STATE_OFF \<and> \<not> (request = 23 \<or> request = 1)
      then Some (complete t RIL_E_RADIO_NOT_AVAILABLE RNull 0 S)
      else request_switch E request d datalen t S)"

definition currentState :: "vendor \<Rightarrow> RIL_RadioState" where
  "currentState = sState"

definition onSupports :: "int \<Rightarrow> int" where
  "onSupports requestCode = 1"

definition onCancel :: "nat \<Rightarrow> vendor \<Rightarrow> vendor" where
  "onCancel t S = S"

section \<open>Initialization\<close>

definition handshake :: "vendor \<Rightarrow> vendor option" where
  "handshake S = do {
     (err, ch, es) \<leftarrow> at_handshake False (v_waits S) (v_chan S);
     after_wait ch es S
   }"

definition initializeCallback :: "vendor \<Rightarrow> vendor option" where
  "initializeCallback S = do {
     S \<leftarrow> setRadioState RADIO_STATE_OFF S;
     S \<leftarrow> handshake S;
     S \<leftarrow> probeForModemMode S;
     S \<leftarrow> just_send_all [''ATE0Q0V1'', ''ATS0=0'', ''AT+CMEE=1''] S;
     (err, out, S) \<leftarrow> send_command (lit ''AT+CREG=2'') True S;
     bad \<leftarrow> failed err out;
     S \<leftarrow> (if bad then just_send ''AT+CREG=1'' S else Some S);
     S \<leftarrow> just_send_all [''AT+CGREG=1'', ''AT+CCWA=1'', ''AT+CMOD=0'', ''AT+CMUT=0'', ''AT+CSSN=0,1'', ''AT+COLP=0'',
       ''AT+CSCS=\"HEX\"'', ''AT+CUSD=1'', ''AT+CGEREP=1,0'', ''AT+CMGF=0''] S;
     (on, S) \<leftarrow> isRadioOn S;
     if on > 0 then setRadioState RADIO_STATE_ON S else Some S
   }"

text \<open>\<open>mainLoop\<close> once the device is open.\<close>

definition main_open :: "int \<Rightarrow> vendor \<Rightarrow> vendor" where
  "main_open fd S = vlog (VTimed InitializeCallback) (S\<lparr>s_closed := 0, v_chan := at_open fd True (v_chan S)\<rparr>)"

fun run_callback :: "venv \<Rightarrow> vcallback \<Rightarrow> vendor \<Rightarrow> vendor option" where
  "run_callback E SendCallStateChanged S = Some (sendCallStateChanged S)"
| "run_callback E OnDataCallListChanged S = onDataCallListChanged E S"
| "run_callback E PollSIMState S = pollSIMState S"
| "run_callback E InitializeCallback S = initializeCallback S"

section \<open>Steps\<close>

text \<open>The library between its calls: the device opened again, a request of the daemon, a callback, and what the
  reader thread does while no command waits. \<open>v_waits\<close> is chosen anew for each.\<close>

inductive vendor_step :: "venv \<Rightarrow> vendor \<Rightarrow> vendor \<Rightarrow> bool" for E :: venv where
  StepOpen: "vendor_step E S (main_open fd S)"
| StepRequest: "onRequest E request d datalen t (S\<lparr>v_waits := es\<rparr>) = Some S' \<Longrightarrow> vendor_step E S S'"
| StepCallback: "run_callback E cb (S\<lparr>v_waits := es\<rparr>) = Some S' \<Longrightarrow> vendor_step E S S'"
| StepReader: "reader_round (v_chan S) b reads = Some (st, ch, b', reads') \<Longrightarrow> after_wait ch es S = Some S' \<Longrightarrow>
     vendor_step E S S'"

inductive vendor_reachable :: "venv \<Rightarrow> vendor \<Rightarrow> vendor \<Rightarrow> bool" for E :: venv and S\<^sub>0 :: vendor where
  ReachStart: "vendor_reachable E S\<^sub>0 S\<^sub>0"
| ReachStep: "vendor_reachable E S\<^sub>0 S \<Longrightarrow> vendor_step E S S' \<Longrightarrow> vendor_reachable E S\<^sub>0 S'"

end
