(* ===== verification/VendorFacts.thy ===== *)
theory VendorFacts
  imports VendorRil
begin

text \<open>
  What the operations of the reference vendor library have in common: which requests they complete, what they keep
  of the radio's state, and that a closed channel stays closed until the device is opened again.
\<close>

section \<open>Completions and the invariant\<close>

fun completed_token :: "vevent \<Rightarrow> nat list" where
  "completed_token (VComplete t e r len) = [t]"
| "completed_token (VUnsol n r len) = []"
| "completed_token (VTimed cb) = []"

definition tokens :: "vendor \<Rightarrow> nat list" where
  "tokens S = concat (map completed_token (v_trace S))"

definition vinv :: "vendor \<Rightarrow> bool" where
  "vinv S \<longleftrightarrow> sState S \<in> {RADIO_STATE_OFF, RADIO_STATE_UNAVAILABLE, RADIO_STATE_ON} \<and>
     (s_closed S > 0 \<longrightarrow> sState S = RADIO_STATE_UNAVAILABLE) \<and> VTimed PollSIMState \<notin> set (v_trace S)"

definition answers :: "nat list \<Rightarrow> vendor \<Rightarrow> vendor \<Rightarrow> bool" where
  "answers ts S S' \<longleftrightarrow> tokens S' = tokens S @ ts \<and> (vinv S \<longrightarrow> vinv S') \<and> (s_closed S > 0 \<longrightarrow> s_closed S' > 0)"

lemma answers_refl [simp]: "answers [] S S"
  by (simp add: answers_def)

lemma answers_trans: "answers ts S S' \<Longrightarrow> answers us S' S'' \<Longrightarrow> answers (ts @ us) S S''"
  by (simp add: answers_def)

lemma quiet_trans: "answers [] S S' \<Longrightarrow> answers us S' S'' \<Longrightarrow> answers us S S''"
  using answers_trans [of "[]"] by simp

lemma vlog_facts [simp]:
  "tokens (vlog e S) = tokens S @ completed_token e" "s_closed (vlog e S) = s_closed S" "sState (vlog e S) = sState S"
  "vinv (vlog e S) \<longleftrightarrow> vinv S \<and> e \<noteq> VTimed PollSIMState"
  by (auto simp: vlog_def tokens_def vinv_def)

lemma event_facts [simp]:
  "tokens (complete t e r len S) = tokens S @ [t]" "s_closed (complete t e r len S) = s_closed S"
  "vinv (complete t e r len S) = vinv S" "tokens (unsolicited_event n r len S) = tokens S"
  "s_closed (unsolicited_event n r len S) = s_closed S" "vinv (unsolicited_event n r len S) = vinv S"
  by (simp_all add: complete_def unsolicited_event_def)

lemma void_facts [simp]:
  "tokens (ok_void t S) = tokens S @ [t]" "s_closed (ok_void t S) = s_closed S" "vinv (ok_void t S) = vinv S"
  "tokens (fail_void t S) = tokens S @ [t]" "s_closed (fail_void t S) = s_closed S" "vinv (fail_void t S) = vinv S"
  by (simp_all add: ok_void_def fail_void_def)

lemma update_facts [simp]:
  "tokens (S\<lparr>sMdmInfo := m\<rparr>) = tokens S" "vinv (S\<lparr>sMdmInfo := m\<rparr>) = vinv S"
  "tokens (S\<lparr>v_chan := c\<rparr>) = tokens S" "vinv (S\<lparr>v_chan := c\<rparr>) = vinv S"
  "tokens (S\<lparr>v_waits := w\<rparr>) = tokens S" "vinv (S\<lparr>v_waits := w\<rparr>) = vinv S"
  "tokens (S\<lparr>v_seen := k\<rparr>) = tokens S" "vinv (S\<lparr>v_seen := k\<rparr>) = vinv S"
  "tokens (S\<lparr>s_mcc := x\<rparr>) = tokens S" "vinv (S\<lparr>s_mcc := x\<rparr>) = vinv S"
  "tokens (S\<lparr>s_mnc := x\<rparr>) = tokens S" "vinv (S\<lparr>s_mnc := x\<rparr>) = vinv S"
  "tokens (S\<lparr>s_lac := x\<rparr>) = tokens S" "vinv (S\<lparr>s_lac := x\<rparr>) = vinv S"
  "tokens (S\<lparr>s_cid := x\<rparr>) = tokens S" "vinv (S\<lparr>s_cid := x\<rparr>) = vinv S"
  "tokens (S\<lparr>s_cell_info_rate_ms := x\<rparr>) = tokens S" "vinv (S\<lparr>s_cell_info_rate_ms := x\<rparr>) = vinv S"
  by (simp_all add: tokens_def vinv_def)

lemma set_state_quiet:
  assumes "newState \<in> {RADIO_STATE_OFF, RADIO_STATE_UNAVAILABLE, RADIO_STATE_ON}"
  shows "answers [] S (set_state newState S)"
  using assms by (auto simp: set_state_def Let_def answers_def tokens_def vinv_def unsolicited_event_def vlog_def)

section \<open>Steps that complete nothing\<close>

text \<open>The calculus: a goal \<open>safe m (answers ts S)\<close> is taken apart along the steps of \<open>m\<close>; every command and every
  known step leaves the fact that it completes nothing.\<close>

lemma safeI: "(\<And>x. m = Some x \<Longrightarrow> P x) \<Longrightarrow> safe m P"
  by (simp add: safe_def)

lemma safeD: "safe m P \<Longrightarrow> m = Some x \<Longrightarrow> P x"
  by (simp add: safe_def)

lemma safe_bindI: "safe m (\<lambda>x. safe (f x) P) \<Longrightarrow> safe (m \<bind> f) P"
  by simp

lemma safe_SomeI: "P x \<Longrightarrow> safe (Some x) P"
  by simp

lemma safe_option:
  "(m = None \<Longrightarrow> safe a P) \<Longrightarrow> (\<And>x. m = Some x \<Longrightarrow> safe (f x) P) \<Longrightarrow>
     safe (case m of None \<Rightarrow> a | Some x \<Rightarrow> f x) P"
  by (cases m) auto

lemma safe_prod: "(\<And>a b. x = (a, b) \<Longrightarrow> safe (f a b) P) \<Longrightarrow> safe (case x of (a, b) \<Rightarrow> f a b) P"
  by (cases x) auto

lemmas structural = safe_bindI safe_if safe_option safe_prod case_prodI2

text \<open>What is to be shown of a step, and how it is used where the step stands.\<close>

lemma quiet_use: "safe m (answers [] S) \<Longrightarrow> (\<And>S'. answers [] S S' \<Longrightarrow> Q S') \<Longrightarrow> safe m Q"
  by (auto simp: safe_def)

lemma quiet_use2: "safe m (\<lambda>(x, S'). answers [] S S') \<Longrightarrow> (\<And>x S'. answers [] S S' \<Longrightarrow> Q (x, S')) \<Longrightarrow> safe m Q"
  by (auto simp: safe_def)

lemma setRadioTechnology_quiet: "safe (setRadioTechnology tech S) (answers [] S)"
  unfolding setRadioTechnology_def Let_def
  by ((rule structural safe_SomeI safeI | auto simp: answers_def)+)

lemma onUnsolicited_quiet: "safe (onUnsolicited s sms S) (answers [] S)"
proof (rule safeI)
  fix S' assume "onUnsolicited s sms S = Some S'"
  then show "answers [] S S'"
    using set_state_quiet [of RADIO_STATE_OFF S]
    by (auto simp: onUnsolicited_def bind_eq_Some_conv split: if_splits option.splits prod.splits
        dest: safeD [OF setRadioTechnology_quiet]) (simp_all add: answers_def)
qed

lemma reader_closed_quiet: "answers [] S (onATReaderClosed S)"
  by (auto simp: onATReaderClosed_def answers_def tokens_def vinv_def set_state_def Let_def unsolicited_event_def vlog_def)

lemma handle_event_quiet: "safe (handle_event e S) (answers [] S)"
  by (cases e) (auto intro: onUnsolicited_quiet reader_closed_quiet)

lemma handle_events_quiet: "safe (handle_events es S) (answers [] S)"
proof (induction es arbitrary: S)
  case (Cons e es)
  have "safe (handle_events es S') (answers [] S)" if "answers [] S S'" for S'
    by (rule safe_mono [OF Cons.IH]) (rule quiet_trans [OF that])
  then show ?case unfolding handle_events.simps by (rule safe_bindI [OF handle_event_quiet [THEN quiet_use]])
qed simp

lemma after_wait_quiet: "safe (after_wait ch es S) (answers [] S)"
  unfolding after_wait_def
  by ((rule structural handle_events_quiet [THEN quiet_use] safe_SomeI | simp add: answers_def)+)

lemma safe_with_channel: "(\<And>err out S'. answers [] S S' \<Longrightarrow> Q (err, out, S')) \<Longrightarrow> safe (with_channel f S) Q"
  unfolding with_channel_def
  by ((rule structural after_wait_quiet [THEN quiet_use] safe_SomeI safeI | simp)+)

lemma safe_sends:
  assumes "\<And>err out S'. answers [] S S' \<Longrightarrow> Q (err, out, S')"
  shows "safe (send_command cmd want S) Q" "safe (send_singleline cmd prefix want S) Q"
    "safe (send_numeric cmd S) Q" "safe (send_sms cmd pdu prefix S) Q" "safe (send_multiline cmd prefix S) Q"
  using assms by (auto simp: send_command_def send_singleline_def send_numeric_def send_sms_def send_multiline_def
      intro: safe_with_channel)

lemmas steps = structural safe_sends safe_SomeI safeI

lemma getSIMStatus_quiet: "safe (getSIMStatus S) (\<lambda>(st, S'). answers [] S S')"
  unfolding getSIMStatus_def by (rule steps | simp)+

lemma requestOrSendDataCallList_quiet:
  "safe (requestOrSendDataCallList E t S) (answers (case t of None \<Rightarrow> [] | Some t \<Rightarrow> [t]) S)"
  unfolding requestOrSendDataCallList_def Let_def answer_list_def
  by (rule steps | simp add: answers_def split: option.split)+


lemma just_send_quiet: "safe (just_send cmd S) (answers [] S)"
  unfolding just_send_def by (rule steps | simp)+

lemma just_send_all_quiet: "safe (just_send_all cs S) (answers [] S)"
proof (induction cs arbitrary: S)
  case (Cons c cs)
  have "safe (just_send_all cs S') (answers [] S)" if "answers [] S S'" for S'
    by (rule safe_mono [OF Cons.IH]) (rule quiet_trans [OF that])
  then show ?case unfolding just_send_all.simps by (rule safe_bindI [OF just_send_quiet [THEN quiet_use]])
qed simp

lemma isRadioOn_quiet: "safe (isRadioOn S) (\<lambda>(on, S'). answers [] S S')"
  unfolding isRadioOn_def by (rule steps | simp)+

section \<open>The radio's state\<close>

lemma poll_nothing: "vinv S \<Longrightarrow> pollSIMState S = Some S"
  by (auto simp: pollSIMState_def vinv_def)

lemma onSIMReady_quiet: "safe (onSIMReady S) (answers [] S)"
  unfolding onSIMReady_def by (rule steps just_send_quiet [THEN quiet_use] | simp add: answers_def)+

lemma pollSIMState_tokens:
  "safe (pollSIMState S) (\<lambda>S'. tokens S' = tokens S \<and> (s_closed S > 0 \<longrightarrow> s_closed S' > 0))"
  unfolding pollSIMState_def
  by (rule structural getSIMStatus_quiet [THEN quiet_use2] onSIMReady_quiet [THEN quiet_use] safe_SomeI |
      simp add: answers_def)+

lemma pollSIMState_quiet: "safe (pollSIMState S) (answers [] S)"
proof (rule safeI)
  fix S' assume "pollSIMState S = Some S'"
  with poll_nothing [of S] safeD [OF pollSIMState_tokens this] show "answers [] S S'" by (auto simp: answers_def)
qed

lemma setRadioState_quiet:
  assumes "new \<in> {RADIO_STATE_OFF, RADIO_STATE_UNAVAILABLE, RADIO_STATE_ON}"
  shows "safe (setRadioState new S) (answers [] S)"
  using set_state_quiet [OF assms, of S] unfolding setRadioState_def Let_def onRadioPowerOn_def
  by (auto intro: safe_mono [OF pollSIMState_quiet] quiet_trans)

lemmas radio_quiet = setRadioState_quiet [of RADIO_STATE_OFF, simplified] setRadioState_quiet [of RADIO_STATE_ON, simplified]
  setRadioState_quiet [of RADIO_STATE_UNAVAILABLE, simplified]

lemmas known = structural safe_sends isRadioOn_quiet [THEN quiet_use2] getSIMStatus_quiet [THEN quiet_use2]
  radio_quiet [THEN quiet_use] just_send_quiet [THEN quiet_use] just_send_all_quiet [THEN quiet_use]
  safe_SomeI safeI

section \<open>The requests\<close>

lemma requestGetSimStatus_once: "safe (requestGetSimStatus t S) (answers [t] S)"
  unfolding requestGetSimStatus_def getCardStatus_def by (rule known | simp add: answers_def)+

lemma requestRadioPower_once: "safe (requestRadioPower d t S) (answers [t] S)"
  unfolding requestRadioPower_def by (rule known | simp add: answers_def)+

lemma requestShutdown_once: "safe (requestShutdown t S) (answers [t] S)"
  unfolding requestShutdown_def by (rule known | simp add: answers_def)+

lemma requestGetCurrentCalls_once: "safe (requestGetCurrentCalls t S) (answers [t] S)"
  unfolding requestGetCurrentCalls_def Let_def by (rule known | simp add: answers_def)+

lemma send_and_succeed_once: "safe (send_and_succeed cmd t S) (answers [t] S)"
  unfolding send_and_succeed_def by (rule known | simp add: answers_def)+

lemma send_and_check_once: "safe (send_and_check cmd t S) (answers [t] S)"
  unfolding send_and_check_def by (rule known | simp add: answers_def)+

lemma requestDial_once: "safe (requestDial d t S) (answers [t] S)"
  by (cases d) (auto simp: requestDial_def Let_def intro!: safeI safeD [OF send_and_succeed_once])

lemma requestHangup_once: "safe (requestHangup d t S) (answers [t] S)"
  unfolding requestHangup_def by (auto intro!: safeI safeD [OF send_and_succeed_once])


lemma requestSeparateConnection_once: "safe (requestSeparateConnection d t S) (answers [t] S)"
  unfolding requestSeparateConnection_def
  by (rule structural send_and_succeed_once safe_SomeI safeI | simp add: answers_def)+

lemma requestDtmf_once: "safe (requestDtmf d t S) (answers [t] S)"
  unfolding requestDtmf_def by (cases d) (auto intro!: send_and_succeed_once split: option.split)

lemma requestDataCallList_once: "safe (requestDataCallList E t S) (answers [t] S)"
  using requestOrSendDataCallList_quiet [of E "Some t" S] by (simp add: requestDataCallList_def)

lemma data_calls_from: "answers [] S S' \<Longrightarrow> safe (requestOrSendDataCallList E (Some t) S') (answers [t] S)"
  by (rule safe_mono [OF requestDataCallList_once [unfolded requestDataCallList_def]]) (rule quiet_trans)

lemma requestSetupDataCall_once: "safe (requestSetupDataCall E d datalen t S) (answers [t] S)"
proof (cases d)
  case (DStrings ss)
  show ?thesis unfolding requestSetupDataCall_def DStrings rdata.case Let_def
    by (rule structural data_calls_from safe_sends just_send_all_quiet [THEN quiet_use] safe_SomeI safeI |
        simp add: answers_def)+
qed (simp_all add: requestSetupDataCall_def)

lemma requestQueryNetworkSelectionMode_once: "safe (requestQueryNetworkSelectionMode t S) (answers [t] S)"
  unfolding requestQueryNetworkSelectionMode_def by (rule known | simp add: answers_def split: option.split)+

lemma requestSignalStrength_once_or_twice:
  "safe (requestSignalStrength t S) (\<lambda>S'. answers [t] S S' \<or> answers [t, t] S S')"
  unfolding requestSignalStrength_def by (rule known | simp add: answers_def split: option.split)+

lemma parseRegistrationState_quiet: "safe (parseRegistrationState str S) (\<lambda>(r, S'). answers [] S S')"
  unfolding parseRegistrationState_def Let_def by (rule known | simp add: answers_def)+

lemma requestRegistrationState_once: "safe (requestRegistrationState request t S) (answers [t] S)"
  unfolding requestRegistrationState_def answer_registration_def Let_def
  by (rule structural safe_sends parseRegistrationState_quiet [THEN quiet_use2] safe_SomeI safeI |
      simp add: answers_def split: option.split)+

lemma scan_quiet: "answers [] S (scan_mccmnc s S)"
  by (auto simp: scan_mccmnc_def Let_def answers_def split: option.split)

lemma operator_line_quiet: "safe (operator_line line S) (\<lambda>(s, S'). answers [] S S')"
  unfolding operator_line_def by (rule known | simp add: scan_quiet)+

lemma operator_lines_quiet: "safe (operator_lines ls acc S) (\<lambda>(r, S'). answers [] S S')"
proof (induction ls arbitrary: acc S)
  case (Cons line ls)
  show ?case
  proof (cases "operator_line line S")
    case (Some x)
    obtain s S1 where x: "x = (s, S1)" by fastforce
    have "answers [] S S1" using safeD [OF operator_line_quiet Some] x by simp
    then show ?thesis using Some x
      by (auto intro!: safe_mono [OF Cons.IH] intro: quiet_trans)
  qed simp
qed simp

lemma requestOperator_once: "safe (requestOperator t S) (answers [t] S)"
  unfolding requestOperator_def
  by (rule structural safe_sends operator_lines_quiet [THEN quiet_use2] safe_SomeI safeI |
      simp add: answers_def split: option.split)+

lemma complete_sms_facts [simp]:
  "tokens (complete_sms t e r S) = tokens S @ [t]" "s_closed (complete_sms t e r S) = s_closed S"
  "vinv (complete_sms t e r S) = vinv S"
  by (simp_all add: complete_sms_def)

lemma requestSendSMS_once: "safe (requestSendSMS d t S) (answers [t] S)"
proof (cases "\<exists>smsc pdu ss. d = DStrings (Some (smsc # Some pdu # ss))")
  case True
  then obtain smsc pdu ss where d: "d = DStrings (Some (smsc # Some pdu # ss))" by blast
  show ?thesis unfolding requestSendSMS_def d rdata.case option.case list.case Let_def
    by (rule known | simp add: answers_def)+
next
  case False
  then show ?thesis
    by (auto simp: requestSendSMS_def answers_def split: rdata.split option.split list.split)
qed

lemma requestImsSendSMS_once: "safe (requestImsSendSMS d t S) (answers [t] S)"
  by (cases d) (auto simp: requestImsSendSMS_def requestCdmaSendSMS_def answers_def intro!: requestSendSMS_once)

lemma requestWriteSmsToSim_once: "safe (requestWriteSmsToSim d t S) (answers [t] S)"
proof (cases d)
  case (DSmsWrite args)
  show ?thesis unfolding requestWriteSmsToSim_def DSmsWrite rdata.case by (rule known | simp add: answers_def)+
qed (simp_all add: requestWriteSmsToSim_def)

lemma requestDeleteSmsOnSim_once: "safe (requestDeleteSmsOnSim d t S) (answers [t] S)"
  unfolding requestDeleteSmsOnSim_def by (rule structural send_and_check_once safeI)+

lemma requestSMSAcknowledge_twice:
  "safe (requestSMSAcknowledge d t S) (answers (if data_int d \<in> {Some 0, Some 1} then [t, t] else [t]) S)"
  unfolding requestSMSAcknowledge_def by (rule known | simp add: answers_def)+

lemma requestSIM_IO_once: "safe (requestSIM_IO d t S) (answers [t] S)"
proof (cases d)
  case (DSimIO a)
  show ?thesis unfolding requestSIM_IO_def DSimIO rdata.case Let_def
    by (rule known | simp add: answers_def split: option.split)+
qed (simp_all add: requestSIM_IO_def)

lemma requestEnterSimPin_once: "safe (requestEnterSimPin d datalen t S) (answers [t] S)"
proof (cases "\<exists>ss. d = DStrings (Some ss)")
  case True
  then obtain ss where d: "d = DStrings (Some ss)" by blast
  show ?thesis unfolding requestEnterSimPin_def d rdata.case option.case by (rule known | simp add: answers_def)+
next
  case False
  then show ?thesis by (auto simp: requestEnterSimPin_def answers_def split: rdata.split option.split)
qed

lemma numeric_request_once: "safe (numeric_request cmd t S) (answers [t] S)"
  unfolding numeric_request_def by (rule known | simp add: answers_def)+


lemma query_ctec_quiet: "safe (query_ctec S) (\<lambda>(r, S'). answers [] S S')"
  unfolding query_ctec_def by (rule known | simp add: answers_def)+

lemma set_modem_facts [simp]:
  "tokens (set_preferred v S) = tokens S" "s_closed (set_preferred v S) = s_closed S"
  "vinv (set_preferred v S) = vinv S" "tokens (set_modem a b S) = tokens S"
  "s_closed (set_modem a b S) = s_closed S" "vinv (set_modem a b S) = vinv S"
  by (simp_all add: set_preferred_def set_modem_def)

lemma query_ctec_use:
  "(\<And>res cur pref S'. answers [] S S' \<Longrightarrow> Q ((res, cur, pref), S')) \<Longrightarrow> safe (query_ctec S) Q"
  by (rule quiet_use2 [OF query_ctec_quiet]) (metis prod_cases3)

lemmas known_tech = structural query_ctec_use setRadioTechnology_quiet [THEN quiet_use] safe_sends
  safe_SomeI safeI

lemma requestSetPreferredNetworkType_once: "safe (requestSetPreferredNetworkType d t S) (answers [t] S)"
  unfolding requestSetPreferredNetworkType_def Let_def by (simp only: split_conv | rule known_tech | simp add: answers_def)+

lemma requestGetPreferredNetworkType_once: "safe (requestGetPreferredNetworkType t S) (answers [t] S)"
  unfolding requestGetPreferredNetworkType_def Let_def by (simp only: split_conv | rule known_tech | simp add: answers_def)+

lemma query_supported_techs_quiet: "safe (query_supported_techs S) (\<lambda>(r, S'). answers [] S S')"
  unfolding query_supported_techs_def by (simp only: split_conv | rule known_tech | simp add: answers_def)+

lemma is_multimode_modem_quiet: "safe (is_multimode_modem S) (\<lambda>(r, S'). answers [] S S')"
  unfolding is_multimode_modem_def Let_def
  by (simp only: split_conv | rule structural query_ctec_use query_supported_techs_quiet [THEN quiet_use2] safe_SomeI safeI |
      (auto simp: answers_def split: option.splits)[1])+

lemma probeForModemMode_quiet: "safe (probeForModemMode S) (answers [] S)"
  unfolding probeForModemMode_def Let_def
  by (rule structural is_multimode_modem_quiet [THEN quiet_use2] safe_sends safe_SomeI safeI | simp add: answers_def)+

lemma requestCdma_once: "safe (requestCdma request d datalen t S) (answers [t] S)"
  unfolding requestCdma_def requestCdmaBaseBandVersion_def requestCdmaDeviceIdentity_def requestCdmaSubscription_def
    requestCdmaSetSubscriptionSource_def requestCdmaGetSubscriptionSource_def requestCdmaGetRoamingPreference_def
    requestCdmaSetRoamingPreference_def requestExitEmergencyMode_def
  by (rule structural send_and_check_once safe_sends safe_SomeI safeI | simp add: answers_def split: option.split)+

lemma variable_requests_once:
  "answers [t] S (requestGetCellInfoList E t S)" "safe (requestSetCellInfoListRate d datalen t S) (answers [t] S)"
  "answers [t] S (requestGetHardwareConfig t S)" "answers [t] S (requestImsRegistrationState t S)"
  "safe (requestVoiceRadioTech t S) (answers [t] S)" "safe (requestOemHook d datalen t S) (answers [t] S)"
  "answers [t] S (requestSendUSSD t S)"
  by (auto simp: requestGetCellInfoList_def requestSetCellInfoListRate_def requestGetHardwareConfig_def
      requestImsRegistrationState_def requestVoiceRadioTech_def requestOemHook_def requestSendUSSD_def answers_def
      intro!: safeI)

text \<open>What a request of the switch completes.\<close>

definition completions :: "nat \<Rightarrow> rdata \<Rightarrow> nat \<Rightarrow> nat list set" where
  "completions request d t =
     (if request = 46 then {[]}
      else if request = 37 \<and> data_int d \<in> {Some 0, Some 1} then {[t, t]}
      else if request = 19 then {[t], [t, t]}
      else {[t]})"

lemmas once = requestGetSimStatus_once requestGetCurrentCalls_once requestDial_once requestHangup_once
  send_and_succeed_once requestSeparateConnection_once requestRegistrationState_once requestOperator_once
  requestRadioPower_once requestDtmf_once requestSendSMS_once requestImsSendSMS_once requestSetupDataCall_once
  numeric_request_once requestSIM_IO_once requestDataCallList_once requestQueryNetworkSelectionMode_once
  requestWriteSmsToSim_once requestDeleteSmsOnSim_once requestEnterSimPin_once requestSetPreferredNetworkType_once
  requestGetPreferredNetworkType_once requestShutdown_once requestCdma_once variable_requests_once

lemma not_call_command: "request \<notin> {13, 14, 15, 16, 17, 40} \<Longrightarrow> call_command request = None"
  by (simp add: call_command_def)

lemma switch_special:
  "request_switch E 46 d datalen t S = just_send ''AT+COPS=0'' S"
  "request_switch E 37 d datalen t S = requestSMSAcknowledge d t S"
  "request_switch E 19 d datalen t S = requestSignalStrength t S"
  by (simp_all add: request_switch_def call_command_def)

lemma switch_once:
  assumes "request \<noteq> 46" "request \<noteq> 37" "request \<noteq> 19"
  shows "safe (request_switch E request d datalen t S) (answers [t] S)"
  unfolding request_switch_def requestCdmaSendSMS_def
  by (rule once safe_if safe_bindI safe_SomeI safeI | use assms in \<open>simp add: answers_def\<close>)+

lemma switch_completes:
  "safe (request_switch E request d datalen t S) (\<lambda>S'. \<exists>ts \<in> completions request d t. answers ts S S')"
proof -
  consider "request = 46" | "request = 37" | "request = 19" | "request \<noteq> 46" "request \<noteq> 37" "request \<noteq> 19" by blast
  then show ?thesis
  proof cases
    case 1
    then show ?thesis by (simp add: switch_special completions_def just_send_quiet)
  next
    case 2
    then show ?thesis
      using requestSMSAcknowledge_twice [of d t S]
      by (cases "data_int d \<in> {Some 0, Some 1}") (simp_all add: switch_special completions_def)
  next
    case 3
    then show ?thesis
      using requestSignalStrength_once_or_twice [of t S] by (simp add: switch_special completions_def)
  next
    case 4
    then show ?thesis using switch_once [of request E d datalen t S] by (simp add: completions_def)
  qed
qed


lemma onRequest_completes:
  "safe (onRequest E request d datalen t S) (\<lambda>S'. \<exists>ts \<in> insert [t] (completions request d t). answers ts S S')"
  using switch_completes [of E request d datalen t S]
  by (auto simp: onRequest_def elim!: safe_mono) (auto simp: answers_def)

section \<open>Callbacks and steps\<close>

lemma handshake_quiet: "safe (handshake S) (answers [] S)"
  unfolding handshake_def
  by (rule structural after_wait_quiet [THEN quiet_use] safeI | simp add: answers_def safeD [OF after_wait_quiet])+

lemma initializeCallback_quiet: "safe (initializeCallback S) (answers [] S)"
  unfolding initializeCallback_def
  by (rule structural safe_sends isRadioOn_quiet [THEN quiet_use2] radio_quiet [THEN quiet_use] just_send_quiet [THEN quiet_use]
      just_send_all_quiet [THEN quiet_use] handshake_quiet [THEN quiet_use] probeForModemMode_quiet [THEN quiet_use]
      safe_SomeI safeI | simp add: answers_def)+

lemma run_callback_quiet: "safe (run_callback E cb S) (answers [] S)"
  using requestOrSendDataCallList_quiet [of E None S]
  by (cases cb) (auto simp: sendCallStateChanged_def onDataCallListChanged_def pollSIMState_quiet initializeCallback_quiet
      answers_def)

lemma answers_inv: "answers ts S S' \<Longrightarrow> (vinv S \<longrightarrow> vinv S') \<and> (s_closed S > 0 \<longrightarrow> s_closed S' > 0)"
  by (simp add: answers_def)

lemma step_inv:
  assumes "vendor_step E S S'"
  shows "(vinv S \<longrightarrow> vinv S') \<and> (s_closed S > 0 \<longrightarrow> s_closed S' > 0 \<or> (\<exists>fd. S' = main_open fd S))"
  using assms
proof cases
  case (StepOpen fd)
  then show ?thesis by (auto simp: main_open_def vinv_def vlog_def)
next
  case (StepRequest request d datalen t es)
  from safeD [OF onRequest_completes this] obtain ts where "answers ts (S\<lparr>v_waits := es\<rparr>) S'" by blast
  from answers_inv [OF this] show ?thesis by simp
next
  case (StepCallback cb es)
  from answers_inv [OF safeD [OF run_callback_quiet this]] show ?thesis by simp
next
  case (StepReader b reads st ch b' reads' es)
  from answers_inv [OF safeD [OF after_wait_quiet StepReader(2)]] show ?thesis by simp
qed

lemma vendor_reachable_inv: "vendor_reachable E S\<^sub>0 S \<Longrightarrow> vinv S\<^sub>0 \<Longrightarrow> vinv S"
  by (induction rule: vendor_reachable.induct) (auto dest: step_inv)

lemma closed_refuses:
  assumes "vinv S" "s_closed S > 0"
  shows "onRequest E request d datalen t S = Some
    (if request = 1 then complete t RIL_E_SUCCESS (RCardV6 (card_status SIM_NOT_READY)) 408 S
     else complete t RIL_E_RADIO_NOT_AVAILABLE RNull 0 S)"
  using assms by (auto simp: vinv_def onRequest_def request_switch_def requestGetSimStatus_def getCardStatus_def getSIMStatus_def)

end
