(* ===== verification/VendorLines.thy ===== *)
theory VendorLines
  imports VendorFacts
begin

text \<open>
  What the reference vendor library makes of lines in the layout it expects: the fields of a call and of a
  registration, read back from what a modem writes for them.
\<close>

section \<open>Tokens of a line\<close>

lemma tok_reads:
  "read_field KInt p = Some (AtInt w, p') \<Longrightarrow> tok_int p = Some (w, p')"
  "read_field KHex p = Some (AtHex w, p') \<Longrightarrow> tok_hex p = Some (w, p')"
  "read_field KStr p = Some (AtStr s, p') \<Longrightarrow> tok_str p = Some (s, p')"
  by (auto simp: tok_int_def tok_hex_def tok_str_def bind_eq_Some_conv split: prod.splits if_splits option.splits)

lemma bool_read: "read_field KBool p = Some (AtBool b, p') \<Longrightarrow> tok_bool p = Some (if b then 1 else 0, p')"
  by (auto simp: tok_bool_def at_tok_nextbool_def split: prod.splits if_splits option.splits)

text \<open>A field before a comma.\<close>

lemma tok_before:
  "tok_int (Some (render_field n q (AtInt w) @ 0x2C # r)) = Some (w, Some r)"
  "tok_hex (Some (render_field n q (AtHex w) @ 0x2C # r)) = Some (w, Some r)"
  "tok_bool (Some (render_field n q (AtBool b) @ 0x2C # r)) = Some (if b then 1 else 0, Some r)"
  "field_ok q (AtStr s) \<Longrightarrow> tok_str (Some (render_field n q (AtStr s) @ 0x2C # r)) = Some (s, Some r)"
  using fields.get_before [of q "AtInt w" n r] fields.get_before [of q "AtHex w" n r]
    fields.get_before [of q "AtBool b" n r] fields.get_before [of q "AtStr s" n r]
  by (simp_all add: tok_reads bool_read)

lemma tok_last:
  "\<exists>p. tok_int (Some (render_field n q (AtInt w))) = Some (w, p)"
  "\<exists>p. tok_hex (Some (render_field n q (AtHex w))) = Some (w, p)"
  using fields.get_last [of q "AtInt w" n] fields.get_last [of q "AtHex w" n] tok_reads by auto

lemma tok_start_name: "0x3A \<notin> set name \<Longrightarrow> tok_start (name @ 0x3A # r) = Some (Some r)"
  by (simp add: tok_start_def at_tok_start_def strchr_def dropWhile_until)

lemma nextint_of_tok: "tok_int p = Some (w, p') \<Longrightarrow> at_tok_nextint p = (0, Some w, p')"
  by (auto simp: tok_int_def at_tok_nextint_def at_tok_nextint_base_def Let_def split: prod.splits if_splits option.splits)

section \<open>Calls\<close>

text \<open>A call as a modem describes it: index, direction, state, mode, conference, number and its type.\<close>

record clcc =
  clcc_index :: u32
  clcc_mt :: bool
  clcc_state :: u32
  clcc_mode :: u32
  clcc_mpty :: bool
  clcc_number :: "u8 list"
  clcc_toa :: u32

definition clcc_fields :: "clcc \<Rightarrow> at_field list" where
  "clcc_fields c = [AtInt (clcc_index c), AtBool (clcc_mt c), AtInt (clcc_state c), AtInt (clcc_mode c),
     AtBool (clcc_mpty c), AtStr (clcc_number c), AtInt (clcc_toa c)]"

definition clcc_line :: "nat \<Rightarrow> (u8 list \<Rightarrow> bool) \<Rightarrow> clcc \<Rightarrow> u8 list" where
  "clcc_line n q c = lit ''+CLCC'' @ 0x3A # at_render (render_field n q) (clcc_fields c)"

definition clcc_ok :: "(u8 list \<Rightarrow> bool) \<Rightarrow> clcc \<Rightarrow> bool" where
  "clcc_ok q c \<longleftrightarrow> clcc_state c \<le> 5 \<and> field_ok q (AtStr (clcc_number c))"

definition clcc_call :: "clcc \<Rightarrow> RIL_Call" where
  "clcc_call c = zero_call\<lparr>call_index := clcc_index c, isMT := (if clcc_mt c then 1 else 0), call_state := clcc_state c,
     isVoice := (if clcc_mode c = 0 then 1 else 0), isMpty := (if clcc_mpty c then 1 else 0),
     call_number := (if clcc_number c = [] \<or> hd (clcc_number c) \<notin> set (lit ''+0123456789'') then None else Some (clcc_number c)),
     call_toa := clcc_toa c\<rparr>"

lemma clcc_parsed:
  assumes "clcc_ok q c"
  shows "callFromCLCCLine (clcc_line n q c) zero_call = (0, clcc_call c)"
proof -
  have s: "tok_start (clcc_line n q c) = Some (Some (at_render (render_field n q) (clcc_fields c)))"
    unfolding clcc_line_def by (rule tok_start_name) (simp add: lit_def)
  obtain p where l: "tok_int (Some (render_field n q (AtInt (clcc_toa c)))) = Some (clcc_toa c, p)"
    using tok_last(1) by blast
  have m: "at_tok_hasmore (Some (xs @ 0x2C # ys))" for xs ys by (simp add: at_tok_hasmore_def)
  show ?thesis
    using assms unfolding callFromCLCCLine_def s
    by (simp add: clcc_fields_def tok_before nextint_of_tok [OF tok_before(1)] nextint_of_tok [OF l] m clcc_ok_def Let_def
      clcc_call_def zero_call_def)
qed

lemma clcc_lines_parsed:
  "list_all (clcc_ok q) cs \<Longrightarrow> parse_calls (map (clcc_line n q) cs) zero_call = map clcc_call cs"
  by (induction cs) (simp_all add: clcc_parsed)

section \<open>Registration\<close>

definition creg_line :: "nat \<Rightarrow> u8 list \<Rightarrow> at_field list \<Rightarrow> u8 list" where
  "creg_line n name fs = name @ 0x3A # at_render (render_field n (\<lambda>s. True)) fs"

definition no_comma :: "at_field \<Rightarrow> bool" where
  "no_comma f \<longleftrightarrow> 0x2C \<notin> set (show_field (\<lambda>s. True) f)"

lemma commas_field: "no_comma f \<Longrightarrow> filter (\<lambda>c. c = 0x2C) (render_field n (\<lambda>s. True) f) = []"
  by (auto simp: no_comma_def render_field_def filter_empty_conv)

lemma commas_line:
  "list_all no_comma fs \<Longrightarrow> length (filter (\<lambda>c. c = 0x2C) (at_render (render_field n (\<lambda>s. True)) fs)) = length fs - 1"
  by (induction fs rule: induct_list012) (simp_all add: commas_field)

lemma no_comma_numbers: "no_comma (AtInt w)" "no_comma (AtHex w)"
  using plain_numbers(1,2) [of w] by (simp_all add: no_comma_def plain_def)

lemma registered_line:
  assumes "0x3A \<notin> set name"
  shows "registration_values (creg_line n name [AtInt stat, AtHex lac, AtHex ci]) = Some (Some [stat, lac, ci])"
    and "registration_values (creg_line n name [AtInt k, AtInt stat, AtHex lac, AtHex ci]) = Some (Some [stat, lac, ci, 0])"
    and "registration_values (creg_line n name [AtInt k, AtInt stat, AtHex lac, AtHex ci, AtHex act]) =
      Some (Some [stat, lac, ci, act, 0])"
proof -
  obtain p q where l: "tok_hex (Some (render_field n (\<lambda>s. True) (AtHex ci))) = Some (ci, p)"
    "tok_hex (Some (render_field n (\<lambda>s. True) (AtHex act))) = Some (act, q)"
    using tok_last(2) by blast
  show "registration_values (creg_line n name [AtInt stat, AtHex lac, AtHex ci]) = Some (Some [stat, lac, ci])"
    using commas_line [of "[AtInt stat, AtHex lac, AtHex ci]" n]
    by (simp add: registration_values_def creg_line_def tok_start_name [OF assms] no_comma_numbers tok_before l Let_def)
  show "registration_values (creg_line n name [AtInt k, AtInt stat, AtHex lac, AtHex ci]) = Some (Some [stat, lac, ci, 0])"
    using commas_line [of "[AtInt k, AtInt stat, AtHex lac, AtHex ci]" n]
    by (simp add: registration_values_def creg_line_def tok_start_name [OF assms] no_comma_numbers tok_before l Let_def)
  show "registration_values (creg_line n name [AtInt k, AtInt stat, AtHex lac, AtHex ci, AtHex act]) =
      Some (Some [stat, lac, ci, act, 0])"
    using commas_line [of "[AtInt k, AtInt stat, AtHex lac, AtHex ci, AtHex act]" n]
    by (simp add: registration_values_def creg_line_def tok_start_name [OF assms] no_comma_numbers tok_before l Let_def)
qed

lemma long_line:
  assumes "0x3A \<notin> set name" and "list_all (\<lambda>f. \<exists>w. f = AtInt w \<or> f = AtHex w) fs" and "6 \<le> length fs"
  shows "registration_values (creg_line n name fs) = Some None"
proof -
  have "list_all no_comma fs" using assms(2) by (auto simp: list_all_iff no_comma_numbers)
  moreover have "length fs - 1 = (length fs - 6) + 5" using assms(3) by linarith
  then obtain d where "length fs - 1 = d + 5" by blast
  ultimately have "length (filter (\<lambda>c. c = 0x2C) (at_render (render_field n (\<lambda>s. True)) fs)) = d + 5"
    using commas_line [of fs n] by simp
  moreover from this have "filter (\<lambda>c. c = 0x2C) (at_render (render_field n (\<lambda>s. True)) fs) \<noteq> []" by auto
  ultimately show ?thesis by (simp add: registration_values_def creg_line_def tok_start_name [OF assms(1)] Let_def)
qed

lemma unregistered_line:
  assumes "0x3A \<notin> set name"
  shows "registration_values (creg_line n name [AtInt k, AtInt stat]) = None"
    and "registration_values (creg_line n name [AtInt stat]) = None"
proof -
  obtain p where l: "tok_int (Some (render_field n (\<lambda>s. True) (AtInt stat))) = Some (stat, p)"
    using tok_last(1) by blast
  show "registration_values (creg_line n name [AtInt k, AtInt stat]) = None"
    and "registration_values (creg_line n name [AtInt stat]) = None"
    using commas_line [of "[AtInt k, AtInt stat]" n] commas_line [of "[AtInt stat]" n]
    by (simp_all add: registration_values_def creg_line_def tok_start_name [OF assms] no_comma_numbers tok_before l Let_def)
qed

end
