(* ===== verification/AtLines.thy ===== *)
theory AtLines
  imports AtChannel
begin

text \<open>
  The line reader of the AT channel refines the cutting of the whole stream at its newlines: however
  the bytes are cut into reads. Only the prompt, which has no newline behind it, breaks this.
\<close>

section \<open>The lines of a stream\<close>

text \<open>The bytes that arrive before the reader gives up.\<close>

fun stream :: "at_read list \<Rightarrow> u8 list" where
  "stream [] = []"
| "stream (Got xs # reads) = (if xs = [] then [] else xs @ stream reads)"
| "stream (GotIntr # reads) = stream reads"
| "stream (GotEof # reads) = []"
| "stream (GotErr # reads) = []"

definition first_line :: "u8 list \<Rightarrow> u8 list" where
  "first_line s = takeWhile (\<lambda>c. \<not> newline c) (dropWhile newline s)"

definition after_line :: "u8 list \<Rightarrow> u8 list" where
  "after_line s = dropWhile (\<lambda>c. \<not> newline c) (dropWhile newline s)"

lemma after_line_shorter: "after_line s = c # r \<Longrightarrow> length r < length s"
  using length_dropWhile_le [of newline s] length_dropWhile_le [of "\<lambda>c. \<not> newline c" "dropWhile newline s"]
  by (simp add: after_line_def)

text \<open>Complete lines without their newlines; empty ones are no lines.\<close>

function lines_of :: "u8 list \<Rightarrow> u8 list list" where
  "lines_of s = (case after_line s of [] \<Rightarrow> [] | c # r \<Rightarrow> first_line s # lines_of r)"
  by pat_completeness auto
termination
  by (relation "measure length") (auto dest: after_line_shorter)

declare lines_of.simps [simp del]

text \<open>Each line fits into the buffer together with the newlines before it (and \<open>n\<close> bytes already there),
  and none begins like a prompt.\<close>

function lines_ok :: "nat \<Rightarrow> u8 list \<Rightarrow> bool" where
  "lines_ok n s \<longleftrightarrow>
     n + length (takeWhile newline s) + length (first_line s) < MAX_AT_RESPONSE \<and>
     take 2 (first_line s) \<noteq> [0x3E, 0x20] \<and>
     (case after_line s of [] \<Rightarrow> True | c # r \<Rightarrow> lines_ok 0 r)"
  by pat_completeness auto
termination
  by (relation "measure (\<lambda>(n, s). length s)") (auto dest: after_line_shorter)

declare lines_ok.simps [simp del]

section \<open>Newlines\<close>

abbreviation no_newline :: "u8 list \<Rightarrow> bool" where
  "no_newline s \<equiv> list_all (\<lambda>c. \<not> newline c) s"

lemma no_newline_dropWhile [simp]: "no_newline s \<Longrightarrow> dropWhile newline s = s"
  by (cases s) auto

lemma no_newline_takeWhile [simp]: "no_newline s \<Longrightarrow> takeWhile newline s = []"
  by (cases s) auto

lemma takeWhile_no_newline [simp]: "no_newline s \<Longrightarrow> takeWhile (\<lambda>c. \<not> newline c) (s @ u) = s @ takeWhile (\<lambda>c. \<not> newline c) u"
  by (induction s) auto

lemma first_line_dropWhile: "first_line (dropWhile newline u @ v) = first_line (u @ v)"
  and after_line_dropWhile: "after_line (dropWhile newline u @ v) = after_line (u @ v)"
  unfolding after_line_def first_line_def by (induction u; auto)+

lemma lines_ok_less:
  assumes "lines_ok n s" "m \<le> n" shows "lines_ok m s"
  using assms by (subst lines_ok.simps) (subst (asm) lines_ok.simps, simp)

lemma lines_ok_dropWhile:
  assumes "lines_ok n (u @ v)"
  shows "lines_ok (n + length (takeWhile newline u)) (dropWhile newline u @ v)"
proof -
  have "length (takeWhile newline u) + length (takeWhile newline (dropWhile newline u @ v)) = length (takeWhile newline (u @ v))"
    by (induction u) auto
  with assms show ?thesis
    by (subst lines_ok.simps) (subst (asm) lines_ok.simps, simp add: first_line_dropWhile after_line_dropWhile)
qed

lemma no_newline_lines:
  assumes "no_newline s"
  shows "after_line s = []" and "s \<noteq> [] \<Longrightarrow> first_line (s @ v) = s @ takeWhile (\<lambda>c. \<not> newline c) v"
proof -
  show "after_line s = []" using assms by (simp add: after_line_def list_all_iff)
  show "first_line (s @ v) = s @ takeWhile (\<lambda>c. \<not> newline c) v" if "s \<noteq> []"
    using assms that by (cases s) (simp_all add: first_line_def)
qed

lemma while_append:
  assumes "dropWhile P d \<noteq> []"
  shows "dropWhile P (d @ v) = dropWhile P d @ v" "takeWhile P (d @ v) = takeWhile P d"
  using assms by (induction d) auto

lemma after_line_append:
  assumes "after_line u = c # r"
  shows "after_line (u @ v) = c # r @ v" "first_line (u @ v) = first_line u"
proof -
  have d: "dropWhile newline u \<noteq> []"
    using assms unfolding after_line_def by (metis dropWhile.simps(1) list.distinct(1))
  have "dropWhile (\<lambda>c. \<not> newline c) (dropWhile newline u) \<noteq> []" using assms by (simp add: after_line_def)
  from while_append [OF this, of v] while_append [OF d, of v] assms
  show "after_line (u @ v) = c # r @ v" "first_line (u @ v) = first_line u"
    by (simp_all add: after_line_def first_line_def)
qed

lemma length_newlines: "length (takeWhile newline u) + length (dropWhile newline u) = length u"
  by (metis length_append takeWhile_dropWhile_id)

lemma after_line_Nil: "after_line u = [] \<Longrightarrow> no_newline (dropWhile newline u)"
  unfolding after_line_def list_all_iff dropWhile_eq_Nil_conv .

section \<open>The buffer\<close>

text \<open>The buffer holds the string \<open>s\<close> from the index \<open>i\<close> on.\<close>

definition holds :: "u8 list \<Rightarrow> nat \<Rightarrow> u8 list \<Rightarrow> bool" where
  "holds buf i s \<longleftrightarrow> length buf = MAX_AT_RESPONSE + 1 \<and> 0 \<notin> set s \<and> (\<exists>t. drop i buf = s @ 0 # t)"

lemma holds_length: "holds buf i s \<Longrightarrow> i + length s \<le> MAX_AT_RESPONSE"
  by (auto simp: holds_def dest!: arg_cong [where f = length])

lemma holds_empty: "holds (s_ATBuffer empty_buffer) (s_ATBufferCur empty_buffer) []"
proof -
  have "replicate 8193 (0 :: u8) = 0 # replicate 8192 0" using replicate_Suc [of 8192 "0 :: u8"] by simp
  then show ?thesis by (simp add: holds_def empty_buffer_def)
qed

lemma cstr_at_holds: "holds buf i s \<Longrightarrow> cstr_at buf i = Some s"
  by (auto simp: holds_def cstr_at_def takeWhile_until)

lemma newline_0 [simp]: "\<not> newline 0"
  by (simp add: newline_def)

lemma skip_holds:
  assumes "holds buf i s"
  shows "skip_newlines buf i = i + length (takeWhile newline s)"
    and "holds buf (skip_newlines buf i) (dropWhile newline s)"
proof -
  obtain t where t: "drop i buf = s @ 0 # t" "0 \<notin> set s" "length buf = MAX_AT_RESPONSE + 1"
    using assms by (auto simp: holds_def)
  have "takeWhile newline (s @ 0 # t) = takeWhile newline s" by (induction s) auto
  then show k: "skip_newlines buf i = i + length (takeWhile newline s)" by (simp add: skip_newlines_def t)
  have "drop (length (takeWhile newline s)) s = dropWhile newline s" by (metis append_eq_conv_conj takeWhile_dropWhile_id)
  then have "drop (skip_newlines buf i) buf = dropWhile newline s @ 0 # t"
    using t(1) length_takeWhile_le [of newline s] by (simp add: k add.commute [of i] drop_drop [symmetric])
  then show "holds buf (skip_newlines buf i) (dropWhile newline s)"
    using t by (auto simp: holds_def dest: set_dropWhileD)
qed

lemma holds_write:
  assumes "holds buf i s" "got \<noteq> []" "0 \<notin> set got" "i + length s + length got \<le> MAX_AT_RESPONSE"
  shows "holds ((overwrite buf (i + length s) got)[i + length s + length got := 0]) i (s @ got)"
proof -
  obtain t where t: "drop i buf = s @ 0 # t" and l: "length buf = MAX_AT_RESPONSE + 1"
    using assms by (auto simp: holds_def)
  let ?p = "i + length s"
  have "take ?p buf = take i buf @ s" by (simp add: take_add t)
  then have "(overwrite buf ?p got)[?p + length got := 0] = take i buf @ (s @ got) @ 0 # drop (Suc (?p + length got)) buf"
    using l assms(4) by (simp add: overwrite_def list_update_append Cons_nth_drop_Suc [symmetric])
  with assms l show ?thesis by (simp add: holds_def)
qed

lemma holds_move:
  assumes "holds buf i s"
  shows "holds (overwrite buf 0 (s @ [0])) 0 s"
  using assms holds_length [OF assms] by (auto simp: holds_def overwrite_def)

lemma findNextEOL_lines:
  assumes "take 2 (first_line s) \<noteq> [0x3E, 0x20]"
  shows "findNextEOL (dropWhile newline s) =
    (case after_line s of [] \<Rightarrow> None | c # r \<Rightarrow> Some (length (first_line s)))"
proof -
  define d where "d = dropWhile newline s"
  have "d \<noteq> [0x3E, 0x20]"
    using assms by (auto simp: first_line_def d_def [symmetric] newline_def)
  moreover have "length (takeWhile (\<lambda>c. \<not> newline c) d) = length d \<longleftrightarrow> dropWhile (\<lambda>c. \<not> newline c) d = []"
    by (metis add_cancel_left_right length_0_conv length_append takeWhile_dropWhile_id)
  ultimately show ?thesis
    by (cases "after_line s")
      (simp_all add: findNextEOL_def first_line_def after_line_def d_def [symmetric] Let_def del: dropWhile_eq_Nil_conv)
qed

lemma end_line_holds:
  assumes "holds buf i (dropWhile newline s)" "after_line s = c # r"
  shows "\<exists>buf' i'. end_line buf i (dropWhile newline s) (length (first_line s)) =
    (Line (first_line s), \<lparr>s_ATBuffer = buf', s_ATBufferCur = i'\<rparr>) \<and> holds buf' i' r"
proof -
  have d: "dropWhile newline s = first_line s @ c # r"
    using assms(2) takeWhile_dropWhile_id [of "\<lambda>c. \<not> newline c" "dropWhile newline s"]
    by (simp add: first_line_def after_line_def)
  obtain t where t: "drop i buf = first_line s @ c # r @ 0 # t"
    and l: "length buf = MAX_AT_RESPONSE + 1" "0 \<notin> set r"
    using assms(1) by (auto simp: holds_def d)
  have "drop (i + length (first_line s) + 1) buf = drop (Suc (length (first_line s))) (drop i buf)"
    by (simp add: add.commute)
  also have "\<dots> = r @ 0 # t" by (simp add: t)
  finally have "drop (i + length (first_line s) + 1) buf = r @ 0 # t" .
  with l show ?thesis by (simp add: end_line_def d holds_def)
qed

section \<open>One call\<close>

text \<open>What a call of the reader has to do with the bytes \<open>w\<close> that are in the buffer or still to come.\<close>

definition yields_line :: "(line_result \<times> at_buffer \<times> at_read list) option \<Rightarrow> u8 list \<Rightarrow> bool" where
  "yields_line m w \<longleftrightarrow>
     (case after_line w of
        [] \<Rightarrow> \<exists>l b reads. m = Some (l, b, reads) \<and> (l = NoLine \<or> l = Blocked)
      | c # r \<Rightarrow> \<exists>buf i reads s. m = Some (Line (first_line w), \<lparr>s_ATBuffer = buf, s_ATBufferCur = i\<rparr>, reads) \<and>
          holds buf i s \<and> s @ stream reads = r)"

lemma read_more_Got:
  assumes "p < MAX_AT_RESPONSE" "xs \<noteq> []" "got = take (MAX_AT_RESPONSE - p) xs"
    "rs' = (if length xs \<le> MAX_AT_RESPONSE - p then rs else Got (drop (length got) xs) # rs)"
    "buf' = (overwrite buf p got)[p + length got := 0]" "j = skip_newlines buf' i" "cstr_at buf' j = Some s"
  shows "read_more buf i p (Got xs # rs) =
    (case findNextEOL s of
       None \<Rightarrow> read_more buf' j (p + length got) rs'
     | Some k \<Rightarrow> (case end_line buf' j s k of (l, b) \<Rightarrow> Some (l, b, rs')))"
proof -
  have "take (MAX_AT_RESPONSE - p) xs \<noteq> []" using assms(1,2) by simp
  then show ?thesis
    using assms(1,7) unfolding read_more.simps [of buf i p "Got xs # rs"] assms(4-6) assms(3)
    by (cases "length xs \<le> MAX_AT_RESPONSE - p") (simp_all add: ditch_full_def Let_def split: option.split)
qed

lemma take2_append: "take 2 d = [a, b] \<Longrightarrow> take 2 (d @ x) = [a, b]"
  by (cases d; cases "tl d"; simp add: numeral_2_eq_2)

lemma prompt_prefix:
  assumes "take 2 (first_line (u @ v)) \<noteq> [0x3E, 0x20]"
  shows "take 2 (first_line u) \<noteq> [0x3E, 0x20]"
proof (cases "after_line u")
  case Nil
  then have d: "no_newline (dropWhile newline u)" by (rule after_line_Nil)
  have "first_line u = dropWhile newline u"
    using Nil takeWhile_dropWhile_id [of "\<lambda>c. \<not> newline c" "dropWhile newline u"]
    unfolding first_line_def after_line_def by (metis append_Nil2)
  moreover have "dropWhile newline u \<noteq> [] \<Longrightarrow> first_line (u @ v) = dropWhile newline u @ takeWhile (\<lambda>c. \<not> newline c) v"
    using no_newline_lines(2) [OF d, of v] by (simp add: first_line_dropWhile)
  ultimately show ?thesis
    using assms take2_append [of "dropWhile newline u" "0x3E" "0x20" "takeWhile (\<lambda>c. \<not> newline c) v"]
    by (cases "dropWhile newline u = []") (simp del: dropWhile_eq_Nil_conv, metis)
next
  case (Cons c r)
  then show ?thesis using after_line_append [OF Cons, of v] assms by simp
qed

lemma yields_line_line:
  assumes "holds buf i (dropWhile newline s)" "after_line s = c # r"
  shows "yields_line (case end_line buf i (dropWhile newline s) (length (first_line s)) of (l, b) \<Rightarrow> Some (l, b, reads))
    (s @ stream reads)"
  using end_line_holds [OF assms] after_line_append [OF assms(2), of "stream reads"]
  by (auto simp: yields_line_def)

lemma yields_line_dropWhile: "yields_line m (dropWhile newline u @ v) = yields_line m (u @ v)"
  unfolding yields_line_def after_line_dropWhile first_line_dropWhile ..

text \<open>The reader is about to read behind a part of a line.\<close>

lemma read_more_yields:
  assumes "holds buf i s" "no_newline s" "0 \<notin> set (stream reads)" "lines_ok i (s @ stream reads)"
  shows "yields_line (read_more buf i (i + length s) reads) (s @ stream reads)"
  using assms
proof (induction reads arbitrary: buf i s rule: measure_induct_rule [of reads_size])
  case (less reads)
  have nil: "after_line s = []" by (rule no_newline_lines [OF less.prems(2)])
  have "length s \<le> length (first_line (s @ stream reads))"
    using no_newline_lines(2) [OF less.prems(2), of "stream reads"] by (cases "s = []") auto
  then have room: "i + length s < MAX_AT_RESPONSE" using less.prems(4) by (subst (asm) lines_ok.simps) linarith
  then have full: "ditch_full buf i (i + length s) = (buf, i, i + length s)" by (simp add: ditch_full_def)
  note unfolds = read_more.simps [of buf i "i + length s"] full
  show ?case
  proof (cases reads)
    case Nil
    then show ?thesis using nil by (simp add: unfolds yields_line_def)
  next
    case (Cons r rs)
    show ?thesis
    proof (cases r)
      case (Got xs)
      show ?thesis
      proof (cases "xs = []")
        case True
        then show ?thesis using Cons Got nil by (simp add: unfolds yields_line_def)
      next
        case False
        define got where "got = take (MAX_AT_RESPONSE - (i + length s)) xs"
        define rs' where "rs' = (if length xs \<le> MAX_AT_RESPONSE - (i + length s) then rs else Got (drop (length got) xs) # rs)"
        define buf' where "buf' = (overwrite buf (i + length s) got)[i + length s + length got := 0]"
        define j where "j = skip_newlines buf' i"
        define s' where "s' = dropWhile newline (s @ got)"
        have got: "got \<noteq> []" and fits: "i + length s + length got \<le> MAX_AT_RESPONSE"
          using False room by (auto simp: got_def)
        have st: "stream reads = got @ stream rs'"
          using False by (auto simp: Cons Got rs'_def got_def)
        have no0: "0 \<notin> set got" "0 \<notin> set (stream rs')" using less.prems(3) by (auto simp: st)
        have smaller: "reads_size rs' < reads_size reads"
          using False room by (auto simp: Cons Got rs'_def got_def)
        have buf': "holds buf' i (s @ got)" unfolding buf'_def by (rule holds_write) (use less.prems got no0 fits in auto)
        note j = skip_holds [OF buf', folded j_def s'_def]
        have ok: "lines_ok j (s' @ stream rs')"
          using lines_ok_dropWhile [of i "s @ got" "stream rs'"] less.prems(4) by (simp add: st j(1) s'_def)
        have run: "read_more buf i (i + length s) reads =
          (case findNextEOL s' of
             None \<Rightarrow> read_more buf' j (i + length s + length got) rs'
           | Some k \<Rightarrow> (case end_line buf' j s' k of (l, b) \<Rightarrow> Some (l, b, rs')))"
          unfolding Cons Got
          by (rule read_more_Got [OF room False got_def rs'_def buf'_def j_def cstr_at_holds [OF j(2)]])
        have "take 2 (first_line (s @ got @ stream rs')) \<noteq> [0x3E, 0x20]"
          using less.prems(4) by (subst (asm) lines_ok.simps) (simp add: st)
        then have eol: "findNextEOL s' = (case after_line (s @ got) of [] \<Rightarrow> None | c # r \<Rightarrow> Some (length (first_line (s @ got))))"
          using prompt_prefix [of "s @ got" "stream rs'"] by (simp add: s'_def findNextEOL_lines)
        show ?thesis
        proof (cases "after_line (s @ got)")
          case Nil
          then have none: "findNextEOL s' = None" by (simp add: eol)
          have nn: "no_newline s'" unfolding s'_def by (rule after_line_Nil [OF Nil])
          have len: "i + length s + length got = j + length s'"
            using length_newlines [of "s @ got"] by (simp add: j(1) s'_def)
          have "read_more buf i (i + length s) reads = read_more buf' j (j + length s') rs'"
            by (simp only: run none len option.case)
          with less.IH [OF smaller j(2) nn no0(2) ok] show ?thesis
            using yields_line_dropWhile [of _ "s @ got" "stream rs'", folded s'_def] by (simp add: st)
        next
          case (Cons c r)
          then have "findNextEOL s' = Some (length (first_line (s @ got)))" by (simp add: eol)
          then show ?thesis
            using yields_line_line [OF j(2) [unfolded s'_def] Cons, of rs'] by (simp add: run st s'_def)
        qed
      qed
    next
      case GotEof
      then show ?thesis using Cons nil by (simp add: unfolds yields_line_def)
    next
      case GotIntr
      have "reads_size rs < reads_size reads" by (simp add: Cons GotIntr)
      from less.IH [OF this less.prems(1,2)] less.prems(3,4) show ?thesis
        by (simp add: unfolds Cons GotIntr)
    next
      case GotErr
      then show ?thesis using Cons nil by (simp add: unfolds yields_line_def)
    qed
  qed
qed

lemma readline_yields:
  assumes "holds (s_ATBuffer b) (s_ATBufferCur b) s" "0 \<notin> set (stream reads)" "lines_ok 0 (s @ stream reads)"
  shows "yields_line (readline b reads) (s @ stream reads)"
proof -
  define buf where "buf = s_ATBuffer b"
  define i where "i = s_ATBufferCur b"
  have h: "holds buf i s" using assms by (simp add: buf_def i_def)
  then obtain t where t: "drop i buf = s @ 0 # t" "length buf = MAX_AT_RESPONSE + 1" by (auto simp: holds_def)
  have i: "i < length buf" using holds_length [OF h] t(2) by simp
  have first: "buf ! i = hd (s @ [0])" using t(1) i by (cases s) (simp_all add: hd_drop_conv_nth [symmetric])
  show ?thesis
  proof (cases s)
    case Nil
    have "holds (buf[0 := 0]) 0 []" using t(2) by (cases buf) (simp_all add: holds_def)
    from read_more_yields [OF this] assms Nil i first show ?thesis
      by (simp add: readline_def buf_def [symmetric] i_def [symmetric])
  next
    case (Cons c s1)
    have c: "c \<noteq> 0" using h by (auto simp: holds_def Cons)
    define j where "j = skip_newlines buf i"
    note j = skip_holds [OF h, folded j_def]
    let ?s = "dropWhile newline s"
    have run: "readline b reads =
      (case findNextEOL ?s of
         None \<Rightarrow> read_more (overwrite buf 0 (?s @ [0])) 0 (length ?s) reads
       | Some k \<Rightarrow> (case end_line buf j ?s k of (l, b) \<Rightarrow> Some (l, b, reads)))"
    proof -
      have "buf ! i \<noteq> 0" using first c by (simp add: Cons)
      then show ?thesis using i
        by (simp add: readline_def buf_def [symmetric] i_def [symmetric] j_def [symmetric] Let_def cstr_at_holds [OF j(2)])
    qed
    have "take 2 (first_line (s @ stream reads)) \<noteq> [0x3E, 0x20]"
      using assms(3) by (subst (asm) lines_ok.simps) simp
    then have eol: "findNextEOL ?s = (case after_line s of [] \<Rightarrow> None | c # r \<Rightarrow> Some (length (first_line s)))"
      using prompt_prefix [of s "stream reads"] by (simp add: findNextEOL_lines)
    show ?thesis
    proof (cases "after_line s")
      case Nil
      have "lines_ok 0 (?s @ stream reads)"
        using lines_ok_dropWhile [OF assms(3)] by (rule lines_ok_less) simp
      from read_more_yields [OF holds_move [OF j(2)] after_line_Nil [OF Nil] assms(2) this]
      show ?thesis unfolding run eol Nil by (simp add: yields_line_dropWhile)
    next
      case (Cons c r)
      from yields_line_line [OF j(2) this, of reads] show ?thesis unfolding run eol Cons by simp
    qed
  qed
qed

section \<open>All lines\<close>

text \<open>The successive calls of the reader, up to the one that returns no line.\<close>

lemma read_more_decreases:
  "read_more buf i p reads = Some (l, b', reads') \<Longrightarrow> l = Blocked \<or> reads_size reads' < reads_size reads"
proof (induction reads arbitrary: buf i p rule: measure_induct_rule [of reads_size])
  case (less reads)
  obtain buf1 i1 p1 where d: "ditch_full buf i p = (buf1, i1, p1)" by (cases "ditch_full buf i p")
  have p1: "MAX_AT_RESPONSE - p1 \<noteq> 0" using d by (auto simp: ditch_full_def split: if_splits)
  note run = less.prems [unfolded read_more.simps [of buf i p reads] d]
  show ?case
  proof (cases reads)
    case (Cons r rs)
    show ?thesis
    proof (cases r)
      case (Got xs)
      let ?n = "MAX_AT_RESPONSE - p1"
      define rs' where "rs' = (if length xs \<le> ?n then rs else Got (drop (length (take ?n xs)) xs) # rs)"
      have smaller: "reads_size rs' < reads_size reads"
        using p1 by (auto simp: Cons Got rs'_def)
      show ?thesis
      proof (cases "length xs \<le> ?n")
        case True
        then have "rs' = rs" by (simp add: rs'_def)
        with run smaller less.IH [OF smaller] True show ?thesis
          by (fastforce simp: Cons Got Let_def end_line_def split: if_splits option.splits)
      next
        case False
        then have "rs' = Got (drop (length (take ?n xs)) xs) # rs" by (simp add: rs'_def)
        with run smaller less.IH [OF smaller] False show ?thesis
          by (fastforce simp: Cons Got Let_def end_line_def simp del: length_take split: if_splits option.splits)
      qed
    next
      case GotIntr
      then have "read_more buf1 i1 p1 rs = Some (l, b', reads')" "reads_size rs < reads_size reads"
        using run by (auto simp: Cons)
      then show ?thesis using less.IH [of rs] by (fastforce simp: Cons GotIntr)
    qed (use run in \<open>auto simp: Cons\<close>)
  qed (use run in auto)
qed

lemma readline_decreases:
  assumes "readline b reads = Some (Line l, b', reads')"
  shows "reads_size reads' < reads_size reads \<or> reads' = reads \<and>
    length (s_ATBuffer b') - s_ATBufferCur b' < length (s_ATBuffer b) - s_ATBufferCur b"
  using assms read_more_decreases [of _ _ _ reads "Line l" b' reads']
  by (auto simp: readline_def Let_def end_line_def skip_newlines_def split: if_splits option.splits)

function read_lines :: "at_buffer \<Rightarrow> at_read list \<Rightarrow> (u8 list list \<times> line_result) option" where
  "read_lines b reads =
     (case readline b reads of
        None \<Rightarrow> None
      | Some (l, b, reads) \<Rightarrow>
          (case l of
             Line line \<Rightarrow> map_option (\<lambda>(ls, e). (line # ls, e)) (read_lines b reads)
           | e \<Rightarrow> Some ([], e)))"
  by pat_completeness auto
termination
  by (relation "measures [\<lambda>(b, reads). reads_size reads, \<lambda>(b, reads). length (s_ATBuffer b) - s_ATBufferCur b]")
    (auto dest: readline_decreases)

declare read_lines.simps [simp del]

lemma read_lines_Line:
  "readline b reads = Some (Line l, b', reads') \<Longrightarrow>
     read_lines b reads = map_option (\<lambda>(ls, e). (l # ls, e)) (read_lines b' reads')"
  by (subst read_lines.simps) simp

theorem read_lines_spec:
  assumes "holds (s_ATBuffer b) (s_ATBufferCur b) s" "0 \<notin> set (stream reads)" "lines_ok 0 (s @ stream reads)"
  shows "\<exists>e. read_lines b reads = Some (lines_of (s @ stream reads), e)"
  using assms
proof (induction "s @ stream reads" arbitrary: b s reads rule: lines_of.induct)
  case 1
  note d = readline_yields [OF 1(2-4), unfolded yields_line_def]
  show ?case
  proof (cases "after_line (s @ stream reads)")
    case Nil
    with d obtain l b' reads' where "readline b reads = Some (l, b', reads')" "l = NoLine \<or> l = Blocked" by auto
    with Nil show ?thesis by (auto simp: read_lines.simps [of b] lines_of.simps [of "s @ stream reads"])
  next
    case (Cons c r)
    with d obtain buf i reads' s' where
      run: "readline b reads = Some (Line (first_line (s @ stream reads)), \<lparr>s_ATBuffer = buf, s_ATBufferCur = i\<rparr>, reads')"
      and s': "holds buf i s'" and r: "s' @ stream reads' = r" by auto
    have "set r \<subseteq> set (s @ stream reads)"
      using Cons unfolding after_line_def by (metis set_dropWhileD set_subset_Cons subset_code(1))
    then have "0 \<notin> set (stream reads')" using 1(2,3) r by (auto simp: holds_def)
    moreover have "lines_ok 0 (s' @ stream reads')"
      using 1(4) Cons by (subst (asm) lines_ok.simps) (simp add: r)
    moreover have "after_line (s @ stream reads) = c # s' @ stream reads'" using Cons r by simp
    ultimately obtain e where "read_lines \<lparr>s_ATBuffer = buf, s_ATBufferCur = i\<rparr> reads' = Some (lines_of r, e)"
      using 1(1) [of c s' reads' "\<lparr>s_ATBuffer = buf, s_ATBufferCur = i\<rparr>"] s' r by auto
    then show ?thesis
      using Cons by (simp add: read_lines_Line [OF run] lines_of.simps [of "s @ stream reads"])
  qed
qed

section \<open>The prompt\<close>

text \<open>After a prompt the reader goes on one byte behind the terminator, in what the line before left.\<close>

lemma stale_line:
  assumes "no_newline xs" "0 \<notin> set xs" "3 \<le> length xs" "length xs < MAX_AT_RESPONSE"
  shows "\<exists>buf. holds buf 3 (drop 3 xs) \<and>
    read_lines empty_buffer (Got (xs @ [0x0D]) # Got [0x3E, 0x20] # reads) =
      map_option (\<lambda>(ls, e). (xs # [0x3E, 0x20] # ls, e)) (read_lines \<lparr>s_ATBuffer = buf, s_ATBufferCur = 3\<rparr> reads)"
proof -
  obtain n where n: "MAX_AT_RESPONSE = length xs + n" "0 < n" using assms(4) by (metis less_imp_add_positive)
  let ?Z = "replicate n (0 :: u8)"
  let ?r = "Got [0x3E, 0x20] # reads"
  obtain a b c d where xs: "xs = a # b # c # d"
    using assms(3) by (cases xs; cases "tl xs"; cases "tl (tl xs)") auto
  have nl: "\<not> newline a" using assms(1) xs by simp
  have "replicate (MAX_AT_RESPONSE + 1) (0 :: u8) = replicate (Suc (length xs + n)) 0" using n by simp
  then have e: "empty_buffer = \<lparr>s_ATBuffer = replicate (Suc (length xs + n)) 0, s_ATBufferCur = 0\<rparr>"
    by (simp add: empty_buffer_def)
  let ?B = "replicate (Suc (length xs + n)) (0 :: u8)"
  have Z: "?Z[0 := 0] = ?Z" using n(2) by (cases n) simp_all
  have b1: "(overwrite ?B 0 (xs @ [0x0D]))[0 + length (xs @ [0x0D]) := 0] = xs @ 0x0D # ?Z"
    using Z by (simp add: overwrite_def list_update_append del: replicate_Suc)
  have e1: "end_line (xs @ 0x0D # ?Z) 0 (xs @ [0x0D]) (length xs) =
    (Line xs, \<lparr>s_ATBuffer = xs @ 0 # ?Z, s_ATBufferCur = length xs + 1\<rparr>)"
    by (simp add: end_line_def list_update_append)
  have c1: "cstr_at (xs @ 0x0D # ?Z) 0 = Some (xs @ [0x0D])"
    using assms(2) n(2) by (cases n) (simp_all add: cstr_at_def takeWhile_until)
  have f1: "findNextEOL (xs @ [0x0D]) = Some (length xs)"
  proof -
    have "newline 0x0D" by (simp add: newline_def)
    with takeWhile_no_newline [OF assms(1), of "[0x0D]"] assms(3) show ?thesis by (auto simp: findNextEOL_def)
  qed
  have 1: "readline empty_buffer (Got (xs @ [0x0D]) # ?r) =
    Some (Line xs, \<lparr>s_ATBuffer = xs @ 0 # ?Z, s_ATBufferCur = length xs + 1\<rparr>, ?r)"
  proof -
    have "read_more ?B 0 0 (Got (xs @ [0x0D]) # ?r) =
      Some (Line xs, \<lparr>s_ATBuffer = xs @ 0 # ?Z, s_ATBufferCur = length xs + 1\<rparr>, ?r)"
      by (subst read_more_Got [OF _ _ _ _ b1 [symmetric] _ c1])
        (use assms nl e1 f1 in \<open>simp_all add: skip_newlines_def xs\<close>)
    then show ?thesis by (simp add: readline_def e)
  qed
  let ?C = "0 # b # c # d @ 0 # ?Z"
  have b2: "(overwrite ?C 0 [0x3E, 0x20])[0 + length [0x3E :: u8, 0x20] := 0] = [0x3E, 0x20, 0] @ d @ 0 # ?Z"
    by (simp add: overwrite_def)
  have c2: "cstr_at ([0x3E, 0x20, 0] @ d @ 0 # ?Z) 0 = Some [0x3E, 0x20]" by (simp add: cstr_at_def)
  have 2: "readline \<lparr>s_ATBuffer = xs @ 0 # ?Z, s_ATBufferCur = length xs + 1\<rparr> ?r =
    Some (Line [0x3E, 0x20], \<lparr>s_ATBuffer = [0x3E, 0x20, 0] @ d @ 0 # ?Z, s_ATBufferCur = 3\<rparr>, reads)"
  proof -
    have "read_more ?C 0 0 ?r =
      Some (Line [0x3E, 0x20], \<lparr>s_ATBuffer = [0x3E, 0x20, 0] @ d @ 0 # ?Z, s_ATBufferCur = 3\<rparr>, reads)"
      by (subst read_more_Got [OF _ _ _ _ b2 [symmetric] _ c2])
        (simp_all add: skip_newlines_def newline_def findNextEOL_def end_line_def)
    moreover have "(xs @ 0 # ?Z) ! (length xs + 1) = 0" "(xs @ 0 # ?Z)[0 := 0] = ?C"
      using n(2) by (simp_all add: nth_append xs)
    ultimately show ?thesis using n(2) by (simp add: readline_def)
  qed
  have "holds ([0x3E, 0x20, 0] @ d @ 0 # ?Z) 3 (drop 3 xs)"
    using assms(2) n by (simp add: holds_def xs)
  moreover have "read_lines empty_buffer (Got (xs @ [0x0D]) # ?r) = map_option (\<lambda>(ls, e). (xs # [0x3E, 0x20] # ls, e))
      (read_lines \<lparr>s_ATBuffer = [0x3E, 0x20, 0] @ d @ 0 # ?Z, s_ATBufferCur = 3\<rparr> reads)"
    unfolding read_lines_Line [OF 1] read_lines_Line [OF 2] by (simp add: option.map_comp o_def case_prod_unfold)
  ultimately show ?thesis by blast
qed

end
