(* ===== verification/AtCommands.thy ===== *)
theory AtCommands
  imports AtLines AtTokFacts
begin

text \<open>
  What a command on the AT channel returns: the response that the lines of the modem make up, and what
  becomes of a thread that waits when others use the channel too.
\<close>

section \<open>The response to a command\<close>

text \<open>Which lines belong to the response of a command, by its type, and where the lines go that come
  before the final one.\<close>

definition belongs :: "ATCommandType \<Rightarrow> cstr \<Rightarrow> u8 list \<Rightarrow> bool" where
  "belongs type prefix line =
     (case type of
        NO_RESULT \<Rightarrow> False
      | NUMERIC \<Rightarrow> isdigit line
      | _ \<Rightarrow> (case prefix of None \<Rightarrow> False | Some p \<Rightarrow> strStartsWith line p))"

definition collected :: "ATCommandType \<Rightarrow> cstr \<Rightarrow> u8 list list \<Rightarrow> u8 list list" where
  "collected type prefix ls =
     (let own = filter (belongs type prefix) ls in if type = MULTILINE then own else take 1 own)"

fun others :: "ATCommandType \<Rightarrow> cstr \<Rightarrow> u8 list list \<Rightarrow> u8 list list" where
  "others type prefix [] = []"
| "others type prefix (l # ls) =
     (if belongs type prefix l then if type = MULTILINE then others type prefix ls else ls
      else l # others type prefix ls)"

definition prefix_given :: "ATCommandType \<Rightarrow> cstr \<Rightarrow> bool" where
  "prefix_given type prefix \<longleftrightarrow> (type = SINGLELINE \<or> type = MULTILINE \<longrightarrow> prefix \<noteq> None)"

fun waited_lines :: "at_wait list \<Rightarrow> u8 list list option" where
  "waited_lines [] = Some []"
| "waited_lines (GotLine l # es) = map_option ((#) l) (waited_lines es)"
| "waited_lines (WakeUp # es) = waited_lines es"
| "waited_lines (e # es) = None"

text \<open>The channel while a command waits that has collected \<open>acc\<close> and passed on \<open>os\<close>.\<close>

definition pend :: "atchannel \<Rightarrow> ATCommandType \<Rightarrow> cstr \<Rightarrow> u8 list list \<Rightarrow> u8 list list \<Rightarrow> atchannel" where
  "pend ch type prefix acc os = ch\<lparr>s_type := type, s_responsePrefix := prefix, s_smsPDU := None,
     sp_response := Some \<lparr>success = 0, finalResponse = None, p_intermediates = rev acc\<rparr>,
     at_trace := at_trace ch @ map (\<lambda>l. Unsolicited l None) os\<rparr>"

definition takes :: "ATCommandType \<Rightarrow> cstr \<Rightarrow> u8 list list \<Rightarrow> u8 list \<Rightarrow> bool" where
  "takes type prefix acc l \<longleftrightarrow> belongs type prefix l \<and> (type = MULTILINE \<or> acc = [])"

lemma processLine_pend:
  assumes "\<not> isFinalResponse l" "prefix_given type prefix" "s_unsolHandler ch"
  shows "processLine l (pend ch type prefix acc os) =
    Some (if takes type prefix acc l then pend ch type prefix (acc @ [l]) os else pend ch type prefix acc (os @ [l]))"
  using assms
  by (cases type; cases prefix; simp add: processLine_def pend_def isFinalResponse_def accepts_def takes_def
    belongs_def prefix_given_def handleUnsolicited_def at_log_def addIntermediate_def)

lemma keep_waiting_pend: "s_readerClosed ch = 0 \<Longrightarrow> keep_waiting (pend ch type prefix acc os) = Some True"
  by (simp add: keep_waiting_def pend_def)

fun sort_lines :: "ATCommandType \<Rightarrow> cstr \<Rightarrow> u8 list list \<Rightarrow> u8 list list \<Rightarrow> u8 list list \<Rightarrow> u8 list list \<times> u8 list list" where
  "sort_lines type prefix acc os [] = (acc, os)"
| "sort_lines type prefix acc os (l # ls) =
     (if takes type prefix acc l then sort_lines type prefix (acc @ [l]) os ls
      else sort_lines type prefix acc (os @ [l]) ls)"

lemma sort_lines_full: "type \<noteq> MULTILINE \<Longrightarrow> acc \<noteq> [] \<Longrightarrow> sort_lines type prefix acc os ls = (acc, os @ ls)"
  by (induction ls arbitrary: os) (simp_all add: takes_def)

lemma sort_lines_eq:
  "type = MULTILINE \<or> acc = [] \<Longrightarrow>
     sort_lines type prefix acc os ls = (acc @ collected type prefix ls, os @ others type prefix ls)"
proof (induction ls arbitrary: acc os)
  case Nil
  then show ?case by (simp add: collected_def)
next
  case (Cons l ls)
  then show ?case
    by (cases "type = MULTILINE") (auto simp: collected_def takes_def sort_lines_full Let_def)
qed

lemma wait_loop_pend:
  assumes "waited_lines es = Some ls" "list_all (\<lambda>l. \<not> isFinalResponse l) ls"
    "prefix_given type prefix" "s_unsolHandler ch" "s_readerClosed ch = 0"
  shows "wait_loop timed want (es @ fs) (pend ch type prefix acc os) =
    wait_loop timed want fs (case sort_lines type prefix acc os ls of (acc, os) \<Rightarrow> pend ch type prefix acc os)"
  using assms
proof (induction es arbitrary: ls acc os rule: waited_lines.induct)
  case (2 l es)
  then obtain ls' where "ls = l # ls'" "waited_lines es = Some ls'" by auto
  with 2 show ?case by (simp add: processLine_pend)
qed (auto simp: keep_waiting_pend)

lemma reverse_onto_rev: "reverse_onto xs acc = rev xs @ acc"
  by (induction xs arbitrary: acc) auto

lemma processLine_final:
  assumes "isFinalResponse f"
  shows "processLine f (pend ch type prefix acc os) =
    Some ((pend ch type prefix acc os)\<lparr>sp_response := Some \<lparr>success = (if isFinalResponseSuccess f then 1 else 0),
      finalResponse = Some f, p_intermediates = rev acc\<rparr>\<rparr>)"
  using assms by (auto simp: processLine_def pend_def isFinalResponse_def handleFinalResponse_def)

lemma keep_waiting_final: "keep_waiting (ch\<lparr>sp_response := Some \<lparr>success = x, finalResponse = Some f,
    p_intermediates = ls\<rparr>\<rparr>) = Some False"
  by (simp add: keep_waiting_def)

lemma send_end_final:
  assumes "s_readerClosed ch = 0"
  shows "send_end True ((pend ch type prefix acc os)\<lparr>sp_response := Some \<lparr>success = x,
      finalResponse = Some f, p_intermediates = rev acc\<rparr>\<rparr>) =
    Some (0, Some \<lparr>success = x, finalResponse = Some f, p_intermediates = acc\<rparr>, clearPendingCommand (pend ch type prefix acc os))"
  using assms by (simp add: send_end_def pend_def clearPendingCommand_def reverseIntermediates_def reverse_onto_rev)

lemma command_answer:
  assumes "sp_response ch = None" "writeline command ch = Some (0, ch')" "s_unsolHandler ch'" "s_readerClosed ch' = 0"
    "prefix_given type prefix" "waited_lines es = Some ls" "list_all (\<lambda>l. \<not> isFinalResponse l) ls" "isFinalResponse f"
  shows "at_send_command_full_nolock command type prefix None timeout True (es @ GotLine f # WakeUp # fs) ch =
    Some (0, Some \<lparr>success = (if isFinalResponseSuccess f then 1 else 0), finalResponse = Some f,
        p_intermediates = collected type prefix ls\<rparr>,
      clearPendingCommand (pend ch' type prefix (collected type prefix ls) (others type prefix ls)), fs)"
proof -
  let ?w = "wait_loop (timeout \<noteq> 0) True"
  let ?p = "pend ch' type prefix (collected type prefix ls) (others type prefix ls)"
  have start: "send_start command type prefix None ch = Some (0, pend ch' type prefix [] [])"
    using assms(1,2) by (simp add: send_start_def pend_def at_response_new_def)
  have "?w (es @ GotLine f # WakeUp # fs) (pend ch' type prefix [] []) = ?w (GotLine f # WakeUp # fs) ?p"
    using wait_loop_pend [OF assms(6,7,5,3,4)] by (simp add: sort_lines_eq)
  also have "\<dots> = Some (0, Some \<lparr>success = (if isFinalResponseSuccess f then 1 else 0), finalResponse = Some f,
      p_intermediates = collected type prefix ls\<rparr>, clearPendingCommand ?p, fs)"
    using assms(4,8) by (simp add: processLine_final send_end_final keep_waiting_final)
  finally show ?thesis
    using assms(4) by (simp add: at_send_command_full_nolock_def start keep_waiting_pend)
qed

section \<open>Several threads\<close>

text \<open>The channel is used by one command at a time: a thread sends only while no thread waits. The
  reader's lines, the ends of the stream, wake-ups and time limits come in any order.\<close>

definition waiting_threads :: "at_system \<Rightarrow> nat set" where
  "waiting_threads S = {i. at_threads S i \<noteq> Idle}"

inductive one_at_a_time :: "at_system \<Rightarrow> bool" where
  start: "sp_response (at_chan S) = None \<Longrightarrow> at_threads S = (\<lambda>i. Idle) \<Longrightarrow> one_at_a_time S"
| step: "one_at_a_time S \<Longrightarrow> at_act a S = Some S' \<Longrightarrow>
    (\<forall>i c t p d n w. a = Send i c t p d n w \<longrightarrow> waiting_threads S = {}) \<Longrightarrow> one_at_a_time S'"

definition at_inv :: "at_system \<Rightarrow> bool" where
  "at_inv S \<longleftrightarrow>
     (if sp_response (at_chan S) = None then waiting_threads S = {} else \<exists>i. waiting_threads S = {i})"

lemma waiting_threads_finish [simp]: "waiting_threads (finish i err out ch S) = waiting_threads S - {i}"
  by (auto simp: waiting_threads_def finish_def)

lemma at_chan_finish [simp]: "at_chan (finish i err out ch S) = ch"
  by (simp add: finish_def)

lemma sp_response_clear [simp]: "sp_response (clearPendingCommand ch) = None"
  by (simp add: clearPendingCommand_def)

lemma at_inv_idle: "waiting_threads S \<subseteq> {i} \<Longrightarrow> at_inv (finish i err out (clearPendingCommand ch) S)"
  by (auto simp: at_inv_def)

lemma at_inv_waits:
  assumes "at_inv S" "at_threads S i \<noteq> Idle"
  shows "waiting_threads S = {i} \<and> sp_response (at_chan S) \<noteq> None"
proof -
  have "i \<in> waiting_threads S" using assms(2) by (simp add: waiting_threads_def)
  with assms(1) show ?thesis by (auto simp: at_inv_def split: if_splits)
qed

lemma waiting_threads_simps [simp]:
  "waiting_threads (S\<lparr>at_chan := ch\<rparr>) = waiting_threads S"
  "waiting_threads (S\<lparr>at_chan := ch, at_threads := (at_threads S)(i := Waits t w)\<rparr>) = insert i (waiting_threads S)"
  by (auto simp: waiting_threads_def)

lemma check_wait_inv:
  assumes "at_inv S" "at_threads S i \<noteq> Idle"
  shows "\<exists>S'. check_wait i want S = Some S' \<and> at_inv S'"
  using at_inv_waits [OF assms] assms(1)
  by (auto simp: check_wait_def keep_waiting_def send_end_def intro!: at_inv_idle)

lemma write_with_response: "write_with c s ch = Some (ret, ch') \<Longrightarrow> sp_response ch' = sp_response ch"
  by (auto simp: write_with_def at_log_def Let_def split: if_splits bind_splits)

lemma processLine_response:
  "processLine l ch = Some ch' \<Longrightarrow> (sp_response ch' = None) = (sp_response ch = None)"
  by (auto simp: processLine_def handleUnsolicited_def at_log_def writeCtrlZ_def Let_def dest: write_with_response
    split: option.splits if_splits bind_splits)

lemma close_response [simp]:
  "sp_response (onReaderClosed ch) = sp_response ch" "sp_response (at_close ch) = sp_response ch"
  by (simp_all add: onReaderClosed_def at_close_def at_log_def Let_def)

lemma send_start_response:
  "send_start command type prefix pdu ch = Some (err, ch') \<Longrightarrow> err < 0 \<and> sp_response ch' = None \<or> err = 0 \<and> sp_response ch' \<noteq> None"
  by (auto simp: send_start_def split: if_splits bind_splits)

lemma at_inv_chan:
  "at_inv S \<Longrightarrow> (sp_response ch = None) = (sp_response (at_chan S) = None) \<Longrightarrow> at_inv (S\<lparr>at_chan := ch\<rparr>)"
  by (simp add: at_inv_def)

lemma at_act_inv:
  assumes "at_inv S" "at_act a S = Some S'"
    "\<forall>i c t p d n w. a = Send i c t p d n w \<longrightarrow> waiting_threads S = {}"
  shows "at_inv S'"
proof (cases a)
  case (Send i c t p d n w)
  then have none: "waiting_threads S = {}" and idle: "at_threads S i = Idle"
    using assms(3) by (auto simp: waiting_threads_def)
  obtain err ch where start: "send_start c t p d (at_chan S) = Some (err, ch)"
    and rest: "(if err < 0 then Some (finish i err None ch S)
      else check_wait i w (S\<lparr>at_chan := ch, at_threads := (at_threads S)(i := Waits (n \<noteq> 0) w)\<rparr>)) = Some S'"
    using assms(2) by (auto simp: Send idle split: bind_splits)
  show ?thesis
  proof (cases "err < 0")
    case True
    then show ?thesis using rest send_start_response [OF start] none by (auto simp: at_inv_def)
  next
    case False
    let ?S = "S\<lparr>at_chan := ch, at_threads := (at_threads S)(i := Waits (n \<noteq> 0) w)\<rparr>"
    have "at_inv ?S" using False send_start_response [OF start] none by (auto simp: at_inv_def)
    from check_wait_inv [OF this, of i w] show ?thesis using rest False by auto
  qed
next
  case (Wake i)
  show ?thesis
  proof (cases "at_threads S i")
    case (Waits t w)
    with check_wait_inv [OF assms(1), of i w] Wake assms(2) show ?thesis by auto
  qed (use Wake assms in auto)
next
  case (TimesOut i)
  then show ?thesis using assms at_inv_waits [of S i]
    by (auto split: at_thread.splits bool.splits intro!: at_inv_idle)
next
  case (Reader e)
  then show ?thesis using assms
    by (auto split: at_wait.splits intro!: at_inv_chan simp: processLine_response close_response)
qed

lemma at_inv_start: "sp_response (at_chan S) = None \<Longrightarrow> at_threads S = (\<lambda>i. Idle) \<Longrightarrow> at_inv S"
  by (simp add: at_inv_def waiting_threads_def)

lemma one_at_a_time_inv: "one_at_a_time S \<Longrightarrow> at_inv S"
  by (induction rule: one_at_a_time.induct) (auto intro: at_inv_start at_act_inv)

lemma wake_defined: "at_inv S \<Longrightarrow> at_act (Wake i) S \<noteq> None"
proof (cases "at_threads S i")
  case (Waits t w)
  assume "at_inv S"
  from check_wait_inv [OF this, of i w] Waits show ?thesis by auto
qed simp

text \<open>A second command while one waits.\<close>

lemma second_command:
  assumes "at_threads S i = Waits t w" "at_threads S j = Idle" "sp_response (at_chan S) \<noteq> None"
  shows "\<exists>S'. at_act (Send j c type p d n w') S = Some S' \<and>
    at_results S' = at_results S @ [(j, AT_ERROR_COMMAND_PENDING, None)] \<and> at_act (Wake i) S' = None"
proof -
  have "i \<noteq> j" using assms by auto
  then show ?thesis
    using assms by (auto simp: send_start_def finish_def check_wait_def keep_waiting_def)
qed

section \<open>A channel to run the model on\<close>

definition at_demo :: atchannel where
  "at_demo = \<lparr>s_fd = 5, s_unsolHandler = True, s_type = NO_RESULT, s_responsePrefix = None, s_smsPDU = None,
     sp_response = None, s_onTimeout = False, s_onReaderClosed = False, s_readerClosed = 0,
     at_writes = [Wrote 100, Wrote 1], at_trace = []\<rparr>"

end
