(* ===== verification/VendorScenarios.thy ===== *)
theory VendorScenarios
  imports VendorLines AtCommands RilScenarios
begin

text \<open>
  The reference vendor library between a modem and the daemon: what a request leads to when the modem answers, the
  two programs run as one, and what becomes of the request in the daemon's list.
\<close>

section \<open>A command that is answered\<close>

lemma need_intermediate_Some:
  "p_intermediates r \<noteq> [] \<or> success r = 0 \<Longrightarrow> need_intermediate (Some (0, Some r, ch)) = Some (0, Some r, ch)"
  by (auto simp: need_intermediate_def)


text \<open>The channel is free and its reader runs; everything it has logged has been handled.\<close>

definition at_idle :: "vendor \<Rightarrow> bool" where
  "at_idle S \<longleftrightarrow> sp_response (v_chan S) = None \<and> s_unsolHandler (v_chan S) \<and> s_readerClosed (v_chan S) = 0 \<and>
     v_seen S = length (at_trace (v_chan S))"

text \<open>The modem answers with these lines and then a final one, and nothing is unsolicited.\<close>

definition answered_by :: "at_wait list \<Rightarrow> ATCommandType \<Rightarrow> cstr \<Rightarrow> u8 list list \<Rightarrow> u8 list \<Rightarrow> bool" where
  "answered_by es type prefix ls f \<longleftrightarrow> waited_lines es = Some ls \<and> list_all (\<lambda>l. \<not> isFinalResponse l) ls \<and>
     isFinalResponse f \<and> others type prefix ls = [] \<and> prefix_given type prefix"

definition response_of :: "ATCommandType \<Rightarrow> cstr \<Rightarrow> u8 list list \<Rightarrow> u8 list \<Rightarrow> ATResponse" where
  "response_of type prefix ls f = \<lparr>success = (if isFinalResponseSuccess f then 1 else 0), finalResponse = Some f,
     p_intermediates = collected type prefix ls\<rparr>"

lemma writeline_written:
  "writeline cmd ch = Some (0, ch') \<Longrightarrow> \<exists>a b ws. ch' = ch\<lparr>at_writes := ws, at_trace := at_trace ch @ [AtSent a, AtSent b]\<rparr>"
  by (auto simp: writeline_def write_with_def at_log_def Let_def bind_eq_Some_conv split: if_splits)

lemma full_answered:
  assumes "at_idle S" "writeline cmd (v_chan S) = Some (0, ch')" "answered_by es type prefix ls f"
    and "v_waits S = es @ GotLine f # WakeUp # fs"
  shows "\<exists>ch2 k. at_send_command_full False cmd type prefix None 0 True (v_waits S) (v_chan S) =
      Some (0, Some (response_of type prefix ls f), ch2, fs) \<and>
    after_wait ch2 fs S = Some (S\<lparr>v_chan := ch2, v_waits := fs, v_seen := k\<rparr>) \<and>
    at_idle (S\<lparr>v_chan := ch2, v_waits := fs, v_seen := k\<rparr>)"
proof -
  obtain a b ws where ch': "ch' = (v_chan S)\<lparr>at_writes := ws, at_trace := at_trace (v_chan S) @ [AtSent a, AtSent b]\<rparr>"
    using writeline_written [OF assms(2)] by blast
  have "at_send_command_full_nolock cmd type prefix None 0 True (es @ GotLine f # WakeUp # fs) (v_chan S) =
      Some (0, Some (response_of type prefix ls f),
        clearPendingCommand (pend ch' type prefix (collected type prefix ls) (others type prefix ls)), fs)"
    unfolding response_of_def
    by (rule command_answer) (use assms ch' in \<open>simp_all add: at_idle_def answered_by_def\<close>)
  with assms show ?thesis
    by (auto simp: at_send_command_full_def after_wait_def at_idle_def answered_by_def ch' pend_def clearPendingCommand_def)
qed

text \<open>The commands whose result is looked at.\<close>

lemma numeric_answered:
  assumes "at_idle S" "writeline cmd (v_chan S) = Some (0, ch')" "answered_by es NUMERIC None ls f"
    and "v_waits S = es @ GotLine f # WakeUp # fs" "collected NUMERIC None ls \<noteq> [] \<or> \<not> isFinalResponseSuccess f"
  shows "\<exists>ch2 k. send_numeric cmd S = Some (0, Some (response_of NUMERIC None ls f),
      S\<lparr>v_chan := ch2, v_waits := fs, v_seen := k\<rparr>) \<and> at_idle (S\<lparr>v_chan := ch2, v_waits := fs, v_seen := k\<rparr>)"
proof -
  from full_answered [OF assms(1-4)] obtain ch2 k where 1: "at_send_command_full False cmd NUMERIC None None 0 True (v_waits S) (v_chan S) =
      Some (0, Some (response_of NUMERIC None ls f), ch2, fs)" and
    2: "after_wait ch2 fs S = Some (S\<lparr>v_chan := ch2, v_waits := fs, v_seen := k\<rparr>)" and
    3: "at_idle (S\<lparr>v_chan := ch2, v_waits := fs, v_seen := k\<rparr>)" by blast
  have "need_intermediate (Some (0, Some (response_of NUMERIC None ls f), ch2, fs)) =
      Some (0, Some (response_of NUMERIC None ls f), ch2, fs)"
    by (rule need_intermediate_Some) (use assms(5) in \<open>auto simp: response_of_def\<close>)
  then show ?thesis
    using 3 by (intro exI [of _ ch2] exI [of _ k]) (simp add: send_numeric_def with_channel_def at_send_command_numeric_def 1 2)
qed

lemma singleline_answered:
  assumes "at_idle S" "writeline cmd (v_chan S) = Some (0, ch')" "answered_by es SINGLELINE (Some (lit prefix)) ls f"
    and "v_waits S = es @ GotLine f # WakeUp # fs"
    and "collected SINGLELINE (Some (lit prefix)) ls \<noteq> [] \<or> \<not> isFinalResponseSuccess f"
  shows "\<exists>ch2 k. send_singleline cmd prefix True S = Some (0, Some (response_of SINGLELINE (Some (lit prefix)) ls f),
      S\<lparr>v_chan := ch2, v_waits := fs, v_seen := k\<rparr>) \<and> at_idle (S\<lparr>v_chan := ch2, v_waits := fs, v_seen := k\<rparr>)"
proof -
  let ?t = SINGLELINE and ?p = "Some (lit prefix)"
  from full_answered [OF assms(1-4)] obtain ch2 k where 1: "at_send_command_full False cmd ?t ?p None 0 True (v_waits S) (v_chan S) =
      Some (0, Some (response_of ?t ?p ls f), ch2, fs)" and
    2: "after_wait ch2 fs S = Some (S\<lparr>v_chan := ch2, v_waits := fs, v_seen := k\<rparr>)" and
    3: "at_idle (S\<lparr>v_chan := ch2, v_waits := fs, v_seen := k\<rparr>)" by blast
  have "need_intermediate (Some (0, Some (response_of ?t ?p ls f), ch2, fs)) =
      Some (0, Some (response_of ?t ?p ls f), ch2, fs)"
    by (rule need_intermediate_Some) (use assms(5) in \<open>auto simp: response_of_def\<close>)
  then show ?thesis
    using 3 by (intro exI [of _ ch2] exI [of _ k]) (simp add: send_singleline_def with_channel_def at_send_command_singleline_def 1 2)
qed

lemma multiline_answered:
  assumes "at_idle S" "writeline cmd (v_chan S) = Some (0, ch')" "answered_by es MULTILINE (Some (lit prefix)) ls f"
    and "v_waits S = es @ GotLine f # WakeUp # fs"
  shows "\<exists>ch2 k. send_multiline cmd prefix S = Some (0, Some (response_of MULTILINE (Some (lit prefix)) ls f),
      S\<lparr>v_chan := ch2, v_waits := fs, v_seen := k\<rparr>) \<and> at_idle (S\<lparr>v_chan := ch2, v_waits := fs, v_seen := k\<rparr>)"
proof -
  let ?t = MULTILINE and ?p = "Some (lit prefix)"
  from full_answered [OF assms] obtain ch2 k where 1: "at_send_command_full False cmd ?t ?p None 0 True (v_waits S) (v_chan S) =
      Some (0, Some (response_of ?t ?p ls f), ch2, fs)" and
    2: "after_wait ch2 fs S = Some (S\<lparr>v_chan := ch2, v_waits := fs, v_seen := k\<rparr>)" and
    3: "at_idle (S\<lparr>v_chan := ch2, v_waits := fs, v_seen := k\<rparr>)" by blast
  show ?thesis
    using 3 by (intro exI [of _ ch2] exI [of _ k]) (simp add: send_multiline_def with_channel_def at_send_command_multiline_def 1 2)
qed

section \<open>Daemon and vendor library together\<close>

text \<open>What the library reports is passed on at once; it knows one socket.\<close>

fun report :: "conf \<Rightarrow> u64 \<Rightarrow> vevent list \<Rightarrow> ril \<Rightarrow> ril option" where
  "report C now [] s = Some s"
| "report C now (VComplete t e r len # es) s = do { s \<leftarrow> RIL_onRequestComplete C t e r len s; report C now es s }"
| "report C now (VUnsol n r len # es) s = do { s \<leftarrow> RIL_onUnsolicitedResponse C now 0 n r len s; report C now es s }"
| "report C now (VTimed cb # es) s = report C now es (log_event TimedCallback s)"

text \<open>A call of \<open>onRequest\<close> by the daemon, with what the library does during it.\<close>

definition call_vendor :: "conf \<Rightarrow> venv \<Rightarrow> u64 \<Rightarrow> nat \<Rightarrow> rdata \<Rightarrow> nat \<Rightarrow> ptr \<Rightarrow> ril \<times> vendor \<Rightarrow> (ril \<times> vendor) option" where
  "call_vendor C E now n d len t = (\<lambda>(s, S). do {
     S' \<leftarrow> onRequest E n d len t (S\<lparr>v_trace := []\<rparr>);
     s' \<leftarrow> report C now (v_trace S') s;
     Some (s', S'\<lparr>v_trace := v_trace S @ v_trace S'\<rparr>)
   })"

fun call_issued :: "conf \<Rightarrow> venv \<Rightarrow> u64 \<Rightarrow> event list \<Rightarrow> ril \<times> vendor \<Rightarrow> (ril \<times> vendor) option" where
  "call_issued C E now [] x = Some x"
| "call_issued C E now (Issued t n d len sock # es) x = do { x \<leftarrow> call_vendor C E now n d len t x; call_issued C E now es x }"
| "call_issued C E now (e # es) x = call_issued C E now es x"

text \<open>One command of a client, from its bytes to everything that follows from it.\<close>

definition serve :: "conf \<Rightarrow> venv \<Rightarrow> u64 \<Rightarrow> u8 list \<Rightarrow> nat \<Rightarrow> ril \<times> vendor \<Rightarrow> (ril \<times> vendor) option" where
  "serve C E now buffer sock = (\<lambda>(s, S). do {
     s1 \<leftarrow> processCommandBuffer C buffer sock s;
     call_issued C E now (drop (length (trace s)) (trace s1)) (s1, S)
   })"

lemma report_gone:
  assumes "ril_ok C s" "requests s t = None" "set (concat (map completed_token es)) \<subseteq> {t}"
  shows "safe (report C now es s) (\<lambda>s'. ril_ok C s' \<and> requests s' t = None)"
  using assms
proof (induction es arbitrary: s)
  case (Cons e es)
  show ?case
  proof (cases e)
    case (VComplete t' err r len)
    with Cons.prems(3) have t': "t' = t" by simp
    have "safe (RIL_onRequestComplete C t err r len s) (\<lambda>s'. s' = s)"
    proof (rule safeI)
      fix s' assume s': "RIL_onRequestComplete C t err r len s = Some s'"
      then obtain found s1 where c: "checkAndDequeueRequestInfoIfAck C t False s = Some (found, s1)"
        by (auto simp: RIL_onRequestComplete_def bind_eq_Some_conv)
      with check_cases [OF Cons.prems(1) c] Cons.prems(2) s' show "s' = s"
        by (auto simp: RIL_onRequestComplete_def awaiting_def)
    qed
    with VComplete t' Cons.IH [OF Cons.prems(1,2)] Cons.prems(3) show ?thesis by (auto elim!: safe_mono)
  next
    case (VUnsol n r len)
    have "safe (RIL_onUnsolicitedResponse C now 0 n r len s) (\<lambda>s'. safe (report C now es s') (\<lambda>s'. ril_ok C s' \<and> requests s' t = None))"
      using safe_mono [OF unsolicited_sends] Cons.IH Cons.prems VUnsol by (simp add: sends_def)
    with VUnsol show ?thesis by simp
  next
    case (VTimed cb)
    with Cons show ?thesis by (simp add: log_event_def)
  qed
qed simp


lemma report_keeps_waiting:
  assumes "concat (map completed_token es) = []" "awaiting C s t r"
  shows "safe (report C now es s) (\<lambda>s'. awaiting C s' t r)"
  using assms
proof (induction es arbitrary: s)
  case (Cons e es)
  show ?case
  proof (cases e)
    case (VUnsol n x len)
    have "safe (RIL_onUnsolicitedResponse C now 0 n x len s) (\<lambda>s'. safe (report C now es s') (\<lambda>s'. awaiting C s' t r))"
      using safe_mono [OF unsolicited_sends] Cons.IH Cons.prems VUnsol by (simp add: sends_def awaiting_def)
    with VUnsol show ?thesis by simp
  next
    case (VTimed cb)
    with Cons show ?thesis by (simp add: log_event_def awaiting_def)
  qed (use Cons.prems(1) in simp)
qed simp

lemma report_completes:
  assumes "ril_ok C s" "awaiting C s t r" "concat (map completed_token es) = t # ts" "set ts \<subseteq> {t}"
  shows "safe (report C now es s) (\<lambda>s'. ril_ok C s' \<and> requests s' t = None)"
  using assms(1,2,3)
proof (induction es arbitrary: s)
  case (Cons e es)
  show ?case
  proof (cases e)
    case (VComplete t' err x len)
    with Cons.prems(3) have t': "t' = t" and ts: "concat (map completed_token es) = ts" by simp_all
    have "safe (RIL_onRequestComplete C t err x len s) (\<lambda>s'. safe (report C now es s') (\<lambda>s'. ril_ok C s' \<and> requests s' t = None))"
    proof (rule safeI)
      fix s' assume s': "RIL_onRequestComplete C t err x len s = Some s'"
      have "ril_ok C s'" using safeD [OF complete_keeps [OF Cons.prems(1)] s'] Cons.prems(1) by (simp add: keeps_def)
      moreover have "requests s' t = None" using complete_result [OF Cons.prems(2) s'] by auto
      ultimately show "safe (report C now es s') (\<lambda>s'. ril_ok C s' \<and> requests s' t = None)"
        using report_gone [of C s' t es now] ts assms(4) by simp
    qed
    with VComplete t' show ?thesis by simp
  next
    case (VUnsol n x len)
    have "safe (RIL_onUnsolicitedResponse C now 0 n x len s) (\<lambda>s'. safe (report C now es s') (\<lambda>s'. ril_ok C s' \<and> requests s' t = None))"
      using safe_mono [OF unsolicited_sends] Cons.IH Cons.prems VUnsol by (simp add: sends_def awaiting_def)
    with VUnsol show ?thesis by simp
  next
    case (VTimed cb)
    with Cons show ?thesis by (simp add: log_event_def awaiting_def)
  qed
qed (use assms(3) in simp)

text \<open>The request whose completion the library never reports.\<close>

definition never_completed :: "nat \<Rightarrow> vendor \<Rightarrow> bool" where
  "never_completed n S \<longleftrightarrow> n = 46 \<and> sState S \<noteq> RADIO_STATE_UNAVAILABLE \<and> sState S \<noteq> RADIO_STATE_OFF"

lemma onRequest_tokens:
  assumes "onRequest E n d len t (S\<lparr>v_trace := []\<rparr>) = Some S'"
  shows "\<exists>ts. tokens S' = ts \<and> (if never_completed n S then ts = [] else \<exists>us. ts = t # us \<and> set us \<subseteq> {t})"
proof (cases "never_completed n S")
  case True
  then have "answers [] (S\<lparr>v_trace := []\<rparr>) S'"
    using assms safeD [OF just_send_quiet [of "''AT+COPS=0''"], of "S\<lparr>v_trace := []\<rparr>"]
    by (auto simp: never_completed_def onRequest_def switch_special)
  with True show ?thesis by (simp add: answers_def tokens_def)
next
  case False
  show ?thesis
  proof (cases "n = 46")
    case True
    with False assms have "S' = complete t RIL_E_RADIO_NOT_AVAILABLE RNull 0 (S\<lparr>v_trace := []\<rparr>)"
      by (auto simp: never_completed_def onRequest_def)
    with False show ?thesis by simp (simp add: tokens_def)
  next
    case n: False
    from safeD [OF onRequest_completes assms] obtain ts where ts: "ts \<in> insert [t] (completions n d t)"
      and a: "answers ts (S\<lparr>v_trace := []\<rparr>) S'" by blast
    have "\<exists>us. ts = t # us \<and> set us \<subseteq> {t}" using ts n by (auto simp: completions_def split: if_splits)
    moreover have "tokens S' = ts" using a by (simp add: answers_def tokens_def)
    ultimately show ?thesis using False by simp
  qed
qed

lemma call_vendor_frees:
  assumes "ril_ok C s" "awaiting C s t r"
  shows "safe (call_vendor C E now n d len t (s, S)) (\<lambda>(s', S').
    if never_completed n S then awaiting C s' t r else ril_ok C s' \<and> requests s' t = None)"
proof (rule safeI, clarify)
  fix s' S' assume "call_vendor C E now n d len t (s, S) = Some (s', S')"
  then obtain V where V: "onRequest E n d len t (S\<lparr>v_trace := []\<rparr>) = Some V"
    and s': "report C now (v_trace V) s = Some s'"
    by (auto simp: call_vendor_def bind_eq_Some_conv)
  from onRequest_tokens [OF V]
  show "if never_completed n S then awaiting C s' t r else ril_ok C s' \<and> requests s' t = None"
    using safeD [OF report_keeps_waiting s'] safeD [OF report_completes s'] assms
    by (auto simp: tokens_def split: if_splits)
qed

section \<open>Requests that are answered with a number\<close>

lemma numeric_request_answered:
  assumes "at_idle S" "writeline (lit cmd) (v_chan S) = Some (0, ch')" "v_waits S = [GotLine line, GotLine f, WakeUp] @ fs"
    and "isdigit line" "isFinalResponseSuccess f"
  shows "\<exists>ch2 k. numeric_request cmd t S =
    Some (complete t RIL_E_SUCCESS (RString line) 8 (S\<lparr>v_chan := ch2, v_waits := fs, v_seen := k\<rparr>))"
proof -
  have l: "\<not> isFinalResponse line"
    using assms(4) by (cases line) (auto simp: isdigit_def isFinalResponse_def isFinalResponseSuccess_def
      isFinalResponseError_def s_finalResponsesSuccess_def s_finalResponsesError_def lit_def)
  have "answered_by [GotLine line] NUMERIC None [line] f"
    using assms(4,5) l by (simp add: answered_by_def belongs_def prefix_given_def isFinalResponse_def)
  moreover have c: "collected NUMERIC None [line] = [line]" using assms(4) by (simp add: collected_def belongs_def)
  ultimately obtain ch2 k where "send_numeric (lit cmd) S = Some (0, Some (response_of NUMERIC None [line] f),
      S\<lparr>v_chan := ch2, v_waits := fs, v_seen := k\<rparr>)"
    using numeric_answered [OF assms(1,2), of "[GotLine line]" "[line]" f fs] assms(3) by auto
  then show ?thesis using assms(5) c
    by (intro exI [of _ ch2] exI [of _ k])
      (simp add: numeric_request_def failed_def response_of_def first_answer_def)
qed


text \<open>The identity requests, from the client's bytes to the answer's.\<close>

definition identity_request :: "u32 \<Rightarrow> string \<Rightarrow> bool" where
  "identity_request n cmd \<longleftrightarrow> n = 11 \<and> cmd = ''AT+CIMI'' \<or> n = 38 \<and> cmd = ''AT+CGSN''"

definition identity_answer :: "u32 \<Rightarrow> u8 list \<Rightarrow> u8 list" where
  "identity_answer tok line = wire [WInt32 RESPONSE_SOLICITED, WInt32 tok, WInt32 RIL_E_SUCCESS, WStr (Some line)]"

lemma identity_switch:
  assumes "identity_request n cmd" "sState S = RADIO_STATE_ON"
  shows "onRequest E (unat n) d len t S = numeric_request cmd t S"
proof -
  have "request_switch E 11 d len t S = numeric_request ''AT+CIMI'' t S"
    "request_switch E 38 d len t S = numeric_request ''AT+CGSN'' t S"
    by (simp_all add: request_switch_def call_command_def)
  then show ?thesis using assms unfolding identity_request_def onRequest_def by (elim disjE conjE) simp_all
qed

lemma identity_rows:
  "s_commands ! 10 = (11, F_dispatchStrings, F_responseString)" "s_commands ! 37 = (38, F_dispatchVoid, F_responseString)"
  by (simp_all add: s_commands_def)

lemma identity_entry:
  assumes "identity_request n cmd"
  shows "snd (snd (s_commands ! (unat n - 1))) = F_responseString"
    "1 \<le> sint n" "sint n \<le> 141"
  using assms unfolding identity_request_def by (elim disjE conjE; simp add: identity_rows)+

lemma identity_served:
  assumes n: "identity_request n cmd" and on: "sState S = RADIO_STATE_ON" and at_idle: "at_idle S"
    and w: "writeline (lit cmd) (v_chan S) = Some (0, ch')" and es: "v_waits S = [GotLine line, GotLine f, WakeUp] @ fs"
    and line: "isdigit line" "isFinalResponseSuccess f" "witem_ok (WStr (Some line))"
    and C: "env_ok (conf_env C)" "request_ok (conf_env C) d" "calloc_request C (requests s) = Some t" "t \<noteq> 0"
    and d: "buffer = wire ([WInt32 n, WInt32 tok] @ request_items d) @ r" "length buffer \<le> INT32_MAX"
      "fst (snd (s_commands ! (unat n - 1))) = request_fn d"
    and fd: "fdCommand s (socket_hook C 0) \<ge> 0" "can_send s (HEADER_SIZE + length (identity_answer tok line))"
      "length (identity_answer tok line) \<le> MAX_COMMAND_BYTES"
  shows "\<exists>s' S'. serve C E now buffer 0 (s, S) = Some (s', S') \<and> requests s' t = None \<and>
    trace s' = trace s @ Issued t (unat n) d (request_len (conf_env C) d) 0 # sent (fdCommand s (socket_hook C 0)) (identity_answer tok line)"
proof -
  let ?s1 = "log_event (Issued t (unat n) d (request_len (conf_env C) d) 0) (enqueue_request t (new_request tok (unat n) 0) (socket_hook C 0) s)"
  have p: "processCommandBuffer C buffer 0 s = Some ?s1"
    using command_issues [of buffer C d n tok r s t 0] C d identity_entry [OF n] by simp
  have "at_idle (S\<lparr>v_trace := []\<rparr>)" using at_idle by (simp add: at_idle_def)
  from numeric_request_answered [OF this, of cmd ch' line f fs t] w es line obtain ch2 k where
    "numeric_request cmd t (S\<lparr>v_trace := []\<rparr>) =
      Some (complete t RIL_E_SUCCESS (RString line) 8 (S\<lparr>v_trace := [], v_chan := ch2, v_waits := fs, v_seen := k\<rparr>))"
    by auto
  with identity_switch [OF n, of "S\<lparr>v_trace := []\<rparr>" E d "request_len (conf_env C) d" t] on
  have v: "onRequest E (unat n) d (request_len (conf_env C) d) t (S\<lparr>v_trace := []\<rparr>) =
      Some (S\<lparr>v_trace := [VComplete t RIL_E_SUCCESS (RString line) 8], v_chan := ch2, v_waits := fs, v_seen := k\<rparr>)"
    by (simp add: complete_def vlog_def)
  let ?r = "new_request tok (unat n) 0"
  have aw: "awaiting C ?s1 t ?r"
    using C(4) by (simp add: awaiting_def enqueue_request_def log_event_def new_request_def)
  have pay: "payload C ?r (RString line) 8 = Some (0, [WStr (Some line)])"
    using identity_entry(1) [OF n, simplified] by (simp add: payload_def new_request_def responseString_def)
  have msg: "response_message C ?r RIL_E_SUCCESS 0 [WStr (Some line)] = identity_answer tok line"
    by (simp add: response_message_def response_type_def new_request_def identity_answer_def)
  have pl: "plenty (memory C)" using C(1) by (simp add: env_ok_def)
  have tr: "trace ?s1 = trace s @ [Issued t (unat n) d (request_len (conf_env C) d) 0]" by (simp add: enqueue_request_def log_event_def)
  have "fdCommand ?s1 = fdCommand s" "can_send ?s1 = can_send s" "socket_id ?r = 0" "\<not> is_local ?r" "\<not> cancelled ?r"
    by (auto simp: enqueue_request_def log_event_def can_send_def [abs_def] new_request_def)
  with complete_sends [OF aw _ _ pay _ pl, of RIL_E_SUCCESS] line(3) fd msg tr
  obtain ws' where c: "RIL_onRequestComplete C t RIL_E_SUCCESS (RString line) 8 ?s1 =
    Some ((dequeued C t ?r ?s1)\<lparr>outcomes := ws',
      trace := (trace s @ [Issued t (unat n) d (request_len (conf_env C) d) 0]) @ sent (fdCommand s (socket_hook C 0)) (identity_answer tok line),
      requests := (requests ?s1)(t := None)\<rparr>)" by auto
  show ?thesis
    unfolding serve_def prod.case p by (simp add: tr call_vendor_def v c)
qed


section \<open>Requests that read one line\<close>

text \<open>The answer is one line with the prefix.\<close>

lemma line_answered:
  assumes "at_idle S" "writeline cmd (v_chan S) = Some (0, ch')" "v_waits S = [GotLine line, GotLine f, WakeUp] @ fs"
    and "strStartsWith line (lit prefix)" "\<not> isFinalResponse line" "isFinalResponse f"
  shows "\<exists>ch2 k r. send_singleline cmd prefix True S = Some (0, Some r, S\<lparr>v_chan := ch2, v_waits := fs, v_seen := k\<rparr>) \<and>
    success r = (if isFinalResponseSuccess f then 1 else 0) \<and> first_answer (Some r) = Some line \<and>
    at_idle (S\<lparr>v_chan := ch2, v_waits := fs, v_seen := k\<rparr>)"
proof -
  let ?p = "Some (lit prefix)"
  have c: "collected SINGLELINE ?p [line] = [line]" using assms(4) by (simp add: collected_def belongs_def)
  have "answered_by [GotLine line] SINGLELINE ?p [line] f"
    using assms(4-6) by (simp add: answered_by_def belongs_def prefix_given_def)
  with singleline_answered [OF assms(1,2), of "[GotLine line]" prefix "[line]" f fs] assms(3) c obtain ch2 k where
    "send_singleline cmd prefix True S = Some (0, Some (response_of SINGLELINE ?p [line] f),
      S\<lparr>v_chan := ch2, v_waits := fs, v_seen := k\<rparr>)" "at_idle (S\<lparr>v_chan := ch2, v_waits := fs, v_seen := k\<rparr>)"
    by auto
  then show ?thesis using c
    by (intro exI [of _ ch2] exI [of _ k]) (auto simp: response_of_def first_answer_def)
qed

lemma one_line_answered:
  assumes "at_idle S" "writeline cmd (v_chan S) = Some (0, ch')" "v_waits S = [GotLine line, GotLine f, WakeUp] @ fs"
    and "strStartsWith line (lit prefix)" "\<not> isFinalResponse line" "isFinalResponseSuccess f"
  shows "\<exists>ch2 k r. send_singleline cmd prefix True S = Some (0, Some r, S\<lparr>v_chan := ch2, v_waits := fs, v_seen := k\<rparr>) \<and>
    success r = 1 \<and> first_answer (Some r) = Some line \<and> at_idle (S\<lparr>v_chan := ch2, v_waits := fs, v_seen := k\<rparr>)"
  using line_answered [OF assms(1-5)] assms(6) by (simp add: isFinalResponse_def)

text \<open>The answer is success without a line: the response is thrown away and an error returned.\<close>

lemma no_line_answered:
  assumes "at_idle S" "writeline cmd (v_chan S) = Some (0, ch')" "v_waits S = [GotLine f, WakeUp] @ fs" "isFinalResponseSuccess f"
  shows "\<exists>ch2 k. send_singleline cmd prefix True S =
    Some (AT_ERROR_INVALID_RESPONSE, None, S\<lparr>v_chan := ch2, v_waits := fs, v_seen := k\<rparr>)"
proof -
  let ?p = "Some (lit prefix)"
  have "answered_by [] SINGLELINE ?p [] f" using assms(4) by (simp add: answered_by_def prefix_given_def isFinalResponse_def)
  from full_answered [OF assms(1,2) this] assms(3) obtain ch2 k where
    1: "at_send_command_full False cmd SINGLELINE ?p None 0 True (v_waits S) (v_chan S) =
      Some (0, Some (response_of SINGLELINE ?p [] f), ch2, fs)"
      "after_wait ch2 fs S = Some (S\<lparr>v_chan := ch2, v_waits := fs, v_seen := k\<rparr>)" by auto
  have "need_intermediate (Some (0, Some (response_of SINGLELINE ?p [] f), ch2, fs)) = Some (AT_ERROR_INVALID_RESPONSE, None, ch2, fs)"
    using assms(4) by (simp add: need_intermediate_def response_of_def collected_def)
  with 1 show ?thesis
    by (intro exI [of _ ch2] exI [of _ k]) (simp add: send_singleline_def with_channel_def at_send_command_singleline_def)
qed

text \<open>The answer is an error.\<close>

lemma error_answered:
  assumes "at_idle S" "writeline cmd (v_chan S) = Some (0, ch')" "v_waits S = [GotLine f, WakeUp] @ fs"
    and "isFinalResponse f" "\<not> isFinalResponseSuccess f"
  shows "\<exists>ch2 k r. send_singleline cmd prefix True S = Some (0, Some r, S\<lparr>v_chan := ch2, v_waits := fs, v_seen := k\<rparr>) \<and>
    success r = 0 \<and> first_answer (Some r) = None"
proof -
  let ?p = "Some (lit prefix)"
  have c: "collected SINGLELINE ?p [] = []" by (simp add: collected_def)
  have "answered_by [] SINGLELINE ?p [] f" using assms(4) by (simp add: answered_by_def prefix_given_def)
  with singleline_answered [OF assms(1,2), of "[]" prefix "[]" f fs] assms(3,5) obtain ch2 k where
    "send_singleline cmd prefix True S = Some (0, Some (response_of SINGLELINE ?p [] f),
      S\<lparr>v_chan := ch2, v_waits := fs, v_seen := k\<rparr>)" by auto
  then show ?thesis using assms(5) c
    by (intro exI [of _ ch2] exI [of _ k]) (auto simp: response_of_def first_answer_def)
qed

definition registration_request :: "nat \<Rightarrow> string \<Rightarrow> string \<Rightarrow> bool" where
  "registration_request n cmd name \<longleftrightarrow>
     n = 20 \<and> cmd = ''AT+CREG?'' \<and> name = ''+CREG'' \<or> n = 21 \<and> cmd = ''AT+CGREG?'' \<and> name = ''+CGREG''"

lemma registration_line:
  assumes "registration_request n cmd name"
  shows "strStartsWith (creg_line k (lit name) fs) (lit (name @ '':''))" "\<not> isFinalResponse (creg_line k (lit name) fs)"
    "0x3A \<notin> set (lit name)"
  using assms unfolding registration_request_def creg_line_def
  by (elim disjE conjE; simp add: isFinalResponse_def isFinalResponseSuccess_def isFinalResponseError_def
    s_finalResponsesSuccess_def s_finalResponsesError_def lit_def)+

lemma registration_sends:
  "registration_request n cmd name \<Longrightarrow> requestRegistrationState n t S = (do {
     (err, out, S) \<leftarrow> send_singleline (lit cmd) (name @ '':'') True S;
     if err \<noteq> 0 then Some (fail_void t S) else do { line \<leftarrow> first_answer out; answer_registration n t line S }
   })"
  unfolding registration_request_def by (elim disjE conjE; hypsubst; simp add: requestRegistrationState_def)

lemma registration_read:
  assumes "registration_request n cmd name" "at_idle S" "writeline (lit cmd) (v_chan S) = Some (0, ch')"
    and "v_waits S = [GotLine (creg_line k (lit name) fs), GotLine f, WakeUp] @ es" "isFinalResponse f"
  shows "\<exists>ch2 j. requestRegistrationState n t S =
    answer_registration n t (creg_line k (lit name) fs) (S\<lparr>v_chan := ch2, v_waits := es, v_seen := j\<rparr>)"
proof -
  from line_answered [OF assms(2,3,4) registration_line(1) [OF assms(1)] registration_line(2) [OF assms(1)] assms(5)]
  obtain ch2 j r where "send_singleline (lit cmd) (name @ '':'') True S =
      Some (0, Some r, S\<lparr>v_chan := ch2, v_waits := es, v_seen := j\<rparr>)" "first_answer (Some r) = Some (creg_line k (lit name) fs)"
    by blast
  then show ?thesis by (intro exI [of _ ch2] exI [of _ j]) (simp add: registration_sends [OF assms(1)])
qed

text \<open>What the client gets: on a modem of the 3GPP the values of the line, on one of the 3GPP2 constants behind the state.\<close>

lemma show_int_zero: "show_int 0 = lit ''0''"
  by (simp add: show_int_def show_digits_def digits.simps digit_char_def lit_def)

lemma registration_strings_eq:
  "n = 20 \<or> n = 21 \<Longrightarrow> registration_strings n type (length vs) vs =
    (if is3gpp2 type
     then [Some (show_int (vs ! 0)), None, None] @
       (if n = 20 then map (\<lambda>s. Some (lit s)) [''8'', ''1'', ''123'', ''222'', ''0'', ''4'', ''65535'', ''0'', ''1'', ''0'', ''0'', ''0'']
        else [Some (lit ''8''), None, None])
     else [Some (show_int (vs ! 0)), Some (show_hex (vs ! 1)), Some (show_hex (vs ! 2)),
       if length vs > 3 then Some (show_int (vs ! 3)) else None] @ replicate (if n = 20 then 11 else 2) None)"
  by (elim disjE) (simp_all add: registration_strings_def Let_def numeral_eq_Suc)

lemma registration_registered:
  assumes "registration_request n cmd name" "at_idle S" "writeline (lit cmd) (v_chan S) = Some (0, ch')"
    and "v_waits S = [GotLine (creg_line k (lit name) fs), GotLine f, WakeUp] @ es" "isFinalResponse f"
    and "registration_values (creg_line k (lit name) fs) = Some (Some vs)" "techFromModemType (currentTech (sMdmInfo S)) = Some type"
  shows "\<exists>ch2 j. requestRegistrationState n t S = Some (complete t RIL_E_SUCCESS
    (RStrings (registration_strings n type (length vs) vs)) (8 * length (registration_strings n type (length vs) vs))
    (S\<lparr>v_chan := ch2, v_waits := es, v_seen := j, s_lac := vs ! 1, s_cid := vs ! 2\<rparr>))"
proof -
  from registration_read [OF assms(1-5), of t] obtain ch2 j where
    eq: "requestRegistrationState n t S = answer_registration n t (creg_line k (lit name) fs) (S\<lparr>v_chan := ch2, v_waits := es, v_seen := j\<rparr>)"
    by blast
  show ?thesis
    by (intro exI [of _ ch2] exI [of _ j])
      (simp add: eq answer_registration_def parseRegistrationState_def assms(6,7) Let_def)
qed

lemma registration_other:
  assumes "registration_request n cmd name" "at_idle S" "writeline (lit cmd) (v_chan S) = Some (0, ch')"
  shows "v_waits S = [GotLine (creg_line k (lit name) fs), GotLine f, WakeUp] @ es \<Longrightarrow> isFinalResponse f \<Longrightarrow>
      fs \<in> {[AtInt stat], [AtInt m, AtInt stat]} \<Longrightarrow> requestRegistrationState n t S = None"
    and "v_waits S = [GotLine (creg_line k (lit name) fs), GotLine f, WakeUp] @ es \<Longrightarrow> isFinalResponse f \<Longrightarrow>
      list_all (\<lambda>f. \<exists>w. f = AtInt w \<or> f = AtHex w) fs \<Longrightarrow> 6 \<le> length fs \<Longrightarrow>
      \<exists>ch2 j. requestRegistrationState n t S = Some (fail_void t (S\<lparr>v_chan := ch2, v_waits := es, v_seen := j\<rparr>))"
    and "v_waits S = [GotLine f, WakeUp] @ es \<Longrightarrow> isFinalResponseSuccess f \<Longrightarrow>
      \<exists>ch2 j. requestRegistrationState n t S = Some (fail_void t (S\<lparr>v_chan := ch2, v_waits := es, v_seen := j\<rparr>))"
    and "v_waits S = [GotLine f, WakeUp] @ es \<Longrightarrow> isFinalResponse f \<Longrightarrow> \<not> isFinalResponseSuccess f \<Longrightarrow>
      requestRegistrationState n t S = None"
proof -
  note name = registration_line(3) [OF assms(1)]
  show "requestRegistrationState n t S = None"
    if "v_waits S = [GotLine (creg_line k (lit name) fs), GotLine f, WakeUp] @ es" "isFinalResponse f"
      "fs \<in> {[AtInt stat], [AtInt m, AtInt stat]}"
    using registration_read [OF assms that(1,2), of t] that(3)
    by (auto simp: answer_registration_def parseRegistrationState_def unregistered_line [OF name])
  show "\<exists>ch2 j. requestRegistrationState n t S = Some (fail_void t (S\<lparr>v_chan := ch2, v_waits := es, v_seen := j\<rparr>))"
    if "v_waits S = [GotLine (creg_line k (lit name) fs), GotLine f, WakeUp] @ es" "isFinalResponse f"
      "list_all (\<lambda>f. \<exists>w. f = AtInt w \<or> f = AtHex w) fs" "6 \<le> length fs"
    using registration_read [OF assms that(1,2), of t]
    by (auto simp: answer_registration_def parseRegistrationState_def long_line [OF name that(3,4)])
  show "\<exists>ch2 j. requestRegistrationState n t S = Some (fail_void t (S\<lparr>v_chan := ch2, v_waits := es, v_seen := j\<rparr>))"
    if "v_waits S = [GotLine f, WakeUp] @ es" "isFinalResponseSuccess f"
  proof -
    from no_line_answered [OF assms(2,3) that] obtain ch2 j where "send_singleline (lit cmd) (name @ '':'') True S =
      Some (AT_ERROR_INVALID_RESPONSE, None, S\<lparr>v_chan := ch2, v_waits := es, v_seen := j\<rparr>)" by blast
    then show ?thesis by (intro exI [of _ ch2] exI [of _ j]) (simp add: registration_sends [OF assms(1)])
  qed
  show "requestRegistrationState n t S = None"
    if "v_waits S = [GotLine f, WakeUp] @ es" "isFinalResponse f" "\<not> isFinalResponseSuccess f"
    using error_answered [OF assms(2,3) that, of "name @ '':''"] by (auto simp: registration_sends [OF assms(1)])
qed

section \<open>The list of calls\<close>

lemma clcc_kind: "strStartsWith (clcc_line n q c) (lit ''+CLCC:'')" "\<not> isFinalResponse (clcc_line n q c)"
  by (simp_all add: clcc_line_def isFinalResponse_def isFinalResponseSuccess_def isFinalResponseError_def
    s_finalResponsesSuccess_def s_finalResponsesError_def lit_def)

lemma clcc_answer:
  "answered_by (map GotLine (map (clcc_line n q) cs)) MULTILINE (Some (lit ''+CLCC:'')) (map (clcc_line n q) cs) f \<longleftrightarrow>
     isFinalResponse f"
  "collected MULTILINE (Some (lit ''+CLCC:'')) (map (clcc_line n q) cs) = map (clcc_line n q) cs"
proof -
  have "waited_lines (map GotLine ls) = Some ls" for ls by (induction ls) simp_all
  moreover have "others MULTILINE (Some (lit ''+CLCC:'')) (map (clcc_line n q) cs) = []"
    by (induction cs) (simp_all add: belongs_def clcc_kind)
  ultimately show "answered_by (map GotLine (map (clcc_line n q) cs)) MULTILINE (Some (lit ''+CLCC:'')) (map (clcc_line n q) cs) f \<longleftrightarrow>
     isFinalResponse f"
    by (auto simp: answered_by_def prefix_given_def list_all_iff clcc_kind simp del: list.map_comp map_map)
  show "collected MULTILINE (Some (lit ''+CLCC:'')) (map (clcc_line n q) cs) = map (clcc_line n q) cs"
    by (simp add: collected_def belongs_def filter_id_conv clcc_kind)
qed

lemma calls_reported:
  assumes "at_idle S" "writeline (lit ''AT+CLCC'') (v_chan S) = Some (0, ch')" "list_all (clcc_ok q) cs"
    and "v_waits S = map GotLine (map (clcc_line n q) cs) @ GotLine f # WakeUp # fs" "isFinalResponseSuccess f"
  shows "\<exists>ch2 k. requestGetCurrentCalls t S =
    (let S' = complete t RIL_E_SUCCESS (RCalls (map clcc_call cs)) (length cs * 8) (S\<lparr>v_chan := ch2, v_waits := fs, v_seen := k\<rparr>) in
     Some (if list_ex (\<lambda>c. clcc_state c \<noteq> 0 \<and> clcc_state c \<noteq> 1) cs then vlog (VTimed SendCallStateChanged) S' else S'))"
proof -
  have "isFinalResponse f" using assms(5) by (simp add: isFinalResponse_def)
  with multiline_answered [OF assms(1,2) _ assms(4)] clcc_answer(1) [of n q cs f] obtain ch2 k where
    m: "send_multiline (lit ''AT+CLCC'') ''+CLCC:'' S =
      Some (0, Some (response_of MULTILINE (Some (lit ''+CLCC:'')) (map (clcc_line n q) cs) f),
        S\<lparr>v_chan := ch2, v_waits := fs, v_seen := k\<rparr>)" by blast
  have "list_ex (\<lambda>c. call_state c \<noteq> 0 \<and> call_state c \<noteq> 1) (map clcc_call cs) = list_ex (\<lambda>c. clcc_state c \<noteq> 0 \<and> clcc_state c \<noteq> 1) cs"
    by (simp add: list_ex_iff clcc_call_def zero_call_def)
  then show ?thesis
    using assms(5) by (intro exI [of _ ch2] exI [of _ k])
      (simp add: requestGetCurrentCalls_def m failed_def response_of_def clcc_answer(2) clcc_lines_parsed [OF assms(3)] Let_def)
qed

section \<open>What the daemon makes of the answers\<close>

text \<open>The library fills structures of other versions than the daemon, which takes the size for the version.\<close>

lemma signal_strength_refused: "response_items F_responseRilSignalStrength E (RInts xs) 48 \<in> {invalid_response, None}"
  by (simp add: responseRilSignalStrength_def expect_size_def)

definition data_call_items :: "RIL_Data_Call_Response_v11 \<Rightarrow> witem list" where
  "data_call_items c = v6_items c @ [WStr (pcscf c), WInt32 (mtu c)]"

lemma data_call_sizes:
  assumes "5 \<le> callbacks_version E" "callbacks_version E \<le> 12"
  shows "response_items F_responseDataCallList E (RDataCallV11 calls) (length calls * 72) =
    (if calls = [] then Some (0, [WInt32 6, WInt32 0])
     else if 7 dvd length calls \<or> 8 dvd length calls then None
     else Some (0, WInt32 11 # WInt32 (of_nat (length calls)) # concat (map data_call_items calls)))"
proof -
  have 7: "length calls * 72 mod 56 = 0 \<longleftrightarrow> 7 dvd length calls" by presburger
  have 8: "length calls * 72 mod 64 = 0 \<longleftrightarrow> 8 dvd length calls" by presburger
  show ?thesis
    using assms 7 8
    by (auto simp: responseDataCallList_def responseDataCallListV6_def responseDataCallListV9_def
        responseDataCallListV11_def response_array_def firstn_def data_call_items_def [abs_def])
qed

section \<open>Modems that are not multimode\<close>

lemma probe_single_mode:
  assumes "is_multimode_modem S = Some (False, S1)" "probeForModemMode S = Some S2"
  shows "(supportedTechs (sMdmInfo S2), currentTech (sMdmInfo S2)) \<in> {(12, 4), (19, 1)}"
  using assms
  by (auto simp: probeForModemMode_def set_modem_def bind_eq_Some_conv split: if_splits)

lemma single_mode_tech: "techFromModemType 4 = Some 14" "techFromModemType 1 = Some 11"
  by (simp_all add: techFromModemType_def tech_bit_def)

lemma cdma_switch:
  assumes "request \<in> set cdma_requests"
  shows "request_switch E request d len t S = (do {
    b \<leftarrow> tech_bit (currentTech (sMdmInfo S));
    if b = MDM_CDMA then requestCdma request d len t S else Some (complete t RIL_E_REQUEST_NOT_SUPPORTED RNull 0 S)
  })"
proof -
  have "request \<in> {51, 98, 95, 77, 104, 79, 78, 99}" using assms by (simp add: cdma_requests_def)
  then have "request = 51 \<or> request = 98 \<or> request = 95 \<or> request = 77 \<or> request = 104 \<or> request = 79 \<or> request = 78 \<or> request = 99"
    by simp
  then show ?thesis by (elim disjE; hypsubst; simp add: request_switch_def call_command_def cdma_requests_def)
qed

lemma cdma_refused:
  assumes "currentTech (sMdmInfo S) \<in> {1, 4}" "request \<in> set cdma_requests"
  shows "request_switch E request d len t S = Some (complete t RIL_E_REQUEST_NOT_SUPPORTED RNull 0 S)"
  using assms(1) by (auto simp: cdma_switch [OF assms(2)] tech_bit_def)

section \<open>A library to run the model on\<close>

definition demo_vendor :: vendor where
  "demo_vendor = \<lparr>sState = RADIO_STATE_ON, s_closed = 0,
     sMdmInfo = \<lparr>supportedTechs = 19, currentTech = 0, isMultimode = 0, preferredNetworkMode = 3, subscription_source = 0\<rparr>,
     s_ims_registered = 0, s_ims_format = 1, s_ims_cause_retry = 0, s_ims_cause_perm_failure = 0, s_ims_gsm_retry = 0,
     s_ims_gsm_fail = 0, s_cell_info_rate_ms = 0x7fffffff, s_mcc = 0, s_mnc = 0, s_lac = 0, s_cid = 0,
     v_chan = at_demo, v_waits = [], v_seen = 0, v_trace = []\<rparr>"

definition demo_env :: venv where
  "demo_env = \<lparr>property = (\<lambda>n. []), ril_nano_time = 0, dev_qmi = None\<rparr>"

lemma demo_ready: "at_idle (demo_vendor\<lparr>v_waits := es\<rparr>)" "at_idle demo_vendor" "sState demo_vendor = RADIO_STATE_ON"
  by (simp_all add: demo_vendor_def at_idle_def at_demo_def)

lemma demo_writes:
  assumes "0 < length cmd" "length cmd \<le> 100"
  shows "writeline cmd at_demo = Some (0, at_demo\<lparr>at_writes := [], at_trace := [AtSent cmd, AtSent [0x0D]]\<rparr>)"
  using assms by (cases cmd) (simp_all add: writeline_def write_with_def at_demo_def at_log_def)

lemma final_lines: "isFinalResponse (lit ''OK'')" "isFinalResponseSuccess (lit ''OK'')" "isFinalResponse (lit ''ERROR'')"
  "\<not> isFinalResponseSuccess (lit ''ERROR'')"
  by (simp_all add: isFinalResponse_def isFinalResponseSuccess_def isFinalResponseError_def
      s_finalResponsesSuccess_def s_finalResponsesError_def lit_def)

end
