(* ===== verification/GnTable.thy ===== *)
theory GnTable
  imports Prelude
begin

text \<open>
  \<open>rits/src/qMessenger/GeoNetRouter/LocationTable.cpp\<close> and the structures of \<open>gn_internal.h\<close>: the table of
  the stations a GeoNetworking router has heard of, with the sequence numbers it has seen of each. The
  table is a \<open>std::map\<close> whose keys are pointers into received packets, compared by the six bytes they point
  to; so memory is explicit, and looking up in a map whose keys are no longer in order is undefined.
  \<open>None\<close> is undefined behaviour. A pass over the table, under its mutex, is one step.
\<close>

section \<open>Memory\<close>

text \<open>A pointer is a block and an offset; a block that is not there has been freed.\<close>

type_synonym gptr = "nat \<times> nat"

type_synonym store = "nat \<rightharpoonup> u8 list"

definition load :: "store \<Rightarrow> gptr \<Rightarrow> nat \<Rightarrow> u8 list option" where
  "load m p n =
     (case m (fst p) of
        None \<Rightarrow> None
      | Some b \<Rightarrow> if snd p + n \<le> length b then Some (take n (drop (snd p) b)) else None)"

definition ptr_add :: "gptr \<Rightarrow> nat \<Rightarrow> gptr" where
  "ptr_add p n = (fst p, snd p + n)"

definition save :: "store \<Rightarrow> gptr \<Rightarrow> u8 list \<Rightarrow> store option" where
  "save m p xs =
     (case m (fst p) of
        None \<Rightarrow> None
      | Some b \<Rightarrow> if snd p + length xs \<le> length b then Some (m(fst p \<mapsto> overwrite b (snd p) xs)) else None)"

section \<open>Addresses and position vectors\<close>

abbreviation (input) GN_MID_LEN :: nat where "GN_MID_LEN \<equiv> 6"

text \<open>The first two bytes of an address hold the reserved bits, the station type and the flag \<open>m\<close>; those of
  speed and accuracy share two bytes as well. Integers are kept as they are loaded, in network order.\<close>

record gn_addr =
  ga_bits :: u16
  ga_mid :: "u8 list"

definition gn_st :: "gn_addr \<Rightarrow> u16" where
  "gn_st a = drop_bit 10 (ga_bits a) AND 0x1F"

record gn_lpv =
  lpv_addr :: gn_addr
  lpv_tst :: u32
  lpv_latitude :: u32
  lpv_longitude :: u32
  lpv_s_pai :: u16
  lpv_h :: u16

record gn_spv =
  spv_addr :: gn_addr
  spv_tst :: u32
  spv_latitude :: u32
  spv_longitude :: u32

definition lpv_pai :: "gn_lpv \<Rightarrow> bool" where
  "lpv_pai v = bit (lpv_s_pai v) 15"

definition addr_of :: "u8 list \<Rightarrow> gn_addr" where
  "addr_of bs = \<lparr>ga_bits = le_word (take 2 bs), ga_mid = take GN_MID_LEN (drop 2 bs)\<rparr>"

definition addr_bytes :: "gn_addr \<Rightarrow> u8 list" where
  "addr_bytes a = le16 (ga_bits a) @ ga_mid a"

definition lpv_of :: "u8 list \<Rightarrow> gn_lpv" where
  "lpv_of bs = \<lparr>lpv_addr = addr_of bs, lpv_tst = le_word (take 4 (drop 8 bs)), lpv_latitude = le_word (take 4 (drop 12 bs)),
     lpv_longitude = le_word (take 4 (drop 16 bs)), lpv_s_pai = le_word (take 2 (drop 20 bs)),
     lpv_h = le_word (take 2 (drop 22 bs))\<rparr>"

definition lpv_bytes :: "gn_lpv \<Rightarrow> u8 list" where
  "lpv_bytes v = addr_bytes (lpv_addr v) @ le32 (lpv_tst v) @ le32 (lpv_latitude v) @ le32 (lpv_longitude v) @
     le16 (lpv_s_pai v) @ le16 (lpv_h v)"

definition spv_of :: "u8 list \<Rightarrow> gn_spv" where
  "spv_of bs = \<lparr>spv_addr = addr_of bs, spv_tst = le_word (take 4 (drop 8 bs)), spv_latitude = le_word (take 4 (drop 12 bs)),
     spv_longitude = le_word (take 4 (drop 16 bs))\<rparr>"

text \<open>\<open>ntohl\<close> and \<open>ntohs\<close>, which are their own inverses.\<close>

definition ntohl :: "u32 \<Rightarrow> u32" where
  "ntohl w = le_word (rev (le32 w))"

definition ntohs :: "u16 \<Rightarrow> u16" where
  "ntohs w = le_word (rev (le16 w))"

definition GnAddrMatch :: "gn_addr \<Rightarrow> gn_addr \<Rightarrow> bool" where
  "GnAddrMatch a b \<longleftrightarrow> gn_st a = gn_st b \<and> ga_mid a = ga_mid b"

section \<open>Entries\<close>

abbreviation (input) MAX_DPL_LEN :: nat where "MAX_DPL_LEN \<equiv> 20"

text \<open>The members of the class; \<open>isNeighbor_\<close> is not set by the constructors, \<open>None\<close> until it is.\<close>

record LocTableEntry =
  le_addr :: gn_addr
  StationType :: int
  Version :: int
  LPV :: gn_lpv
  LocationServicePending :: bool
  isNeighbor :: "bool option"
  Updated :: bool
  DPL :: "(u16 \<times> u32) list"

definition entry_of_lpv :: "gn_lpv \<Rightarrow> LocTableEntry" where
  "entry_of_lpv v = \<lparr>le_addr = lpv_addr v, StationType = 0, Version = 1, LPV = v, LocationServicePending = False,
     isNeighbor = None, Updated = False, DPL = []\<rparr>"

text \<open>Only six of the eight bytes of the address are copied; \<open>junk\<close> is what the other two hold.\<close>

definition entry_of_spv :: "u8 list \<Rightarrow> gn_spv \<Rightarrow> LocTableEntry" where
  "entry_of_spv junk v = \<lparr>le_addr = spv_addr v, StationType = 0, Version = 1,
     LPV = \<lparr>lpv_addr = addr_of (take GN_MID_LEN (addr_bytes (spv_addr v)) @ junk), lpv_tst = spv_tst v,
       lpv_latitude = spv_latitude v, lpv_longitude = spv_longitude v, lpv_s_pai = 0, lpv_h = 0\<rparr>,
     LocationServicePending = False, isNeighbor = None, Updated = False, DPL = []\<rparr>"

fun dpl_count :: "u16 \<Rightarrow> (u16 \<times> u32) list \<Rightarrow> (u16 \<times> u32) list option" where
  "dpl_count sn [] = None"
| "dpl_count sn ((s, c) # dpl) =
     (if s = sn then Some ((s, c + 1) # dpl) else map_option ((#) (s, c)) (dpl_count sn dpl))"

definition entry_isDuplicated :: "u16 \<Rightarrow> LocTableEntry \<Rightarrow> bool \<times> LocTableEntry" where
  "entry_isDuplicated sn e =
     (case dpl_count sn (DPL e) of
        Some dpl \<Rightarrow> (True, e\<lparr>DPL := dpl\<rparr>)
      | None \<Rightarrow>
          let dpl = (if length (DPL e) \<ge> MAX_DPL_LEN then tl (DPL e) else DPL e) in
          (False, e\<lparr>DPL := dpl @ [(sn, 0)]\<rparr>))"

section \<open>Maps keyed by pointers\<close>

fun memcmp_less :: "u8 list \<Rightarrow> u8 list \<Rightarrow> bool" where
  "memcmp_less (x # xs) (y # ys) \<longleftrightarrow> x < y \<or> x = y \<and> memcmp_less xs ys"
| "memcmp_less xs ys \<longleftrightarrow> False"

fun load_keys :: "store \<Rightarrow> gptr list \<Rightarrow> u8 list list option" where
  "load_keys m [] = Some []"
| "load_keys m (p # ps) = do { k \<leftarrow> load m p GN_MID_LEN; ks \<leftarrow> load_keys m ps; Some (k # ks) }"

fun index_of :: "u8 list \<Rightarrow> u8 list list \<Rightarrow> nat option" where
  "index_of k [] = None"
| "index_of k (x # xs) = (if x = k then Some 0 else map_option Suc (index_of k xs))"

definition map_keys :: "store \<Rightarrow> (gptr \<times> 'v) list \<Rightarrow> u8 list list option" where
  "map_keys m t = do {
     ks \<leftarrow> load_keys m (map fst t);
     if sorted_wrt memcmp_less ks then Some ks else None
   }"

definition map_find :: "store \<Rightarrow> u8 list \<Rightarrow> (gptr \<times> 'v) list \<Rightarrow> nat option option" where
  "map_find m k t = map_option (index_of k) (map_keys m t)"

definition map_insert :: "store \<Rightarrow> gptr \<Rightarrow> 'v \<Rightarrow> (gptr \<times> 'v) list \<Rightarrow> (gptr \<times> 'v) list option" where
  "map_insert m p v t = do {
     ks \<leftarrow> map_keys m t;
     k \<leftarrow> load m p GN_MID_LEN;
     if index_of k ks \<noteq> None then Some t
     else let i = length (takeWhile (\<lambda>x. memcmp_less x k) ks) in Some (take i t @ (p, v) # drop i t)
   }"

definition erase_at :: "nat \<Rightarrow> 'a list \<Rightarrow> 'a list" where
  "erase_at i t = take i t @ drop (Suc i) t"

section \<open>The table\<close>

text \<open>The clock is read once in an operation; \<open>now\<close> is its value.\<close>

record LocationTable =
  TableEntries :: "(gptr \<times> LocTableEntry) list"
  LifeTime :: int

definition in_int32 :: "int \<Rightarrow> bool" where
  "in_int32 i \<longleftrightarrow> - (2 ^ 31) \<le> i \<and> i < 2 ^ 31"

definition find_mid :: "store \<Rightarrow> u32 \<Rightarrow> u8 list \<Rightarrow> LocationTable \<Rightarrow> (nat option \<times> LocationTable) option" where
  "find_mid m now k T = do {
     r \<leftarrow> map_find m k (TableEntries T);
     case r of
       None \<Rightarrow> Some (None, T)
     | Some i \<Rightarrow>
         if \<not> in_int32 (LifeTime T * 1000000) then None
         else if now - ntohl (lpv_tst (LPV (snd (TableEntries T ! i)))) > word_of_int (LifeTime T * 1000000)
         then Some (None, T\<lparr>TableEntries := erase_at i (TableEntries T)\<rparr>)
         else Some (Some i, T)
   }"

definition upd_entry :: "nat \<Rightarrow> (LocTableEntry \<Rightarrow> LocTableEntry) \<Rightarrow> LocationTable \<Rightarrow> LocationTable" where
  "upd_entry i f T = T\<lparr>TableEntries := (TableEntries T)[i := map_prod id f (TableEntries T ! i)]\<rparr>"

definition dup_at :: "nat \<Rightarrow> u16 \<Rightarrow> LocationTable \<Rightarrow> bool \<times> LocationTable" where
  "dup_at i sn T =
     (case entry_isDuplicated sn (snd (TableEntries T ! i)) of (d, e) \<Rightarrow> (d, upd_entry i (\<lambda>_. e) T))"

definition table_isDuplicated :: "store \<Rightarrow> u32 \<Rightarrow> u8 list \<Rightarrow> u16 \<Rightarrow> LocationTable \<Rightarrow> (bool \<times> LocationTable) option" where
  "table_isDuplicated m now k sn T = do {
     (r, T) \<leftarrow> find_mid m now k T;
     Some (case r of None \<Rightarrow> (False, T) | Some i \<Rightarrow> dup_at i sn T)
   }"

text \<open>The comparison of time stamps of \<open>Update\<close>, in which either order counts as newer.\<close>

definition newer_either :: "u32 \<Rightarrow> u32 \<Rightarrow> bool" where
  "newer_either a b \<longleftrightarrow> a > b \<and> a - b \<le> 0x7FFFFFFF \<or> b > a \<and> b - a \<le> 0x7FFFFFFF"

text \<open>\<open>Update\<close> with the position vector of a source at \<open>p\<close>; it returns the place of the entry.\<close>

definition update_lpv :: "store \<Rightarrow> u32 \<Rightarrow> gptr \<Rightarrow> LocationTable \<Rightarrow> (nat \<times> LocationTable) option" where
  "update_lpv m now p T = do {
     bs \<leftarrow> load m p 24;
     let v = lpv_of bs;
     (r, T) \<leftarrow> find_mid m now (ga_mid (lpv_addr v)) T;
     case r of
       Some i \<Rightarrow>
         Some (i, upd_entry i (\<lambda>e.
           (if newer_either (ntohl (lpv_tst v)) (ntohl (lpv_tst (LPV e))) then e\<lparr>LPV := v\<rparr> else e)\<lparr>Updated := True\<rparr>) T)
     | None \<Rightarrow> do {
         es \<leftarrow> map_insert m (ptr_add p 2) (entry_of_lpv v) (TableEntries T);
         ks \<leftarrow> map_keys m es;
         i \<leftarrow> index_of (ga_mid (lpv_addr v)) ks;
         Some (i, T\<lparr>TableEntries := es\<rparr>)
       }
   }"

text \<open>\<open>Update\<close> with the short position vector of a destination at \<open>p\<close>, which it may correct in the packet.\<close>

definition update_spv :: "u8 list \<Rightarrow> store \<Rightarrow> u32 \<Rightarrow> gptr \<Rightarrow> LocationTable \<Rightarrow> (store \<times> LocationTable) option" where
  "update_spv junk m now p T = do {
     bs \<leftarrow> load m p 20;
     let v = spv_of bs;
     (r, T) \<leftarrow> find_mid m now (ga_mid (spv_addr v)) T;
     case r of
       None \<Rightarrow> do {
         es \<leftarrow> map_insert m (ptr_add p 2) (entry_of_spv junk v) (TableEntries T);
         Some (m, T\<lparr>TableEntries := es\<rparr>)
       }
     | Some i \<Rightarrow> do {
         let e = snd (TableEntries T ! i);
         let T = upd_entry i (\<lambda>e. e\<lparr>Updated := True\<rparr>) T;
         neighbor \<leftarrow> isNeighbor e;
         if \<not> neighbor then
           Some (m, upd_entry i (\<lambda>e. e\<lparr>LPV := (LPV e)\<lparr>lpv_latitude := spv_latitude v, lpv_longitude := spv_longitude v,
             lpv_tst := spv_tst v\<rparr>\<rparr>) T)
         else if newer_either (ntohl (lpv_tst (LPV e))) (ntohl (spv_tst v)) then do {
           m \<leftarrow> save m (ptr_add p 8) (le32 (lpv_tst (LPV e)) @ le32 (lpv_latitude (LPV e)) @ le32 (lpv_longitude (LPV e)));
           Some (m, T)
         }
         else Some (m, T)
       }
   }"

text \<open>\<open>GeoDistance\<close> on degrees and the like are parameters of the router, computed in floating point.\<close>

fun shortest :: "(int \<Rightarrow> int \<Rightarrow> int) \<Rightarrow> LocTableEntry list \<Rightarrow> LocTableEntry option \<times> int \<Rightarrow> (LocTableEntry option \<times> int) option" where
  "shortest dist [] best = Some best"
| "shortest dist (e # es) (b, d) = do {
     neighbor \<leftarrow> isNeighbor e;
     let d' = dist (sint (ntohl (lpv_latitude (LPV e)))) (sint (ntohl (lpv_longitude (LPV e))));
     shortest dist es (if neighbor \<and> d' < d then (Some e, d') else (b, d))
   }"

definition FindShortestLocTe :: "(int \<Rightarrow> int \<Rightarrow> int) \<Rightarrow> LocationTable \<Rightarrow> (LocTableEntry option \<times> int) option" where
  "FindShortestLocTe dist T = shortest dist (map snd (TableEntries T)) (None, 2147483647)"

definition table_Remove :: "store \<Rightarrow> u8 list \<Rightarrow> LocationTable \<Rightarrow> LocationTable option" where
  "table_Remove m k T = do {
     r \<leftarrow> map_find m k (TableEntries T);
     Some (case r of None \<Rightarrow> T | Some i \<Rightarrow> T\<lparr>TableEntries := erase_at i (TableEntries T)\<rparr>)
   }"

text \<open>One pass of \<open>RefreshTask\<close>: it erases the element that the loop stands on, whose successor it then asks.\<close>

definition refresh_pass :: "u32 \<Rightarrow> LocationTable \<Rightarrow> LocationTable option" where
  "refresh_pass now T =
     (if TableEntries T = [] then Some T
      else if \<not> in_int32 (LifeTime T * 1000) then None
      else if list_ex (\<lambda>(p, e). now - ntohl (lpv_tst (LPV e)) > word_of_int (LifeTime T * 1000)) (TableEntries T) then None
      else Some T)"

definition RefreshTaskStop :: "LocationTable \<Rightarrow> LocationTable" where
  "RefreshTaskStop T = T\<lparr>TableEntries := []\<rparr>"

end
