(* ===== verification/GnRouter.thy ===== *)
theory GnRouter
  imports GnTable V2xBuf
begin

text \<open>
  \<open>rits/src/qMessenger/GeoNetRouter/GeoNetRouterImpl.cpp\<close>: the GeoNetworking router, which puts its headers in
  front of outgoing packets, takes those of received ones apart and decides whether to deliver, forward,
  queue or drop. Tasks given to other threads are events. The clock, the position and the geometry are
  parameters, computed in floating point outside; they are read once in an operation. \<open>None\<close> is undefined
  behaviour or a loop that never ends; a function that reaches its end without \<open>return\<close> gives no value.
  Logging is left out.
\<close>

section \<open>Configuration and data\<close>

datatype UpperProtocol = GN_UPPER_PROTO_ANY | GN_UPPER_PROTO_BTP_A | GN_UPPER_PROTO_BTP_B | GN_UPPER_PROTO_GN6

text \<open>\<open>GN_PACKET_TYPE_SHB\<close> is another name of \<open>GN_PCCKET_TYPE_TSB\<close>.\<close>

datatype PacketType = GN_PACKET_TYPE_ANY | GN_PACKET_TYPE_BEACON | GN_PACKET_TYPE_GEOUNICAST
  | GN_PACKET_TYPE_GEOANYCAST | GN_PACKET_TYPE_GEOBROADCAST | GN_PCCKET_TYPE_TSB | GN_PACKET_TYPE_LS

datatype GeoAreaType = GEO_AREA_TYPE_CIRCLE | GEO_AREA_TYPE_RECT | GEO_AREA_TYPE_ELIP

datatype DestinationType = DE_TYPE_GEO_AREA | DE_TYPE_GN_ADDR

datatype LocalAddrConfigMethod = GN_LOCAL_ADDR_CONF_AUTO | GN_LOCAL_ADDR_CONF_MANAGED | GN_LOCAL_ADDR_CONF_ANONYMOUS

datatype AF_Algorithm = GN_AF_UNSPECIFIED | GN_AF_SIMPLE | GN_AF_CBF | GN_AF_AF

datatype NAF_Algorithm = GN_NAF_UNSPECIFIED | GN_NAF_GREEDY | GN_NAF_CBF

fun upper_code :: "UpperProtocol \<Rightarrow> u8" where
  "upper_code GN_UPPER_PROTO_ANY = 0" | "upper_code GN_UPPER_PROTO_BTP_A = 1"
| "upper_code GN_UPPER_PROTO_BTP_B = 2" | "upper_code GN_UPPER_PROTO_GN6 = 3"

fun packet_code :: "PacketType \<Rightarrow> u8" where
  "packet_code GN_PACKET_TYPE_ANY = 0" | "packet_code GN_PACKET_TYPE_BEACON = 1"
| "packet_code GN_PACKET_TYPE_GEOUNICAST = 2" | "packet_code GN_PACKET_TYPE_GEOANYCAST = 3"
| "packet_code GN_PACKET_TYPE_GEOBROADCAST = 4" | "packet_code GN_PCCKET_TYPE_TSB = 5"
| "packet_code GN_PACKET_TYPE_LS = 6"

fun area_code :: "GeoAreaType \<Rightarrow> u8" where
  "area_code GEO_AREA_TYPE_CIRCLE = 0" | "area_code GEO_AREA_TYPE_RECT = 1" | "area_code GEO_AREA_TYPE_ELIP = 2"

definition upper_of :: "u8 \<Rightarrow> UpperProtocol" where
  "upper_of c = (if c = 1 then GN_UPPER_PROTO_BTP_A else if c = 2 then GN_UPPER_PROTO_BTP_B
     else if c = 3 then GN_UPPER_PROTO_GN6 else GN_UPPER_PROTO_ANY)"

definition packet_of :: "u8 \<Rightarrow> PacketType" where
  "packet_of c = (if c = 1 then GN_PACKET_TYPE_BEACON else if c = 2 then GN_PACKET_TYPE_GEOUNICAST
     else if c = 3 then GN_PACKET_TYPE_GEOANYCAST else if c = 4 then GN_PACKET_TYPE_GEOBROADCAST
     else if c = 5 then GN_PCCKET_TYPE_TSB else if c = 6 then GN_PACKET_TYPE_LS else GN_PACKET_TYPE_ANY)"

record GeoArea =
  gp_latitude :: u32
  gp_longitude :: u32
  dist_a :: u16
  dist_b :: u16
  area_angle :: u16
  area_type :: GeoAreaType

record gn_epv =
  latitude_epv :: u32
  longitude_epv :: u32
  s_epv :: u16
  h_epv :: u16

text \<open>Of the configuration the members that the router reads.\<close>

record GnConfig =
  cfg_mid :: "u8 list"
  itsGnLocalAddrConfMethod :: LocalAddrConfigMethod
  itsGnProtocolVersion :: int
  cfg_StationType :: int
  itsGnIsMobile :: bool
  itsGnPaiInterval :: int
  itsGnLifetimeLocTE :: int
  itsGnLocationServiceMaxRetrans :: int
  itsGnMaxPacketLifetime :: int
  itsGnDefaultPacketLifetime :: int
  itsGnMinPacketRepetitionInterval :: int
  itsGnNonAreaForwardingAlgorithm :: NAF_Algorithm
  itsGnAreaForwardingAlgorithm :: AF_Algorithm
  itsGnCbfMinTime :: int
  itsGnCbfMaxTime :: int
  itsGnDefaultMaxCommunicationRange :: int
  itsGnUcForwardingPacketBufferSize :: int
  itsGnBcForwardingPacketBufferSize :: int

definition InitDefaultConfig :: "GnConfig \<Rightarrow> GnConfig" where
  "InitDefaultConfig cfg = cfg\<lparr>itsGnLocalAddrConfMethod := GN_LOCAL_ADDR_CONF_ANONYMOUS, itsGnProtocolVersion := 0,
     cfg_StationType := 5, itsGnIsMobile := True, itsGnPaiInterval := 80, itsGnLifetimeLocTE := 20,
     itsGnLocationServiceMaxRetrans := 10, itsGnMaxPacketLifetime := 600, itsGnDefaultPacketLifetime := 60,
     itsGnMinPacketRepetitionInterval := 100, itsGnNonAreaForwardingAlgorithm := GN_NAF_GREEDY,
     itsGnAreaForwardingAlgorithm := GN_AF_CBF, itsGnCbfMinTime := 1, itsGnCbfMaxTime := 100,
     itsGnDefaultMaxCommunicationRange := 1000, itsGnUcForwardingPacketBufferSize := 256,
     itsGnBcForwardingPacketBufferSize := 1024\<rparr>"

record GnData =
  upper_prot :: UpperProtocol
  pkt_type :: PacketType
  is_shb :: bool
  gd_payload_len :: int
  d_type :: DestinationType
  d_addr :: "u8 list"
  d_area :: GeoArea
  max_lt :: int
  repetition_interval :: int
  max_hl :: int
  gd_tc :: int

text \<open>A queued packet: when it was queued, its own block, its length and whether it has a callback.\<close>

record Qelement =
  qe_Ts :: u32
  qe_Buffer :: "u8 list"
  qe_BufLen :: nat
  qe_txcb :: bool

text \<open>What the router does that others see: bytes given to the transmit callback, a task that flushes
  queues, one that asks for the position of a station, a waiting task woken up.\<close>

datatype gn_event = Transmitted "u8 list" | FlushTask nat "gptr option" bool | LocationRequest gptr | Notified gptr

record router =
  SequenceNumber :: u16
  NeighborCount :: int
  Config :: GnConfig
  LocTable :: LocationTable
  itsGnLocalGnAddr :: gn_addr
  df_txcb :: bool
  LsMapQueue :: "(gptr \<times> Qelement list) list"
  UcMapQueue :: "(gptr \<times> Qelement list) list"
  BcQueue :: "Qelement list"
  LsMap :: "(gptr \<times> unit) list"
  gn_trace :: "gn_event list"

text \<open>The clock, the position, \<open>GeoDistance\<close> and \<open>CartesianTransform\<close> in tenths of microdegrees.\<close>

record gn_env =
  gn_now :: u32
  position :: gn_epv
  GeoDistance :: "int \<Rightarrow> int \<Rightarrow> int \<Rightarrow> int \<Rightarrow> int"
  CartesianTransform :: "int \<Rightarrow> int \<Rightarrow> int \<Rightarrow> int \<Rightarrow> int \<Rightarrow> int \<times> int"

definition gn_log :: "gn_event \<Rightarrow> router \<Rightarrow> router" where
  "gn_log e R = R\<lparr>gn_trace := gn_trace R @ [e]\<rparr>"

text \<open>The local address; the ten reserved bits stay what they were.\<close>

definition set_local_addr :: "GnConfig \<Rightarrow> gn_addr \<Rightarrow> gn_addr" where
  "set_local_addr cfg a = \<lparr>ga_bits = (ga_bits a AND 0x3FF) OR push_bit 10 (word_of_int (cfg_StationType cfg) AND 0x1F) OR
       (if itsGnLocalAddrConfMethod cfg = GN_LOCAL_ADDR_CONF_AUTO then 0x8000 else 0),
     ga_mid = cfg_mid cfg\<rparr>"

definition new_router :: "u16 \<Rightarrow> GnConfig \<Rightarrow> router" where
  "new_router junk cfg = \<lparr>SequenceNumber = 0, NeighborCount = 0, Config = cfg,
     LocTable = \<lparr>TableEntries = [], LifeTime = itsGnLifetimeLocTE cfg\<rparr>,
     itsGnLocalGnAddr = set_local_addr cfg \<lparr>ga_bits = junk, ga_mid = []\<rparr>, df_txcb = False,
     LsMapQueue = [], UcMapQueue = [], BcQueue = [], LsMap = [], gn_trace = []\<rparr>"

definition SetConfig :: "GnConfig \<Rightarrow> router \<Rightarrow> router" where
  "SetConfig cfg R = R\<lparr>Config := cfg, itsGnLocalGnAddr := set_local_addr cfg (itsGnLocalGnAddr R),
     LocTable := (LocTable R)\<lparr>LifeTime := itsGnLifetimeLocTE cfg\<rparr>\<rparr>"

definition SetDefaultTransmitCb :: "bool \<Rightarrow> router \<Rightarrow> router" where
  "SetDefaultTransmitCb cb R = R\<lparr>df_txcb := cb\<rparr>"

definition GetNextSN :: "router \<Rightarrow> u16 \<times> router" where
  "GetNextSN R = (SequenceNumber R, R\<lparr>SequenceNumber := SequenceNumber R + 1\<rparr>)"

abbreviation ll_bc :: "u8 list" where "ll_bc \<equiv> replicate 6 0xFF"

definition InitDefaultGnData :: "GnConfig \<Rightarrow> GnData \<Rightarrow> GnData" where
  "InitDefaultGnData cfg data = data\<lparr>upper_prot := GN_UPPER_PROTO_ANY, pkt_type := GN_PACKET_TYPE_ANY, gd_payload_len := 0,
     d_type := DE_TYPE_GN_ADDR, d_addr := ll_bc, max_lt := itsGnMaxPacketLifetime cfg,
     repetition_interval := itsGnMinPacketRepetitionInterval cfg, max_hl := - 1, gd_tc := - 1\<rparr>"

section \<open>Life times\<close>

definition base2ms :: "u32 list" where
  "base2ms = [50, 1000, 10000, 100000]"

definition DecodeLifeTime :: "u8 \<Rightarrow> u32" where
  "DecodeLifeTime lt = ucast (drop_bit 2 lt) * base2ms ! unat (lt AND 3)"

text \<open>The last two branches assign to the argument, so the result is not set.\<close>

definition EncodeLifeTime :: "u32 \<Rightarrow> u8 option" where
  "EncodeLifeTime lt_in_ms =
     (if lt_in_ms < 1000 then Some (ucast (push_bit 2 ((lt_in_ms div 50) AND 0xFF)))
      else if lt_in_ms > 1000 \<and> lt_in_ms < 10000 then Some (ucast (push_bit 2 ((lt_in_ms div 1000) AND 0xFF) OR 1))
      else None)"

section \<open>Queues\<close>

abbreviation (input) LS_Q :: nat where "LS_Q \<equiv> 1"
abbreviation (input) UC_Q :: nat where "UC_Q \<equiv> 4"
abbreviation (input) BC_Q :: nat where "BC_Q \<equiv> 8"

text \<open>Whether a queued packet is older than the life time in what is taken for its header.\<close>

definition too_old :: "u32 \<Rightarrow> Qelement \<Rightarrow> bool option" where
  "too_old now e =
     (let d = sint now - sint (qe_Ts e) in
      if length (qe_Buffer e) < 3 \<or> \<not> in_int32 d then None
      else Some ((word_of_int d :: u32) > DecodeLifeTime (qe_Buffer e ! 2)))"

text \<open>A call of the callback of an element; its length goes through \<open>int16_t\<close> and \<open>uint16_t\<close>.\<close>

definition send_element :: "Qelement \<Rightarrow> router \<Rightarrow> router option" where
  "send_element e R =
     (if \<not> qe_txcb e then Some R
      else let n = qe_BufLen e mod 2 ^ 16 in
        if length (qe_Buffer e) < n then None else Some (gn_log (Transmitted (take n (qe_Buffer e))) R))"

text \<open>The loop over the queue of one station: a packet that is not thrown away stays at the front.\<close>

partial_function (option) flush_queue :: "bool \<Rightarrow> u32 \<Rightarrow> Qelement list \<Rightarrow> router \<Rightarrow> (Qelement list \<times> router) option" where
  "flush_queue purge now q R =
     (case q of
        [] \<Rightarrow> Some ([], R)
      | e # q' \<Rightarrow>
          Option.bind (if purge then Some True else too_old now e) (\<lambda>old.
            if old then flush_queue purge now q' R
            else Option.bind (send_element e R) (\<lambda>R. flush_queue purge now q R)))"

fun flush_broadcast :: "u32 \<Rightarrow> Qelement list \<Rightarrow> router \<Rightarrow> router option" where
  "flush_broadcast now [] R = Some R"
| "flush_broadcast now (e # q) R = do {
     old \<leftarrow> too_old now e;
     R \<leftarrow> (if old then Some R else send_element e R);
     flush_broadcast now q R
   }"

definition flush_map ::
  "store \<Rightarrow> bool \<Rightarrow> u32 \<Rightarrow> gptr \<Rightarrow> (gptr \<times> Qelement list) list \<Rightarrow> router \<Rightarrow> ((gptr \<times> Qelement list) list \<times> router) option" where
  "flush_map m purge now addr t R = do {
     k \<leftarrow> load m addr GN_MID_LEN;
     r \<leftarrow> map_find m k t;
     case r of
       None \<Rightarrow> Some (t, R)
     | Some i \<Rightarrow> do { (q, R) \<leftarrow> flush_queue purge now (snd (t ! i)) R; Some (t[i := (fst (t ! i), q)], R) }
   }"

definition has_queue :: "nat \<Rightarrow> nat \<Rightarrow> bool" where
  "has_queue Qid q \<longleftrightarrow> (of_nat Qid :: u32) AND of_nat q \<noteq> 0"

definition FlushQueueSync :: "store \<Rightarrow> u32 \<Rightarrow> nat \<Rightarrow> gptr option \<Rightarrow> bool \<Rightarrow> router \<Rightarrow> router option" where
  "FlushQueueSync m now Qid addr purge R =
     (if (has_queue Qid UC_Q \<or> has_queue Qid LS_Q) \<and> addr = None then Some R
      else do {
        R \<leftarrow> (if has_queue Qid UC_Q then do {
               (t, R) \<leftarrow> flush_map m False now (the addr) (UcMapQueue R) R; Some (R\<lparr>UcMapQueue := t\<rparr>) } else Some R);
        R \<leftarrow> (if has_queue Qid LS_Q then do {
               (t, R) \<leftarrow> flush_map m purge now (the addr) (LsMapQueue R) R; Some (R\<lparr>LsMapQueue := t\<rparr>) } else Some R);
        if has_queue Qid BC_Q then flush_broadcast now (BcQueue R) (R\<lparr>BcQueue := []\<rparr>) else Some R
      })"

definition FlushQueue :: "nat \<Rightarrow> gptr option \<Rightarrow> bool \<Rightarrow> router \<Rightarrow> router" where
  "FlushQueue Qid addr purge R =
     (if has_queue Qid UC_Q \<and> UcMapQueue R \<noteq> [] \<or> has_queue Qid BC_Q \<and> BcQueue R \<noteq> [] \<or>
         has_queue Qid LS_Q \<and> LsMapQueue R \<noteq> []
      then gn_log (FlushTask Qid addr purge) R else R)"

text \<open>The copy of the packet is made in a block of one byte, \<open>new uint8_t(BufLen)\<close>.\<close>

definition copy_packet :: "store \<Rightarrow> gptr \<Rightarrow> nat \<Rightarrow> u8 list option" where
  "copy_packet m p BufLen =
     (if BufLen > 1 then None
      else do { bs \<leftarrow> load m p BufLen; Some (if BufLen = 1 then bs else [0]) })"

text \<open>A new queue goes into the map \<open>into\<close>, on the left; a longer one stays in \<open>t\<close>, on the right.\<close>

definition enqueue_map ::
  "store \<Rightarrow> GnConfig \<Rightarrow> Qelement \<Rightarrow> gptr \<Rightarrow> (gptr \<times> Qelement list) list \<Rightarrow> (gptr \<times> Qelement list) list \<Rightarrow>
     ((gptr \<times> Qelement list) list + (gptr \<times> Qelement list) list) option" where
  "enqueue_map m cfg e addr t into = do {
     k \<leftarrow> load m addr GN_MID_LEN;
     r \<leftarrow> map_find m k t;
     case r of
       None \<Rightarrow> map_option Inl (map_insert m addr [e] into)
     | Some i \<Rightarrow>
         let q = snd (t ! i); q = (if int (length q) = itsGnUcForwardingPacketBufferSize cfg then tl q else q) in
         Some (Inr (t[i := (fst (t ! i), q @ [e])]))
   }"

definition Enqueue :: "store \<Rightarrow> gn_env \<Rightarrow> nat \<Rightarrow> gptr \<Rightarrow> nat \<Rightarrow> bool \<Rightarrow> gptr option \<Rightarrow> router \<Rightarrow> router option" where
  "Enqueue m E Qid p BufLen cb addr R = do {
     bs \<leftarrow> copy_packet m p BufLen;
     let e = \<lparr>qe_Ts = gn_now E, qe_Buffer = bs, qe_BufLen = BufLen, qe_txcb = cb\<rparr>;
     if has_queue Qid UC_Q then
       (case addr of
          None \<Rightarrow> Some R
        | Some a \<Rightarrow> do {
            t \<leftarrow> enqueue_map m (Config R) e a (UcMapQueue R) (UcMapQueue R);
            Some (case t of Inl t \<Rightarrow> R\<lparr>UcMapQueue := t\<rparr> | Inr t \<Rightarrow> R\<lparr>UcMapQueue := t\<rparr>) })
     else if has_queue Qid LS_Q then
       (case addr of
          None \<Rightarrow> Some R
        | Some a \<Rightarrow> do {
            t \<leftarrow> enqueue_map m (Config R) e a (LsMapQueue R) (UcMapQueue R);
            Some (case t of Inl t \<Rightarrow> R\<lparr>UcMapQueue := t\<rparr> | Inr t \<Rightarrow> R\<lparr>LsMapQueue := t\<rparr>) })
     else if has_queue Qid BC_Q then
       Some (R\<lparr>BcQueue := (if int (length (BcQueue R)) = itsGnBcForwardingPacketBufferSize (Config R) then tl (BcQueue R)
         else BcQueue R) @ [e]\<rparr>)
     else Some R
   }"

section \<open>Forwarding\<close>

definition ld8 :: "store \<Rightarrow> gptr \<Rightarrow> nat \<Rightarrow> u8 option" where
  "ld8 m p n = map_option hd (load m (ptr_add p n) 1)"

definition ld16 :: "store \<Rightarrow> gptr \<Rightarrow> nat \<Rightarrow> u16 option" where
  "ld16 m p n = map_option le_word (load m (ptr_add p n) 2)"

definition ld32 :: "store \<Rightarrow> gptr \<Rightarrow> nat \<Rightarrow> u32 option" where
  "ld32 m p n = map_option le_word (load m (ptr_add p n) 4)"

definition ld_addr :: "store \<Rightarrow> gptr \<Rightarrow> nat \<Rightarrow> gn_addr option" where
  "ld_addr m p n = map_option addr_of (load m (ptr_add p n) 8)"

definition TC_SCF :: "u8 \<Rightarrow> bool" where
  "TC_SCF tc = bit tc 0"

text \<open>C's division of integers, towards zero.\<close>

definition cdiv :: "int \<Rightarrow> int \<Rightarrow> int" where
  "cdiv a b = (if (a < 0) = (b < 0) then \<bar>a\<bar> div \<bar>b\<bar> else - (\<bar>a\<bar> div \<bar>b\<bar>))"

definition GeoRelativePosition :: "int \<Rightarrow> int \<Rightarrow> int \<Rightarrow> int \<Rightarrow> GeoAreaType \<Rightarrow> int option" where
  "GeoRelativePosition x y a b type =
     (if x = 0 \<and> y = 0 then Some 1
      else
        let x = x * x; y = y * y; a = a * a; b = b * b in
        if \<not> list_all in_int32 [x, y, a, b] then None
        else case type of
          GEO_AREA_TYPE_CIRCLE \<Rightarrow>
            if \<not> in_int32 (x + y) then None else Some (if a = x + y then 0 else if a > x + y then 1 else - 1)
        | GEO_AREA_TYPE_RECT \<Rightarrow>
            if \<not> list_all in_int32 [a * b, b * x, a * y, a * b - b * x, a * b - a * y] then None
            else Some (min (a * b - b * x) (a * b - a * y))
        | GEO_AREA_TYPE_ELIP \<Rightarrow>
            if \<not> list_all in_int32 [a * b, b * x, a * y, b * x + a * y] then None
            else Some (if a * b = b * x + a * y then 0 else if a * b > b * x + a * y then 1 else - 1))"

definition ReadEPV_pai :: "GnConfig \<Rightarrow> bool" where
  "ReadEPV_pai cfg \<longleftrightarrow> 0 < cdiv (itsGnPaiInterval cfg) 2"

text \<open>The distance between a place and this router.\<close>

definition own_distance :: "gn_env \<Rightarrow> u32 \<Rightarrow> u32 \<Rightarrow> int" where
  "own_distance E lat long = GeoDistance E (sint lat) (sint long) (sint (latitude_epv (position E))) (sint (longitude_epv (position E)))"

text \<open>The destination that a forwarding algorithm takes from a packet, if it is for that type.\<close>

definition destination :: "store \<Rightarrow> gptr \<Rightarrow> bool \<Rightarrow> PacketType \<Rightarrow> (u32 \<times> u32) option option" where
  "destination m p broadcast type =
     (if type = GN_PACKET_TYPE_GEOUNICAST then do { a \<leftarrow> ld32 m p 52; b \<leftarrow> ld32 m p 56; Some (Some (a, b)) }
      else if type = GN_PACKET_TYPE_GEOANYCAST \<or> broadcast \<and> type = GN_PACKET_TYPE_GEOBROADCAST
      then do { a \<leftarrow> ld32 m p 40; b \<leftarrow> ld32 m p 44; Some (Some (a, b)) }
      else Some None)"

text \<open>The result and the next hop, if one is stored.\<close>

definition NAF_GF :: "store \<Rightarrow> gn_env \<Rightarrow> PacketType \<Rightarrow> gptr \<Rightarrow> router \<Rightarrow> (int \<times> u8 list option \<times> router) option" where
  "NAF_GF m E type p R = do {
     d \<leftarrow> destination m p False type;
     case d of
       None \<Rightarrow> Some (- 1, None, R)
     | Some (lat, long) \<Rightarrow> do {
         let MFR = own_distance E lat long;
         (next_te, shortest_dis) \<leftarrow> FindShortestLocTe (GeoDistance E (sint lat) (sint long)) (LocTable R);
         tc \<leftarrow> ld8 m p 6;
         Some (case next_te of
             Some e \<Rightarrow>
               if shortest_dis < MFR then (1, Some (ga_mid (le_addr e)), R)
               else if TC_SCF tc then (0, None, R) else (1, Some ll_bc, R)
           | None \<Rightarrow> if TC_SCF tc then (0, None, R) else (1, Some ll_bc, R))
       }
   }"

definition find_entry :: "store \<Rightarrow> gn_env \<Rightarrow> gn_addr \<Rightarrow> router \<Rightarrow> (nat option \<times> router) option" where
  "find_entry m E a R = do {
     (r, T) \<leftarrow> find_mid m (gn_now E) (ga_mid a) (LocTable R);
     Some (r, R\<lparr>LocTable := T\<rparr>)
   }"

definition entry_at :: "nat \<Rightarrow> router \<Rightarrow> LocTableEntry" where
  "entry_at i R = snd (TableEntries (LocTable R) ! i)"

text \<open>The waiting time is computed but not used.\<close>

definition NAF_CBF :: "store \<Rightarrow> gn_env \<Rightarrow> PacketType \<Rightarrow> gptr \<Rightarrow> router \<Rightarrow> (int \<times> u8 list option \<times> router) option" where
  "NAF_CBF m E type p R = do {
     d \<leftarrow> destination m p True type;
     case d of
       None \<Rightarrow> Some (- 1, None, R)
     | Some (lat, long) \<Rightarrow> do {
         so \<leftarrow> ld_addr m p 16;
         if GnAddrMatch so (itsGnLocalGnAddr R) then Some (1, Some ll_bc, R)
         else do {
           (r, R) \<leftarrow> find_entry m E so R;
           case r of
             None \<Rightarrow> Some (0, None, R)
           | Some i \<Rightarrow>
               let v = LPV (entry_at i R) in
               if lpv_pai v then
                 let dle = own_distance E lat long;
                     dse = GeoDistance E (sint lat) (sint long) (sint (lpv_latitude v)) (sint (lpv_longitude v));
                     c = Config R in
                 if \<not> in_int32 (dse - dle) then None
                 else if dse - dle > 0 then
                   if \<not> dse - dle > itsGnDefaultMaxCommunicationRange c \<and> (itsGnDefaultMaxCommunicationRange c = 0 \<or>
                     \<not> in_int32 ((itsGnCbfMinTime c - itsGnCbfMaxTime c) * (dse - dle))) then None
                   else Some (0, None, R)
                 else Some (- 1, None, R)
               else Some (0, None, R)
         }
       }
   }"

definition AF_CBF :: "store \<Rightarrow> gn_env \<Rightarrow> gptr \<Rightarrow> router \<Rightarrow> (int \<times> u8 list option \<times> router) option" where
  "AF_CBF m E p R = do {
     so \<leftarrow> ld_addr m p 16;
     if GnAddrMatch so (itsGnLocalGnAddr R) then Some (1, Some ll_bc, R)
     else do {
       (r, R) \<leftarrow> find_entry m E so R;
       case r of
         None \<Rightarrow> Some (0, None, R)
       | Some i \<Rightarrow>
           let v = LPV (entry_at i R); c = Config R; d = own_distance E (lpv_latitude v) (lpv_longitude v) in
           if lpv_pai v \<and> d \<le> itsGnDefaultMaxCommunicationRange c \<and> (itsGnDefaultMaxCommunicationRange c = 0 \<or>
             \<not> in_int32 ((itsGnCbfMinTime c - itsGnCbfMaxTime c) * d)) then None
           else Some (0, None, R)
     }
   }"

definition area_of :: "u8 \<Rightarrow> GeoAreaType" where
  "area_of hst = (if hst = 0 then GEO_AREA_TYPE_CIRCLE else if hst = 1 then GEO_AREA_TYPE_RECT else GEO_AREA_TYPE_ELIP)"

text \<open>Where a place lies with respect to the destination area of a packet, as its bytes stand there.\<close>

definition raw_position :: "store \<Rightarrow> gn_env \<Rightarrow> gptr \<Rightarrow> u32 \<Rightarrow> u32 \<Rightarrow> int option" where
  "raw_position m E p lat long = do {
     glat \<leftarrow> ld32 m p 40; glong \<leftarrow> ld32 m p 44; a \<leftarrow> ld16 m p 48; b \<leftarrow> ld16 m p 50; angle \<leftarrow> ld16 m p 52;
     types \<leftarrow> ld8 m p 5;
     let (x, y) = CartesianTransform E (sint lat) (sint long) (sint glat) (sint glong) (uint angle);
     GeoRelativePosition x y (uint a) (uint b) (area_of (types AND 0xF))
   }"

definition ForwardAlgorithmSelect :: "store \<Rightarrow> gn_env \<Rightarrow> gptr \<Rightarrow> router \<Rightarrow> (int \<times> u8 list option \<times> router) option" where
  "ForwardAlgorithmSelect m E p R = do {
     types \<leftarrow> ld8 m p 5;
     if drop_bit 4 types \<noteq> 3 \<and> drop_bit 4 types \<noteq> 4 then Some (- 1, None, R)
     else do {
       let type = packet_of (drop_bit 4 types);
       f \<leftarrow> raw_position m E p (latitude_epv (position E)) (longitude_epv (position E));
       if f \<ge> 0 then
         (case itsGnAreaForwardingAlgorithm (Config R) of
            GN_AF_CBF \<Rightarrow> do { (ret, nxt, R) \<leftarrow> AF_CBF m E p R; Some (1, Some ll_bc, R) }
          | _ \<Rightarrow> Some (1, Some ll_bc, R))
       else do {
         so \<leftarrow> ld_addr m p 16;
         (r, R) \<leftarrow> find_entry m E so R;
         case r of
           None \<Rightarrow> Some (1, Some ll_bc, R)
         | Some i \<Rightarrow> do {
             let v = LPV (entry_at i R);
             f \<leftarrow> raw_position m E p (lpv_latitude v) (lpv_longitude v);
             if lpv_pai v \<and> f \<ge> 0 then Some (- 1, None, R)
             else if itsGnNonAreaForwardingAlgorithm (Config R) = GN_NAF_CBF then do {
               (ret, nxt, R) \<leftarrow> NAF_CBF m E type p R;
               (ret, nxt', R) \<leftarrow> NAF_GF m E type p R;
               Some (ret, if nxt' = None then nxt else nxt', R)
             }
             else NAF_GF m E type p R
           }
       }
     }
   }"

section \<open>Receiving\<close>

text \<open>A packet at \<open>p\<close>: basic header from byte 0, common header from 4, then for beacons and single hops the
  source at 12, for the others the sequence number at 12, the source at 16 and the destination at 40.\<close>

definition update_source :: "store \<Rightarrow> gn_env \<Rightarrow> gptr \<Rightarrow> router \<Rightarrow> (nat \<times> router) option" where
  "update_source m E p R = do {
     (i, T) \<leftarrow> update_lpv m (gn_now E) p (LocTable R);
     Some (i, R\<lparr>LocTable := T\<rparr>)
   }"

text \<open>The search for the source and the check of its sequence number, which most types begin with.\<close>

definition duplicate :: "store \<Rightarrow> gn_env \<Rightarrow> gptr \<Rightarrow> router \<Rightarrow> (bool \<times> router) option" where
  "duplicate m E p R = do {
     so \<leftarrow> ld_addr m p 16;
     sn \<leftarrow> ld16 m p 12;
     (d, T) \<leftarrow> table_isDuplicated m (gn_now E) (ga_mid so) sn (LocTable R);
     Some (d, R\<lparr>LocTable := T\<rparr>)
   }"

type_synonym gn_result = "(int option \<times> GnData \<times> router) option"

definition ReceiveBeacon_or_SHB :: "store \<Rightarrow> gn_env \<Rightarrow> bool \<Rightarrow> gptr \<Rightarrow> GnData \<Rightarrow> router \<Rightarrow> gn_result" where
  "ReceiveBeacon_or_SHB m E shb p data R = do {
     (i, R) \<leftarrow> update_source m E (ptr_add p 12) R;
     if \<not> in_int32 (NeighborCount R + 1) then None
     else
       let R = R\<lparr>LocTable := upd_entry i (\<lambda>e. e\<lparr>isNeighbor := Some True\<rparr>) (LocTable R), NeighborCount := NeighborCount R + 1\<rparr> in
       Some (if shb then (Some 0, data\<lparr>is_shb := True\<rparr>, R) else (Some 1, data, R))
   }"

definition ReceiveGUC :: "store \<Rightarrow> gn_env \<Rightarrow> gptr \<Rightarrow> nat \<Rightarrow> GnData \<Rightarrow> router \<Rightarrow> gn_result" where
  "ReceiveGUC m E p BufLen data R = do {
     de \<leftarrow> ld_addr m p 40;
     if GnAddrMatch de (itsGnLocalGnAddr R) then do {
       (d, R) \<leftarrow> duplicate m E p R;
       if d then Some (Some (- 1), data, R)
       else do { (i, R) \<leftarrow> update_source m E (ptr_add p 16) R; Some (None, data, R) }
     }
     else do {
       let cbf = (itsGnNonAreaForwardingAlgorithm (Config R) = GN_NAF_CBF);
       (d, R) \<leftarrow> (if cbf then Some (False, R) else duplicate m E p R);
       if d then Some (Some (- 1), data, R)
       else do {
         (i, R) \<leftarrow> update_source m E (ptr_add p 16) R;
         rhl \<leftarrow> ld8 m p 3;
         tc \<leftarrow> ld8 m p 6;
         if rhl = 0 then Some (Some (- 1), data, R)
         else if NeighborCount R = 0 \<and> TC_SCF tc then Some (Some 1, data, R)
         else do {
           (fwd, nxt, R) \<leftarrow> (if cbf then NAF_CBF m E GN_PACKET_TYPE_GEOUNICAST p R else NAF_GF m E GN_PACKET_TYPE_GEOUNICAST p R);
           Some (None, data, R)
         }
       }
     }
   }"

definition ReceiveGBCGAC :: "store \<Rightarrow> gn_env \<Rightarrow> gptr \<Rightarrow> nat \<Rightarrow> GnData \<Rightarrow> router \<Rightarrow> gn_result" where
  "ReceiveGBCGAC m E p BufLen data R = do {
     glat \<leftarrow> ld32 m p 40; glong \<leftarrow> ld32 m p 44; a \<leftarrow> ld16 m p 48; b \<leftarrow> ld16 m p 50; angle \<leftarrow> ld16 m p 52;
     types \<leftarrow> ld8 m p 5;
     let (x, y) = CartesianTransform E (sint (latitude_epv (position E))) (sint (longitude_epv (position E)))
       (sint (ntohl glat)) (sint (ntohl glong)) (uint (ntohs angle));
     f \<leftarrow> GeoRelativePosition x y (uint (ntohs a)) (uint (ntohs b)) (area_of (types AND 0xF));
     (d, R) \<leftarrow> duplicate m E p R;
     if d then Some (Some (- 1), data, R)
     else do {
       (i, R) \<leftarrow> update_source m E (ptr_add p 16) R;
       let R = FlushQueue (LS_Q + UC_Q) (Some (ptr_add p 18)) False R;
       rhl \<leftarrow> ld8 m p 3;
       if f \<ge> 0 then do {
         copy \<leftarrow> copy_packet m p BufLen;
         if rhl > 0 then None else Some (Some 0, data, R)
       }
       else if rhl = 0 then Some (Some 1, data, R)
       else if NeighborCount R = 0 then do {
         R \<leftarrow> Enqueue m E BC_Q p BufLen (df_txcb R) None R; Some (Some 1, data, R) }
       else do {
         (val, nxt, R) \<leftarrow> ForwardAlgorithmSelect m E p R;
         R \<leftarrow> (if val = 0 then Enqueue m E BC_Q p BufLen (df_txcb R) None R else Some R);
         Some (Some 1, data, R)
       }
     }
   }"

definition ReceiveTSB :: "store \<Rightarrow> gn_env \<Rightarrow> gptr \<Rightarrow> nat \<Rightarrow> GnData \<Rightarrow> router \<Rightarrow> gn_result" where
  "ReceiveTSB m E p BufLen data R = do {
     (d, R) \<leftarrow> duplicate m E p R;
     if d then Some (Some (- 1), data, R)
     else do {
       (i, R) \<leftarrow> update_source m E (ptr_add p 16) R;
       let R = FlushQueue (UC_Q + LS_Q) (Some (ptr_add p 18)) False R;
       rhl \<leftarrow> ld8 m p 3;
       if rhl > 0 then do {
         copy \<leftarrow> copy_packet m p BufLen;
         tc \<leftarrow> ld8 m p 6;
         R \<leftarrow> (if NeighborCount R = 0 \<and> TC_SCF tc then Enqueue m E BC_Q p BufLen (df_txcb R) None R else Some R);
         Some (Some 0, data, R)
       }
       else Some (Some 0, data, R)
     }
   }"

definition ReceiveLocationService :: "store \<Rightarrow> gn_env \<Rightarrow> bool \<Rightarrow> gptr \<Rightarrow> nat \<Rightarrow> GnData \<Rightarrow> router \<Rightarrow> gn_result" where
  "ReceiveLocationService m E request p BufLen data R = do {
     addr \<leftarrow> ld_addr m p 40;
     if request then
       if GnAddrMatch addr (itsGnLocalGnAddr R) then do {
         (d, R) \<leftarrow> duplicate m E p R;
         if d then Some (Some (- 1), data, R)
         else do { (i, R) \<leftarrow> update_source m E (ptr_add p 16) R; Some (Some 1, data, R) }
       }
       else Some (Some (- 1), data, R)
     else if GnAddrMatch addr (itsGnLocalGnAddr R) then do {
       (d, R) \<leftarrow> duplicate m E p R;
       if d then Some (Some (- 1), data, R)
       else do {
         (i, R) \<leftarrow> update_source m E (ptr_add p 16) R;
         let R = R\<lparr>LocTable := upd_entry i (\<lambda>e. e\<lparr>LocationServicePending := False\<rparr>) (LocTable R)\<rparr>;
         so \<leftarrow> ld_addr m p 16;
         r \<leftarrow> map_find m (ga_mid so) (LsMap R);
         Some (Some 1, data, if r = None then R
           else FlushQueue LS_Q (Some (ptr_add p 18)) False (gn_log (Notified (ptr_add p 18)) R))
       }
     }
     else ReceiveGUC m E p BufLen data R
   }"

text \<open>The checks of the two headers, and the hop limit that they decrement before.\<close>

definition basic_header_ok :: "u8 \<Rightarrow> bool" where
  "basic_header_ok b \<longleftrightarrow> \<not> drop_bit 4 b > 1 \<and> \<not> (b AND 0xF > 2 \<or> b AND 0xF = 0)"

definition common_header_ok :: "u8 \<Rightarrow> u8 \<Rightarrow> bool" where
  "common_header_ok b types \<longleftrightarrow>
     (let nh = drop_bit 4 b; ht = drop_bit 4 types; hst = types AND 0xF in
      \<not> (nh > 3 \<or> nh = 0) \<and> \<not> (ht > 6 \<or> ht = 0) \<and>
      \<not> ((ht = 2 \<or> ht = 3) \<and> hst > 2) \<and> \<not> ((ht = 6 \<or> ht = 5) \<and> hst > 1))"

definition receive_type :: "store \<Rightarrow> gn_env \<Rightarrow> u8 \<Rightarrow> gptr \<Rightarrow> nat \<Rightarrow> GnData \<Rightarrow> router \<Rightarrow> gn_result" where
  "receive_type m E types p BufLen data R =
     (let ht = drop_bit 4 types; hst = types AND 0xF in
      if ht = 1 then ReceiveBeacon_or_SHB m E False p data R
      else if ht = 2 then ReceiveGUC m E p BufLen data R
      else if ht = 3 \<or> ht = 4 then ReceiveGBCGAC m E p BufLen data R
      else if ht = 5 then
        if hst = 0 then ReceiveBeacon_or_SHB m E True p data R else ReceiveTSB m E p BufLen data R
      else ReceiveLocationService m E (hst = 0) p BufLen data R)"

text \<open>The first ten bytes are printed whatever the length is.\<close>

definition Receive ::
  "store \<Rightarrow> gn_env \<Rightarrow> gptr option \<Rightarrow> nat \<Rightarrow> GnData \<Rightarrow> router \<Rightarrow> (int option \<times> store \<times> GnData \<times> router) option" where
  "Receive m E Buffer BufLen data R =
     (case Buffer of
        None \<Rightarrow> Some (Some (- 1), m, data, R)
      | Some p \<Rightarrow> do {
          printed \<leftarrow> load m p 10;
          b0 \<leftarrow> ld8 m p 0;
          if \<not> basic_header_ok b0 then Some (Some (- 1), m, data, R)
          else do {
            rhl \<leftarrow> ld8 m p 3;
            m \<leftarrow> (if rhl > 0 then save m (ptr_add p 3) [rhl - 1] else Some m);
            b4 \<leftarrow> ld8 m p 4;
            types \<leftarrow> ld8 m p 5;
            if \<not> common_header_ok b4 types then Some (Some (- 1), m, data, R)
            else do {
              mhl \<leftarrow> ld8 m p 10;
              rhl \<leftarrow> ld8 m p 3;
              if mhl < rhl then Some (Some (- 1), m, data, R)
              else do {
                pl \<leftarrow> ld16 m p 8;
                tc \<leftarrow> ld8 m p 6;
                let data = (InitDefaultGnData (Config R) data)\<lparr>upper_prot := upper_of (drop_bit 4 b4),
                  pkt_type := packet_of (drop_bit 4 types), gd_payload_len := uint (ntohs pl), gd_tc := uint tc\<rparr>;
                (ret, data, R) \<leftarrow> receive_type m E types p BufLen data (FlushQueue BC_Q None False R);
                Some (ret, m, data, R)
              }
            }
          }
        })"

section \<open>Transmitting\<close>

definition header_subtype :: "GnData \<Rightarrow> u8" where
  "header_subtype data =
     (case pkt_type data of
        GN_PACKET_TYPE_GEOANYCAST \<Rightarrow> area_code (area_type (d_area data))
      | GN_PACKET_TYPE_GEOBROADCAST \<Rightarrow> area_code (area_type (d_area data))
      | GN_PACKET_TYPE_LS \<Rightarrow> 0
      | _ \<Rightarrow> if is_shb data then 0 else 1)"

text \<open>The twelve bytes of the two headers; every type of packet has a subtype, so it never fails.\<close>

definition InitBH_and_CH :: "GnConfig \<Rightarrow> GnData \<Rightarrow> u8 list option" where
  "InitBH_and_CH cfg data = do {
     let mhl = (if max_hl data > 0 then word_of_int (max_hl data) else 1 :: u8);
     lt \<leftarrow> EncodeLifeTime (word_of_int (if max_lt data < 0 then itsGnDefaultPacketLifetime cfg else max_lt data));
     Some ([push_bit 4 (word_of_int (itsGnProtocolVersion cfg)) OR 1, 0, lt, mhl,
         push_bit 4 (upper_code (upper_prot data)), push_bit 4 (packet_code (pkt_type data)) OR header_subtype data,
         word_of_int (gd_tc data), if itsGnIsMobile cfg then 0x80 else 0] @
       le16 (ntohs (word_of_int (gd_payload_len data))) @ [mhl, 0])
   }"

definition InitSourceLPV :: "gn_env \<Rightarrow> router \<Rightarrow> gn_lpv" where
  "InitSourceLPV E R = \<lparr>lpv_addr = itsGnLocalGnAddr R, lpv_tst = ntohl (gn_now E),
     lpv_latitude = ntohl (latitude_epv (position E)), lpv_longitude = ntohl (longitude_epv (position E)),
     lpv_s_pai = (ntohs (s_epv (position E)) AND 0x7FFF) OR (if ReadEPV_pai (Config R) then 0x8000 else 0),
     lpv_h = ntohs (h_epv (position E))\<rparr>"

definition InitDestinationArea :: "GnData \<Rightarrow> u8 list" where
  "InitDestinationArea data =
     (let a = d_area data in
      le32 (ntohl (gp_latitude a)) @ le32 (ntohl (gp_longitude a)) @ le16 (ntohs (dist_a a)) @ le16 (ntohs (dist_b a)) @
      le16 (ntohs (area_angle a)))"

text \<open>The headers up to the source with a sequence number, in host order, and without one.\<close>

definition numbered_header :: "gn_env \<Rightarrow> GnData \<Rightarrow> router \<Rightarrow> (u8 list \<times> router) option" where
  "numbered_header E data R = do {
     h \<leftarrow> InitBH_and_CH (Config R) data;
     let (sn, R) = GetNextSN R;
     Some (h @ le16 sn @ [0, 0] @ lpv_bytes (InitSourceLPV E R), R)
   }"

definition no_neighbor :: "GnData \<Rightarrow> router \<Rightarrow> bool" where
  "no_neighbor data R \<longleftrightarrow> NeighborCount R = 0 \<and> bit (gd_tc data) 0"

definition transmit_cb :: "store \<Rightarrow> gptr \<Rightarrow> int \<Rightarrow> router \<Rightarrow> router option" where
  "transmit_cb m p len R = do { bs \<leftarrow> load m p (nat (len mod 2 ^ 16)); Some (gn_log (Transmitted bs) R) }"

type_synonym tx_result = "(int \<times> store \<times> router) option"

definition TransmitSHB :: "store \<Rightarrow> gn_env \<Rightarrow> gptr \<Rightarrow> nat \<Rightarrow> GnData \<Rightarrow> bool \<Rightarrow> router \<Rightarrow> tx_result" where
  "TransmitSHB m E p BufLen data cb R = do {
     h \<leftarrow> InitBH_and_CH (Config R) data;
     m \<leftarrow> save m (ptr_add p 1) (h @ lpv_bytes (InitSourceLPV E R) @ [0, 0, 0, 0]);
     if no_neighbor data R then do { R \<leftarrow> Enqueue m E BC_Q p BufLen cb None R; Some (1, m, R) }
     else if cb then do { R \<leftarrow> transmit_cb m p (int BufLen) R; Some (0, m, R) }
     else Some (- 1, m, R)
   }"

definition TransmitTSB :: "store \<Rightarrow> gn_env \<Rightarrow> gptr \<Rightarrow> nat \<Rightarrow> GnData \<Rightarrow> bool \<Rightarrow> router \<Rightarrow> tx_result" where
  "TransmitTSB m E p BufLen data cb R = do {
     (h, R) \<leftarrow> numbered_header E data R;
     m \<leftarrow> save m (ptr_add p 1) h;
     if no_neighbor data R then do { R \<leftarrow> Enqueue m E BC_Q p BufLen cb None R; Some (1, m, R) }
     else if cb then do { R \<leftarrow> transmit_cb m p (int BufLen) R; Some (0, m, R) }
     else Some (- 1, m, R)
   }"

definition TransmitGBCGAC :: "store \<Rightarrow> gn_env \<Rightarrow> gptr \<Rightarrow> nat \<Rightarrow> GnData \<Rightarrow> bool \<Rightarrow> router \<Rightarrow> tx_result" where
  "TransmitGBCGAC m E p BufLen data cb R =
     (if d_type data \<noteq> DE_TYPE_GEO_AREA then Some (- 1, m, R)
      else do {
        (h, R) \<leftarrow> numbered_header E data R;
        m \<leftarrow> save m (ptr_add p 1) (h @ InitDestinationArea data @ [0, 0]);
        if no_neighbor data R then do { R \<leftarrow> Enqueue m E BC_Q p BufLen cb None R; Some (0, m, R) }
        else do {
          (ret, nxt, R) \<leftarrow> ForwardAlgorithmSelect m E (ptr_add p 1) R;
          if ret = 1 \<and> cb then do { R \<leftarrow> transmit_cb m p (gd_payload_len data + 56) R; Some (0, m, R) }
          else Some (ret, m, R)
        }
      })"

text \<open>\<open>addr\<close> is the address of the member \<open>d_addr\<close> of the data, which goes into the maps.\<close>

definition TransmitGUC :: "store \<Rightarrow> gn_env \<Rightarrow> gptr \<Rightarrow> nat \<Rightarrow> GnData \<Rightarrow> gptr \<Rightarrow> bool \<Rightarrow> router \<Rightarrow> tx_result" where
  "TransmitGUC m E p BufLen data addr cb R = do {
     (h, R) \<leftarrow> numbered_header E data R;
     m \<leftarrow> save m (ptr_add p 1) h;
     (r, T) \<leftarrow> find_mid m (gn_now E) (d_addr data) (LocTable R);
     let R = R\<lparr>LocTable := T\<rparr>;
     case r of
       None \<Rightarrow> do {
         R \<leftarrow> Enqueue m E LS_Q p BufLen cb (Some addr) R;
         Some (1, m, gn_log (LocationRequest addr) R)
       }
     | Some i \<Rightarrow> do {
         neighbor \<leftarrow> isNeighbor (entry_at i R);
         if neighbor then Some (0, m, R)
         else if NeighborCount R = 0 then do { R \<leftarrow> Enqueue m E UC_Q p BufLen cb (Some addr) R; Some (1, m, R) }
         else do {
           (ret, nxt, R) \<leftarrow>
             (if itsGnNonAreaForwardingAlgorithm (Config R) = GN_NAF_CBF
              then NAF_CBF m E GN_PACKET_TYPE_GEOUNICAST (ptr_add p 1) R
              else NAF_GF m E GN_PACKET_TYPE_GEOUNICAST (ptr_add p 1) R);
           Some (ret, m, R)
         }
       }
   }"

text \<open>Room for a header of \<open>n\<close> bytes and the family byte is taken in front of the data of the buffer, whose
  block is \<open>b\<close>; \<open>None\<close> inside is too little headroom.\<close>

definition push_header :: "store \<Rightarrow> nat \<Rightarrow> nat \<Rightarrow> abuf \<Rightarrow> (store \<times> gptr \<times> abuf) option option" where
  "push_header m b n bp =
     (if ab_data bp < int (n + 1) then Some None
      else case abuf_push bp (n + 1) of
        (None, bp) \<Rightarrow> None
      | (Some d, bp) \<Rightarrow> do { m \<leftarrow> save m (b, nat d) [3]; Some (Some (m, (b, nat d), bp)) })"

definition transmit_broadcast ::
  "store \<Rightarrow> gn_env \<Rightarrow> nat \<Rightarrow> abuf \<Rightarrow> nat \<Rightarrow> GnData \<Rightarrow> bool \<Rightarrow> int \<Rightarrow> router \<Rightarrow> (int \<times> store \<times> abuf \<times> router) option" where
  "transmit_broadcast m E b bp BufLen data cb ret R = do {
     let n = 40;
     h \<leftarrow> push_header m b n bp;
     case h of
       None \<Rightarrow> Some (ret, m, bp, R)
     | Some (m, p, bp) \<Rightarrow> do {
         (ret, m, R) \<leftarrow> (if is_shb data then TransmitSHB m E p (BufLen + n + 1) data cb R
                          else TransmitTSB m E p (BufLen + n + 1) data cb R);
         Some (ret, m, bp, R)
       }
   }"

definition Transmit ::
  "store \<Rightarrow> gn_env \<Rightarrow> nat \<Rightarrow> abuf \<Rightarrow> nat \<Rightarrow> GnData \<Rightarrow> gptr \<Rightarrow> bool \<Rightarrow> router \<Rightarrow> (int \<times> store \<times> abuf \<times> router) option" where
  "Transmit m E b bp BufLen data addr cb R =
     (case pkt_type data of
        GN_PACKET_TYPE_GEOUNICAST \<Rightarrow> do {
          h \<leftarrow> push_header m b 60 bp;
          case h of
            None \<Rightarrow> Some (- 1, m, bp, R)
          | Some (m, p, bp) \<Rightarrow> do {
              (ret, m, R) \<leftarrow> TransmitGUC m E p (BufLen + 61) data addr cb R; Some (ret, m, bp, R) }
        }
      | GN_PCCKET_TYPE_TSB \<Rightarrow> transmit_broadcast m E b bp BufLen data cb (- 1) R
      | t \<Rightarrow>
          if t = GN_PACKET_TYPE_GEOANYCAST \<or> t = GN_PACKET_TYPE_GEOBROADCAST then do {
            h \<leftarrow> push_header m b 56 bp;
            case h of
              None \<Rightarrow> Some (- 1, m, bp, R)
            | Some (m, p, bp) \<Rightarrow> do {
                (ret, m, R) \<leftarrow> TransmitGBCGAC m E p (BufLen + 57) data cb R;
                transmit_broadcast m E b bp (BufLen + 57) data cb ret R
              }
          }
          else Some (- 1, m, bp, R))"

section \<open>Location service\<close>

text \<open>The request for the position of the station whose address is at \<open>addr\<close>, where eight bytes are read.\<close>

definition InitLSRequest :: "store \<Rightarrow> gn_env \<Rightarrow> GnData \<Rightarrow> gptr \<Rightarrow> router \<Rightarrow> (u8 list \<times> router) option" where
  "InitLSRequest m E data addr R = do {
     (h, R) \<leftarrow> numbered_header E data R;
     a \<leftarrow> load m addr 8;
     Some (h @ a, R)
   }"

text \<open>Send and wait, until the wait times out (\<open>True\<close>) with the retransmissions used up.\<close>

fun ls_loop :: "int \<Rightarrow> int \<Rightarrow> bool list \<Rightarrow> u8 list \<Rightarrow> router \<Rightarrow> router option" where
  "ls_loop maxr count [] pkt R = None"
| "ls_loop maxr count (timed_out # waits) pkt R =
     (let R = (if df_txcb R then gn_log (Transmitted pkt) R else R) in
      if count + 1 < maxr \<or> \<not> timed_out then ls_loop maxr (count + 1) waits pkt R else Some R)"

definition LocationServiceSync :: "store \<Rightarrow> gn_env \<Rightarrow> GnData \<Rightarrow> gptr \<Rightarrow> bool list \<Rightarrow> router \<Rightarrow> router option" where
  "LocationServiceSync m E data addr waits R = do {
     let data = (InitDefaultGnData (Config R) data)\<lparr>pkt_type := GN_PACKET_TYPE_LS\<rparr>;
     (h, R) \<leftarrow> InitLSRequest m E data addr R;
     ms \<leftarrow> map_insert m addr () (LsMap R);
     R \<leftarrow> ls_loop (itsGnLocationServiceMaxRetrans (Config R)) 0 waits (3 # h) (R\<lparr>LsMap := ms\<rparr>);
     k \<leftarrow> load m addr GN_MID_LEN;
     T \<leftarrow> table_Remove m k (LocTable R);
     Some ((FlushQueue LS_Q (Some addr) True R)\<lparr>LocTable := T\<rparr>)
   }"

end
