(* ===== verification/GnFacts.thy ===== *)
theory GnFacts
  imports GnRouter
begin

text \<open>
  What the GeoNetworking router does: the window of its duplicate detection, the order that the table of
  stations keeps as long as memory behind its keys does not change, a packet from one router to another, and
  what reused buffers and the queues lead to.
\<close>

section \<open>Duplicate detection\<close>

text \<open>A sequence of packets of one station: the answers, and the entry afterwards.\<close>

fun dup_run :: "u16 list \<Rightarrow> LocTableEntry \<Rightarrow> bool list \<times> LocTableEntry" where
  "dup_run [] e = ([], e)"
| "dup_run (sn # sns) e =
     (let (d, e) = entry_isDuplicated sn e; (ds, e) = dup_run sns e in (d # ds, e))"

definition last_n :: "nat \<Rightarrow> 'a list \<Rightarrow> 'a list" where
  "last_n n xs = drop (length xs - n) xs"

text \<open>The answers by the whole history: a number is new unless it is one of the last twenty new ones.\<close>

fun new_numbers :: "u16 list \<Rightarrow> u16 list \<Rightarrow> bool list \<times> u16 list" where
  "new_numbers old [] = ([], old)"
| "new_numbers old (sn # sns) =
     (let d = sn \<in> set (last_n MAX_DPL_LEN old);
          (ds, old) = new_numbers (if d then old else old @ [sn]) sns in
      (d # ds, old))"

lemma dpl_count_None: "dpl_count sn dpl = None \<longleftrightarrow> sn \<notin> fst ` set dpl"
  by (induction dpl rule: dpl_count.induct) auto

lemma dpl_count_fst: "dpl_count sn dpl = Some dpl' \<Longrightarrow> map fst dpl' = map fst dpl"
  by (induction sn dpl arbitrary: dpl' rule: dpl_count.induct) (auto split: if_splits)

lemma last_n_snoc: "last_n n (xs @ [x]) = (if n = 0 then [] else last_n (n - 1) xs @ [x])"
  by (auto simp: last_n_def Suc_diff_le)

lemma tl_last_n: "n \<le> length xs \<Longrightarrow> 0 < n \<Longrightarrow> tl (last_n n xs) = last_n (n - 1) xs"
  by (simp add: last_n_def tl_drop drop_Suc [symmetric] Suc_diff_le)

lemma entry_isDuplicated_step:
  assumes "map fst (DPL e) = last_n MAX_DPL_LEN old"
  shows "\<exists>e'. entry_isDuplicated sn e = (sn \<in> set (last_n MAX_DPL_LEN old), e') \<and>
    map fst (DPL e') = last_n MAX_DPL_LEN (if sn \<in> set (last_n MAX_DPL_LEN old) then old else old @ [sn])"
proof (cases "dpl_count sn (DPL e)")
  case None
  then have "sn \<notin> set (last_n MAX_DPL_LEN old)" using assms by (simp add: dpl_count_None flip: assms)
  moreover have "length (DPL e) = min MAX_DPL_LEN (length old)"
    using arg_cong [OF assms, of length] by (simp add: last_n_def)
  moreover have "length old < MAX_DPL_LEN \<Longrightarrow> last_n MAX_DPL_LEN old = last_n (MAX_DPL_LEN - 1) old"
    by (simp add: last_n_def)
  ultimately show ?thesis
    using None tl_last_n [of MAX_DPL_LEN old]
    by (auto simp: entry_isDuplicated_def last_n_snoc map_tl assms)
next
  case (Some dpl)
  then have "sn \<in> fst ` set (DPL e)" using dpl_count_None [of sn "DPL e"] by auto
  then have "sn \<in> set (last_n MAX_DPL_LEN old)" by (simp flip: assms)
  with Some show ?thesis using dpl_count_fst [OF Some] by (simp add: entry_isDuplicated_def assms)
qed

lemma dup_run_new_numbers:
  "map fst (DPL e) = last_n MAX_DPL_LEN old \<Longrightarrow>
     fst (dup_run sns e) = fst (new_numbers old sns) \<and>
     map fst (DPL (snd (dup_run sns e))) = last_n MAX_DPL_LEN (snd (new_numbers old sns))"
proof (induction sns arbitrary: e old)
  case Nil
  then show ?case by simp
next
  case (Cons sn sns)
  obtain e' where e': "entry_isDuplicated sn e = (sn \<in> set (last_n MAX_DPL_LEN old), e')"
    "map fst (DPL e') = last_n MAX_DPL_LEN (if sn \<in> set (last_n MAX_DPL_LEN old) then old else old @ [sn])"
    using entry_isDuplicated_step [OF Cons.prems] by blast
  from Cons.IH [OF e'(2)] show ?case
    by (auto simp: e'(1) case_prod_unfold Let_def)
qed

section \<open>Queues\<close>

lemma flush_queue_front:
  "flush_queue purge now q R = Some r \<Longrightarrow> \<not> purge \<longrightarrow> q \<noteq> [] \<longrightarrow> too_old now (hd q) \<noteq> Some False"
proof (rule flush_queue.raw_induct [of "\<lambda>purge now q R r. \<not> purge \<longrightarrow> q \<noteq> [] \<longrightarrow> too_old now (hd q) \<noteq> Some False"])
  fix flush :: "bool \<Rightarrow> u32 \<Rightarrow> Qelement list \<Rightarrow> router \<Rightarrow> (Qelement list \<times> router) option" and purge :: bool and now and q :: "Qelement list" and R :: router and r
  assume ih: "\<And>purge now q R r. flush purge now q R = Some r \<Longrightarrow> \<not> purge \<longrightarrow> q \<noteq> [] \<longrightarrow> too_old now (hd q) \<noteq> Some False"
  assume run: "(case q of [] \<Rightarrow> Some ([], R)
      | e # q' \<Rightarrow> Option.bind (if purge then Some True else too_old now e) (\<lambda>old.
            if old then flush purge now q' R else Option.bind (send_element e R) (\<lambda>R. flush purge now q R))) = Some r"
  show "\<not> purge \<longrightarrow> q \<noteq> [] \<longrightarrow> too_old now (hd q) \<noteq> Some False"
  proof (intro impI notI)
    assume a: "\<not> purge" "q \<noteq> []" "too_old now (hd q) = Some False"
    then obtain e q' where q: "q = e # q'" by (cases q) auto
    with run a obtain R' where "flush purge now q R' = Some r" by (auto split: Option.bind_splits)
    from ih [OF this] a show False by simp
  qed
qed

lemma flush_queue_stuck: "\<not> purge \<Longrightarrow> too_old now e = Some False \<Longrightarrow> flush_queue purge now (e # q) R = None"
  using flush_queue_front [of purge now "e # q" R] by (cases "flush_queue purge now (e # q) R") auto

section \<open>Memory\<close>

lemma load_length: "load m p n = Some Y \<Longrightarrow> length Y = n"
  by (auto simp: load_def split: option.splits if_splits)

lemma load_sub:
  assumes "load m p n = Some Y" "i + k \<le> n"
  shows "load m (ptr_add p i) k = Some (take k (drop i Y))"
  using assms by (auto simp: load_def ptr_add_def drop_take min_def add.commute split: option.splits if_splits)

lemma load_prefix: "load m p n = Some Y \<Longrightarrow> k \<le> n \<Longrightarrow> load m p k = Some (take k Y)"
  using load_sub [of m p n Y 0 k] by (simp add: ptr_add_def)

lemma save_ok:
  assumes "load m p n = Some Y" "i + length xs \<le> n"
  shows "\<exists>m'. save m (ptr_add p i) xs = Some m' \<and> load m' p n = Some (overwrite Y i xs) \<and>
    (\<forall>q k. fst q \<noteq> fst p \<longrightarrow> load m' q k = load m q k)"
proof -
  obtain B where B: "m (fst p) = Some B" "snd p + n \<le> length B" "Y = take n (drop (snd p) B)"
    using assms(1) by (auto simp: load_def split: option.splits if_splits)
  let ?m = "m(fst p \<mapsto> overwrite B (snd p + i) xs)"
  have "save m (ptr_add p i) xs = Some ?m" using B assms(2) by (simp add: save_def ptr_add_def)
  moreover have "take n (drop (snd p) (overwrite B (snd p + i) xs)) = overwrite Y i xs"
  proof (rule nth_equalityI)
    show "length (take n (drop (snd p) (overwrite B (snd p + i) xs))) = length (overwrite Y i xs)"
      using B assms(2) by simp
    fix j assume "j < length (take n (drop (snd p) (overwrite B (snd p + i) xs)))"
    then have "j < n" using B assms(2) by simp
    then show "take n (drop (snd p) (overwrite B (snd p + i) xs)) ! j = overwrite Y i xs ! j"
      using B assms(2) by (auto simp: overwrite_def nth_append min_def drop_take)
  qed
  then have "load ?m p n = Some (overwrite Y i xs)" using B assms(2) by (simp add: load_def)
  ultimately show ?thesis by (auto simp: load_def)
qed

lemma ld_facts:
  assumes "load m p n = Some Y"
  shows "i < n \<Longrightarrow> ld8 m p i = Some (Y ! i)"
    and "i + 2 \<le> n \<Longrightarrow> ld16 m p i = Some (le_word (take 2 (drop i Y)))"
    and "i + 4 \<le> n \<Longrightarrow> ld32 m p i = Some (le_word (take 4 (drop i Y)))"
    and "i + 8 \<le> n \<Longrightarrow> ld_addr m p i = Some (addr_of (take 8 (drop i Y)))"
  using load_sub [OF assms, of i] load_length [OF assms]
  by (auto simp: ld8_def ld16_def ld32_def ld_addr_def hd_drop_conv_nth take_Suc_conv_app_nth)

section \<open>Accepted packets\<close>

definition hop_left :: "u8 \<Rightarrow> u8" where
  "hop_left rhl = (if rhl > 0 then rhl - 1 else 0)"

definition header_data :: "GnConfig \<Rightarrow> u8 list \<Rightarrow> GnData \<Rightarrow> GnData" where
  "header_data cfg Y data = (InitDefaultGnData cfg data)\<lparr>upper_prot := upper_of (drop_bit 4 (Y ! 4)),
     pkt_type := packet_of (drop_bit 4 (Y ! 5)), gd_payload_len := uint (ntohs (le_word (take 2 (drop 8 Y)))),
     gd_tc := uint (Y ! 6)\<rparr>"

lemma Receive_accepted:
  assumes Y: "load m p n = Some Y" "12 \<le> n"
    and ok: "basic_header_ok (Y ! 0)" "common_header_ok (Y ! 4) (Y ! 5)" "hop_left (Y ! 3) \<le> Y ! 10"
  obtains m' where "load m' p n = Some (Y[3 := hop_left (Y ! 3)])" "\<And>q k. fst q \<noteq> fst p \<Longrightarrow> load m' q k = load m q k"
    "Receive m E (Some p) BufLen data R =
      (case receive_type m' E (Y ! 5) p BufLen (header_data (Config R) Y data) (FlushQueue BC_Q None False R) of
         None \<Rightarrow> None | Some (ret, data, R) \<Rightarrow> Some (ret, m', data, R))"
proof -
  have len: "length Y = n" by (rule load_length [OF Y(1)])
  obtain m' where m': "(if Y ! 3 > 0 then save m (ptr_add p 3) [Y ! 3 - 1] else Some m) = Some m'"
    "load m' p n = Some (Y[3 := hop_left (Y ! 3)])" "\<forall>q k. fst q \<noteq> fst p \<longrightarrow> load m' q k = load m q k"
  proof (cases "Y ! 3 > 0")
    case True
    have "overwrite Y 3 [Y ! 3 - 1] = Y[3 := Y ! 3 - 1]" using len Y(2) by (simp add: overwrite_def upd_conv_take_nth_drop)
    with True save_ok [OF Y(1), of 3 "[Y ! 3 - 1]"] Y(2) show ?thesis by (auto simp: hop_left_def intro: that)
  next
    case False
    then have "Y ! 3 = 0" by (simp add: word_neq_0_conv [symmetric])
    then have "Y[3 := hop_left (Y ! 3)] = Y" by (simp add: hop_left_def list_update_same_conv [symmetric] del: list_update_same_conv)
        (metis list_update_id)
    with False Y show ?thesis by (intro that [of m]) auto
  qed
  let ?Y = "Y[3 := hop_left (Y ! 3)]"
  note ld = ld_facts [OF m'(2)]
  have "Receive m E (Some p) BufLen data R =
      (case receive_type m' E (Y ! 5) p BufLen (header_data (Config R) Y data) (FlushQueue BC_Q None False R) of
         None \<Rightarrow> None | Some (ret, data, R) \<Rightarrow> Some (ret, m', data, R))"
    using ok m'(1) len Y(2) load_prefix [OF Y(1), of 10] ld(1) [of 4] ld(1) [of 5] ld(1) [of 10] ld(1) [of 3] ld(1) [of 6] ld(2) [of 8]
      ld_facts(1) [OF Y(1), of 0] ld_facts(1) [OF Y(1), of 3]
    by (simp add: Receive_def header_data_def linorder_not_less [symmetric] drop_update_cancel split: option.split)
  with m' that show thesis by blast
qed

section \<open>A table with one station\<close>

definition live :: "u32 \<Rightarrow> int \<Rightarrow> u32 \<Rightarrow> bool" where
  "live now l t \<longleftrightarrow> in_int32 (l * 1000000) \<and> \<not> now - ntohl t > word_of_int (l * 1000000)"

lemma find_mid_empty: "TableEntries T = [] \<Longrightarrow> find_mid m now k T = Some (None, T)"
  by (simp add: find_mid_def map_find_def map_keys_def)

lemma find_mid_single:
  assumes "TableEntries T = [(q, e)]" "load m q GN_MID_LEN = Some k" "live now (LifeTime T) (lpv_tst (LPV e))"
  shows "find_mid m now k T = Some (Some 0, T)"
  using assms by (simp add: find_mid_def map_find_def map_keys_def live_def)

lemma entry_isDuplicated_simps:
  "entry_isDuplicated sn e = (d, e') \<Longrightarrow> d = (sn \<in> fst ` set (DPL e)) \<and> LPV e' = LPV e \<and> le_addr e' = le_addr e"
  using dpl_count_None [of sn "DPL e"] by (auto simp: entry_isDuplicated_def Let_def split: option.splits)

definition newest :: "gn_lpv \<Rightarrow> LocTableEntry \<Rightarrow> LocTableEntry" where
  "newest v e = (if newer_either (ntohl (lpv_tst v)) (ntohl (lpv_tst (LPV e))) then e\<lparr>LPV := v\<rparr> else e)\<lparr>Updated := True\<rparr>"

lemma newest_simps [simp]: "le_addr (newest v e) = le_addr e" "DPL (newest v e) = DPL e"
  by (simp_all add: newest_def)

lemma update_lpv_single:
  assumes "TableEntries T = [(q, e)]" "load m q GN_MID_LEN = Some k" "live now (LifeTime T) (lpv_tst (LPV e))"
    "load m p 24 = Some bs" "ga_mid (lpv_addr (lpv_of bs)) = k"
  shows "update_lpv m now p T = Some (0, T\<lparr>TableEntries := [(q, newest (lpv_of bs) e)]\<rparr>)"
  using find_mid_single [OF assms(1-3)] assms(1,4,5)
  by (simp add: update_lpv_def upd_entry_def newest_def)

lemma update_lpv_empty:
  assumes "TableEntries T = []" "load m p 24 = Some bs"
  shows "update_lpv m now p T = Some (0, T\<lparr>TableEntries := [(ptr_add p 2, entry_of_lpv (lpv_of bs))]\<rparr>)"
proof -
  have "load m (ptr_add p 2) GN_MID_LEN = Some (ga_mid (lpv_addr (lpv_of bs)))"
    using load_sub [OF assms(2), of 2 6] by (simp add: lpv_of_def addr_of_def)
  then show ?thesis using assms
    by (simp add: update_lpv_def find_mid_empty map_insert_def map_keys_def)
qed

section \<open>Packets in the same buffer\<close>

text \<open>A packet for several hops that has none left, in a memory that holds it at \<open>p\<close>.\<close>

definition tsb_packet :: "store \<Rightarrow> gptr \<Rightarrow> u8 list \<Rightarrow> bool" where
  "tsb_packet m p Y \<longleftrightarrow> 40 \<le> length Y \<and> load m p (length Y) = Some Y \<and> basic_header_ok (Y ! 0) \<and>
     common_header_ok (Y ! 4) (Y ! 5) \<and> drop_bit 4 (Y ! 5) = 5 \<and> Y ! 5 AND 0xF = 1 \<and> Y ! 3 \<le> 1"

definition packet_sn :: "u8 list \<Rightarrow> u16" where
  "packet_sn Y = le_word (take 2 (drop 12 Y))"

definition source_lpv :: "u8 list \<Rightarrow> gn_lpv" where
  "source_lpv Y = lpv_of (take 24 (drop 16 Y))"

lemma LocTable_FlushQueue [simp]: "LocTable (FlushQueue q a u R) = LocTable R"
  by (simp add: FlushQueue_def gn_log_def)

lemma tsb_fields:
  assumes "load m p n = Some (Y[3 := h])" "40 \<le> n" "length Y = n"
  shows "ld_addr m p 16 = Some (lpv_addr (source_lpv Y))" "ld16 m p 12 = Some (packet_sn Y)"
    "load m (ptr_add p 16) 24 = Some (take 24 (drop 16 Y))" "ld8 m p 3 = Some h"
    "load m (ptr_add p 18) GN_MID_LEN = Some (ga_mid (lpv_addr (source_lpv Y)))"
  using ld_facts [OF assms(1)] load_sub [OF assms(1), of 16 24] load_sub [OF assms(1), of 18 6] assms(2,3)
  by (simp_all add: source_lpv_def packet_sn_def lpv_of_def addr_of_def drop_update_cancel drop_take)

lemma hop_left_le: "hop_left rhl \<le> rhl"
proof (cases "rhl = 0")
  case False
  then have "unat (rhl - 1) = unat rhl - 1" by (simp add: unat_minus_one)
  then show ?thesis by (simp add: hop_left_def word_le_nat_alt)
qed (simp add: hop_left_def)

lemma hop_left_1: "rhl \<le> 1 \<Longrightarrow> hop_left rhl = 0"
  by (auto simp: hop_left_def word_le_nat_alt word_less_nat_alt intro!: word_unat_eq_iff [THEN iffD2])

lemma Receive_tsb:
  assumes "tsb_packet m p Y"
  obtains m' where "load m' p (length Y) = Some (Y[3 := 0])"
    "Receive m E (Some p) BufLen data R =
      (case ReceiveTSB m' E p BufLen (header_data (Config R) Y data) (FlushQueue BC_Q None False R) of
         None \<Rightarrow> None | Some (ret, data, R) \<Rightarrow> Some (ret, m', data, R))"
proof -
  have h: "hop_left (Y ! 3) = 0" using assms by (simp add: tsb_packet_def hop_left_1)
  obtain m' where m': "load m' p (length Y) = Some (Y[3 := hop_left (Y ! 3)])"
    "Receive m E (Some p) BufLen data R =
      (case receive_type m' E (Y ! 5) p BufLen (header_data (Config R) Y data) (FlushQueue BC_Q None False R) of
         None \<Rightarrow> None | Some (ret, data, R) \<Rightarrow> Some (ret, m', data, R))"
    by (rule Receive_accepted [of m p "length Y" Y]) (use assms h in \<open>auto simp: tsb_packet_def\<close>)
  moreover have "receive_type m' E (Y ! 5) p BufLen d R' = ReceiveTSB m' E p BufLen d R'" for d R'
    using assms by (simp add: receive_type_def tsb_packet_def Let_def)
  ultimately show thesis using that h by simp
qed

lemma tsb_known:
  assumes "tsb_packet m p Y" "TableEntries (LocTable R) = [(ptr_add p 18, e)]"
    "live (gn_now E) (LifeTime (LocTable R)) (lpv_tst (LPV e))"
  shows "\<exists>m' R'. Receive m E (Some p) BufLen data R =
      Some (Some (if packet_sn Y \<in> fst ` set (DPL e) then - 1 else 0), m', header_data (Config R) Y data, R') \<and>
    (let e' = snd (entry_isDuplicated (packet_sn Y) e) in TableEntries (LocTable R') = [(ptr_add p 18,
      if packet_sn Y \<in> fst ` set (DPL e) then e' else newest (source_lpv Y) e')]) \<and> LifeTime (LocTable R') = LifeTime (LocTable R)"
proof -
  obtain m' where Y: "load m' p (length Y) = Some (Y[3 := 0])" and run: "Receive m E (Some p) BufLen data R =
      (case ReceiveTSB m' E p BufLen (header_data (Config R) Y data) (FlushQueue BC_Q None False R) of
         None \<Rightarrow> None | Some (ret, data, R) \<Rightarrow> Some (ret, m', data, R))"
    by (rule Receive_tsb [OF assms(1)])
  have "40 \<le> length Y" using assms(1) by (simp add: tsb_packet_def)
  note fields = tsb_fields [OF Y this refl]
  obtain d e' where de: "entry_isDuplicated (packet_sn Y) e = (d, e')" by (cases "entry_isDuplicated (packet_sn Y) e")
  note e' = entry_isDuplicated_simps [OF de]
  let ?T = "(LocTable R)\<lparr>TableEntries := [(ptr_add p 18, e')]\<rparr>"
  have dup: "table_isDuplicated m' (gn_now E) (ga_mid (lpv_addr (source_lpv Y))) (packet_sn Y) (LocTable R) = Some (d, ?T)"
    using find_mid_single [OF assms(2) fields(5) assms(3)] assms(2)
    by (simp add: table_isDuplicated_def dup_at_def upd_entry_def de)
  have upd: "update_lpv m' (gn_now E) (ptr_add p 16) ?T = Some (0, ?T\<lparr>TableEntries := [(ptr_add p 18, newest (source_lpv Y) e')]\<rparr>)"
    using update_lpv_single [of ?T "ptr_add p 18" e' m' _ "gn_now E" "ptr_add p 16", OF _ fields(5) _ fields(3)] assms(3) e'
    by (simp add: source_lpv_def)
  show ?thesis
    using e' by (cases d) (simp_all add: run ReceiveTSB_def duplicate_def update_source_def fields dup upd de)
qed

lemma tsb_first:
  assumes "tsb_packet m p Y" "TableEntries (LocTable R) = []"
  shows "\<exists>m' R'. Receive m E (Some p) BufLen data R = Some (Some 0, m', header_data (Config R) Y data, R') \<and>
    TableEntries (LocTable R') = [(ptr_add p 18, entry_of_lpv (source_lpv Y))] \<and> LifeTime (LocTable R') = LifeTime (LocTable R)"
proof -
  obtain m' where Y: "load m' p (length Y) = Some (Y[3 := 0])" and run: "Receive m E (Some p) BufLen data R =
      (case ReceiveTSB m' E p BufLen (header_data (Config R) Y data) (FlushQueue BC_Q None False R) of
         None \<Rightarrow> None | Some (ret, data, R) \<Rightarrow> Some (ret, m', data, R))"
    by (rule Receive_tsb [OF assms(1)])
  have "40 \<le> length Y" using assms(1) by (simp add: tsb_packet_def)
  note fields = tsb_fields [OF Y this refl]
  have dup: "table_isDuplicated m' (gn_now E) k sn (LocTable R) = Some (False, LocTable R)" for k sn
    using find_mid_empty [OF assms(2)] by (simp add: table_isDuplicated_def)
  have "ptr_add (ptr_add p 16) 2 = ptr_add p 18" by (simp add: ptr_add_def)
  then show ?thesis
    using update_lpv_empty [OF assms(2) fields(3)]
    by (simp add: run ReceiveTSB_def duplicate_def update_source_def fields dup source_lpv_def)
qed

section \<open>From router to router\<close>

lemma le_word_le_take [simp]:
  "le_word (take 2 (le16 w)) = w" "le_word (take 4 (le32 v)) = v"
  by simp_all

lemma ntohs_ntohs [simp]: "ntohs (ntohs w) = w"
proof -
  have "le16 (le_word (rev (le16 w)) :: u16) = rev (le16 w)"
    using le_bytes_le_word [of "rev (le16 w)", where 'a = 16] by simp
  then show ?thesis by (simp add: ntohs_def)
qed

lemma ntohl_ntohl [simp]: "ntohl (ntohl w) = w"
proof -
  have "le32 (le_word (rev (le32 w)) :: u32) = rev (le32 w)"
    using le_bytes_le_word [of "rev (le32 w)", where 'a = 32] by simp
  then show ?thesis by (simp add: ntohl_def)
qed

lemma length_lpv_bytes: "length (ga_mid (lpv_addr v)) = 6 \<Longrightarrow> length (lpv_bytes v) = 24"
  by (simp add: lpv_bytes_def addr_bytes_def)

lemma lpv_of_bytes: "length (ga_mid (lpv_addr v)) = 6 \<Longrightarrow> lpv_of (lpv_bytes v) = v"
  by (simp add: lpv_bytes_def addr_bytes_def lpv_of_def addr_of_def)

text \<open>The header of a single hop, and what the sender may put into it.\<close>

definition shb_header :: "gn_env \<Rightarrow> GnData \<Rightarrow> router \<Rightarrow> u8 list option" where
  "shb_header E data R = map_option (\<lambda>h. h @ lpv_bytes (InitSourceLPV E R) @ [0, 0, 0, 0]) (InitBH_and_CH (Config R) data)"

definition shb_ok :: "GnData \<Rightarrow> router \<Rightarrow> bool" where
  "shb_ok data R \<longleftrightarrow> pkt_type data = GN_PCCKET_TYPE_TSB \<and> is_shb data \<and> upper_prot data \<noteq> GN_UPPER_PROTO_ANY \<and>
     0 \<le> gd_payload_len data \<and> gd_payload_len data < 2 ^ 16 \<and> 0 \<le> gd_tc data \<and> gd_tc data < 2 ^ 8 \<and>
     (itsGnProtocolVersion (Config R) = 0 \<or> itsGnProtocolVersion (Config R) = 1) \<and>
     length (ga_mid (itsGnLocalGnAddr R)) = 6"

lemma shb_header_bytes:
  assumes "shb_ok data R" "shb_header E data R = Some h"
  shows "length h = 40" "basic_header_ok (h ! 0)" "common_header_ok (h ! 4) (h ! 5)" "hop_left (h ! 3) \<le> h ! 10"
    "h ! 5 = 0x50" "upper_of (drop_bit 4 (h ! 4)) = upper_prot data" "uint (h ! 6) = gd_tc data"
    "uint (ntohs (le_word (take 2 (drop 8 h)))) = gd_payload_len data"
    "lpv_of (take 24 (drop 12 h)) = InitSourceLPV E R"
proof -
  define mhl where "mhl = (if max_hl data > 0 then word_of_int (max_hl data) else 1 :: u8)"
  obtain lt where h: "h = [push_bit 4 (word_of_int (itsGnProtocolVersion (Config R))) OR 1, 0, lt, mhl,
         push_bit 4 (upper_code (upper_prot data)), 0x50,
         word_of_int (gd_tc data), if itsGnIsMobile (Config R) then 0x80 else 0] @
       le16 (ntohs (word_of_int (gd_payload_len data))) @ [mhl, 0] @ lpv_bytes (InitSourceLPV E R) @ [0, 0, 0, 0]"
    using assms by (auto simp: shb_header_def InitBH_and_CH_def shb_ok_def header_subtype_def mhl_def Let_def split: bind_splits)
  have m: "length (ga_mid (lpv_addr (InitSourceLPV E R))) = 6" using assms(1) by (simp add: InitSourceLPV_def shb_ok_def)
  have h10: "h ! 10 = mhl" by (simp add: h nth_append)
  show "length h = 40" "h ! 5 = 0x50" by (simp_all add: h length_lpv_bytes [OF m])
  show "basic_header_ok (h ! 0)" using assms(1) by (auto simp: h basic_header_ok_def shb_ok_def)
  show "common_header_ok (h ! 4) (h ! 5)" "upper_of (drop_bit 4 (h ! 4)) = upper_prot data"
    using assms(1) by (cases "upper_prot data"; simp add: h common_header_ok_def shb_ok_def upper_of_def)+
  have "hop_left mhl \<le> mhl" by (rule hop_left_le)
  then show "hop_left (h ! 3) \<le> h ! 10" by (simp add: h10) (simp add: h)
  show "uint (h ! 6) = gd_tc data" using assms(1) by (simp add: h shb_ok_def uint_word_of_int)
  show "uint (ntohs (le_word (take 2 (drop 8 h)))) = gd_payload_len data"
    using assms(1) by (simp add: h shb_ok_def uint_word_of_int)
  show "lpv_of (take 24 (drop 12 h)) = InitSourceLPV E R"
    by (simp add: h length_lpv_bytes [OF m] lpv_of_bytes [OF m])
qed

end
