(* ===== verification/GnRoundtrip.thy ===== *)
theory GnRoundtrip
  imports GnFacts
begin

text \<open>
  A single-hop packet from one GeoNetworking router to another: what the sender hands to its callback, and what
  the receiver makes of it.
\<close>

section \<open>Sending\<close>

definition shb_sent :: "store \<Rightarrow> gn_env \<Rightarrow> nat \<Rightarrow> abuf \<Rightarrow> nat \<Rightarrow> GnData \<Rightarrow> router \<Rightarrow> u8 list option" where
  "shb_sent m E b bp n data R = do {
     h \<leftarrow> shb_header E data R;
     payload \<leftarrow> load m (b, nat (ab_data bp)) n;
     Some (3 # h @ payload)
   }"

lemma overwrite_front: "overwrite Y 0 xs = xs @ drop (length xs) Y"
  by (simp add: overwrite_def)

lemma TransmitSHB_sent:
  assumes Y: "load m p (n + 41) = Some Y" "Y ! 0 = 3" "n + 41 < 2 ^ 16"
    and h: "shb_header E data R = Some h" "length h = 40" and "\<not> no_neighbor data R"
  shows "\<exists>m'. TransmitSHB m E p (n + 41) data True R = Some (0, m', gn_log (Transmitted (3 # h @ drop 41 Y)) R)"
proof -
  have len: "length Y = n + 41" by (rule load_length [OF Y(1)])
  have "Y = 3 # tl Y" using len Y(2) by (cases Y) auto
  moreover have "overwrite Y 1 h = take 1 Y @ h @ drop 41 Y" using h(2) by (simp add: overwrite_def)
  ultimately have over: "overwrite Y 1 h = 3 # h @ drop 41 Y" by (metis append_Cons append_Nil take0 take_Suc_Cons One_nat_def)
  from save_ok [OF Y(1), of 1 h] h(2) obtain m' where m': "save m (ptr_add p 1) h = Some m'"
    "load m' p (n + 41) = Some (3 # h @ drop 41 Y)" by (auto simp: over [simplified])
  moreover obtain bc where "InitBH_and_CH (Config R) data = Some bc" "h = bc @ lpv_bytes (InitSourceLPV E R) @ [0, 0, 0, 0]"
    using h(1) by (auto simp: shb_header_def)
  moreover have "nat (int (n + 41) mod 2 ^ 16) = n + 41" "nat (int n + 41) = n + 41" using Y(3) by simp_all
  ultimately show ?thesis
    using assms(6) by (simp add: TransmitSHB_def transmit_cb_def)
qed

lemma Transmit_sent:
  assumes ok: "shb_ok data R" "\<not> no_neighbor data R" "41 \<le> ab_data bp" "n + 41 < 2 ^ 16"
    and pkt: "shb_sent m E b bp n data R = Some pkt"
  shows "\<exists>m'. Transmit m E b bp n data addr True R =
    Some (0, m', bp\<lparr>ab_data := ab_data bp - 41\<rparr>, gn_log (Transmitted pkt) R)"
proof -
  obtain h payload where h: "shb_header E data R = Some h" "pkt = 3 # h @ payload"
    "load m (b, nat (ab_data bp)) n = Some payload"
    using pkt by (auto simp: shb_sent_def split: bind_splits)
  let ?p = "(b, nat (ab_data bp - 41))"
  obtain B where B: "m b = Some B" "nat (ab_data bp) + n \<le> length B" "payload = take n (drop (nat (ab_data bp)) B)"
    using h(3) by (auto simp: load_def split: option.splits if_splits)
  let ?Y = "take (n + 41) (drop (nat (ab_data bp - 41)) B)"
  have Y: "load m ?p (n + 41) = Some ?Y" using B ok(3) by (simp add: load_def)
  obtain m' where m': "save m (ptr_add ?p 0) [3] = Some m'" "load m' ?p (n + 41) = Some (overwrite ?Y 0 [3])"
    using save_ok [OF Y, of 0 "[3]"] by auto
  have "drop 41 (overwrite ?Y 0 [3]) = drop 41 ?Y" by (simp add: overwrite_front)
  also have "\<dots> = payload" using ok(3) by (simp add: B(3) drop_take nat_diff_distrib)
  finally have "drop 41 (overwrite ?Y 0 [3]) = payload" .
  with TransmitSHB_sent [OF m'(2) _ ok(4) h(1) shb_header_bytes(1) [OF ok(1) h(1)] ok(2)]
  obtain m'' where "TransmitSHB m' E ?p (n + 41) data True R = Some (0, m'', gn_log (Transmitted pkt) R)"
    by (auto simp: overwrite_front h(2))
  with ok m'(1) show ?thesis
    by (auto simp: Transmit_def shb_ok_def transmit_broadcast_def push_header_def abuf_push_def ptr_add_def add.commute)
qed

section \<open>Receiving\<close>

text \<open>The data and the entry of the neighbor that a packet with these headers leads to.\<close>

definition shb_neighbor :: "gn_lpv \<Rightarrow> LocTableEntry" where
  "shb_neighbor v = (entry_of_lpv v)\<lparr>isNeighbor := Some True\<rparr>"

lemma Receive_shb:
  assumes ok: "shb_ok data R" "shb_header E data R = Some h"
    and Y: "load m p (40 + n) = Some (h @ payload)" "length payload = n"
    and R2: "TableEntries (LocTable R2) = []" "in_int32 (NeighborCount R2 + 1)"
  shows "\<exists>m' data' R'. Receive m E2 (Some p) BufLen data2 R2 = Some (Some 0, m', data', R') \<and>
    upper_prot data' = upper_prot data \<and> pkt_type data' = GN_PCCKET_TYPE_TSB \<and> is_shb data' \<and>
    gd_payload_len data' = gd_payload_len data \<and> gd_tc data' = gd_tc data \<and>
    load m' (ptr_add p 40) n = Some payload \<and> NeighborCount R' = NeighborCount R2 + 1 \<and>
    TableEntries (LocTable R') = [(ptr_add p 14, shb_neighbor (InitSourceLPV E R))]"
proof -
  note hd = shb_header_bytes [OF ok]
  have nth: "(h @ payload) ! i = h ! i" if "i < 40" for i using that hd(1) by (simp add: nth_append)
  obtain m' where m': "load m' p (40 + n) = Some ((h @ payload)[3 := hop_left (h ! 3)])"
    and run: "Receive m E2 (Some p) BufLen data2 R2 =
      (case receive_type m' E2 0x50 p BufLen (header_data (Config R2) (h @ payload) data2) (FlushQueue BC_Q None False R2) of
         None \<Rightarrow> None | Some (ret, data, R) \<Rightarrow> Some (ret, m', data, R))"
    by (rule Receive_accepted [OF Y(1), of E2 BufLen data2 R2]) (use hd nth in auto)
  have type: "receive_type m' E2 0x50 p BufLen d R' = ReceiveBeacon_or_SHB m' E2 True p d R'" for d R'
    by (simp add: receive_type_def Let_def)
  have sub: "load m' (ptr_add p 40) n = Some payload" "load m' (ptr_add p 12) 24 = Some (take 24 (drop 12 h))"
    using load_sub [OF m', of 40 n] load_sub [OF m', of 12 24] hd(1) Y(2) by (simp_all add: list_update_append drop_update_cancel)
  have "update_lpv m' (gn_now E2) (ptr_add p 12) (LocTable (FlushQueue BC_Q None False R2)) =
      Some (0, (LocTable R2)\<lparr>TableEntries := [(ptr_add p 14, entry_of_lpv (InitSourceLPV E R))]\<rparr>)"
    using update_lpv_empty [OF R2(1) sub(2), of "gn_now E2"] hd(9) by (simp add: ptr_add_def)
  moreover have "NeighborCount (FlushQueue BC_Q None False R2) = NeighborCount R2" by (simp add: FlushQueue_def gn_log_def)
  moreover have "packet_of (drop_bit 4 0x50) = GN_PCCKET_TYPE_TSB" by (simp add: packet_of_def)
  ultimately show ?thesis
    using sub(1) R2(2) hd nth
    by (simp add: run type ReceiveBeacon_or_SHB_def update_source_def upd_entry_def shb_neighbor_def header_data_def)
qed

end
