(* ===== verification/GnScenarios.thy ===== *)
theory GnScenarios
  imports GnRoundtrip
begin

text \<open>
  What the router makes of sequences of packets: the stations behind one receive buffer, packets with hops left,
  the passes of the loop that flushes a queue, and the coding of life times.
\<close>

section \<open>Packets in the same buffer\<close>

text \<open>Packets received one after the other at the same place, each with what memory then holds.\<close>

fun receive_run :: "gn_env \<Rightarrow> gptr \<Rightarrow> nat \<Rightarrow> GnData \<Rightarrow> store list \<Rightarrow> router \<Rightarrow> int option list option" where
  "receive_run E p n data [] R = Some []"
| "receive_run E p n data (m # ms) R = do {
     (ret, m', d, R) \<leftarrow> Receive m E (Some p) n data R;
     rets \<leftarrow> receive_run E p n data ms R;
     Some (ret # rets)
   }"

definition answer :: "bool \<Rightarrow> int option" where
  "answer d = Some (if d then - 1 else 0)"

definition alive :: "gn_env \<Rightarrow> int \<Rightarrow> u8 list \<Rightarrow> bool" where
  "alive E l Y = live (gn_now E) l (lpv_tst (source_lpv Y))"

lemma lpv_newest: "LPV (newest v e) = v \<or> LPV (newest v e) = LPV e"
  by (simp add: newest_def)

lemma receive_run_known:
  assumes "list_all2 (\<lambda>m Y. tsb_packet m p Y \<and> alive E l Y) ms Ys"
    "TableEntries (LocTable R) = [(ptr_add p 18, e)]" "LifeTime (LocTable R) = l" "live (gn_now E) l (lpv_tst (LPV e))"
    "map fst (DPL e) = last_n MAX_DPL_LEN old"
  shows "receive_run E p n data ms R = Some (map answer (fst (new_numbers old (map packet_sn Ys))))"
  using assms
proof (induction ms Ys arbitrary: R e old rule: list_all2_induct)
  case Nil
  then show ?case by simp
next
  case (Cons m ms Y Ys)
  let ?d = "packet_sn Y \<in> fst ` set (DPL e)"
  obtain e' where e': "entry_isDuplicated (packet_sn Y) e = (packet_sn Y \<in> set (last_n MAX_DPL_LEN old), e')"
    "map fst (DPL e') = last_n MAX_DPL_LEN (if packet_sn Y \<in> set (last_n MAX_DPL_LEN old) then old else old @ [packet_sn Y])"
    using entry_isDuplicated_step [OF Cons.prems(4)] by blast
  have d: "?d \<longleftrightarrow> packet_sn Y \<in> set (last_n MAX_DPL_LEN old)" by (simp flip: Cons.prems(4))
  have same: "LPV e' = LPV e" using entry_isDuplicated_simps [OF e'(1)] by simp
  obtain m' R' where run: "Receive m E (Some p) n data R = Some (answer ?d, m', header_data (Config R) Y data, R')"
    and table: "TableEntries (LocTable R') = [(ptr_add p 18, if ?d then e' else newest (source_lpv Y) e')]"
    and l: "LifeTime (LocTable R') = l"
    using tsb_known [of m p Y R e E n data] Cons.hyps Cons.prems(1-3) by (auto simp: e'(1) answer_def)
  have "live (gn_now E) l (lpv_tst (LPV (if ?d then e' else newest (source_lpv Y) e')))"
    using Cons.hyps(1) Cons.prems(3) same lpv_newest [of "source_lpv Y" e'] by (auto simp: alive_def)
  moreover have "map fst (DPL (if ?d then e' else newest (source_lpv Y) e')) =
      last_n MAX_DPL_LEN (if ?d then old else old @ [packet_sn Y])" using e'(2) d by simp
  ultimately have "receive_run E p n data ms R' =
      Some (map answer (fst (new_numbers (if ?d then old else old @ [packet_sn Y]) (map packet_sn Ys))))"
    by (rule Cons.IH [OF table l])
  with run d show ?case by (simp add: case_prod_unfold Let_def)
qed

lemma receive_run_all:
  assumes "list_all2 (\<lambda>m Y. tsb_packet m p Y \<and> alive E (LifeTime (LocTable R)) Y) (m # ms) (Y # Ys)"
    "TableEntries (LocTable R) = []"
  shows "receive_run E p n data (m # ms) R = Some (Some 0 # map answer (fst (new_numbers [] (map packet_sn Ys))))"
proof -
  obtain m' R' where run: "Receive m E (Some p) n data R = Some (Some 0, m', header_data (Config R) Y data, R')"
    and table: "TableEntries (LocTable R') = [(ptr_add p 18, entry_of_lpv (source_lpv Y))]"
    and l: "LifeTime (LocTable R') = LifeTime (LocTable R)"
    using tsb_first [of m p Y R E n data] assms by auto
  have "receive_run E p n data ms R' = Some (map answer (fst (new_numbers [] (map packet_sn Ys))))"
    by (rule receive_run_known [OF _ table l]) (use assms(1) in \<open>auto simp: entry_of_lpv_def alive_def last_n_def\<close>)
  with run show ?thesis by simp
qed

section \<open>Packets with hops left\<close>

lemma receive_hops:
  assumes Y: "load m p n = Some Y" "40 \<le> n" and ok: "basic_header_ok (Y ! 0)" "common_header_ok (Y ! 4) (Y ! 5)"
    and tsb: "drop_bit 4 (Y ! 5) = 5" "Y ! 5 AND 0xF = 1" and hops: "1 < Y ! 3" "Y ! 3 \<le> Y ! 10"
    and "TableEntries (LocTable R) = []" "1 < BufLen"
  shows "Receive m E (Some p) BufLen data R = None"
proof -
  have len: "length Y = n" by (rule load_length [OF Y(1)])
  have left: "hop_left (Y ! 3) \<le> Y ! 10" using hop_left_le [of "Y ! 3"] hops(2) by simp
  have "unat (Y ! 3 - 1) = unat (Y ! 3) - 1" using hops(1) by (intro unat_minus_one) auto
  then have pos: "hop_left (Y ! 3) > 0" using hops(1) by (auto simp: hop_left_def word_less_nat_alt)
  obtain m' where m': "load m' p n = Some (Y[3 := hop_left (Y ! 3)])"
    "Receive m E (Some p) BufLen data R =
      (case receive_type m' E (Y ! 5) p BufLen (header_data (Config R) Y data) (FlushQueue BC_Q None False R) of
         None \<Rightarrow> None | Some (ret, data, R) \<Rightarrow> Some (ret, m', data, R))"
    by (rule Receive_accepted [of m p n Y E BufLen data R]) (use assms left in auto)
  note fields = tsb_fields [OF m'(1) Y(2) len]
  have dup: "table_isDuplicated m' (gn_now E) k sn (LocTable R) = Some (False, LocTable R)" for k sn
    using find_mid_empty [OF assms(9)] by (simp add: table_isDuplicated_def)
  show ?thesis
    using pos tsb update_lpv_empty [OF assms(9) fields(3)] assms(10)
    by (simp add: m'(2) receive_type_def Let_def ReceiveTSB_def duplicate_def update_source_def fields dup copy_packet_def)
qed

section \<open>Flushing a queue\<close>

definition passes :: "nat \<Rightarrow> u8 list \<Rightarrow> router \<Rightarrow> router" where
  "passes k bs R = R\<lparr>gn_trace := gn_trace R @ replicate k (Transmitted bs)\<rparr>"

lemma passes_0 [simp]: "passes 0 bs R = R"
  by (simp add: passes_def)

lemma flush_queue_passes:
  assumes "too_old now e = Some False" "qe_txcb e" "qe_BufLen e mod 2 ^ 16 \<le> length (qe_Buffer e)"
  shows "flush_queue False now (e # q) R =
    flush_queue False now (e # q) (passes k (take (qe_BufLen e mod 2 ^ 16) (qe_Buffer e)) R)"
proof (induction k)
  case (Suc k)
  let ?bs = "take (qe_BufLen e mod 2 ^ 16) (qe_Buffer e)"
  have "send_element e R' = Some (gn_log (Transmitted ?bs) R')" for R'
    using assms(2,3) by (simp add: send_element_def Let_def linorder_not_less)
  with assms(1) have "flush_queue False now (e # q) R' = flush_queue False now (e # q) (gn_log (Transmitted ?bs) R')" for R'
    by (subst flush_queue.simps) simp
  from Suc.IH this [of "passes k ?bs R"] have "flush_queue False now (e # q) R =
      flush_queue False now (e # q) (gn_log (Transmitted ?bs) (passes k ?bs R))" by (rule trans)
  also have "gn_log (Transmitted ?bs) (passes k ?bs R) = passes (Suc k) ?bs R"
    by (simp add: passes_def gn_log_def replicate_append_same)
  finally show ?case .
qed simp

section \<open>Life times\<close>

definition coded :: "nat \<Rightarrow> nat \<Rightarrow> u8" where
  "coded q k = ucast (push_bit 2 (word_of_nat q AND 0xFF) OR word_of_nat k :: u32)"

lemma decode_coded:
  "q < 20 \<Longrightarrow> unat (DecodeLifeTime (coded q 0)) = q * 50"
  "q < 10 \<Longrightarrow> unat (DecodeLifeTime (coded q 1)) = q * 1000"
proof -
  have "list_all (\<lambda>q. unat (DecodeLifeTime (coded q 0)) = q * 50) [0..<20]"
    "list_all (\<lambda>q. unat (DecodeLifeTime (coded q 1)) = q * 1000) [0..<10]"
    by code_simp+
  then show "q < 20 \<Longrightarrow> unat (DecodeLifeTime (coded q 0)) = q * 50"
    "q < 10 \<Longrightarrow> unat (DecodeLifeTime (coded q 1)) = q * 1000"
    by (simp_all add: list_all_iff)
qed

lemma div_word: "lt div word_of_nat b = (word_of_nat (unat lt div b) :: u32)" if "b < 2 ^ 32"
proof (rule word_unat_eq_iff [THEN iffD2])
  have "unat lt div b \<le> unat lt" by (rule div_le_dividend)
  also have "unat lt < 2 ^ 32" using unsigned_less [of lt] by simp
  finally show "unat (lt div word_of_nat b) = unat (word_of_nat (unat lt div b) :: u32)"
    using that by (simp add: unat_div unsigned_of_nat take_bit_nat_eq_self)
qed

lemma life_time_coding:
  "unat lt < 1000 \<Longrightarrow> \<exists>c. EncodeLifeTime lt = Some c \<and> unat (DecodeLifeTime c) = unat lt div 50 * 50"
  "1000 < unat lt \<Longrightarrow> unat lt < 10000 \<Longrightarrow>
     \<exists>c. EncodeLifeTime lt = Some c \<and> unat (DecodeLifeTime c) = unat lt div 1000 * 1000"
  "unat lt = 1000 \<or> 10000 \<le> unat lt \<Longrightarrow> EncodeLifeTime lt = None"
proof -
  assume t: "unat lt < 1000"
  then have "EncodeLifeTime lt = Some (coded (unat lt div 50) 0)"
    using div_word [of 50 lt] by (simp add: EncodeLifeTime_def coded_def word_less_nat_alt)
  with t decode_coded(1) [of "unat lt div 50"]
  show "\<exists>c. EncodeLifeTime lt = Some c \<and> unat (DecodeLifeTime c) = unat lt div 50 * 50" by simp
next
  assume t: "1000 < unat lt" "unat lt < 10000"
  then have "EncodeLifeTime lt = Some (coded (unat lt div 1000) 1)"
    using div_word [of 1000 lt] by (simp add: EncodeLifeTime_def coded_def word_less_nat_alt)
  with t decode_coded(2) [of "unat lt div 1000"]
  show "\<exists>c. EncodeLifeTime lt = Some c \<and> unat (DecodeLifeTime c) = unat lt div 1000 * 1000" by simp
next
  assume "unat lt = 1000 \<or> 10000 \<le> unat lt"
  then show "EncodeLifeTime lt = None" by (auto simp: EncodeLifeTime_def word_less_nat_alt)
qed

section \<open>Examples\<close>

text \<open>Two stations, a packet of theirs for several hops, and data to send.\<close>

definition gn_conf0 :: GnConfig where
  "gn_conf0 = InitDefaultConfig \<lparr>cfg_mid = [1, 2, 3, 4, 5, 6], itsGnLocalAddrConfMethod = GN_LOCAL_ADDR_CONF_AUTO,
     itsGnProtocolVersion = 1, cfg_StationType = 0, itsGnIsMobile = False, itsGnPaiInterval = 0, itsGnLifetimeLocTE = 0,
     itsGnLocationServiceMaxRetrans = 0, itsGnMaxPacketLifetime = 0, itsGnDefaultPacketLifetime = 0,
     itsGnMinPacketRepetitionInterval = 0, itsGnNonAreaForwardingAlgorithm = GN_NAF_GREEDY,
     itsGnAreaForwardingAlgorithm = GN_AF_CBF, itsGnCbfMinTime = 0, itsGnCbfMaxTime = 0,
     itsGnDefaultMaxCommunicationRange = 0, itsGnUcForwardingPacketBufferSize = 0, itsGnBcForwardingPacketBufferSize = 0\<rparr>"

definition gn_router0 :: router where
  "gn_router0 = new_router 0 gn_conf0"

definition gn_env0 :: gn_env where
  "gn_env0 = \<lparr>gn_now = 0, position = \<lparr>latitude_epv = 1, longitude_epv = 2, s_epv = 3, h_epv = 4\<rparr>,
     GeoDistance = \<lambda>a b c d. 0, CartesianTransform = \<lambda>a b c d e. (0, 0)\<rparr>"

definition gn_data0 :: GnData where
  "gn_data0 = (InitDefaultGnData gn_conf0 \<lparr>upper_prot = GN_UPPER_PROTO_ANY, pkt_type = GN_PACKET_TYPE_ANY, is_shb = True,
     gd_payload_len = 0, d_type = DE_TYPE_GN_ADDR, d_addr = [],
     d_area = \<lparr>gp_latitude = 0, gp_longitude = 0, dist_a = 0, dist_b = 0, area_angle = 0, area_type = GEO_AREA_TYPE_CIRCLE\<rparr>,
     max_lt = 0, repetition_interval = 0, max_hl = 0, gd_tc = 0\<rparr>)
     \<lparr>pkt_type := GN_PCCKET_TYPE_TSB, upper_prot := GN_UPPER_PROTO_BTP_B, gd_payload_len := 3, gd_tc := 2\<rparr>"

definition gn_mem0 :: store where
  "gn_mem0 = [7 \<mapsto> replicate 50 0 @ [8, 9, 10]]"

definition gn_buf0 :: abuf where
  "gn_buf0 = \<lparr>ab_block = [], ab_data = 50, ab_tail = 53, head_headspace_bits = 8, tail_bits_left = 8\<rparr>"

definition tsb_bytes :: "u8 \<Rightarrow> u8 \<Rightarrow> u8 \<Rightarrow> u8 list" where
  "tsb_bytes hops station sn = [0x11, 0, 0, hops, 0x20, 0x51, 0, 0, 0, 0, 10, 0, sn, 0, 0, 0, 0, 0] @
     replicate 6 station @ replicate 16 0"

end
