(* ===== verification/Spec2Isabelle.thy ===== *)
theory Spec2Isabelle
  imports RilScenarios ParcelOps RilEventLoop V2xRoundtrip VendorScenarios GnScenarios
begin

text \<open>
  Verification of the native core of the telematics stack: the RIL daemon, which lets telephone
  clients drive a modem's vendor library, the reference vendor library with its channel to a modem,
  and the V2X message codec and the GeoNetworking router of the intelligent transport application.
  Source paths are relative to the repository's \<open>src\<close>; \<open>ril\<close> is \<open>services/ril\<close>, \<open>rits\<close> is
  \<open>public/apps/reference/rits/src\<close>.

  \<^bold>\<open>The daemon.\<close> A client connects to a command socket and sends length-prefixed records.
  \<open>ril/libril/ril_event.cpp\<close> waits on the sockets and calls back; \<open>record_stream.c\<close> cuts the bytes
  into records; \<open>processCommandBuffer\<close> of \<open>ril/libril/ril.cpp\<close> looks the command up, remembers it
  in a list of pending requests and calls its dispatch function, which reads the arguments from a
  \<open>Parcel\<close> (\<open>ril/mocks/binder/Parcel2.cpp\<close>) into a C structure and hands it to the vendor library's
  \<open>onRequest\<close>. The vendor library answers through \<open>RIL_onRequestAck\<close>, \<open>RIL_onRequestComplete\<close> and
  \<open>RIL_onUnsolicitedResponse\<close>; a response function marshals the structure into a parcel, which goes
  to the socket as one frame, a big-endian length and the message.

  \<^item> \<open>Prelude\<close>, \<open>Utf\<close>: machine types, byte order, the calculus of fallible steps; the UTF-8 and UTF-16
    conversions of the standard library that strings in a parcel pass through.
  \<^item> \<open>Interfaces\<close>: the contracts (locales) between the parcel and its clients: a source of bytes, a
    reader of items, a sink of items. \<open>ParcelFacts\<close> interprets them on the parcel.
  \<^item> \<open>Parcel\<close>, \<open>ParcelFacts\<close>, \<open>ParcelOps\<close>: every operation of the class with its growth policy and
    its allocator; the invariant, the wire form of every item, and sequences of operations with what they rely on.
  \<^item> \<open>RilTypes\<close>, \<open>RilDispatch\<close>, \<open>RilDispatchFacts\<close>: the structures of \<open>telephony/ril.h\<close>, the 29 dispatch
    functions, that a request in the documented layout reaches the vendor library, what a truncated
    one leads to.
  \<^item> \<open>RilResponse\<close>, \<open>RilScenarios\<close>: the response functions as the items they write, and what the
    daemon says to whom.
  \<^item> \<open>RecordStream\<close>: \<open>record_stream.c\<close>, that it refines the splitting of the whole byte stream, and that a
    client that keeps to the limit is served completely.
  \<^item> \<open>RilCore\<close>, \<open>RilCoreFacts\<close>, \<open>RilSteps\<close>: the command tables, the pending lists, completion, unsolicited
    responses and the connections as state transformers; the daemon as a step relation under any
    interleaving of clients, vendor library and environment, with its invariants by rule induction.
  \<^item> \<open>RilEvent\<close>, \<open>RilEventFacts\<close>, \<open>RilEventLoop\<close>: the event loop on a heap of events with explicit links;
    the contract of its lists (locale \<open>event_lists\<close>), the sorted timers, one round of the loop.

  \<^bold>\<open>The AT channel.\<close> The reference vendor library talks to a modem in lines of text. A reader thread cuts
  the bytes into lines (\<open>readline\<close> of \<open>ril/reference-ril/atchannel.c\<close>) and sorts them (\<open>processLine\<close>) into the
  response of the command that a thread waits for and unsolicited ones; \<open>at_tok.c\<close> takes lines apart.

  \<^item> \<open>AtTok\<close>, \<open>AtTokFacts\<close>: the tokenizer with the functions of the C library it calls; the contract of a reader
    of fields (locale \<open>field_reader\<close>) and what is read back from a line.
  \<^item> \<open>AtChannel\<close>: buffer, reader, commands, and the threads that share the channel; every section under the
    mutex is one action, what happens while a thread waits is a list.
  \<^item> \<open>AtLines\<close>, \<open>AtCommands\<close>: that the reader refines the cutting of the stream at its newlines, and fails to
    behind a prompt; the response a command returns; the threads as a transition system with its invariant.

  \<^bold>\<open>The reference vendor library.\<close> \<open>onRequest\<close> of \<open>ril/reference-ril/reference-ril.c\<close> answers the daemon's
  requests: it sends commands over the AT channel, takes the answers apart with the tokenizer, and completes
  the request with a structure that the daemon's response functions marshal.

  \<^item> \<open>VendorState\<close>: the static variables, how a command is sent, the radio's state, the modem's technology. What
    the modem sends is a list of events for the waits; handlers of the reader thread run as soon as a wait is over.
  \<^item> \<open>VendorRequests\<close>, \<open>VendorNetwork\<close>, \<open>VendorRil\<close>: the requests, \<open>onRequest\<close> itself, the probing of the modem,
    its initialization, unsolicited lines, and the library as a step relation (\<open>vendor_step\<close>).
  \<^item> \<open>VendorFacts\<close>, \<open>VendorLines\<close>: that every request is completed once, with the exceptions; the invariant of
    the steps; what is read back from lists of calls and from registration lines.
  \<^item> \<open>VendorScenarios\<close>: a request of the daemon that the library serves and the modem answers, with the three
    programs composed (\<open>serve\<close>), down to the frame the client receives.

  \<^bold>\<open>The V2X codec.\<close> \<open>encode_msg\<close> of \<open>rits/qCoder/src/v2x_codec.c\<close> writes a basic safety message into a bit
  buffer and puts the security, WSMP and BTP headers in front of it; \<open>decode_msg\<close> takes them off again.

  \<^item> \<open>V2xBuf\<close>, \<open>V2xBufFacts\<close>, \<open>V2xBits\<close>, \<open>V2xLengths\<close>: the buffer of \<open>asnbuf.h\<close>; that it refines a sequence of bits
    (locale \<open>bit_queue\<close>), and the two encodings of lengths with their readers.
  \<^item> \<open>V2xCodec\<close>, \<open>V2xWsm\<close>: the messages and layers of \<open>j2735.c\<close>, \<open>ieee1609.2.c\<close>, \<open>wsmp.c\<close>, \<open>btp.c\<close>, \<open>v2x_codec.c\<close>.
  \<^item> \<open>V2xEncode\<close>, \<open>V2xLayers\<close>, \<open>V2xRead\<close>, \<open>V2xRoundtrip\<close>: the bits each layer leaves, what each reader makes of
    them, and the two directions together.

  \<^bold>\<open>The GeoNetworking router.\<close> \<open>rits/qMessenger/GeoNetRouter\<close> puts network headers in front of messages and takes
  them off received packets, remembers the stations it hears of, and decides what to deliver, forward or queue.

  \<^item> \<open>GnTable\<close>: \<open>LocationTable.cpp\<close>, a map whose keys are pointers into packets, so memory is an explicit store
    of blocks; a lookup while the keys are out of order is undefined.
  \<^item> \<open>GnRouter\<close>: \<open>GeoNetRouterImpl.cpp\<close>, from the configuration to the location service. Tasks for other
    threads are events of a trace; clock, position and the floating-point geometry are parameters.
  \<^item> \<open>GnFacts\<close>, \<open>GnRoundtrip\<close>, \<open>GnScenarios\<close>: the window of the duplicate detection, accepted packets, a packet from
    router to router, and sequences of packets in one buffer.

  \<^bold>\<open>Conventions.\<close> A C structure is a record, an \<open>int\<close> or an \<open>enum\<close> field the 32-bit word stored in it, a
  block of memory a list of bytes. \<open>None\<close> is a run that leaves defined behaviour (an access outside a
  block, a null or freed pointer, a failed assertion, an uncaught exception) or, where the operating
  system's answers are a list, one that has used them up without returning. Theorems that give
  \<open>Some\<close> therefore say that the code returns and stays defined. The build modelled is the one of
  \<open>ril/CMakeLists.txt\<close> (\<open>RIL_FOR_MDM_LE\<close>, no trace of requests) on a 64-bit little-endian
  machine; the number of SIM cards is a parameter of the environment.

  \<^bold>\<open>Bounds.\<close> A record holds at most 8192 bytes, as \<open>MAX_COMMAND_BYTES\<close> says; theorems on parcels ask
  that sizes stay below \<open>INT32_MAX\<close> (what the signed fields hold) or \<open>GROW_LIMIT\<close> (what the growth by
  one half reaches without overflow). At most 8 descriptors are watched, \<open>MAX_FD_EVENTS\<close>. Bit fields
  are at most 32 bits wide, as the code's words; the headers of a safety message need 104 bits in
  front of it. \<open>RIL_onUnsolicitedResponse\<close> calls itself
  through \<open>processRadioState\<close>, whose own message never does; its body is unrolled twice, and theorem
  \<open>unsolicited_recursion\<close> shows that this is the whole recursion. No other fuel is used: the vendor library's
  loops run over the lines of a response, the bytes left of a line, or a fixed number of tries.

  \<^bold>\<open>Not modelled.\<close> Mutexes (an operation is one step), wake locks (no-ops in this build), logging and
  tracing, the names in \<open>requestToString\<close>. Of the structures in \<open>telephony/ril.h\<close> those no request and no
  modelled response uses. The SAP socket, which this build leaves out. Of the vendor library \<open>RIL_Init\<close>
  and \<open>mainLoop\<close>, which read options and open the device, the variants for other modems that the build
  leaves out, and \<open>getRUIMStatus\<close> and \<open>requestCdmaPrlVersion\<close>, which nothing calls. Of the GeoNetworking
  router the queue of contention-based forwarding, into which nothing is ever put, with its task; the
  applications around it. In the codec the optional second part of a safety message and the generated
  coders of the ETSI messages, which are parameters where the modelled code calls them. The public
  \<open>telux\<close> headers declare interfaces whose implementation is not in the repository; the sample and test
  applications only call them.
\<close>

section \<open>The parcel\<close>

text \<open>C23: writing any sequence of integers, strings and byte blocks into a fresh parcel never leaves
  defined behaviour and produces exactly the concatenation of the items' wire forms, as long as
  the allocator serves every request and the whole message stays below the size to which the
  parcel can grow.\<close>

theorem parcel_writes_concatenate:
  assumes "plenty A" and "list_all witem_ok is" and "length (wire is) \<le> GROW_LIMIT"
  shows "\<exists>p. put_all (put A) is initState = Some p \<and> parcel_ok p \<and> contents p = wire is"
proof -
  have room: "roomy A initState (length (concat (map enc_witem is)))"
    using assms(1,3) by (simp add: wire_def initState_def)
  from sink.put_all_enc [OF assms(2) at_end_initState room] show ?thesis
    by (auto simp: wire_def at_end_def)
qed

lemma parcel_writes_concatenate_witness:
  "\<exists>p. put_all (put heap0) [WInt32 7, WBytes [1, 2, 3]] initState = Some p \<and> parcel_ok p \<and>
     contents p = wire [WInt32 7, WBytes [1, 2, 3]]"
  by (rule parcel_writes_concatenate) (simp_all add: padding_def)

text \<open>C24: any sequence of the parcel's public operations, reads and writes mixed, runs without leaving defined behaviour and
  keeps the block live, as long as the capacity field says, with size and position inside it, whatever the allocator
  refuses; provided that positions are set inside the data, no data is set only where there is no block, strings are
  of possible length and encoding, and a C string is read from data made of whole words.\<close>

theorem parcel_operations_safe:
  assumes "ops_ok A ops initState"
  shows "\<exists>p. run_ops A ops initState = Some p \<and> parcel_ok p"
  by (rule run_ops_ok [OF _ assms]) simp

lemma parcel_operations_safe_witness:
  "\<exists>p. run_ops heap0 [OpSetData [7, 0, 0, 0, 65, 66, 0, 0], OpReadInt32, OpReadCString, OpSetDataPosition 4, OpReadInt32,
      OpAppendFrom (initState\<lparr>mData := Block [5], mDataSize := 1, mDataCapacity := 1\<rparr>) 0 1] initState = Some p \<and> parcel_ok p"
  by (rule parcel_operations_safe)
    (simp add: heap0_def initState_def setData_def restartWrite_def malloc_def poke_def overwrite_def Let_def parcel_ok_def
      readInt32_def readAligned0_def readAligned_def peek_def readCString_def szsub_def memchr0_def pad_size_def
      setDataPosition_def dvd_eq_mod_eq_0 mod_Suc split: option.split)

section \<open>Requests\<close>

text \<open>C8: every request that a client writes in the documented layout reaches the vendor library
  as exactly one \<open>onRequest\<close> call with the client's data and the length of its structure.\<close>

theorem request_roundtrip:
  assumes "msg p (wire (request_items d) @ r)" and "request_ok E d" and "env_ok E"
  shows "run_dispatch (request_fn d) E p = Some [OnRequest d (request_len E d)]"
  by (rule deliver [OF assms])

lemma request_roundtrip_witness:
  "run_dispatch F_dispatchSmsWrite (env0 12 RADIO_STATE_ON)
     (parcel_of (wire [WInt32 3, WStr (Some [0x30, 0x31]), WStr None])) =
   Some [OnRequest (DSmsWrite \<lparr>sms_status = 3, sms_pdu = Some [0x30, 0x31], sms_smsc = None\<rparr>) 24]"
proof -
  let ?d = "DSmsWrite \<lparr>sms_status = 3, sms_pdu = Some [0x30, 0x31], sms_smsc = None\<rparr>"
  have "from_bytes [0x30, 0x31] = Some [0x30, 0x31]"
    by (simp add: from_bytes_def utf16_encode1_def)
  then have "request_ok (env0 12 RADIO_STATE_ON) ?d"
    and len: "length (wire (request_items ?d)) \<le> INT32_MAX"
    by (simp_all add: str_ok_def enc_str_def enc_string8_def enc_string16_def padding_def)
  with request_roundtrip [of "parcel_of (wire (request_items ?d))" ?d "[]" "env0 12 RADIO_STATE_ON"]
  show ?thesis by (simp add: msg_parcel_of)
qed

text \<open>C30: whatever the bytes of a command, its dispatch function calls \<open>onRequest\<close> at most once,
  and not at all when it reports an invalid command block or a failed allocation.\<close>

theorem one_request_per_command:
  "safe (run_dispatch fn E p) (\<lambda>es. length (requests_of es) \<le> 1 \<and>
     (InvalidCommandBlock \<in> set es \<or> AllocFailed \<in> set es \<longrightarrow> requests_of es = []))"
  using run_dispatch_single [of fn E p] unfolding single_def [abs_def] .

lemma one_request_per_command_witness:
  "safe (run_dispatch F_dispatchVoid (env0 12 RADIO_STATE_ON) initState) (\<lambda>es. length (requests_of es) \<le> 1 \<and>
     (InvalidCommandBlock \<in> set es \<or> AllocFailed \<in> set es \<longrightarrow> requests_of es = []))"
  by (rule one_request_per_command)

text \<open>A command that ends before its first integer is reported as invalid and reaches the
  vendor library in no way, for every dispatch function that begins with an integer it checks.\<close>

theorem truncated_request_refused:
  assumes "msg p xs" and "length xs < 4" and "fn \<in> checks_first"
  shows "run_dispatch fn E p = Some [InvalidCommandBlock]"
  by (rule short_refused [OF assms])

lemma truncated_request_refused_witness:
  "run_dispatch F_dispatchInts (env0 12 RADIO_STATE_ON) (parcel_of [1, 2]) = Some [InvalidCommandBlock]"
  by (rule truncated_request_refused [of _ "[1, 2]"]) (simp_all add: msg_parcel_of checks_first_def)

section \<open>The request life cycle\<close>

text \<open>C1: a command whose number the table knows and whose body has the documented layout puts one
  request at the head of its socket's pending list and reaches the vendor library as exactly one
  call, with the client's data and the token that stands for the request.\<close>

theorem command_reaches_vendor:
  assumes "env_ok (conf_env C)" and "request_ok (conf_env C) d" and "length buffer \<le> INT32_MAX"
    and "buffer = wire ([WInt32 request, WInt32 tok] @ request_items d) @ r"
    and "1 \<le> sint request" "sint request \<le> 141" and "calloc_request C (requests s) = Some t"
    and "fst (snd (s_commands ! (unat request - 1))) = request_fn d"
  shows "processCommandBuffer C buffer sock s =
    Some (log_event (Issued t (unat request) d (request_len (conf_env C) d) sock)
      (enqueue_request t (new_request tok (unat request) sock) (socket_hook C sock) s))"
  by (rule command_issues [OF assms(3,1,2,4-8)])

lemma command_reaches_vendor_witness:
  "processCommandBuffer (conf0 12) (wire [WInt32 12, WInt32 7, WInt32 1, WInt32 3]) 0 (ril0 5 0) =
   Some (log_event (Issued 8 12 (DInts [3]) 4 0) (enqueue_request 8 (new_request 7 12 0) 0 (ril0 5 0)))"
  using command_reaches_vendor [of "conf0 12" "DInts [3]" "wire [WInt32 12, WInt32 7, WInt32 1, WInt32 3]" 12 7 "[]"
      "ril0 5 0" 8 0]
  by (simp add: few_def s_commands_def)

text \<open>C2: completing a request that a client waits for removes it and writes to that client's
  socket one frame: its length, the kind of response, the client's token, the result code and the
  response's items; a response that cannot be marshalled has its error as the result code.\<close>

theorem completion_answers:
  assumes "awaiting C s t r" and "\<not> is_local r" and "\<not> cancelled r"
    and "payload C r response n = Some (ret, items)" and "list_all witem_ok items" and "plenty (memory C)"
    and "length (response_message C r e ret items) \<le> MAX_COMMAND_BYTES"
    and "fdCommand s (socket_hook C (socket_id r)) \<ge> 0"
    and "can_send s (HEADER_SIZE + length (response_message C r e ret items))"
  shows "\<exists>ws'. RIL_onRequestComplete C t e response n s =
    Some ((dequeued C t r s)\<lparr>outcomes := ws',
      trace := trace s @ sent (fdCommand s (socket_hook C (socket_id r))) (response_message C r e ret items),
      requests := (requests s)(t := None)\<rparr>)"
  by (rule complete_sends [OF assms])

lemma completion_answers_witness:
  "\<exists>ws'. RIL_onRequestComplete (conf0 12) 8 RIL_E_SUCCESS (RInts [9]) 4
      (enqueue_request 8 (new_request 7 2 0) 0 (ril0 5 24)) =
    Some ((dequeued (conf0 12) 8 (new_request 7 2 0) (enqueue_request 8 (new_request 7 2 0) 0 (ril0 5 24)))\<lparr>outcomes := ws',
      trace := [] @ sent 5 (wire [WInt32 RESPONSE_SOLICITED, WInt32 7, WInt32 RIL_E_SUCCESS, WInt32 1, WInt32 9]),
      requests := (requests (enqueue_request 8 (new_request 7 2 0) 0 (ril0 5 24)))(8 := None)\<rparr>)"
  using completion_answers [of "conf0 12" "enqueue_request 8 (new_request 7 2 0) 0 (ril0 5 24)" 8 "new_request 7 2 0"
      "RInts [9]" 4 0 "[WInt32 1, WInt32 9]" RIL_E_SUCCESS]
  by (simp add: awaiting_def new_request_def enqueue_request_def payload_def s_commands_def responseInts_def
      response_array_def firstn_def response_message_def response_type_def can_send_def progress_def)

text \<open>C6: in every reachable state, whatever clients, vendor library and sockets do in whatever order, each
  pending list names live requests, none twice, and each live request is in exactly one list, so that none is lost
  or freed while it is pending. It is the list its completion looks into, but for a request that the daemon issues itself on
  the second or a later of more than two sockets: that one stays in the first list, where no completion finds it.\<close>

theorem requests_tracked:
  assumes "ril_reachable C W s" and "fresh_calloc C"
  shows "ril_ok C s \<and> (\<forall>t r. awaiting C s t r \<longleftrightarrow>
    requests s t = Some r \<and> \<not> (is_local r \<and> 3 \<le> sim_count C \<and> socket_hook C (socket_id r) \<noteq> 0))"
  using reachable_inv [OF assms] awaiting_iff [of C s] unfolding misplaced_def by blast

lemma requests_tracked_witness:
  "ril_ok (conf0 12) (enqueue_request 8 (new_request 7 12 0) 0 (ril_init\<lparr>trace := [Issued 8 12 (DInts [3]) 4 0]\<rparr>)) \<and>
   (let s = issueLocalRequest ((conf0 12)\<lparr>sim_count := 3\<rparr>) 23 (DInts [1]) 4 1 ril_init in
    ril_ok ((conf0 12)\<lparr>sim_count := 3\<rparr>) s \<and> (\<exists>r. requests s 8 = Some r \<and> \<not> awaiting ((conf0 12)\<lparr>sim_count := 3\<rparr>) s 8 r))"
proof (intro conjI)
  have "processCommandBuffer (conf0 12) (wire [WInt32 12, WInt32 7, WInt32 1, WInt32 3]) 0 ril_init =
      Some (enqueue_request 8 (new_request 7 12 0) 0 (ril_init\<lparr>trace := [Issued 8 12 (DInts [3]) 4 0]\<rparr>))"
    using command_issues [of "wire [WInt32 12, WInt32 7, WInt32 1, WInt32 3]" "conf0 12" "DInts [3]" 12 7 "[]" ril_init 8 0]
    by (simp add: few_def s_commands_def ril_init_def log_event_def enqueue_request_def)
  from ril_step.command [OF this] ril_reachable.init
  have "ril_reachable (conf0 12) {} (enqueue_request 8 (new_request 7 12 0) 0 (ril_init\<lparr>trace := [Issued 8 12 (DInts [3]) 4 0]\<rparr>))"
    by (rule ril_reachable.step [rotated])
  from requests_tracked [OF this]
  show "ril_ok (conf0 12) (enqueue_request 8 (new_request 7 12 0) 0 (ril_init\<lparr>trace := [Issued 8 12 (DInts [3]) 4 0]\<rparr>))"
    by simp
next
  let ?C = "(conf0 12)\<lparr>sim_count := 3\<rparr>"
  let ?s = "issueLocalRequest ?C 23 (DInts [1]) 4 1 ril_init"
  have "ril_reachable ?C {} ?s" by (rule ril_reachable.step [OF ril_reachable.init ril_step.local_request])
  moreover have "fresh_calloc ?C" by (simp add: fresh_calloc_def conf0_def)
  moreover have "\<exists>r. requests ?s 8 = Some r \<and> is_local r \<and> socket_id r = 1"
    by (simp add: issueLocalRequest_def conf0_def ril_init_def enqueue_request_def log_event_def)
  ultimately show "let s = ?s in ril_ok ?C s \<and> (\<exists>r. requests s 8 = Some r \<and> \<not> awaiting ?C s 8 r)"
    using requests_tracked [of ?C "{}" ?s] by (auto simp: Let_def socket_hook_def)
qed

text \<open>C7: as long as no write fails, all the daemon ever writes to a descriptor, in every reachable
  state, is a sequence of whole frames of at most 8192 bytes, so that a client that splits the
  stream by its length prefixes stays in step.\<close>

theorem wire_is_frames:
  assumes "ril_reachable C W s" and "fresh_calloc C" and "WriteFailed \<notin> W"
  shows "\<exists>xs. sent_to fd (trace s) = concat (map frame xs) \<and> fits MAX_COMMAND_BYTES xs"
  using reachable_inv [OF assms(1,2)] assms(3) by (simp add: framed_def)

lemma wire_is_frames_witness:
  "\<exists>xs. sent_to 5 (trace (ril_init\<lparr>outcomes := [Written 4]\<rparr>)) = concat (map frame xs) \<and> fits MAX_COMMAND_BYTES xs"
proof (rule wire_is_frames)
  show "ril_reachable (conf0 12) {Written 4} (ril_init\<lparr>outcomes := [Written 4]\<rparr>)"
    by (rule ril_reachable.step [OF ril_reachable.init ril_step.writes]) simp
qed simp_all

text \<open>C22: where there is one list, a second completion of a token is refused and changes nothing, neither the pending
  requests nor the wire. Where there are several, a second completion of a request reads the block that the first has freed,
  to find out which list to search.\<close>

theorem completed_once:
  assumes "ril_ok C s" and "RIL_onRequestComplete C t e response n s = Some s1"
  shows "(sim_count C < 2 \<longrightarrow> RIL_onRequestComplete C t e' response' n' s1 = Some s1) \<and>
    (2 \<le> sim_count C \<and> awaiting C s t r \<longrightarrow> RIL_onRequestComplete C t e' response' n' s1 = None)"
  using complete_twice [OF assms(1) _ assms(2)] complete_freed [OF _ _ assms(2)] by blast

lemma completed_once_witness:
  "\<exists>s1. RIL_onRequestComplete (conf0 12) 8 RIL_E_SUCCESS (RInts [9]) 4 (enqueue_request 8 (new_request 7 2 0) 0 (ril0 5 24)) = Some s1 \<and>
    trace s1 = sent 5 (wire [WInt32 RESPONSE_SOLICITED, WInt32 7, WInt32 RIL_E_SUCCESS, WInt32 1, WInt32 9]) \<and>
    requests s1 8 = None \<and> RIL_onRequestComplete (conf0 12) 8 RIL_E_GENERIC_FAILURE RNull 0 s1 = Some s1"
proof -
  let ?s = "enqueue_request 8 (new_request 7 2 0) 0 (ril0 5 24)"
  have ok: "ril_ok (conf0 12) ?s" by (auto simp: table_ok_def enqueue_request_def new_request_def request_list_def)
  obtain s1 where s1: "RIL_onRequestComplete (conf0 12) 8 RIL_E_SUCCESS (RInts [9]) 4 ?s = Some s1"
    "trace s1 = sent 5 (wire [WInt32 RESPONSE_SOLICITED, WInt32 7, WInt32 RIL_E_SUCCESS, WInt32 1, WInt32 9])" "requests s1 8 = None"
    using complete_sends [of "conf0 12" ?s 8 "new_request 7 2 0" "RInts [9]" 4 0 "[WInt32 1, WInt32 9]" RIL_E_SUCCESS]
    by (auto simp: awaiting_def new_request_def enqueue_request_def payload_def s_commands_def responseInts_def
      response_array_def firstn_def response_message_def response_type_def can_send_def progress_def)
  with completed_once [OF ok s1(1)] show ?thesis by auto
qed

text \<open>C29: when a client's stream ends its requests are cancelled: completing one of them later
  frees it and writes nothing, to this client or to the next one on the socket.\<close>

theorem cancelled_silently:
  assumes "awaiting C s t r" and "t \<in> set (pending s (socket_hook C sock))"
  shows "RIL_onRequestComplete C t e response n (onCommandsSocketClosed C sock s) =
    Some ((dequeued C t r (onCommandsSocketClosed C sock s))\<lparr>requests :=
      (requests (onCommandsSocketClosed C sock s))(t := None)\<rparr>)"
proof -
  have "awaiting C (onCommandsSocketClosed C sock s) t (r\<lparr>cancelled := True\<rparr>)"
    using assms by (simp add: awaiting_def onCommandsSocketClosed_def)
  from complete_silent [OF this] show ?thesis by (simp add: dequeued_def)
qed

lemma cancelled_silently_witness:
  "trace (the (RIL_onRequestComplete (conf0 12) 8 RIL_E_SUCCESS RNull 0
     (onCommandsSocketClosed (conf0 12) 0 (enqueue_request 8 (new_request 7 2 0) 0 (ril0 5 24))))) = []"
  using cancelled_silently [of "conf0 12" "enqueue_request 8 (new_request 7 2 0) 0 (ril0 5 24)" 8 "new_request 7 2 0" 0
      RIL_E_SUCCESS RNull 0]
  by (simp add: awaiting_def new_request_def enqueue_request_def dequeued_def onCommandsSocketClosed_def)

text \<open>A command whose number is not in the table is answered with a generic failure that carries
  its token, and creates no request.\<close>

theorem unsupported_answered:
  assumes "length buffer \<le> INT32_MAX" and "plenty (memory C)" and "buffer = le32 request @ le32 tok @ body"
    and "sint request < 1 \<or> 141 < sint request" and "sint request \<noteq> RIL_RESPONSE_ACKNOWLEDGEMENT"
    and "fdCommand s (socket_hook C sock) \<ge> 0" and "can_send s 16"
  shows "\<exists>ws'. processCommandBuffer C buffer sock s = Some (s\<lparr>outcomes := ws',
    trace := trace s @ sent (fdCommand s (socket_hook C sock))
      (wire [WInt32 RESPONSE_SOLICITED, WInt32 tok, WInt32 RIL_E_GENERIC_FAILURE])\<rparr>)"
  by (rule command_unsupported [OF assms])

lemma unsupported_answered_witness:
  "\<exists>ws'. processCommandBuffer (conf0 12) (le32 142 @ le32 7 @ []) 0 (ril0 5 16) = Some ((ril0 5 16)\<lparr>outcomes := ws',
    trace := trace (ril0 5 16) @ sent (fdCommand (ril0 5 16) (socket_hook (conf0 12) 0))
      (wire [WInt32 RESPONSE_SOLICITED, WInt32 7, WInt32 RIL_E_GENERIC_FAILURE])\<rparr>)"
  by (rule unsupported_answered [of _ _ "142 :: u32" "7 :: u32"]) simp_all

section \<open>Sockets and messages\<close>

text \<open>Whatever \<open>write\<close> does, what reaches the descriptor is a prefix of the buffer, and the
  whole of it exactly when \<open>blockingWrite\<close> reports success.\<close>

theorem write_all_or_fail:
  assumes "blockingWrite ws bs = Some (ret, out, ws')"
  shows "\<exists>left. bs = out @ left \<and> (ret = 0 \<and> left = [] \<or> ret = - 1 \<and> left \<noteq> [])"
  using blockingWrite_prefix [OF assms] by blast

lemma write_all_or_fail_witness:
  "\<exists>left. [1, 2, 3 :: u8] = [1, 2] @ left \<and> ((- 1 :: int) = 0 \<and> left = [] \<or> (- 1 :: int) = - 1 \<and> left \<noteq> [])"
  by (rule write_all_or_fail [of "[Written 2, WriteAgain, WriteFailed]" _ _ _ "[]"]) simp

text \<open>The write loop ends with the whole buffer written as soon as the socket has made progress
  as often as the buffer has bytes, however it interrupts in between.\<close>

theorem write_returns:
  assumes "WriteFailed \<notin> set ws" and "length bs \<le> progress ws"
  shows "\<exists>ws'. blockingWrite ws bs = Some (0, bs, ws')"
  using blockingWrite_complete [OF assms] by blast

lemma write_returns_witness: "\<exists>ws'. blockingWrite [WriteAgain, Written 1, Written 5] [1, 2] = Some (0, [1, 2], ws')"
  by (rule write_returns) (simp_all add: progress_def)

text \<open>C13: reading is independent of how the stream is cut into chunks: one run of the loop over
  records hands out exactly the frames at the front of the stream and leaves the rest, and stops only
  when no complete frame is buffered.\<close>

theorem records_are_frames:
  assumes "drain rs reads = Some (recs, x, rs', reads')"
  shows "content rs reads = concat (map frame recs) @ content rs' reads' \<and> getNextRecord rs' = None"
  using drain_exact [OF assms] by blast

lemma records_are_frames_witness:
  "content (record_stream_new 8192) [ReadBytes [0, 0], ReadAgain] =
     concat (map frame []) @ content (\<lparr>maxRecordLen = 8192, unconsumed = 0, pending_bytes = [0, 0]\<rparr>) [ReadAgain] \<and>
   getNextRecord \<lparr>maxRecordLen = 8192, unconsumed = 0, pending_bytes = [0, 0]\<rparr> = None"
  by (rule records_are_frames [of _ _ _ TryAgain])
    (subst drain.simps, simp add: record_stream_get_next_def record_stream_new_def getNextRecord_def
      getEndOfRecord_def read_fd_def rs_ok_def Let_def)

text \<open>C14: a client that keeps to the length limit is served completely: for every cut of its stream into reads, with any
  number of reads that find nothing yet, the assertion never fails, and once all has arrived the loop over records has handed
  out exactly its messages, in order, and kept nothing. If the stream then ends or fails, this is reported after them.\<close>

theorem conforming_client_served:
  assumes "rs_ok rs" and "content rs cs = concat (map frame xs)" and "fits (maxRecordLen rs) xs"
    and "maxRecordLen rs < 2 ^ 32" and "list_all is_chunk cs"
    and "(fin, x) \<in> {([], TryAgain), ([ReadEof], EndOfStream), ([ReadError], StreamError)}"
  shows "\<exists>rs'. drain_all rs (cs @ fin) = Some (xs, x, rs', []) \<and> pending_bytes rs' = []"
  using drain_all_conforming [of fin x rs cs xs] assms unfolding ends_as_def by blast

lemma conforming_client_served_witness:
  "\<exists>rs'. drain_all (record_stream_new 8192) [ReadBytes [0, 0, 0], ReadAgain, ReadBytes [3, 1, 2, 3, 0, 0, 0, 1], ReadBytes [9], ReadEof] =
    Some ([[1, 2, 3], [9]], EndOfStream, rs', []) \<and> pending_bytes rs' = []"
proof -
  have "frame [1, 2, 3] = [0, 0, 0, 3, 1, 2, 3]" "frame [9] = [0, 0, 0, 1, 9]"
    by (simp_all add: frame_def be32_def le_bytes_def upt_rec)
  then show ?thesis
    using conforming_client_served [of "record_stream_new 8192" "[ReadBytes [0, 0, 0], ReadAgain, ReadBytes [3, 1, 2, 3, 0, 0, 0, 1], ReadBytes [9]]"
      "[[1, 2, 3], [9]]" "[ReadEof]" EndOfStream]
    by (simp add: content_def record_stream_new_def rs_ok_def)
qed

text \<open>A longer record ends the daemon: announced by the client and followed by 8192 bytes, it
  fills the buffer, and the next read fails the assertion.\<close>

theorem oversized_record_kills:
  assumes "8192 < n" and "n < 2 ^ 32" and "length xs = 8192"
  shows "\<exists>rs. record_stream_get_next (record_stream_new 8192) [ReadBytes (be32 (of_nat n) @ xs)] = Some (TryAgain, rs, []) \<and>
    record_stream_get_next rs reads = None"
  using oversized_record_aborts [OF assms] by blast

lemma oversized_record_kills_witness:
  "\<exists>rs. record_stream_get_next (record_stream_new 8192) [ReadBytes (be32 (of_nat 8193) @ replicate 8192 0)] =
      Some (TryAgain, rs, []) \<and> record_stream_get_next rs [] = None"
  by (rule oversized_record_kills) simp_all

text \<open>\<open>RIL\_onUnsolicitedResponse\<close> satisfies its recursive equation: the calls that announce a
  changed radio state are calls of the function itself, and the two levels of the model are all
  there are.\<close>

theorem unsolicited_recursion:
  "RIL_onUnsolicitedResponse C now sock = unsol_body (RIL_onUnsolicitedResponse C now sock) C now sock"
  by (rule unsolicited_unfold)

text \<open>C10: what the daemon reports in the layout of a request (integers, strings, raw data, CDMA and
  broadcast SMS, carrier restrictions) is read back by the dispatch function of that request as
  the same data.\<close>

theorem reports_read_back:
  assumes "report_of d = Some (fn, response, n)" and "request_ok E d" and "env_ok E"
    and "list_all witem_ok (request_items d)" and "length (wire (request_items d)) \<le> GROW_LIMIT"
  shows "\<exists>p p'. run_response fn E response n initState = Some (0, p) \<and> setDataPosition p 0 = Some p' \<and>
    run_dispatch (request_fn d) E p' = Some [OnRequest d (request_len E d)]"
  by (rule report_roundtrip [OF assms])

lemma reports_read_back_witness:
  "\<exists>p p'. run_response F_responseInts (env0 12 RADIO_STATE_ON) (RInts [3, 4]) 8 initState = Some (0, p) \<and>
    setDataPosition p 0 = Some p' \<and>
    run_dispatch F_dispatchInts (env0 12 RADIO_STATE_ON) p' = Some [OnRequest (DInts [3, 4]) 8]"
  using reports_read_back [of "DInts [3, 4]" F_responseInts "RInts [3, 4]" 8 "env0 12 RADIO_STATE_ON"]
  by (simp add: few_def)

text \<open>C28: a time message that arrives while no client is connected is kept as it would have been
  sent, and the next client receives it after the greeting, once.\<close>

theorem nitz_delivered_later:
  assumes "registerCalled s" and "str_ok (Some bs)" and "plenty (memory C)"
    and "current_state (onStateRequest (conf_env C))" and "fdCommand s (socket_hook C sock) < 0" and "0 \<le> fd"
    and "m = wire (unsol_message C now WAKE_PARTIAL RIL_UNSOL_NITZ_TIME_RECEIVED [WStr (Some bs)])"
    and "length m \<le> MAX_COMMAND_BYTES" and "can_send s (40 + length m)"
  shows "\<exists>s1 ws'. RIL_onUnsolicitedResponse C now sock RIL_UNSOL_NITZ_TIME_RECEIVED (RString bs) n s = Some s1 \<and>
    lastNITZTimeData s1 = Some m \<and> trace s1 = trace s @ wakes C WAKE_PARTIAL \<and>
    onNewCommandConnect C later sock (s1\<lparr>fdCommand := (\<lambda>_. fd)\<rparr>) =
      Some (s1\<lparr>fdCommand := (\<lambda>_. fd), outcomes := ws', trace := trace s1 @
        wakes C WAKE_PARTIAL @ sent fd (greeting C later ! 0) @ wakes C WAKE_PARTIAL @ sent fd (greeting C later ! 1) @
        sent fd m, lastNITZTimeData := None\<rparr>)"
proof -
  let ?s1 = "s\<lparr>trace := trace s @ wakes C WAKE_PARTIAL, lastNITZTimeData := Some m\<rparr>"
  have "RIL_onUnsolicitedResponse C now sock RIL_UNSOL_NITZ_TIME_RECEIVED (RString bs) n s = Some ?s1"
    using nitz_kept [OF assms(1-3,5), of now n] assms(7,8) by simp
  moreover have "\<exists>ws'. onNewCommandConnect C later sock (?s1\<lparr>fdCommand := (\<lambda>_. fd)\<rparr>) =
      Some (?s1\<lparr>fdCommand := (\<lambda>_. fd), outcomes := ws', trace := trace ?s1 @
        wakes C WAKE_PARTIAL @ sent fd (greeting C later ! 0) @ wakes C WAKE_PARTIAL @ sent fd (greeting C later ! 1) @
        sent fd m, lastNITZTimeData := None\<rparr>)"
    using connect_greets [of "?s1\<lparr>fdCommand := (\<lambda>_. fd)\<rparr>" C sock fd m later] assms by (simp add: can_send_def)
  ultimately show ?thesis by (intro exI [of _ ?s1]) simp
qed

lemma nitz_delivered_later_witness:
  "\<exists>s1. RIL_onUnsolicitedResponse (conf0 13) 9 0 RIL_UNSOL_NITZ_TIME_RECEIVED (RString [0x30]) 1 (ril0 (- 1) 100) = Some s1 \<and>
     lastNITZTimeData s1 = Some (wire [WInt32 RESPONSE_UNSOLICITED_ACK_EXP, WInt32 1008, WStr (Some [0x30]), WInt64 9])"
proof -
  have f: "from_bytes [0x30] = Some [0x30]" by (simp add: from_bytes_def utf16_encode1_def)
  let ?m = "wire (unsol_message (conf0 13) 9 WAKE_PARTIAL RIL_UNSOL_NITZ_TIME_RECEIVED [WStr (Some [0x30])])"
  have len: "length ?m = 24"
    using f by (simp add: unsol_message_def extra_items_def enc_str_def enc_string8_def enc_string16_def padding_def)
  have m: "?m = wire [WInt32 RESPONSE_UNSOLICITED_ACK_EXP, WInt32 1008, WStr (Some [0x30]), WInt64 9]"
    by (simp add: unsol_message_def unsol_type_def extra_items_def)
  from nitz_delivered_later [of "ril0 (- 1) 100" "[0x30]" "conf0 13" 0 5 ?m 9 1 0] f len
  show ?thesis by (auto simp: str_ok_def current_state_def less_RIL_RadioState_def m [symmetric] simp del: wire_simps)
qed

text \<open>The self-check of \<open>RIL\_register\<close> holds: each entry of the command table stands at the
  index of its request number, and each unsolicited one at its code less the base.\<close>

theorem tables_in_order:
  "map fst s_commands = [1..<142] \<and> map fst s_unsolResponses = [1000..<1049]"
  by (simp add: s_commands_numbers s_unsolResponses_numbers)

text \<open>With three or four SIMs a request that the daemon issues for the second one is never
  completed: the completion searches another list and is refused.\<close>

theorem local_request_never_completes:
  assumes "3 \<le> sim_count C" and "calloc_request C (requests s) = Some t" and "t \<notin> set (pending s 1)" and "t \<noteq> 0"
  shows "RIL_onRequestComplete C t e response n' (issueLocalRequest C n d len 1 s) =
    Some (issueLocalRequest C n d len 1 s)"
  by (rule local_request_lost [OF assms])

lemma local_request_never_completes_witness:
  "RIL_onRequestComplete ((conf0 12)\<lparr>sim_count := 3\<rparr>) 8 RIL_E_SUCCESS RNull 0
     (issueLocalRequest ((conf0 12)\<lparr>sim_count := 3\<rparr>) 23 (DInts [1]) 4 1 ril_init) =
   Some (issueLocalRequest ((conf0 12)\<lparr>sim_count := 3\<rparr>) 23 (DInts [1]) 4 1 ril_init)"
  by (rule local_request_never_completes) (simp_all add: ril_init_def conf0_def)

section \<open>The event loop\<close>

text \<open>C25: a round of the event loop calls the callbacks of exactly the timers that have expired, in
  the order of their times, and then of the ready descriptors, in the order of the table and as many
  as \<open>select\<close> counted; each once, whatever the callbacks add or free meanwhile, and the invariant
  of the loop holds again with nothing pending.\<close>

theorem round_calls_what_is_due:
  assumes "loop_ok ts [] s" and "callback_ok cb"
  shows "\<exists>ts' s'. loop_round cb now (Ready rfds n) s = Some (True, s') \<and> loop_ok ts' [] s' \<and>
    fired s' = fired s @ takeWhile (\<lambda>p. due (events s) p < now) ts @ take (nat n) (ready_events rfds s [0..<MAX_FD_EVENTS])"
  by (rule loop_round_ok [OF assms])

lemma round_calls_what_is_due_witness:
  "\<exists>ts' s'. loop_round freeing (4, 0) (Ready {3} 1) demo_loop = Some (True, s') \<and> loop_ok ts' [] s' \<and> fired s' = [11, 10]"
proof -
  have "takeWhile (\<lambda>p. due (events demo_loop) p < (4, 0)) [11] = [11]" by (simp add: demo_loop_def due_def)
  moreover have "ready_events {3} demo_loop [0..<MAX_FD_EVENTS] = [10]"
    by (simp add: demo_loop_def ready_events_def fd_of_def upt_rec)
  moreover have "fired demo_loop = []" by (simp add: demo_loop_def)
  ultimately show ?thesis using round_calls_what_is_due [OF demo_loop_ok freeing_ok, of "(4, 0)" "{3}" 1] by simp
qed

text \<open>C26: adding a timer puts it before the first one that is not earlier than the present time plus
  the interval, with that time: the list stays sorted, and no other timer, pending event or
  watched descriptor changes.\<close>

theorem timer_list_stays_sorted:
  assumes "loop_ok ts ps s" and "idle ts ps ev s"
  shows "\<exists>s'. ril_timer_add now ev (Some tv) s = Some s' \<and>
    loop_ok (takeWhile (\<lambda>p. due (events s) p < timeradd now tv) ts @ ev # dropWhile (\<lambda>p. due (events s) p < timeradd now tv) ts) ps s' \<and>
    due (events s') ev = timeradd now tv \<and> (\<forall>p. p \<noteq> ev \<longrightarrow> due (events s') p = due (events s) p) \<and>
    watch_table s' = watch_table s \<and> fired s' = fired s"
  by (rule timer_add_ok [OF assms])

lemma timer_list_stays_sorted_witness:
  "\<exists>s'. ril_timer_add (1, 900000) 12 (Some (0, 200000)) demo_loop = Some s' \<and> loop_ok [12, 11] [] s' \<and>
     due (events s') 12 = (2, 100000)"
proof -
  have "due (events demo_loop) 11 = (3, 0)" by (simp add: demo_loop_def due_def)
  then show ?thesis
    using timer_list_stays_sorted [OF demo_loop_ok demo_idle, of "(1, 900000)" "(0, 200000)"] by auto
qed

text \<open>The wait that \<open>calcNextTimeout\<close> hands to \<open>select\<close> is unbounded exactly when there is no
  timer; otherwise it is not negative, in range, and ends at the time of the first timer or at
  once when that has passed.\<close>

theorem wait_until_first_timer:
  assumes "loop_ok ts ps s" and "normal now" and "\<And>p. p \<in> set ts \<Longrightarrow> normal (due (events s) p)"
  shows "case ts of
      [] \<Rightarrow> calcNextTimeout now s = Some None
    | t # _ \<Rightarrow> \<exists>w. calcNextTimeout now s = Some (Some w) \<and> (0, 0) \<le> w \<and> normal w \<and>
        timeradd now w = max now (due (events s) t)"
  by (rule calcNextTimeout_ok [OF assms])

lemma wait_until_first_timer_witness:
  "\<exists>w. calcNextTimeout (2, 500000) demo_loop = Some (Some w) \<and> (0, 0) \<le> w \<and> timeradd (2, 500000) w = (3, 0)"
proof -
  have d: "due (events demo_loop) 11 = (3, 0)" by (simp add: demo_loop_def due_def)
  have "max (2, 500000) (3, 0) = ((3, 0) :: timeval)" by (simp add: max_def)
  then have "\<exists>w. calcNextTimeout (2, 500000) demo_loop = Some (Some w) \<and> (0, 0) \<le> w \<and> normal w \<and> timeradd (2, 500000) w = (3, 0)"
    using wait_until_first_timer [OF demo_loop_ok, of "(2, 500000)"] by (simp add: d del: timeradd.simps split_paired_Ex)
  then show ?thesis by blast
qed

text \<open>C27: a new event takes the first free entry of the table and its descriptor joins the set given
  to \<open>select\<close>, the others keep theirs and the bound stays above every watched descriptor; when
  all eight entries are taken the event is dropped and nothing changes. Deleting it takes both
  back.\<close>

theorem watch_and_unwatch:
  assumes "loop_ok ts ps s" and "idle ts ps ev s"
    and "0 \<le> fd_of (events s) ev" and "fd_of (events s) ev < FD_SETSIZE" and "fd_of (events s) ev \<notin> readFds s"
  shows "\<exists>s'. ril_event_add ev s = Some s' \<and> loop_ok ts ps s' \<and>
    (case free_entry (watch_table s) of
       None \<Rightarrow> 0 \<notin> set (watch_table s) \<and> s' = s
     | Some i \<Rightarrow> watch_table s' = (watch_table s)[i := ev] \<and> readFds s' = insert (fd_of (events s) ev) (readFds s) \<and>
         (\<exists>s''. ril_event_del ev s' = Some s'' \<and> loop_ok ts ps s'' \<and> watch_table s'' = watch_table s \<and> readFds s'' = readFds s))"
proof (cases "free_entry (watch_table s)")
  case None
  then have "0 \<notin> set (watch_table s)" by (simp add: free_entry_None)
  then show ?thesis using event_add_ok [OF assms] by (auto simp: None)
next
  case (Some i)
  obtain s' where s': "ril_event_add ev s = Some s'" "loop_ok ts ps s'" "watch_table s' = (watch_table s)[i := ev]"
    "readFds s' = insert (fd_of (events s) ev) (readFds s)" "fd_of (events s') ev = fd_of (events s) ev"
    using event_add_fd [OF assms Some] by blast
  have i: "i < length (watch_table s)" "watch_table s ! i = 0" using free_entry_Some [OF Some] by auto
  have w: "i \<in> watched s'" using i s'(3) assms(2) loop_okD(6) [OF assms(1)] by (auto simp: watched_def watch_ok_def idle_def)
  moreover have "watch_table s' ! i = ev" "(watch_table s')[i := 0] = watch_table s" using i s'(3) by (auto simp: list_update_same_conv)
  ultimately obtain s'' where "ril_event_del ev s' = Some s''" "loop_ok ts ps s''" "watch_table s'' = watch_table s"
    "readFds s'' = readFds s' - {fd_of (events s') ev}" using event_del_ok [OF s'(2), of i] by metis
  then show ?thesis using s' Some assms(5) by auto
qed

lemma watch_and_unwatch_witness:
  "\<exists>s'. ril_event_add 12 demo_loop = Some s' \<and> loop_ok [11] [] s' \<and> watch_table s' = [10, 12, 0, 0, 0, 0, 0, 0] \<and> readFds s' = {7, 3}"
proof -
  have d: "fd_of (events demo_loop) 12 = 7" "readFds demo_loop = {3}" "watch_table demo_loop = [10, 0, 0, 0, 0, 0, 0, 0]"
    by (simp_all add: demo_loop_def fd_of_def)
  show ?thesis using watch_and_unwatch [OF demo_loop_ok demo_idle] by (auto simp: d)
qed

text \<open>The pointer updates of \<open>addToList\<close> and \<open>removeFromList\<close> implement insertion before a node
  and removal on the sequence that a circular list represents; nothing but links changes, and
  removing what was added gives the sequence back.\<close>

theorem list_operations_refine:
  assumes "dll l (xs @ ys) h" and "ev \<notin> set (l # xs @ ys)" and "ev \<in> dom h"
  shows "\<exists>h1 h2. addToList ev (hd (ys @ [l])) h = Some h1 \<and> dll l (xs @ ev # ys) h1 \<and>
    removeFromList ev h1 = Some h2 \<and> dll l (xs @ ys) h2 \<and> data_of h1 = data_of h \<and> data_of h2 = data_of h"
proof -
  obtain e where "h ev = Some e" using assms(3) by blast
  then obtain h1 where h1: "addToList ev (hd (ys @ [l])) h = Some h1" "dll l (xs @ ev # ys) h1" "data_of h1 = data_of h"
    using dll_add [OF assms(1,2)] by blast
  with dll_remove [OF h1(2)] show ?thesis by auto
qed

lemma list_operations_refine_witness:
  "\<exists>h1 h2. addToList 12 TIMER_LIST (events demo_loop) = Some h1 \<and> dll TIMER_LIST [11, 12] h1 \<and>
     removeFromList 12 h1 = Some h2 \<and> dll TIMER_LIST [11] h2"
proof -
  have "dll TIMER_LIST ([11] @ []) (events demo_loop)" "12 \<in> dom (events demo_loop)"
    using loop_okD(1) [OF demo_loop_ok] demo_idle by (simp_all add: idle_def)
  then show ?thesis using list_operations_refine [of TIMER_LIST "[11]" "[]" "events demo_loop" 12] by auto
qed

section \<open>The bit buffer of the V2X codec\<close>

text \<open>C40: fields of up to 32 bits that are appended to a fresh buffer, and others that are put in front of
  them afterwards, are read back in the order in which they then stand, at any alignment, as long as
  both ends have room and a bit is left over behind them.\<close>

theorem bit_fields_roundtrip:
  assumes "abuf_alloc sz hr = Some bp" and "list_all (\<lambda>f. 0 < fst f \<and> fst f \<le> 32) (fs @ gs)"
    and "sum_list (map fst fs) < 8 * sz - 8 * hr" and "sum_list (map fst gs) \<le> 8 * hr"
  shows "\<exists>b1 b2 cp left. put_all buf_append fs bp = Some b1 \<and> put_all buf_prepend gs b1 = Some b2 \<and>
    get_fields (ab_block b2) (map fst (rev gs @ fs)) (ab_data b2) (8 - head_headspace_bits b2) =
      Some (map (\<lambda>(n, d). d AND mask n) (rev gs @ fs), cp, left)"
proof -
  note b0 = buf_ok_alloc [OF assms(1)]
  obtain b1 where b1: "put_all buf_append fs bp = Some b1" "buf_ok b1" "buf_bits b1 = concat (map (\<lambda>(n, d). nbits n d) fs)"
    "head_pos b1 = 8 * hr" "tail_room b1 = 8 * sz - 8 * hr - sum_list (map fst fs)"
    using buffer.append_all [of bp fs] b0 assms(2,3) by auto
  obtain b2 where b2: "put_all buf_prepend gs b1 = Some b2" "buf_ok b2"
    "buf_bits b2 = concat (map (\<lambda>(n, d). nbits n d) (rev gs @ fs))" "tail_room b2 = tail_room b1"
    using buffer.prepend_all [OF b1(2), of gs] assms(2,4) b1(3,4) by auto
  let ?w = "sum_list (map fst (rev gs @ fs))"
  have h: "head_ok b2" using b2(2) by (simp add: buf_ok_def)
  have len: "length (concat (map (\<lambda>(n, d). nbits n d) xs)) = sum_list (map fst xs)" for xs
    by (induction xs) auto
  have "tail_pos b2 - head_pos b2 = ?w" using len [of "rev gs @ fs"] unfolding b2(3) [symmetric] by (simp add: buf_bits_def)
  then have "head_pos b2 + ?w = tail_pos b2" using b2(2) unfolding buf_ok_def by linarith
  moreover have "tail_pos b2 < 8 * length (ab_block b2)" using assms(3) b1(5) b2(4) by (simp add: tail_room_def)
  ultimately show ?thesis using b1(1) b2(1) assms(2)
      get_fields_ok [OF head_reader [OF h], of "rev gs @ fs"] sees_buf [OF b2(2)]
    by (fastforce simp: b2(3) rpos_head [OF h])
qed

lemma bit_fields_roundtrip_witness:
  "\<exists>b1 b2 cp left. put_all buf_append [(3, 5), (13, 77)] (the (abuf_alloc 4 1)) = Some b1 \<and> put_all buf_prepend [(6, 1)] b1 = Some b2 \<and>
     get_fields (ab_block b2) [6, 3, 13] (ab_data b2) (8 - head_headspace_bits b2) = Some ([1, 5, 77], cp, left)"
  using bit_fields_roundtrip [of 4 1 "the (abuf_alloc 4 1)" "[(3, 5), (13, 77)]" "[(6, 1)]"]
  by (simp add: abuf_alloc_def mask_eq_exp_minus_1)

text \<open>A length below 16384 put in front of the data is read back, whatever the alignment, but
  modulo 8192: bit 13 is lost.\<close>

theorem packed_length_roundtrip:
  assumes "buf_ok bp" and "16 \<le> head_pos bp" and "0 < len" and "len < 16384"
  shows "\<exists>r bp' cp left. asn_push_encoded_len bp len = Some (r, bp') \<and>
    parse_asn_variable_length_enc (ab_block bp') (ab_data bp') (8 - head_headspace_bits bp') = Some (len mod 8192, cp, left) \<and>
    rpos cp left = head_pos bp"
  by (rule length_read_back [OF assms(1,2,3)]) (use assms(4) in simp)

lemma packed_length_roundtrip_witness:
  "\<exists>r bp' cp left. asn_push_encoded_len (the (abuf_alloc 8 4)) 8200 = Some (r, bp') \<and>
     parse_asn_variable_length_enc (ab_block bp') (ab_data bp') (8 - head_headspace_bits bp') = Some (8, cp, left) \<and>
     rpos cp left = 32"
  using packed_length_roundtrip [of "the (abuf_alloc 8 4)" 8200] buf_ok_alloc [of 8 4 "the (abuf_alloc 8 4)"]
  by (simp add: abuf_alloc_def)

text \<open>A length of up to 32 bits in the security header is read back in full, and the reader stops where
  the data began.\<close>

theorem security_length_roundtrip:
  assumes "buf_ok bp" and "head_headspace_bits bp = 0" and "40 \<le> head_pos bp" and "0 < len" and "len < 2 ^ 32"
  shows "\<exists>r bp'. asn_push_CER_encoded_len bp len = Some (r, bp') \<and>
    parse_asn_CER_len_enc (ab_block bp') (ab_data bp') 8 = Some (of_int len, ab_data bp, 8)"
  by (rule cer_read_back [OF assms])

lemma security_length_roundtrip_witness:
  "\<exists>r bp'. asn_push_CER_encoded_len (the (abuf_alloc 8 5)) 70000 = Some (r, bp') \<and>
     parse_asn_CER_len_enc (ab_block bp') (ab_data bp') 8 = Some (70000, 5, 8)"
  using security_length_roundtrip [of "the (abuf_alloc 8 5)" 70000] buf_ok_alloc [of 8 5 "the (abuf_alloc 8 5)"]
  by (simp add: abuf_alloc_def)

text \<open>An append that exceeds the buffer by less than a byte, or any when the tail stands at the end,
  writes outside the block; only one that exceeds it by more is refused.\<close>

theorem append_past_the_end:
  assumes "buf_ok bp" and "0 < n" and "n \<le> 32" and "8 * length (ab_block bp) < tail_pos bp + n"
  shows "if tail_pos bp + n \<le> 8 * length (ab_block bp) + 8 \<or> ab_tail bp = ab_size bp then asn_ncat_bits bp d n = None
    else \<exists>bp'. asn_ncat_bits bp d n = Some (- 1, bp')"
  by (rule append_overrun [OF assms])

lemma append_past_the_end_witness:
  "asn_ncat_bits (the (abuf_alloc 2 0)) 7 20 = None \<and> (\<exists>bp'. asn_ncat_bits (the (abuf_alloc 2 0)) 7 25 = Some (- 1, bp'))"
  using append_past_the_end [of "the (abuf_alloc 2 0)" 20 7] append_past_the_end [of "the (abuf_alloc 2 0)" 25 7]
    buf_ok_alloc [of 2 0 "the (abuf_alloc 2 0)"]
  by (simp add: abuf_alloc_def tail_pos_def)

section \<open>Messages of the V2X codec\<close>

text \<open>C5: a safety message in its ranges, sent in the clear under any permitted service identifier, goes
  through all layers of \<open>encode\_msg\<close> into a fresh buffer; the result is its length, and \<open>decode\_msg\<close> on
  what is in the buffer gives every receiver the same message, identifier and security header, whatever its
  state was before.\<close>

theorem v2x_message_roundtrip:
  assumes "sendable mc" and "empty_buf (mc_abuf mc)" and "sae_stack rc"
  shows "\<exists>mc' rc'. encode_msg partII etsi mc = Some (46 + int (psid_size (wsmp_psid (wsmp mc))), mc') \<and>
    decode_msg partII' etsi' savari now (rc\<lparr>mc_abuf := mc_abuf mc'\<rparr>) = Some (0, rc') \<and>
    j2735_msg rc' = received now (j2735_msg mc) \<and> wsmp_psid (wsmp rc') = wsmp_psid (wsmp mc) \<and>
    protocolVersion (ieee1609_2 rc') = protocolVersion (ieee1609_2 mc) \<and>
    tagclass (ieee1609_2 rc') = tagclass (ieee1609_2 mc) AND mask 2"
proof -
  obtain mc' where 1: "encode_msg partII etsi mc = Some (46 + int (psid_size (wsmp_psid (wsmp mc))), mc')"
    "buf_ok (mc_abuf mc')" "buf_bits (mc_abuf mc') = message_bits mc" "head_headspace_bits (mc_abuf mc') = 0"
    "tail_bits_left (mc_abuf mc') = 3"
    using encode_msg_ok [OF assms(1,2)] by blast
  then show ?thesis
    using decode_msg_ok [OF assms(1), of "rc\<lparr>mc_abuf := mc_abuf mc'\<rparr>" partII' etsi' savari now] assms(3) by auto
qed

lemma v2x_message_roundtrip_witness:
  "\<exists>mc' rc'. encode_msg (\<lambda>_. Some) (\<lambda>m. Some (- 1, m)) demo_msg = Some (47, mc') \<and>
     decode_msg (\<lambda>_ _ _ B. Some (0, B)) (\<lambda>m. Some (- 1, m)) False 60000000 (demo_msg\<lparr>mc_abuf := mc_abuf mc'\<rparr>) = Some (0, rc') \<and>
     Latitude (j2735_msg rc') = 374000000 \<and> Longitude (j2735_msg rc') = - 1220000000 \<and> wsmp_psid (wsmp rc') = 32"
proof -
  have "psid_size 32 = 1" by (simp add: psid_size_def WSM_PSID_PCODED_LEN_def)
  then show ?thesis
    using v2x_message_roundtrip [OF demo_ok, of demo_msg "\<lambda>_. Some" "\<lambda>m. Some (- 1, m)" "\<lambda>_ _ _ B. Some (0, B)"
      "\<lambda>m. Some (- 1, m)" False 60000000]
    by (fastforce simp: demo_msg_def received_def demo_bsm_def bsm0_def)
qed

text \<open>A service identifier that the encoding has room for is appended in one to four bytes and read back
  with that size; one that is too large is dropped silently, and so is the byte in front of it.\<close>

theorem service_identifier_coding:
  assumes "buf_ok bp" and "tail_bits_left bp = 8" and "32 \<le> tail_room bp" and "0 \<le> sint psid"
  shows "if psid \<le> MAX_PSID then
      \<exists>bp' b. abuf_add_PSID bp psid = Some bp' \<and> wsmp_decode_psid (ab_block bp') (ab_tail bp) = Some psid \<and>
        rd (ab_block bp') (ab_tail bp) = Some b \<and> ab_tail bp' = ab_tail bp + int (WSMP_PSID_FIELD_SIZE b) \<and>
        buf_bits bp' = buf_bits bp @ nbits (8 * WSMP_PSID_FIELD_SIZE b) (psid_code psid)
    else abuf_add_PSID bp psid = Some (bp\<lparr>ab_tail := ab_tail bp - 1\<rparr>)"
proof (cases "psid \<le> MAX_PSID")
  case True
  then have p: "psid_ok psid" by (simp add: psid_ok_def)
  obtain bp' where 1: "abuf_add_PSID bp psid = Some bp'" "buf_ok bp'"
    "buf_bits bp' = buf_bits bp @ nbits (8 * psid_size psid) (psid_code psid)" "same_head bp bp'"
    "ab_tail bp' = ab_tail bp + int (psid_size psid)"
    using add_PSID_ok [OF assms(1-3) p] by blast
  have t: "0 \<le> ab_tail bp" "head_pos bp + length (buf_bits bp) = 8 * nat (ab_tail bp)"
    using assms(1,2) by (auto simp: buf_ok_def tail_ok_def buf_bits_def tail_pos_def)
  have "sees (ab_block bp') (head_pos bp) (buf_bits bp @ nbits (8 * psid_size psid) (psid_code psid) @ [])"
    using sees_buf [OF 1(2)] same_head_simps [OF 1(4)] 1(3) by simp
  then have "sees_at (ab_block bp') (ab_tail bp) (nbits (8 * psid_size psid) (psid_code psid) @ [])"
    using t by (simp add: sees_at_def sees_append)
  note a = at_psid [OF this p]
  show ?thesis using True 1 a by auto
next
  case False
  have "\<not> uint psid \<le> 0x1020407f" using False by (simp add: word_le_def)
  moreover have "sint psid = uint psid" using assms(4) by (rule sint_nonneg)
  moreover have "ab_tail bp \<le> ab_size bp" using assms(1,2) by (auto simp: buf_ok_def tail_ok_def tail_pos_def)
  ultimately show ?thesis using False by (simp add: abuf_add_PSID_def WSM_PSID_PCODED_LEN_def wsmp_add_psid_def abuf_put_def)
qed

lemma service_identifier_coding_witness:
  "(\<exists>bp' b. abuf_add_PSID (the (abuf_alloc 64 8)) 0x4080 = Some bp' \<and> wsmp_decode_psid (ab_block bp') 8 = Some 0x4080 \<and>
      rd (ab_block bp') 8 = Some b \<and> ab_tail bp' = 8 + int (WSMP_PSID_FIELD_SIZE b)) \<and>
   (\<exists>bp'. abuf_add_PSID (the (abuf_alloc 64 8)) 0x20000000 = Some bp' \<and> ab_tail bp' = 7)"
proof -
  note a = buf_ok_alloc [of 64 8 "the (abuf_alloc 64 8)"]
  have b: "buf_ok (the (abuf_alloc 64 8))" "tail_bits_left (the (abuf_alloc 64 8)) = 8" "32 \<le> tail_room (the (abuf_alloc 64 8))"
    "ab_tail (the (abuf_alloc 64 8)) = 8"
    using a by (simp_all add: abuf_alloc_def)
  show ?thesis
    using service_identifier_coding [OF b(1-3), where psid = "0x4080"] service_identifier_coding [OF b(1-3), where psid = "0x20000000"] b(4) by auto
qed

text \<open>A message without a byte for the first header, or without the four of the transport header, makes
  the decoder follow a null pointer.\<close>

theorem short_message_null:
  assumes "ab_tail (mc_abuf mc) < ab_data (mc_abuf mc) + (if sae_stack mc then 1 else 4)"
  shows "decode_msg partII etsi savari now mc = None"
  using assms by (cases "sae_stack mc")
    (simp_all add: decode_msg_def wsmp_decode_def wsmp_decode_header_def pull8_def btp_decode_def abuf_pull_def)

lemma short_message_null_witness:
  "decode_msg (\<lambda>_ _ _ B. Some (0, B)) (\<lambda>m. Some (0, m)) False 0 demo_msg = None"
  by (rule short_message_null) (simp add: demo_msg_def abuf_alloc_def)

section \<open>The AT channel\<close>

text \<open>C39: the fields of a line, numbers in decimal and in hexadecimal, truth values and strings, in quotes
  or not, with any number of spaces before each, are read back in order, and then the line has no more.\<close>

theorem at_fields_roundtrip:
  assumes "list_all (field_ok q) fs" and "fs \<noteq> []" and "0x3A \<notin> set name"
  shows "\<exists>p p'. at_tok_start (Some (name @ 0x3A # at_render (render_field n q) fs)) = (0, p) \<and>
    at_fields read_field (map kind_of fs) p = Some (fs, p') \<and> \<not> at_tok_hasmore p'"
  using assms(3) fields.at_render_read [OF assms(1,2), of n]
  by (auto simp: at_tok_start_def strchr_def dropWhile_until)

lemma at_fields_roundtrip_witness:
  "\<exists>p p'. at_tok_start (Some (lit ''+X'' @ 0x3A # at_render (render_field 1 (\<lambda>s. True)) [AtInt (- 5), AtStr (lit ''a,b''), AtBool True])) = (0, p) \<and>
    at_fields read_field [KInt, KStr, KBool] p = Some ([AtInt (- 5), AtStr (lit ''a,b''), AtBool True], p') \<and>
    \<not> at_tok_hasmore p'"
  using at_fields_roundtrip [of "\<lambda>s. True" "[AtInt (- 5), AtStr (lit ''a,b''), AtBool True]" "lit ''+X''" 1]
  by (simp add: lit_def)

text \<open>C15: whatever the reads that bring the bytes of the modem, the reader returns exactly the lines of the
  stream, if each fits into the buffer and none begins like a prompt.\<close>

theorem lines_whatever_the_reads:
  assumes "0 \<notin> set (stream reads)" and "lines_ok 0 (stream reads)"
  shows "\<exists>e. read_lines empty_buffer reads = Some (lines_of (stream reads), e)"
  using read_lines_spec [OF holds_empty, of reads] assms by simp

lemma lines_whatever_the_reads_witness:
  "\<exists>e. read_lines empty_buffer [Got [0x0D, 0x0A, 0x4F], GotIntr, Got [0x4B, 0x0D], Got [0x0A, 0x41, 0x0D], GotEof] =
    Some ([[0x4F, 0x4B], [0x41]], e)"
  using lines_whatever_the_reads [of "[Got [0x0D, 0x0A, 0x4F], GotIntr, Got [0x4B, 0x0D], Got [0x0A, 0x41, 0x0D], GotEof]"]
  by (simp add: lines_ok.simps lines_of.simps first_line_def after_line_def newline_def)

text \<open>C38: a prompt is not ended by a newline, so the reader goes on one byte too far: what the line before
  the prompt left in the buffer from its fourth byte on comes in front of the next line.\<close>

theorem prompt_leaves_tail:
  assumes "no_newline xs" and "0 \<notin> set xs" and "3 \<le> length xs" and "length xs < MAX_AT_RESPONSE"
    and "0 \<notin> set (stream reads)" and "lines_ok 0 (drop 3 xs @ stream reads)"
  shows "\<exists>e. read_lines empty_buffer (Got (xs @ [0x0D]) # Got [0x3E, 0x20] # reads) =
    Some (xs # [0x3E, 0x20] # lines_of (drop 3 xs @ stream reads), e)"
proof -
  obtain buf where 1: "holds buf 3 (drop 3 xs)"
    and 2: "read_lines empty_buffer (Got (xs @ [0x0D]) # Got [0x3E, 0x20] # reads) =
      map_option (\<lambda>(ls, e). (xs # [0x3E, 0x20] # ls, e)) (read_lines \<lparr>s_ATBuffer = buf, s_ATBufferCur = 3\<rparr> reads)"
    using stale_line [OF assms(1-4)] by blast
  from read_lines_spec [of "\<lparr>s_ATBuffer = buf, s_ATBufferCur = 3\<rparr>", OF _ assms(5,6)] 1 2 show ?thesis by auto
qed

lemma prompt_leaves_tail_witness:
  "\<exists>e. read_lines empty_buffer (Got (lit ''+A=OK'' @ [0x0D]) # Got [0x3E, 0x20] # [Got [0x0D], GotEof]) =
    Some ([lit ''+A=OK'', [0x3E, 0x20], lit ''OK''], e)"
  using prompt_leaves_tail [of "lit ''+A=OK''" "[Got [0x0D], GotEof]"]
  by (simp add: lit_def lines_ok.simps lines_of.simps first_line_def after_line_def newline_def)

text \<open>C16: a command returns 0 with the response that the lines make up: success as the final line says, the
  lines of its type in the order they came, and every other line passed on as unsolicited, in order.\<close>

theorem command_collects_response:
  assumes "sp_response ch = None" and "writeline command ch = Some (0, ch')" and "s_unsolHandler ch'"
    and "s_readerClosed ch' = 0" and "prefix_given type prefix" and "waited_lines es = Some ls"
    and "list_all (\<lambda>l. \<not> isFinalResponse l) ls" and "isFinalResponse f"
  shows "\<exists>ch2. at_send_command_full False command type prefix None msec True (es @ GotLine f # WakeUp # fs) ch =
      Some (0, Some \<lparr>success = (if isFinalResponseSuccess f then 1 else 0), finalResponse = Some f,
        p_intermediates = collected type prefix ls\<rparr>, ch2, fs) \<and>
    sp_response ch2 = None \<and> at_trace ch2 = at_trace ch' @ map (\<lambda>l. Unsolicited l None) (others type prefix ls)"
  using command_answer [OF assms] by (simp add: at_send_command_full_def clearPendingCommand_def pend_def)

lemma command_collects_response_witness:
  "\<exists>ch2. at_send_command_full False (lit ''AT+CREG?'') SINGLELINE (Some (lit ''+CREG:'')) None 0 True
      [GotLine (lit ''RING''), WakeUp, GotLine (lit ''+CREG: 0,1''), GotLine (lit ''OK''), WakeUp] at_demo =
    Some (0, Some \<lparr>success = 1, finalResponse = Some (lit ''OK''), p_intermediates = [lit ''+CREG: 0,1'']\<rparr>, ch2, []) \<and>
    sp_response ch2 = None \<and>
    at_trace ch2 = [AtSent (lit ''AT+CREG?''), AtSent [0x0D], Unsolicited (lit ''RING'') None]"
proof -
  let ?es = "[GotLine (lit ''RING''), WakeUp, GotLine (lit ''+CREG: 0,1'')]"
  let ?ch = "at_demo\<lparr>at_writes := [], at_trace := [AtSent (lit ''AT+CREG?''), AtSent [0x0D]]\<rparr>"
  have w: "writeline (lit ''AT+CREG?'') at_demo = Some (0, ?ch)"
    by (simp add: writeline_def write_with_def at_demo_def at_log_def lit_def)
  have kinds: "isFinalResponse (lit ''OK'')" "isFinalResponseSuccess (lit ''OK'')"
    "\<not> isFinalResponse (lit ''RING'')" "\<not> isFinalResponse (lit ''+CREG: 0,1'')"
    "strStartsWith (lit ''+CREG: 0,1'') (lit ''+CREG:'')" "\<not> strStartsWith (lit ''RING'') (lit ''+CREG:'')"
    by (simp_all add: isFinalResponse_def isFinalResponseSuccess_def isFinalResponseError_def
      s_finalResponsesSuccess_def s_finalResponsesError_def lit_def)
  show ?thesis
    using command_collects_response [of at_demo, OF _ w, where es = ?es and f = "lit ''OK''" and type = SINGLELINE
        and prefix = "Some (lit ''+CREG:'')" and ls = "[lit ''RING'', lit ''+CREG: 0,1'']" and fs = "[]" and msec = 0] kinds
    by (simp add: at_demo_def prefix_given_def collected_def belongs_def)
qed

text \<open>C17: as long as a command is sent only while no thread waits, whatever the reader and the time limits
  do in between, the response of a waiting thread is there: no wake-up follows a null pointer, at most one
  thread waits, and it waits exactly while a response is pending.\<close>

theorem one_command_at_a_time:
  assumes "one_at_a_time S"
  shows "at_act (Wake i) S \<noteq> None \<and>
    (if sp_response (at_chan S) = None then waiting_threads S = {} else \<exists>j. waiting_threads S = {j})"
  using one_at_a_time_inv [OF assms] wake_defined [OF one_at_a_time_inv [OF assms]] by (simp add: at_inv_def)

lemma one_command_at_a_time_witness:
  "\<exists>S. at_act (Send 0 (lit ''AT'') NO_RESULT None None 0 True) \<lparr>at_chan = at_demo, at_threads = (\<lambda>i. Idle), at_results = []\<rparr> = Some S \<and>
     at_act (Wake 0) S \<noteq> None \<and> sp_response (at_chan S) \<noteq> None \<and> (\<exists>j. waiting_threads S = {j})"
proof -
  let ?S0 = "\<lparr>at_chan = at_demo, at_threads = (\<lambda>i. Idle), at_results = []\<rparr>"
  obtain S where S: "at_act (Send 0 (lit ''AT'') NO_RESULT None None 0 True) ?S0 = Some S"
    and r: "sp_response (at_chan S) \<noteq> None"
    by (simp add: send_start_def writeline_def write_with_def at_demo_def at_log_def lit_def check_wait_def keep_waiting_def
      at_response_new_def)
  have "one_at_a_time S"
    by (rule one_at_a_time.step [OF one_at_a_time.start S]) (simp_all add: at_demo_def waiting_threads_def)
  from one_command_at_a_time [OF this] S r show ?thesis by auto
qed

text \<open>C37: a command sent while another thread waits is refused, but the refusal frees the response of that
  thread, which then follows a null pointer when it wakes up.\<close>

theorem second_command_breaks_first:
  assumes "at_threads S i = Waits t w" and "at_threads S j = Idle" and "sp_response (at_chan S) \<noteq> None"
  shows "\<exists>S'. at_act (Send j command type prefix pdu msec w') S = Some S' \<and>
    at_results S' = at_results S @ [(j, AT_ERROR_COMMAND_PENDING, None)] \<and> at_act (Wake i) S' = None"
  by (rule second_command [OF assms])

lemma second_command_breaks_first_witness:
  "at_run [Send 0 (lit ''AT'') NO_RESULT None None 0 True, Send 1 (lit ''AT'') NO_RESULT None None 0 True, Wake 0]
     \<lparr>at_chan = at_demo, at_threads = (\<lambda>i. Idle), at_results = []\<rparr> = None"
proof -
  let ?S0 = "\<lparr>at_chan = at_demo, at_threads = (\<lambda>i. Idle), at_results = []\<rparr>"
  obtain S where S: "at_act (Send 0 (lit ''AT'') NO_RESULT None None 0 True) ?S0 = Some S"
    and r: "sp_response (at_chan S) \<noteq> None" "at_threads S 0 = Waits False True" "at_threads S 1 = Idle"
    by (simp add: send_start_def writeline_def write_with_def at_demo_def at_log_def lit_def check_wait_def keep_waiting_def
      at_response_new_def)
  from second_command_breaks_first [OF r(2,3,1), of "lit ''AT''" NO_RESULT None None 0 True] S
  show ?thesis by auto
qed

section \<open>The reference vendor library\<close>

text \<open>C3: when the daemon calls the vendor library for a pending request and the library returns, the request has left
  the daemon's list and its block is freed, whatever the modem answers, even if the library completes it twice; only
  automatic network selection, while the radio is on, is never completed and waits for ever.\<close>

theorem request_leaves_list:
  assumes "ril_ok C s" and "awaiting C s t r" and "call_vendor C E now n d len t (s, S) = Some (s', S')"
  shows "if never_completed n S then awaiting C s' t r else ril_ok C s' \<and> requests s' t = None"
  using safeD [OF call_vendor_frees [OF assms(1,2)] assms(3)] by simp

lemma request_leaves_list_witness:
  "\<exists>s' S'. call_vendor (conf0 12) demo_env 0 29 DNull 0 8 (enqueue_request 8 (new_request 7 29 0) 0 (ril0 5 100), demo_vendor) =
     Some (s', S') \<and> requests s' 8 = None"
proof -
  let ?r = "new_request 7 29 0" and ?s = "enqueue_request 8 (new_request 7 29 0) 0 (ril0 5 100)"
  have r: "onRequest demo_env 29 DNull 0 8 (demo_vendor\<lparr>v_trace := []\<rparr>) =
      Some (demo_vendor\<lparr>v_trace := [VComplete 8 RIL_E_REQUEST_NOT_SUPPORTED RNull 0]\<rparr>)"
    by (simp add: onRequest_def request_switch_def requestSendUSSD_def complete_def vlog_def demo_vendor_def call_command_def)
  have aw: "awaiting (conf0 12) ?s 8 ?r" by (simp add: awaiting_def enqueue_request_def new_request_def)
  obtain s' where "RIL_onRequestComplete (conf0 12) 8 RIL_E_REQUEST_NOT_SUPPORTED RNull 0 ?s = Some s'"
    using complete_sends [OF aw, of RNull 0 0 "[]" RIL_E_REQUEST_NOT_SUPPORTED]
    by (auto simp: new_request_def payload_def response_message_def response_type_def can_send_def progress_def enqueue_request_def)
  then have c: "call_vendor (conf0 12) demo_env 0 29 DNull 0 8 (?s, demo_vendor) =
      Some (s', demo_vendor\<lparr>v_trace := v_trace demo_vendor @ [VComplete 8 RIL_E_REQUEST_NOT_SUPPORTED RNull 0]\<rparr>)"
    by (simp add: call_vendor_def r)
  have "ril_ok (conf0 12) ?s" by (auto simp: table_ok_def enqueue_request_def new_request_def)
  from request_leaves_list [OF this aw c] c show ?thesis by (simp add: never_completed_def)
qed

text \<open>C4: a client that asks for the subscriber's or the device's identity while the modem answers with a number gets
  that number: its command becomes a request, the library sends the AT command and reads the line, and the daemon
  writes one frame with the client's token, success and the number, and forgets the request.\<close>

theorem identity_request_served:
  assumes "identity_request n cmd" and "sState S = RADIO_STATE_ON" and "at_idle S"
    and "writeline (lit cmd) (v_chan S) = Some (0, ch')" and "v_waits S = [GotLine line, GotLine f, WakeUp] @ fs"
    and "isdigit line" and "isFinalResponseSuccess f" and "witem_ok (WStr (Some line))"
    and "env_ok (conf_env C)" and "request_ok (conf_env C) d" and "calloc_request C (requests s) = Some t" and "t \<noteq> 0"
    and "buffer = wire ([WInt32 n, WInt32 tok] @ request_items d) @ r" and "length buffer \<le> INT32_MAX"
    and "fst (snd (s_commands ! (unat n - 1))) = request_fn d"
    and "fdCommand s (socket_hook C 0) \<ge> 0" and "can_send s (HEADER_SIZE + length (identity_answer tok line))"
    and "length (identity_answer tok line) \<le> MAX_COMMAND_BYTES"
  shows "\<exists>s' S'. serve C E now buffer 0 (s, S) = Some (s', S') \<and> requests s' t = None \<and>
    trace s' = trace s @ Issued t (unat n) d (request_len (conf_env C) d) 0 #
      sent (fdCommand s (socket_hook C 0)) (identity_answer tok line)"
  by (rule identity_served [OF assms])

lemma identity_request_served_witness:
  "\<exists>s' S'. serve (conf0 12) demo_env 0 (wire [WInt32 38, WInt32 7]) 0
      (ril0 5 100, demo_vendor\<lparr>v_waits := [GotLine (lit ''35''), GotLine (lit ''OK''), WakeUp]\<rparr>) = Some (s', S') \<and>
    requests s' 8 = None \<and>
    trace s' = Issued 8 38 DNull 0 0 # sent 5 (wire [WInt32 0, WInt32 7, WInt32 0, WStr (Some (lit ''35''))])"
proof -
  let ?S = "demo_vendor\<lparr>v_waits := [GotLine (lit ''35''), GotLine (lit ''OK''), WakeUp]\<rparr>"
  have w: "writeline (lit ''AT+CGSN'') (v_chan ?S) =
      Some (0, at_demo\<lparr>at_writes := [], at_trace := [AtSent (lit ''AT+CGSN''), AtSent [0x0D]]\<rparr>)"
    using demo_writes [of "lit ''AT+CGSN''"] by (simp add: demo_vendor_def lit_def)
  have f: "from_bytes (lit ''35'') = Some [0x33, 0x35]"
    by (simp add: from_bytes_def utf16_encode1_def lit_def)
  have d: "isdigit (lit ''35'')" by (simp add: isdigit_def lit_def)
  have "identity_request 38 ''AT+CGSN''" by (simp add: identity_request_def)
  from identity_request_served [OF this _ _ w, of "lit ''35''" "lit ''OK''" "[]" "conf0 12" DNull "ril0 5 100" 8
      "wire [WInt32 38, WInt32 7]" 7 "[]" demo_env 0] d f
  show ?thesis
    by (simp add: demo_ready final_lines identity_rows identity_answer_def can_send_def progress_def
        enc_str_def enc_string8_def enc_string16_def padding_def)
qed

text \<open>C9: a request that the library finishes is completed exactly once with the daemon's token, except that signal strength
  may complete twice, automatic network selection never, and the acknowledgement of a short message while
  the radio is on twice, as a success and then as a failure.\<close>

theorem completed_as_often:
  assumes "onRequest E request d len t S = Some S'"
  shows "(request \<notin> {19, 37, 46} \<longrightarrow> tokens S' = tokens S @ [t]) \<and>
    (sState S = RADIO_STATE_ON \<and> request = 37 \<and> data_int d \<in> {Some 0, Some 1} \<longrightarrow> tokens S' = tokens S @ [t, t]) \<and>
    (sState S = RADIO_STATE_ON \<and> request = 46 \<longrightarrow> tokens S' = tokens S)"
  using safeD [OF onRequest_completes assms] assms
    safeD [OF requestSMSAcknowledge_twice, of d t S S'] safeD [OF just_send_quiet, of "''AT+COPS=0''" S S']
  by (auto simp: completions_def answers_def onRequest_def switch_special)

lemma completed_as_often_witness:
  "tokens (complete 9 RIL_E_RADIO_NOT_AVAILABLE RNull 0 (demo_vendor\<lparr>sState := RADIO_STATE_OFF\<rparr>)) = [9]"
proof -
  have "onRequest demo_env 9 DNull 0 9 (demo_vendor\<lparr>sState := RADIO_STATE_OFF\<rparr>) =
      Some (complete 9 RIL_E_RADIO_NOT_AVAILABLE RNull 0 (demo_vendor\<lparr>sState := RADIO_STATE_OFF\<rparr>))"
    by (simp add: onRequest_def)
  from completed_as_often [OF this] show ?thesis by (simp add: demo_vendor_def tokens_def)
qed

text \<open>C20: from a start in which the radio is off, unavailable or on, whatever is requested and whatever the modem sends, the
  radio never is in another state; so the polling of the SIM card, which only one of those others starts, never does
  anything, and the commands for a SIM card that is ready are never sent.\<close>

theorem sim_never_polled:
  assumes "vendor_reachable E S\<^sub>0 S" and "vinv S\<^sub>0"
  shows "sState S \<in> {RADIO_STATE_OFF, RADIO_STATE_UNAVAILABLE, RADIO_STATE_ON} \<and> pollSIMState S = Some S \<and>
    VTimed PollSIMState \<notin> set (v_trace S)"
  using vendor_reachable_inv [OF assms] poll_nothing by (simp add: vinv_def)

lemma sim_never_polled_witness: "pollSIMState (main_open 7 demo_vendor) = Some (main_open 7 demo_vendor)"
proof -
  have "vinv demo_vendor" by (simp add: demo_vendor_def vinv_def)
  with sim_never_polled [OF ReachStep [OF ReachStart StepOpen], of demo_vendor 7] show ?thesis by simp
qed

text \<open>C21: once the channel to the modem is closed it stays closed, whatever happens, until the device is opened again; until
  then every request is refused without a command, and the card's status is reported as not ready.\<close>

theorem closed_until_reopened:
  assumes "vendor_step E S S'" and "vinv S" and "s_closed S > 0"
  shows "(\<exists>fd. S' = main_open fd S) \<or> s_closed S' > 0 \<and> (\<forall>request d len t. onRequest E request d len t S' = Some
    (if request = 1 then complete t RIL_E_SUCCESS (RCardV6 (card_status SIM_NOT_READY)) 408 S'
     else complete t RIL_E_RADIO_NOT_AVAILABLE RNull 0 S'))"
  using step_inv [OF assms(1)] assms(2,3) closed_refuses [of S'] by blast

lemma closed_until_reopened_witness:
  "onRequest demo_env 9 DNull 0 4 (sendCallStateChanged (demo_vendor\<lparr>s_closed := 1, sState := RADIO_STATE_UNAVAILABLE\<rparr>)) =
    Some (complete 4 RIL_E_RADIO_NOT_AVAILABLE RNull 0
      (sendCallStateChanged (demo_vendor\<lparr>s_closed := 1, sState := RADIO_STATE_UNAVAILABLE\<rparr>)))"
proof -
  let ?S = "demo_vendor\<lparr>s_closed := 1, sState := RADIO_STATE_UNAVAILABLE\<rparr>"
  have "run_callback demo_env SendCallStateChanged (?S\<lparr>v_waits := []\<rparr>) = Some (sendCallStateChanged ?S)"
    by (simp add: demo_vendor_def)
  from closed_until_reopened [OF StepCallback [OF this]] show ?thesis
    by (auto simp: vinv_def demo_vendor_def main_open_def sendCallStateChanged_def unsolicited_event_def vlog_def)
qed

text \<open>C19: asked for the registration, the library makes of the modem's line: with area and cell, in the solicited form with or
  without a technology and in the unsolicited one, a success with the state in decimal, and on a modem of the 3GPP area and cell in
  hexadecimal and the technology in decimal, 0 where the solicited form has none, while on a modem of the 3GPP2 constants
  take their places; without area and cell, the answer of a modem that is not registered, a write past the end of an array; with
  six or more fields a failure. Success without a line is a failure, and an error without a line follows a null pointer.\<close>

theorem registration_outcomes:
  assumes "registration_request n cmd name" and "at_idle S" and "writeline (lit cmd) (v_chan S) = Some (0, ch')"
    and "techFromModemType (currentTech (sMdmInfo S)) = Some type"
    and "v_waits S = map GotLine ls @ [GotLine f, WakeUp] @ es" and "isFinalResponse f"
  shows "(ls = [creg_line k (lit name) fs] \<and>
      (fs, x) \<in> {([AtInt stat, AtHex lac, AtHex ci], None), ([AtInt m, AtInt stat, AtHex lac, AtHex ci], Some (lit ''0'')),
        ([AtInt m, AtInt stat, AtHex lac, AtHex ci, AtHex act], Some (show_int act))} \<longrightarrow>
      (\<exists>ch2 j ss. requestRegistrationState n t S = Some (complete t RIL_E_SUCCESS (RStrings ss) (8 * length ss)
          (S\<lparr>v_chan := ch2, v_waits := es, v_seen := j, s_lac := lac, s_cid := ci\<rparr>)) \<and>
        ss = (if is3gpp2 type
          then [Some (show_int stat), None, None] @
            (if n = 20 then map (\<lambda>s. Some (lit s)) [''8'', ''1'', ''123'', ''222'', ''0'', ''4'', ''65535'', ''0'', ''1'', ''0'', ''0'', ''0'']
             else [Some (lit ''8''), None, None])
          else [Some (show_int stat), Some (show_hex lac), Some (show_hex ci), x] @ replicate (if n = 20 then 11 else 2) None))) \<and>
    (ls = [creg_line k (lit name) fs] \<and> fs \<in> {[AtInt stat], [AtInt m, AtInt stat]} \<longrightarrow> requestRegistrationState n t S = None) \<and>
    (ls = [creg_line k (lit name) fs] \<and> list_all (\<lambda>f. \<exists>w. f = AtInt w \<or> f = AtHex w) fs \<and> 6 \<le> length fs \<or>
        ls = [] \<and> isFinalResponseSuccess f \<longrightarrow>
      (\<exists>ch2 j. requestRegistrationState n t S = Some (fail_void t (S\<lparr>v_chan := ch2, v_waits := es, v_seen := j\<rparr>)))) \<and>
    (ls = [] \<and> \<not> isFinalResponseSuccess f \<longrightarrow> requestRegistrationState n t S = None)"
  (is "?read \<and> ?short \<and> ?fails \<and> ?error")
proof (intro conjI)
  note name = registration_line(3) [OF assms(1)]
  have n: "n = 20 \<or> n = 21" using assms(1) by (auto simp: registration_request_def)
  show ?read
  proof (intro impI, elim conjE)
    assume ls: "ls = [creg_line k (lit name) fs]" and
      fs: "(fs, x) \<in> {([AtInt stat, AtHex lac, AtHex ci], None), ([AtInt m, AtInt stat, AtHex lac, AtHex ci], Some (lit ''0'')),
        ([AtInt m, AtInt stat, AtHex lac, AtHex ci, AtHex act], Some (show_int act))}"
    from fs obtain vs where vs: "registration_values (creg_line k (lit name) fs) = Some (Some vs)"
      "vs ! 0 = stat" "vs ! 1 = lac" "vs ! 2 = ci" "(if length vs > 3 then Some (show_int (vs ! 3)) else None) = x"
      using registered_line [OF name, of k] show_int_zero by auto
    from registration_registered [OF assms(1-3) _ assms(6) vs(1) assms(4), of es t] assms(5) ls obtain ch2 j where
      "requestRegistrationState n t S = Some (complete t RIL_E_SUCCESS
        (RStrings (registration_strings n type (length vs) vs)) (8 * length (registration_strings n type (length vs) vs))
        (S\<lparr>v_chan := ch2, v_waits := es, v_seen := j, s_lac := lac, s_cid := ci\<rparr>))" using vs(3,4) by auto
    then show "\<exists>ch2 j ss. requestRegistrationState n t S = Some (complete t RIL_E_SUCCESS (RStrings ss) (8 * length ss)
          (S\<lparr>v_chan := ch2, v_waits := es, v_seen := j, s_lac := lac, s_cid := ci\<rparr>)) \<and>
        ss = (if is3gpp2 type
          then [Some (show_int stat), None, None] @
            (if n = 20 then map (\<lambda>s. Some (lit s)) [''8'', ''1'', ''123'', ''222'', ''0'', ''4'', ''65535'', ''0'', ''1'', ''0'', ''0'', ''0'']
             else [Some (lit ''8''), None, None])
          else [Some (show_int stat), Some (show_hex lac), Some (show_hex ci), x] @ replicate (if n = 20 then 11 else 2) None)"
      using registration_strings_eq [OF n, of type vs] unfolding vs(2-5) by blast
  qed
  show ?short using registration_other(1) [OF assms(1-3)] assms(5,6) by auto
  show ?fails using registration_other(2,3) [OF assms(1-3)] assms(5,6) by auto
  show ?error using registration_other(4) [OF assms(1-3)] assms(5,6) by auto
qed

lemma registration_outcomes_witness:
  "(\<exists>S. requestRegistrationState 20 3 (demo_vendor\<lparr>v_waits := [GotLine (lit ''+CREG: 2, 1, 1a2b, c3d''), GotLine (lit ''OK''), WakeUp]\<rparr>) =
      Some S \<and> v_trace S = [VComplete 3 RIL_E_SUCCESS
        (RStrings ([Some (lit ''1''), Some (lit ''1a2b''), Some (lit ''c3d''), Some (lit ''0'')] @ replicate 11 None)) 120]) \<and>
    requestRegistrationState 20 3 (demo_vendor\<lparr>v_waits := [GotLine (lit ''+CREG: 2, 0''), GotLine (lit ''OK''), WakeUp]\<rparr>) = None \<and>
    requestRegistrationState 20 3 (demo_vendor\<lparr>v_waits := [GotLine (lit ''ERROR''), WakeUp]\<rparr>) = None"
proof -
  have w: "writeline (lit ''AT+CREG?'') (v_chan (demo_vendor\<lparr>v_waits := es\<rparr>)) =
      Some (0, at_demo\<lparr>at_writes := [], at_trace := [AtSent (lit ''AT+CREG?''), AtSent [0x0D]]\<rparr>)" for es
    using demo_writes [of "lit ''AT+CREG?''"] by (simp add: demo_vendor_def lit_def)
  have r: "registration_request 20 ''AT+CREG?'' ''+CREG''" "techFromModemType (currentTech (sMdmInfo (demo_vendor\<lparr>v_waits := es\<rparr>))) = Some 1"
    for es by (simp_all add: registration_request_def demo_vendor_def techFromModemType_def tech_bit_def)
  note out = registration_outcomes [OF r(1) demo_ready(1) w r(2), of _ _ _ "[]" "Suc 0"]
  have printed: "show_int 0 = lit ''0''" "show_int 1 = lit ''1''" "show_int 2 = lit ''2''" "show_hex 0x1A2B = lit ''1a2b''" "show_hex 0xC3D = lit ''c3d''"
    by (simp_all add: show_int_def show_hex_def show_digits_def digits.simps digit_char_def lit_def)
  have lines: "creg_line (Suc 0) (lit ''+CREG'') [AtInt 2, AtInt 1, AtHex 0x1A2B, AtHex 0xC3D] = lit ''+CREG: 2, 1, 1a2b, c3d''"
    "creg_line (Suc 0) (lit ''+CREG'') [AtInt 2, AtInt 0] = lit ''+CREG: 2, 0''"
    by (simp_all add: creg_line_def render_field_def printed) (simp_all add: lit_def)
  have "\<exists>S. requestRegistrationState 20 3 (demo_vendor\<lparr>v_waits := [GotLine (lit ''+CREG: 2, 1, 1a2b, c3d''), GotLine (lit ''OK''), WakeUp]\<rparr>) =
      Some S \<and> v_trace S = [VComplete 3 RIL_E_SUCCESS
        (RStrings ([Some (lit ''1''), Some (lit ''1a2b''), Some (lit ''c3d''), Some (lit ''0'')] @ replicate 11 None)) 120]"
    using out [of "[GotLine (lit ''+CREG: 2, 1, 1a2b, c3d''), GotLine (lit ''OK''), WakeUp]" "[lit ''+CREG: 2, 1, 1a2b, c3d'']" "lit ''OK''"
        "[AtInt 2, AtInt 1, AtHex 0x1A2B, AtHex 0xC3D]" "Some (lit ''0'')" 1 "0x1A2B" "0xC3D" 2 0 3]
    by (auto simp: lines printed final_lines is3gpp2_def complete_def vlog_def demo_vendor_def)
  moreover have "requestRegistrationState 20 3 (demo_vendor\<lparr>v_waits := [GotLine (lit ''+CREG: 2, 0''), GotLine (lit ''OK''), WakeUp]\<rparr>) = None"
    using out [of "[GotLine (lit ''+CREG: 2, 0''), GotLine (lit ''OK''), WakeUp]" "[lit ''+CREG: 2, 0'']" "lit ''OK''"
        "[AtInt 2, AtInt 0]" None 0 0 0 2 0 3] by (simp add: lines final_lines)
  moreover have "requestRegistrationState 20 3 (demo_vendor\<lparr>v_waits := [GotLine (lit ''ERROR''), WakeUp]\<rparr>) = None"
    using out [of "[GotLine (lit ''ERROR''), WakeUp]" "[]" "lit ''ERROR''" "[]" None 0 0 0 0 0 3] by (simp add: final_lines)
  ultimately show ?thesis by blast
qed

text \<open>C18: the calls that a modem lists, one line each with index, direction, state, mode, conference, number and type, come
  out as these calls in order, numbers that do not look like one left out; the list is asked for again later exactly
  when one of the calls is neither active nor held.\<close>

theorem calls_read_back:
  assumes "at_idle S" and "writeline (lit ''AT+CLCC'') (v_chan S) = Some (0, ch')" and "list_all (clcc_ok q) cs"
    and "v_waits S = map GotLine (map (clcc_line n q) cs) @ GotLine f # WakeUp # fs" and "isFinalResponseSuccess f"
  shows "\<exists>ch2 k. requestGetCurrentCalls t S =
    (let S' = complete t RIL_E_SUCCESS (RCalls (map clcc_call cs)) (length cs * 8) (S\<lparr>v_chan := ch2, v_waits := fs, v_seen := k\<rparr>) in
     Some (if list_ex (\<lambda>c. clcc_state c \<noteq> 0 \<and> clcc_state c \<noteq> 1) cs then vlog (VTimed SendCallStateChanged) S' else S'))"
  by (rule calls_reported [OF assms])

lemma calls_read_back_witness:
  "\<exists>S. requestGetCurrentCalls 6 (demo_vendor\<lparr>v_waits := [GotLine (clcc_line 1 (\<lambda>s. True)
      \<lparr>clcc_index = 1, clcc_mt = True, clcc_state = 4, clcc_mode = 0, clcc_mpty = False, clcc_number = lit ''+49'', clcc_toa = 145\<rparr>),
      GotLine (lit ''OK''), WakeUp]\<rparr>) = Some S \<and>
    v_trace S = [VComplete 6 RIL_E_SUCCESS (RCalls [zero_call\<lparr>call_index := 1, isMT := 1, call_state := 4, isVoice := 1,
      call_number := Some (lit ''+49''), call_toa := 145\<rparr>]) 8, VTimed SendCallStateChanged]"
proof -
  let ?c = "\<lparr>clcc_index = 1, clcc_mt = True, clcc_state = 4, clcc_mode = 0, clcc_mpty = False, clcc_number = lit ''+49'', clcc_toa = 145\<rparr>"
  let ?S = "demo_vendor\<lparr>v_waits := [GotLine (clcc_line 1 (\<lambda>s. True) ?c), GotLine (lit ''OK''), WakeUp]\<rparr>"
  have w: "writeline (lit ''AT+CLCC'') (v_chan ?S) =
      Some (0, at_demo\<lparr>at_writes := [], at_trace := [AtSent (lit ''AT+CLCC''), AtSent [0x0D]]\<rparr>)"
    using demo_writes [of "lit ''AT+CLCC''"] by (simp add: demo_vendor_def lit_def)
  have c: "clcc_ok (\<lambda>s. True) ?c" "v_waits ?S = map GotLine (map (clcc_line 1 (\<lambda>s. True)) [?c]) @ GotLine (lit ''OK'') # WakeUp # []"
    "clcc_call ?c = zero_call\<lparr>call_index := 1, isMT := 1, call_state := 4, isVoice := 1, call_number := Some (lit ''+49''),
      call_toa := 145\<rparr>"
    by (simp_all add: clcc_ok_def clcc_call_def lit_def zero_call_def)
  with calls_read_back [OF demo_ready(1) w _ c(2) final_lines(2), of 6]
  show ?thesis by (auto simp: Let_def vlog_def complete_def demo_vendor_def)
qed

text \<open>C31: the daemon tells the version of a list of data calls from its size, which is ambiguous: the library's list reaches the
  client in its layout only if the number of calls is a multiple neither of seven nor of eight, otherwise its
  entries are taken for shorter ones. The signal strength the library reports has a size the daemon always refuses.\<close>

theorem answers_of_other_versions:
  assumes "5 \<le> callbacks_version E" and "callbacks_version E \<le> 12"
  shows "response_items F_responseDataCallList E (RDataCallV11 calls) (length calls * 72) =
      (if calls = [] then Some (0, [WInt32 6, WInt32 0])
       else if 7 dvd length calls \<or> 8 dvd length calls then None
       else Some (0, WInt32 11 # WInt32 (of_nat (length calls)) # concat (map data_call_items calls))) \<and>
    response_items F_responseRilSignalStrength E (RInts xs) 48 \<in> {invalid_response, None}"
  using data_call_sizes [OF assms] signal_strength_refused by blast

lemma answers_of_other_versions_witness:
  "response_items F_responseDataCallList (env0 12 RADIO_STATE_ON) (RDataCallV11 (replicate 7 (new_data_call 1 1))) (7 * 72) = None"
  using answers_of_other_versions [of "env0 12 RADIO_STATE_ON" "replicate 7 (new_data_call 1 1)"] by simp

text \<open>C32: a modem that does not answer the query for its modes is taken for a CDMA or a GSM one, but the technology is then
  stored as a mask where the number of a bit is meant: a CDMA modem counts as LTE and a GSM modem as HSPA, and the
  requests for CDMA modems are refused on both.\<close>

theorem single_mode_mistaken:
  assumes "is_multimode_modem S = Some (False, S1)" and "probeForModemMode S = Some S2"
  shows "(supportedTechs (sMdmInfo S2), techFromModemType (currentTech (sMdmInfo S2))) \<in>
      {(MDM_CDMA OR MDM_EVDO, Some 14), (MDM_GSM OR MDM_WCDMA OR MDM_LTE, Some 11)} \<and>
    (\<forall>request. request \<in> set cdma_requests \<longrightarrow>
      request_switch E request d len t S2 = Some (complete t RIL_E_REQUEST_NOT_SUPPORTED RNull 0 S2))"
  using probe_single_mode [OF assms] cdma_refused [of S2 _ E d len t] by (auto simp: single_mode_tech)

lemma single_mode_mistaken_witness:
  "request_switch demo_env 98 DNull 0 4 (set_modem 19 1 (demo_vendor\<lparr>v_chan := at_demo\<lparr>s_fd := - 1\<rparr>\<rparr>)) =
    Some (complete 4 RIL_E_REQUEST_NOT_SUPPORTED RNull 0 (set_modem 19 1 (demo_vendor\<lparr>v_chan := at_demo\<lparr>s_fd := - 1\<rparr>\<rparr>)))"
proof -
  let ?S = "demo_vendor\<lparr>v_chan := at_demo\<lparr>s_fd := - 1\<rparr>\<rparr>"
  have send: "send_singleline cmd p True ?S = Some (AT_ERROR_CHANNEL_CLOSED, None, ?S)" for cmd p
    by (simp add: send_singleline_def with_channel_def at_send_command_singleline_def at_send_command_full_def
        at_send_command_full_nolock_def send_start_def writeline_def write_with_def need_intermediate_def after_wait_def
        demo_vendor_def at_demo_def clearPendingCommand_def)
  have "is_multimode_modem ?S = Some (False, ?S)"
    by (simp add: is_multimode_modem_def query_ctec_def send refused_def)
  moreover have "?S\<lparr>sMdmInfo := (sMdmInfo ?S)\<lparr>isMultimode := 0\<rparr>\<rparr> = ?S" by (simp add: demo_vendor_def)
  ultimately have "probeForModemMode ?S = Some (set_modem 19 1 ?S)"
    by (simp add: probeForModemMode_def Let_def send refused_def)
  moreover note \<open>is_multimode_modem ?S = Some (False, ?S)\<close>
  ultimately have "\<forall>request. request \<in> set cdma_requests \<longrightarrow>
      request_switch demo_env request DNull 0 4 (set_modem 19 1 ?S) =
        Some (complete 4 RIL_E_REQUEST_NOT_SUPPORTED RNull 0 (set_modem 19 1 ?S))"
    using single_mode_mistaken [of ?S ?S "set_modem 19 1 ?S" demo_env DNull 0 4] by blast
  then show ?thesis by (simp add: cdma_requests_def)
qed

section \<open>The GeoNetworking router\<close>

text \<open>C11: a packet for a single hop that one router transmits is its header and the payload behind the family byte,
  handed once to the callback; a router without entries that receives it accepts it and gets out of it the
  sender's upper protocol, traffic class and length, the payload where the headers end, and an entry of
  the sender as a neighbor with the position the sender had.\<close>

theorem shb_roundtrip:
  assumes "shb_ok data R" and "\<not> no_neighbor data R" and "41 \<le> ab_data bp" and "n + 41 < 2 ^ 16"
    and "shb_sent m E b bp n data R = Some pkt"
    and "TableEntries (LocTable R2) = []" and "in_int32 (NeighborCount R2 + 1)"
  shows "\<exists>m' bp' m2' data' R2'.
    Transmit m E b bp n data addr True R = Some (0, m', bp', gn_log (Transmitted pkt) R) \<and>
    Receive (m2(c \<mapsto> tl pkt)) E2 (Some (c, 0)) (n + 40) data2 R2 = Some (Some 0, m2', data', R2') \<and>
    upper_prot data' = upper_prot data \<and> pkt_type data' = pkt_type data \<and> is_shb data' \<and>
    gd_payload_len data' = gd_payload_len data \<and> gd_tc data' = gd_tc data \<and>
    load m2' (c, 40) n = load m (b, nat (ab_data bp)) n \<and> NeighborCount R2' = NeighborCount R2 + 1 \<and>
    TableEntries (LocTable R2') = [((c, 14), shb_neighbor (InitSourceLPV E R))]"
proof -
  obtain h payload where h: "shb_header E data R = Some h" "pkt = 3 # h @ payload"
    "load m (b, nat (ab_data bp)) n = Some payload"
    using assms(5) by (auto simp: shb_sent_def split: bind_splits)
  have n: "length payload = n" by (rule load_length [OF h(3)])
  have pkt: "load (m2(c \<mapsto> tl pkt)) (c, 0) (40 + n) = Some (h @ payload)"
    using shb_header_bytes(1) [OF assms(1) h(1)] n by (simp add: h(2) load_def)
  have "pkt_type data = GN_PCCKET_TYPE_TSB" using assms(1) by (simp add: shb_ok_def)
  with Transmit_sent [OF assms(1-5), of addr]
    Receive_shb [OF assms(1) h(1) pkt n assms(6,7), of E2 "n + 40" data2] h(3)
  show ?thesis by (fastforce simp: ptr_add_def)
qed

lemma shb_roundtrip_witness:
  "\<exists>m' bp' m2' data' R2' pkt.
    Transmit gn_mem0 gn_env0 7 gn_buf0 3 gn_data0 (0, 0) True gn_router0 = Some (0, m', bp', gn_log (Transmitted pkt) gn_router0) \<and>
    Receive [4 \<mapsto> tl pkt] gn_env0 (Some (4, 0)) 43 gn_data0 gn_router0 = Some (Some 0, m2', data', R2') \<and>
    load m2' (4, 40) 3 = Some [8, 9, 10] \<and>
    TableEntries (LocTable R2') = [((4, 14), shb_neighbor (InitSourceLPV gn_env0 gn_router0))]"
proof -
  have ok: "shb_ok gn_data0 gn_router0" "\<not> no_neighbor gn_data0 gn_router0" "41 \<le> ab_data gn_buf0"
    and count: "in_int32 (NeighborCount gn_router0 + 1)" by code_simp+
  have short: "3 + 41 < (2 :: nat) ^ 16" by simp
  have "shb_sent gn_mem0 gn_env0 7 gn_buf0 3 gn_data0 gn_router0 \<noteq> None"
    and payload: "load gn_mem0 (7, nat (ab_data gn_buf0)) 3 = Some [8, 9, 10]" by code_simp+
  then obtain pkt where pkt: "shb_sent gn_mem0 gn_env0 7 gn_buf0 3 gn_data0 gn_router0 = Some pkt" by blast
  have empty: "TableEntries (LocTable gn_router0) = []" by (simp add: gn_router0_def new_router_def)
  from shb_roundtrip [OF ok short pkt empty count, of "(0, 0)" Map.empty 4 gn_env0 gn_data0] payload
  show ?thesis by (simp only: Nat.add_0_right) fastforce
qed

text \<open>C12: of the packets of one station exactly those are duplicates whose sequence number is one of the last
  twenty that were new, and never more than twenty numbers are kept.\<close>

theorem duplicates_last_twenty:
  "fst (dup_run sns (entry_of_lpv v)) = fst (new_numbers [] sns) \<and> length (DPL (snd (dup_run sns (entry_of_lpv v)))) \<le> 20"
proof -
  note run = dup_run_new_numbers [of "entry_of_lpv v" "[]" sns]
  have "map fst (DPL (entry_of_lpv v)) = last_n 20 []" by (simp add: entry_of_lpv_def last_n_def)
  from run [OF this] have "fst (dup_run sns (entry_of_lpv v)) = fst (new_numbers [] sns)"
    and "map fst (DPL (snd (dup_run sns (entry_of_lpv v)))) = last_n 20 (snd (new_numbers [] sns))" by simp_all
  from this(1) arg_cong [OF this(2), of length] show ?thesis by (simp add: last_n_def)
qed

text \<open>C33: the table refers to the address of a station inside the buffer the packet came in. Packets for several
  hops received one after the other in the same buffer are taken for packets of one station, whatever their
  sources: after the first, whose number is not kept, a packet is refused when its number is one of
  the last twenty that were new, of any station.\<close>

theorem one_buffer_one_station:
  assumes "list_all2 (\<lambda>m Y. tsb_packet m p Y \<and> alive E (LifeTime (LocTable R)) Y) (m # ms) (Y # Ys)"
    and "TableEntries (LocTable R) = []"
  shows "receive_run E p n data (m # ms) R = Some (Some 0 # map answer (fst (new_numbers [] (map packet_sn Ys))))"
  by (rule receive_run_all [OF assms])

lemma one_buffer_one_station_witness:
  "receive_run gn_env0 (0, 0) 40 gn_data0
     [[0 \<mapsto> tsb_bytes 1 5 7], [0 \<mapsto> tsb_bytes 1 5 7], [0 \<mapsto> tsb_bytes 1 6 7]] gn_router0 = Some [Some 0, Some 0, Some (- 1)]"
proof -
  let ?l = "LifeTime (LocTable gn_router0)"
  have "tsb_packet [0 \<mapsto> tsb_bytes 1 5 7] (0, 0) (tsb_bytes 1 5 7)" "tsb_packet [0 \<mapsto> tsb_bytes 1 6 7] (0, 0) (tsb_bytes 1 6 7)"
    "alive gn_env0 ?l (tsb_bytes 1 5 7)" "alive gn_env0 ?l (tsb_bytes 1 6 7)"
    "map answer (fst (new_numbers [] (map packet_sn [tsb_bytes 1 5 7, tsb_bytes 1 6 7]))) = [Some 0, Some (- 1)]"
    by code_simp+
  moreover have "TableEntries (LocTable gn_router0) = []" by (simp add: gn_router0_def new_router_def)
  ultimately show ?thesis
    using one_buffer_one_station [of "(0, 0)" gn_env0 gn_router0 "[0 \<mapsto> tsb_bytes 1 5 7]"
        "[[0 \<mapsto> tsb_bytes 1 5 7], [0 \<mapsto> tsb_bytes 1 6 7]]" "tsb_bytes 1 5 7" "[tsb_bytes 1 5 7, tsb_bytes 1 6 7]" 40 gn_data0]
    by (simp del: new_numbers.simps receive_run.simps)
qed

text \<open>C34: a well-formed packet with a hop left after this one, received while the table is empty, leaves defined
  behaviour: its copy is written past a block of one byte.\<close>

theorem hops_left_overflow:
  assumes "load m p n = Some Y" and "40 \<le> n" and "basic_header_ok (Y ! 0)" and "common_header_ok (Y ! 4) (Y ! 5)"
    and "drop_bit 4 (Y ! 5) = 5" and "Y ! 5 AND 0xF = 1" and "1 < Y ! 3" and "Y ! 3 \<le> Y ! 10"
    and "TableEntries (LocTable R) = []" and "1 < BufLen"
  shows "Receive m E (Some p) BufLen data R = None"
  by (rule receive_hops [OF assms])

lemma hops_left_overflow_witness:
  "Receive [0 \<mapsto> tsb_bytes 3 5 7] gn_env0 (Some (0, 0)) 40 gn_data0 gn_router0 = None"
proof (rule hops_left_overflow [of _ _ 40 "tsb_bytes 3 5 7"])
  show "load [0 \<mapsto> tsb_bytes 3 5 7] (0, 0) 40 = Some (tsb_bytes 3 5 7)" "TableEntries (LocTable gn_router0) = []"
    "basic_header_ok (tsb_bytes 3 5 7 ! 0)" "common_header_ok (tsb_bytes 3 5 7 ! 4) (tsb_bytes 3 5 7 ! 5)"
    "drop_bit 4 (tsb_bytes 3 5 7 ! 5) = 5" "tsb_bytes 3 5 7 ! 5 AND 0xF = 1" "1 < tsb_bytes 3 5 7 ! 3"
    "tsb_bytes 3 5 7 ! 3 \<le> tsb_bytes 3 5 7 ! 10" by code_simp+
qed simp_all

text \<open>C35: flushing the queue of a station whose first packet is not too old never ends: every pass hands the same
  packet to the callback again and leaves the queue as it was.\<close>

theorem flush_never_ends:
  assumes "load m addr 6 = Some k" and "map_find m k (UcMapQueue R) = Some (Some i)" and "snd (UcMapQueue R ! i) = e # q"
    and "too_old now e = Some False" and "qe_txcb e" and "qe_BufLen e mod 2 ^ 16 \<le> length (qe_Buffer e)"
  shows "FlushQueueSync m now 4 (Some addr) purge R = None \<and>
    (\<forall>j. flush_queue False now (e # q) R =
       flush_queue False now (e # q) (passes j (take (qe_BufLen e mod 2 ^ 16) (qe_Buffer e)) R))"
proof (intro conjI allI)
  show "FlushQueueSync m now 4 (Some addr) purge R = None"
    using assms(1-3) flush_queue_stuck [of False now e q R, OF _ assms(4)]
    by (simp add: FlushQueueSync_def flush_map_def has_queue_def)
qed (rule flush_queue_passes [OF assms(4-6)])

lemma flush_never_ends_witness:
  "FlushQueueSync [0 \<mapsto> replicate 6 1] 0 4 (Some (0, 0)) True
    (gn_router0\<lparr>UcMapQueue := [((0, 0), [\<lparr>qe_Ts = 0, qe_Buffer = [3, 17, 0], qe_BufLen = 3, qe_txcb = True\<rparr>])]\<rparr>) = None"
proof -
  let ?e = "\<lparr>qe_Ts = 0, qe_Buffer = [3, 17, 0], qe_BufLen = 3, qe_txcb = True\<rparr>"
  let ?R = "gn_router0\<lparr>UcMapQueue := [((0, 0), [?e])]\<rparr>"
  have key: "load [0 \<mapsto> replicate 6 1] (0, 0) 6 = Some (replicate 6 1)" by (simp add: load_def)
  have find: "map_find [0 \<mapsto> replicate 6 1] (replicate 6 1) (UcMapQueue ?R) = Some (Some 0)"
    using key by (simp add: map_find_def map_keys_def)
  have "too_old 0 ?e = Some False" by code_simp
  from flush_never_ends [OF key find _ this, of "[]" True] show ?thesis by simp
qed

text \<open>C36: a life time below a second is coded in steps of 50 milliseconds and one between one and ten seconds in whole
  seconds, rounded down; for exactly a second and from ten seconds on the field of the header is not set.\<close>

theorem life_time_steps:
  "(unat lt < 1000 \<longrightarrow> (\<exists>c. EncodeLifeTime lt = Some c \<and> unat (DecodeLifeTime c) = unat lt div 50 * 50)) \<and>
   (1000 < unat lt \<and> unat lt < 10000 \<longrightarrow>
     (\<exists>c. EncodeLifeTime lt = Some c \<and> unat (DecodeLifeTime c) = unat lt div 1000 * 1000)) \<and>
   (unat lt = 1000 \<or> 10000 \<le> unat lt \<longrightarrow> EncodeLifeTime lt = None)"
  using life_time_coding [of lt] by blast

lemma life_time_steps_witness:
  "(\<exists>c. EncodeLifeTime 999 = Some c \<and> unat (DecodeLifeTime c) = 950) \<and>
   (\<exists>c. EncodeLifeTime 9999 = Some c \<and> unat (DecodeLifeTime c) = 9000) \<and> EncodeLifeTime 1000 = None"
  using life_time_steps [of 999] life_time_steps [of 9999] life_time_steps [of 1000] by simp

end
